(* ===== verification/Prelude.thy ===== *)
theory Prelude
  imports Main "HOL-Library.Word" "HOL-Library.While_Combinator"
begin

section \<open>Prelude: machine integers, byte strings and programs\<close>

text \<open>
  What every component of the kernel model shares: names for Rust's fixed-width integers,
  byte-level slices and little-endian encodings, and the small language of effects the
  stateful components are written in (\<open>prog\<close>: a state transformer that returns a value,
  returns an error, or never returns to its caller).
\<close>

subsection \<open>Machine integers\<close>

type_synonym u8 = "8 word"
type_synonym u16 = "16 word"
type_synonym u32 = "32 word"
type_synonym u64 = "64 word"
type_synonym usize = "64 word"
type_synonym bytes = "8 word list"

named_theorems layout "constants and layout arithmetic"
named_theorems wp "rules for total correctness of programs"
named_theorems len "lengths of encodings and slices"

text \<open>Ranges over numerals stay symbolic: the scans of the kernel run over thousands of entries.\<close>

declare upt_rec_numeral [simp del]

lemma unat_ucast_up:
  assumes "LENGTH('a) \<le> LENGTH('b)"
  shows "unat (ucast (x :: 'a::len word) :: 'b::len word) = unat x"
proof -
  have "unat x < 2 ^ LENGTH('a)" by (rule unsigned_less)
  also have "(2::nat) ^ LENGTH('a) \<le> 2 ^ LENGTH('b)" using assms by (rule power_increasing) simp
  finally show ?thesis by (simp add: unsigned_ucast_eq take_bit_nat_eq_self)
qed

subsection \<open>Slices\<close>

text \<open>
  \<open>subslice off n xs\<close> is \<open>&xs[off..off + n]\<close>, \<open>copy_into off ys xs\<close> is
  \<open>xs[off..off + ys.len()].copy_from_slice(ys)\<close>; both are used where the source's
  range is inside the subslice.
\<close>

definition subslice :: "nat \<Rightarrow> nat \<Rightarrow> 'a list \<Rightarrow> 'a list" where
  "subslice off n xs = take n (drop off xs)"

definition copy_into :: "nat \<Rightarrow> 'a list \<Rightarrow> 'a list \<Rightarrow> 'a list" where
  "copy_into off ys xs = take off xs @ ys @ drop (off + length ys) xs"

lemma length_subslice [simp, len]: "length (subslice off n xs) = min n (length xs - off)"
  by (simp add: subslice_def)

lemma length_copy_into [simp, len]:
  "off + length ys \<le> length xs \<Longrightarrow> length (copy_into off ys xs) = length xs"
  by (simp add: copy_into_def)

lemma subslice_copy_same [simp]:
  "off + length ys \<le> length xs \<Longrightarrow> subslice off (length ys) (copy_into off ys xs) = ys"
  by (simp add: subslice_def copy_into_def)

lemma nth_subslice: "i < n \<Longrightarrow> off + i < length xs \<Longrightarrow> subslice off n xs ! i = xs ! (off + i)"
  by (simp add: subslice_def)

lemma nth_copy_into:
  assumes "off + length ys \<le> length xs" and "i < length xs"
  shows "copy_into off ys xs ! i =
    (if i < off then xs ! i else if i < off + length ys then ys ! (i - off) else xs ! i)"
  using assms by (auto simp: copy_into_def nth_append min_def)

lemma subslice_copy_disjoint:
  assumes "off + length ys \<le> length xs" and "off' + n \<le> length xs"
    and "off' + n \<le> off \<or> off + length ys \<le> off'"
  shows "subslice off' n (copy_into off ys xs) = subslice off' n xs"
  by (rule nth_equalityI) (use assms in \<open>auto simp: nth_subslice nth_copy_into\<close>)

lemma subslice_full [simp]: "length xs = n \<Longrightarrow> subslice 0 n xs = xs"
  by (simp add: subslice_def)

subsection \<open>Little-endian encodings\<close>

text \<open>
  \<open>uN::to_le_bytes\<close> and \<open>uN::from_le_bytes\<close>: the least significant byte comes first.
\<close>

primrec le_of_nat :: "nat \<Rightarrow> nat \<Rightarrow> bytes" where
  "le_of_nat 0 n = []"
| "le_of_nat (Suc k) n = word_of_nat (n mod 256) # le_of_nat k (n div 256)"

primrec nat_of_le :: "bytes \<Rightarrow> nat" where
  "nat_of_le [] = 0"
| "nat_of_le (b # bs) = unat b + 256 * nat_of_le bs"

definition to_le :: "nat \<Rightarrow> 'a::len word \<Rightarrow> bytes" where
  "to_le k w = le_of_nat k (unat w)"

definition from_le :: "bytes \<Rightarrow> 'a::len word" where
  "from_le bs = word_of_nat (nat_of_le bs)"

lemma length_le_of_nat [simp, len]: "length (le_of_nat k n) = k"
  by (induction k arbitrary: n) simp_all

lemma length_to_le [simp, len]: "length (to_le k w) = k"
  by (simp add: to_le_def)

lemma unat_byte_of_nat [simp]: "unat (word_of_nat (n mod 256) :: u8) = n mod 256"
  by (simp add: unat_of_nat)

lemma nat_of_le_le_of_nat: "nat_of_le (le_of_nat k n) = n mod 256 ^ k"
proof (induction k arbitrary: n)
  case 0
  show ?case by simp
next
  case (Suc k)
  have "n mod 256 + 256 * (n div 256 mod 256 ^ k) = n mod (256 * 256 ^ k)"
    by (simp add: mod_mult2_eq)
  then show ?case by (simp add: Suc.IH)
qed

lemma nat_of_le_bound: "nat_of_le bs < 256 ^ length bs"
proof (induction bs)
  case Nil
  show ?case by simp
next
  case (Cons b bs)
  have "unat b < 256" using unsigned_less [of b, where ?'a = nat] by simp
  then have "unat b + 256 * nat_of_le bs < 256 + 256 * nat_of_le bs" by simp
  also have "\<dots> = 256 * Suc (nat_of_le bs)" by simp
  also have "\<dots> \<le> 256 * 256 ^ length bs" using Cons.IH by (intro mult_le_mono2) simp
  finally show ?case by simp
qed

lemma le_of_nat_nat_of_le: "length bs = k \<Longrightarrow> le_of_nat k (nat_of_le bs) = bs"
proof (induction bs arbitrary: k)
  case Nil
  then show ?case by simp
next
  case (Cons b bs)
  have b: "unat b < 256" using unsigned_less [of b, where ?'a = nat] by simp
  from b have "(unat b + 256 * nat_of_le bs) mod 256 = unat b" by simp
  moreover from b have "(unat b + 256 * nat_of_le bs) div 256 = nat_of_le bs" by simp
  ultimately show ?case using Cons by (cases k) auto
qed

lemma from_to_le:
  assumes "LENGTH('a) \<le> 8 * k"
  shows "from_le (to_le k (w :: 'a::len word)) = w"
proof -
  have "unat w < 2 ^ LENGTH('a)" by (rule unsigned_less)
  also have "(2::nat) ^ LENGTH('a) \<le> 2 ^ (8 * k)" using assms by (rule power_increasing) simp
  also have "(2::nat) ^ (8 * k) = 256 ^ k" by (simp add: power_mult)
  finally show ?thesis by (simp add: from_le_def to_le_def nat_of_le_le_of_nat)
qed

lemma to_from_le:
  assumes "length bs = k" and "LENGTH('a) = 8 * k"
  shows "to_le k (from_le bs :: 'a::len word) = bs"
proof -
  have "nat_of_le bs < 256 ^ k" using nat_of_le_bound [of bs] assms(1) by simp
  also have "(256::nat) ^ k = 2 ^ LENGTH('a)" by (simp add: assms(2) power_mult)
  finally have "unat (word_of_nat (nat_of_le bs) :: 'a word) = nat_of_le bs"
    by (simp add: unat_of_nat)
  then show ?thesis by (simp add: to_le_def from_le_def le_of_nat_nat_of_le assms(1))
qed

lemma from_to_le16 [simp]: "from_le (to_le 2 (w :: u16)) = w"
  by (rule from_to_le) simp

lemma from_to_le32 [simp]: "from_le (to_le 4 (w :: u32)) = w"
  by (rule from_to_le) simp

lemma from_to_le64 [simp]: "from_le (to_le 8 (w :: u64)) = w"
  by (rule from_to_le) simp

subsection \<open>Programs\<close>

text \<open>
  A stateful routine of the kernel takes the machine state and ends in one of three ways:
  it returns a value (\<open>Ok\<close>), it returns an error (\<open>Err\<close>, Rust's \<open>Result::Err\<close>), or control
  never comes back to the caller (\<open>Stop\<close>): the routine panicked (the kernel's panic handler
  is \<open>loop {}\<close>), halted, or waits for an event that never comes.
\<close>

datatype ('e, 'a, 's) res = Ok 'a 's | Err 'e 's | Stop

type_synonym ('s, 'e, 'a) prog = "'s \<Rightarrow> ('e, 'a, 's) res"

definition ret :: "'a \<Rightarrow> ('s, 'e, 'a) prog" where
  "ret x = (\<lambda>s. Ok x s)"

definition throw :: "'e \<Rightarrow> ('s, 'e, 'a) prog" where
  "throw e = (\<lambda>s. Err e s)"

definition stop :: "('s, 'e, 'a) prog" where
  "stop = (\<lambda>s. Stop)"

text \<open>\<open>bind p f\<close> is the \<open>?\<close> operator: run \<open>p\<close>, return its error, or go on with its value.\<close>

definition bind :: "('s, 'e, 'a) prog \<Rightarrow> ('a \<Rightarrow> ('s, 'e, 'b) prog) \<Rightarrow> ('s, 'e, 'b) prog" where
  "bind p f = (\<lambda>s. case p s of Ok x s' \<Rightarrow> f x s' | Err e s' \<Rightarrow> Err e s' | Stop \<Rightarrow> Stop)"

definition seq :: "('s, 'e, 'a) prog \<Rightarrow> ('s, 'e, 'b) prog \<Rightarrow> ('s, 'e, 'b) prog" where
  "seq p q = bind p (\<lambda>_. q)"

text \<open>\<open>for i in ..\<close> over a list of values, leaving at the first error.\<close>

primrec for_each :: "'a list \<Rightarrow> ('a \<Rightarrow> ('s, 'e, unit) prog) \<Rightarrow> ('s, 'e, unit) prog" where
  "for_each [] body = ret ()"
| "for_each (x # xs) body = seq (body x) (for_each xs body)"

text \<open>
  The same loop with \<open>return\<close> in its body: \<open>Some\<close> from the body leaves the loop with that
  value, and running off the end gives \<open>None\<close>.
\<close>

primrec for_first :: "'a list \<Rightarrow> ('a \<Rightarrow> ('s, 'e, 'b option) prog) \<Rightarrow> ('s, 'e, 'b option) prog"
where
  "for_first [] body = ret None"
| "for_first (x # xs) body =
     bind (body x) (\<lambda>r. case r of None \<Rightarrow> for_first xs body | Some y \<Rightarrow> ret (Some y))"

text \<open>
  \<open>loop { .. }\<close> with the loop-carried variables \<open>c\<close>: the body gives \<open>Inl\<close> the variables of the
  next round or \<open>Inr\<close> the value of the \<open>break\<close>.  A loop that goes on for ever is \<open>Stop\<close>.
\<close>

definition loop_goes_on :: "('e, 'c + 'a, 's) res \<Rightarrow> bool" where
  "loop_goes_on r = (case r of Ok (Inl _) _ \<Rightarrow> True | _ \<Rightarrow> False)"

definition loop_round :: "('c \<Rightarrow> ('s, 'e, 'c + 'a) prog) \<Rightarrow> ('e, 'c + 'a, 's) res \<Rightarrow> ('e, 'c + 'a, 's) res"
where
  "loop_round body r = (case r of Ok (Inl c) s \<Rightarrow> body c s | _ \<Rightarrow> r)"

definition loop_result :: "('e, 'c + 'a, 's) res option \<Rightarrow> ('e, 'a, 's) res" where
  "loop_result r = (case r of
     Some (Ok (Inr x) s) \<Rightarrow> Ok x s | Some (Err e s) \<Rightarrow> Err e s | _ \<Rightarrow> Stop)"

definition prog_loop :: "('c \<Rightarrow> ('s, 'e, 'c + 'a) prog) \<Rightarrow> 'c \<Rightarrow> ('s, 'e, 'a) prog" where
  "prog_loop body c = (\<lambda>s.
     loop_result (while_option loop_goes_on (loop_round body) (Ok (Inl c) s)))"

text \<open>\<open>ok_or\<close>, and the \<open>unwrap\<close> of a value whose absence is a panic.\<close>

definition ok_or :: "'a option \<Rightarrow> 'e \<Rightarrow> ('s, 'e, 'a) prog" where
  "ok_or v e = (case v of None \<Rightarrow> throw e | Some x \<Rightarrow> ret x)"

definition unwrap :: "'a option \<Rightarrow> ('s, 'e, 'a) prog" where
  "unwrap v = (case v of None \<Rightarrow> stop | Some x \<Rightarrow> ret x)"

text \<open>Reading and changing the state, and running a program on a part of it.\<close>

definition gets :: "('s \<Rightarrow> 'a) \<Rightarrow> ('s, 'e, 'a) prog" where
  "gets f = (\<lambda>s. Ok (f s) s)"

definition modify :: "('s \<Rightarrow> 's) \<Rightarrow> ('s, 'e, unit) prog" where
  "modify f = (\<lambda>s. Ok () (f s))"

definition zoom :: "('s \<Rightarrow> 't) \<Rightarrow> ('t \<Rightarrow> 's \<Rightarrow> 's) \<Rightarrow> ('t, 'e, 'a) prog \<Rightarrow> ('s, 'e, 'a) prog" where
  "zoom get put p = (\<lambda>s. case p (get s) of Ok x t \<Rightarrow> Ok x (put t s) | Err e t \<Rightarrow> Err e (put t s) | Stop \<Rightarrow> Stop)"

lemmas prog_defs = ret_def throw_def stop_def bind_def seq_def ok_or_def unwrap_def

subsection \<open>Total correctness\<close>

text \<open>
  \<open>runs_to p s P\<close>: started in \<open>s\<close>, the program \<open>p\<close> comes back to its caller, and its result
  (\<open>Inl\<close> an error, \<open>Inr\<close> a value) and its final state satisfy \<open>P\<close>.
\<close>

definition runs_to :: "('s, 'e, 'a) prog \<Rightarrow> 's \<Rightarrow> ('e + 'a \<Rightarrow> 's \<Rightarrow> bool) \<Rightarrow> bool" where
  "runs_to p s P \<longleftrightarrow>
     (case p s of Ok x s' \<Rightarrow> P (Inr x) s' | Err e s' \<Rightarrow> P (Inl e) s' | Stop \<Rightarrow> False)"

lemma runs_to_ret [simp]: "runs_to (ret x) s P \<longleftrightarrow> P (Inr x) s"
  by (simp add: runs_to_def ret_def)

lemma runs_to_throw [simp]: "runs_to (throw e) s P \<longleftrightarrow> P (Inl e) s"
  by (simp add: runs_to_def throw_def)

lemma runs_to_stop [simp]: "\<not> runs_to stop s P"
  by (simp add: runs_to_def stop_def)

lemma runs_to_bind [simp]:
  "runs_to (bind p f) s P \<longleftrightarrow>
     runs_to p s (\<lambda>r s'. case r of Inl e \<Rightarrow> P (Inl e) s' | Inr x \<Rightarrow> runs_to (f x) s' P)"
  by (simp add: runs_to_def bind_def split: res.splits)

lemma seq_assoc: "seq (seq p q) r = seq p (seq q r)"
  by (simp add: seq_def bind_def fun_eq_iff split: res.splits)

lemma runs_to_seq [simp]:
  "runs_to (seq p q) s P \<longleftrightarrow>
     runs_to p s (\<lambda>r s'. case r of Inl e \<Rightarrow> P (Inl e) s' | Inr x \<Rightarrow> runs_to q s' P)"
  by (simp add: seq_def)

lemma runs_to_ok_or [simp]:
  "runs_to (ok_or v e) s P \<longleftrightarrow> (case v of None \<Rightarrow> P (Inl e) s | Some x \<Rightarrow> P (Inr x) s)"
  by (simp add: ok_or_def split: option.splits)

lemma runs_to_unwrap [simp]:
  "runs_to (unwrap v) s P \<longleftrightarrow> (case v of None \<Rightarrow> False | Some x \<Rightarrow> P (Inr x) s)"
  by (simp add: unwrap_def split: option.splits)

lemma runs_to_gets [simp]: "runs_to (gets f) s P \<longleftrightarrow> P (Inr (f s)) s"
  by (simp add: runs_to_def gets_def)

lemma runs_to_modify [simp]: "runs_to (modify f) s P \<longleftrightarrow> P (Inr ()) (f s)"
  by (simp add: runs_to_def modify_def)

lemma runs_to_zoom [simp]: "runs_to (zoom get put p) s P \<longleftrightarrow> runs_to p (get s) (\<lambda>r t. P r (put t s))"
  by (simp add: runs_to_def zoom_def split: res.splits)

lemma runs_to_mono:
  assumes "runs_to p s P" and "\<And>r s'. P r s' \<Longrightarrow> Q r s'"
  shows "runs_to p s Q"
  using assms by (auto simp: runs_to_def split: res.splits)

lemma runs_to_conj:
  assumes "runs_to p s P" and "runs_to p s Q"
  shows "runs_to p s (\<lambda>r s'. P r s' \<and> Q r s')"
  using assms by (auto simp: runs_to_def split: res.splits)

lemma runs_to_value: "runs_to p s (\<lambda>r s'. \<exists>x. r = Inr x \<and> Q x s') \<Longrightarrow> \<exists>x s'. Q x s'"
  by (auto simp: runs_to_def split: res.splits)

lemma for_each_invariant:
  assumes "I [] s"
    and "\<And>ys x zs s. xs = ys @ x # zs \<Longrightarrow> I ys s \<Longrightarrow>
           runs_to (body x) s (\<lambda>r s'. r = Inr () \<and> I (ys @ [x]) s')"
  shows "runs_to (for_each xs body) s (\<lambda>r s'. r = Inr () \<and> I xs s')"
proof -
  have "runs_to (for_each zs body) s (\<lambda>r s'. r = Inr () \<and> I xs s')"
    if "xs = ys @ zs" and "I ys s" for ys zs s
    using that
  proof (induction zs arbitrary: ys s)
    case Nil
    then show ?case by simp
  next
    case (Cons x zs)
    from Cons.prems have "runs_to (body x) s (\<lambda>r s'. r = Inr () \<and> I (ys @ [x]) s')"
      by (intro assms(2)) auto
    then show ?case
      by (auto intro!: Cons.IH [of "ys @ [x]"] Cons.prems(1) elim!: runs_to_mono)
  qed
  from this [of "[]" xs s] assms(1) show ?thesis by simp
qed

lemma for_first_rule:
  assumes "I [] s"
    and "\<And>ys x zs s. xs = ys @ x # zs \<Longrightarrow> I ys s \<Longrightarrow>
           runs_to (body x) s (\<lambda>r s'. case r of Inl e \<Rightarrow> Q (Inl e) s'
             | Inr None \<Rightarrow> I (ys @ [x]) s' | Inr (Some y) \<Rightarrow> Q (Inr (Some y)) s')"
    and "\<And>s. I xs s \<Longrightarrow> Q (Inr None) s"
  shows "runs_to (for_first xs body) s Q"
proof -
  have "runs_to (for_first zs body) s Q" if "xs = ys @ zs" and "I ys s" for ys zs s
    using that
  proof (induction zs arbitrary: ys s)
    case Nil
    then show ?case using assms(3) by simp
  next
    case (Cons x zs)
    from assms(2) [OF Cons.prems] show ?case
      by (auto intro!: Cons.IH [of "ys @ [x]"] Cons.prems(1)
          elim!: runs_to_mono split: sum.splits option.splits)
  qed
  from this [of "[]" xs s] assms(1) show ?thesis by simp
qed

lemma while_option_done: "\<not> b x \<Longrightarrow> while_option b f x = Some x"
  by (subst while_option_unfold) simp

lemma prog_loop_unfold:
  "prog_loop body c s = bind (body c) (case_sum (prog_loop body) ret) s"
proof -
  have step: "while_option loop_goes_on (loop_round body) (Ok (Inl c) s) =
      while_option loop_goes_on (loop_round body) (body c s)"
    by (subst while_option_unfold) (simp add: loop_goes_on_def loop_round_def)
  show ?thesis
  proof (cases "loop_goes_on (body c s)")
    case True
    then obtain c' s' where "body c s = Ok (Inl c') s'"
      by (auto simp: loop_goes_on_def split: res.splits sum.splits)
    with step show ?thesis by (simp add: prog_loop_def bind_def)
  next
    case False
    with step have "prog_loop body c s = loop_result (Some (body c s))"
      by (simp add: prog_loop_def while_option_done)
    with False show ?thesis
      by (auto simp: loop_goes_on_def loop_result_def bind_def ret_def split: res.splits sum.splits)
  qed
qed

lemma runs_to_prog_loop:
  "runs_to (prog_loop body c) s Q \<longleftrightarrow> runs_to (bind (body c) (case_sum (prog_loop body) ret)) s Q"
  by (simp only: runs_to_def prog_loop_unfold [of body c s])

lemma prog_loop_rule:
  fixes m :: "'c \<Rightarrow> 's \<Rightarrow> nat"
  assumes "I c s"
    and "\<And>c s. I c s \<Longrightarrow> runs_to (body c) s (\<lambda>r s'. case r of Inl e \<Rightarrow> Q (Inl e) s'
           | Inr (Inl c') \<Rightarrow> I c' s' \<and> m c' s' < m c s | Inr (Inr x) \<Rightarrow> Q (Inr x) s')"
  shows "runs_to (prog_loop body c) s Q"
  using assms(1)
proof (induction "m c s" arbitrary: c s rule: less_induct)
  case less
  from assms(2) [OF less.prems]
  have "runs_to (bind (body c) (case_sum (prog_loop body) ret)) s Q"
    by (auto intro!: less.hyps elim!: runs_to_mono split: sum.splits)
  then show ?case by (simp only: runs_to_prog_loop [of body c])
qed

text \<open>A loop whose body always asks for another round never comes back.\<close>

lemma prog_loop_forever:
  assumes start: "I c s" and round: "\<And>c s. I c s \<Longrightarrow> \<exists>c' s'. body c s = Ok (Inl c') s' \<and> I c' s'"
  shows "prog_loop body c s = Stop"
proof -
  let ?going = "\<lambda>r. \<exists>c s. r = Ok (Inl c) s \<and> I c s"
  have "while_option loop_goes_on (loop_round body) (Ok (Inl c) s) = None"
  proof (rule ccontr)
    assume "\<not> ?thesis"
    then obtain r where r: "while_option loop_goes_on (loop_round body) (Ok (Inl c) s) = Some r" by blast
    have "?going r"
    proof (rule while_option_rule [where P = ?going, OF _ r])
      show "?going (loop_round body x)" if "?going x" for x
        using round that by (fastforce simp: loop_round_def)
    qed (use start in blast)
    then have "loop_goes_on r" by (auto simp: loop_goes_on_def)
    with while_option_stop [OF r] show False by simp
  qed
  then show ?thesis by (simp add: prog_loop_def loop_result_def)
qed

subsection \<open>Transition systems\<close>

text \<open>A step relation with an invariant that every step keeps.\<close>

locale preserved =
  fixes step :: "'s \<Rightarrow> 's \<Rightarrow> bool" and inv :: "'s \<Rightarrow> bool"
  assumes step_inv: "inv s \<Longrightarrow> step s t \<Longrightarrow> inv t"
begin

lemma steps_inv: "step\<^sup>*\<^sup>* s t \<Longrightarrow> inv s \<Longrightarrow> inv t"
  by (induction rule: rtranclp_induct) (auto intro: step_inv)

end

end
