(* ===== verification/Fs_Layout.thy ===== *)
theory Fs_Layout
  imports Prelude
begin

section \<open>On-disk layout of the file system\<close>

text \<open>
  The constants, error codes and on-disk structures of \<open>src/src/fs.rs\<close>: the boot sector and
  the 32-byte directory entry as records, with the byte images \<open>repr(C, packed)\<close> gives them
  on the little-endian target, and the round trips between the two.
\<close>

subsection \<open>Constants\<close>

definition BLOCK_SIZE :: nat where [simp, layout]:
  "BLOCK_SIZE = 512"

definition SECTORS_PER_CLUSTER :: nat where [simp, layout]:
  "SECTORS_PER_CLUSTER = 8"

definition BOOT_SECTOR_LBA :: nat where [simp, layout]:
  "BOOT_SECTOR_LBA = 0"

definition FAT_SECTORS :: nat where [simp, layout]:
  "FAT_SECTORS = 64"

definition FAT_START_LBA :: nat where [simp, layout]:
  "FAT_START_LBA = 1"

definition ROOT_DIR_SECTORS :: nat where [simp, layout]:
  "ROOT_DIR_SECTORS = 16"

definition ROOT_DIR_ENTRIES :: nat where [simp, layout]:
  "ROOT_DIR_ENTRIES = (ROOT_DIR_SECTORS * BLOCK_SIZE) div 32"

definition ROOT_DIR_START_LBA :: nat where [simp, layout]:
  "ROOT_DIR_START_LBA = FAT_START_LBA + FAT_SECTORS"

definition DATA_START_LBA :: nat where [simp, layout]:
  "DATA_START_LBA = ROOT_DIR_START_LBA + ROOT_DIR_SECTORS"

definition TOTAL_SECTORS :: nat where [simp, layout]:
  "TOTAL_SECTORS = 2097152"

definition TOTAL_CLUSTERS :: nat where [simp, layout]:
  "TOTAL_CLUSTERS = (TOTAL_SECTORS - DATA_START_LBA) div SECTORS_PER_CLUSTER"

definition FAT_ENTRY_FREE :: u16 where [simp, layout]:
  "FAT_ENTRY_FREE = 0"

definition FAT_ENTRY_EOC :: u16 where [simp, layout]:
  "FAT_ENTRY_EOC = 0xFFFF"

definition FAT_ENTRY_RESERVED :: u16 where [simp, layout]:
  "FAT_ENTRY_RESERVED = 0xFFF0"

definition FAT_MAGIC :: u64 where [layout]:
  "FAT_MAGIC = 0x4B41474641543136"

definition DIR_ENTRIES_PER_SECTOR :: nat where [simp, layout]:
  "DIR_ENTRIES_PER_SECTOR = BLOCK_SIZE div 32"

subsection \<open>Errors\<close>

datatype FsError = NotReady | InvalidArgument | DeviceError | NotFormatted | NoSpace | FileNotFound

fun FsError_code :: "FsError \<Rightarrow> int" where
  "FsError_code NotReady = -1"
| "FsError_code InvalidArgument = -2"
| "FsError_code DeviceError = -3"
| "FsError_code NotFormatted = -4"
| "FsError_code NoSpace = -5"
| "FsError_code FileNotFound = -6"

subsection \<open>Structures\<close>

record BootSector =
  magic :: u64
  bytes_per_sector :: u16
  sectors_per_cluster :: u32
  fat_start_lba :: u32
  fat_sectors :: u32
  root_dir_start_lba :: u32
  root_dir_sectors :: u32
  data_start_lba :: u32
  total_clusters :: u32
  padding :: bytes

record FatDirEntry =
  de_name :: bytes
  de_first_cluster :: u16
  de_size :: u32
  de_in_use :: u8
  de_reserved :: bytes

record PublicFileEntry =
  pf_name :: bytes
  pf_size :: u64
  pf_first_cluster :: u16

text \<open>The array fields have their Rust lengths.\<close>

definition boot_ok :: "BootSector \<Rightarrow> bool" where
  "boot_ok bs \<longleftrightarrow> length (padding bs) = 474"

definition dir_ok :: "FatDirEntry \<Rightarrow> bool" where
  "dir_ok e \<longleftrightarrow> length (de_name e) = 22 \<and> length (de_reserved e) = 3"

definition boot_bytes :: "BootSector \<Rightarrow> bytes" where
  "boot_bytes bs = to_le 8 (magic bs) @ to_le 2 (bytes_per_sector bs)
     @ to_le 4 (sectors_per_cluster bs) @ to_le 4 (fat_start_lba bs) @ to_le 4 (fat_sectors bs)
     @ to_le 4 (root_dir_start_lba bs) @ to_le 4 (root_dir_sectors bs)
     @ to_le 4 (data_start_lba bs) @ to_le 4 (total_clusters bs) @ padding bs"

definition boot_of :: "bytes \<Rightarrow> BootSector" where
  "boot_of buf = \<lparr> magic = from_le (subslice 0 8 buf), bytes_per_sector = from_le (subslice 8 2 buf),
     sectors_per_cluster = from_le (subslice 10 4 buf), fat_start_lba = from_le (subslice 14 4 buf),
     fat_sectors = from_le (subslice 18 4 buf), root_dir_start_lba = from_le (subslice 22 4 buf),
     root_dir_sectors = from_le (subslice 26 4 buf), data_start_lba = from_le (subslice 30 4 buf),
     total_clusters = from_le (subslice 34 4 buf), padding = subslice 38 474 buf \<rparr>"

definition dir_bytes :: "FatDirEntry \<Rightarrow> bytes" where
  "dir_bytes e = de_name e @ to_le 2 (de_first_cluster e) @ to_le 4 (de_size e)
     @ [de_in_use e] @ de_reserved e"

definition dir_of :: "bytes \<Rightarrow> FatDirEntry" where
  "dir_of buf = \<lparr> de_name = subslice 0 22 buf, de_first_cluster = from_le (subslice 22 2 buf),
     de_size = from_le (subslice 24 4 buf), de_in_use = buf ! 28, de_reserved = subslice 29 3 buf \<rparr>"

text \<open>The cleared entry of \<open>create_file_unlocked\<close> and \<open>delete_file_unlocked\<close>.\<close>

definition empty_entry :: FatDirEntry where
  "empty_entry = \<lparr> de_name = replicate 22 0, de_first_cluster = 0, de_size = 0,
     de_in_use = 0, de_reserved = replicate 3 0 \<rparr>"

text \<open>
  The loop \<open>while len < 22 && entry.name[len] != 0\<close>: the name is the bytes before the
  first NUL of the field.
\<close>

definition entry_name :: "FatDirEntry \<Rightarrow> bytes" where
  "entry_name e = takeWhile (\<lambda>b. b \<noteq> 0) (de_name e)"

text \<open>\<open>new_entry.name[..name_bytes.len()].copy_from_slice(name_bytes)\<close> on a zeroed array.\<close>

definition name_field :: "bytes \<Rightarrow> bytes" where
  "name_field nm = nm @ replicate (22 - length nm) 0"

definition name_valid :: "bytes \<Rightarrow> bool" where
  "name_valid nm \<longleftrightarrow> nm \<noteq> [] \<and> length nm \<le> 21"

subsection \<open>Round trips\<close>

lemma length_boot_bytes [simp, len]: "boot_ok bs \<Longrightarrow> length (boot_bytes bs) = BLOCK_SIZE"
  by (simp add: boot_bytes_def boot_ok_def)

lemma length_dir_bytes [simp, len]: "dir_ok e \<Longrightarrow> length (dir_bytes e) = 32"
  by (simp add: dir_bytes_def dir_ok_def)

lemma boot_roundtrip: "boot_ok bs \<Longrightarrow> boot_of (boot_bytes bs) = bs"
  by (simp add: boot_of_def boot_bytes_def boot_ok_def subslice_def)

lemma dir_roundtrip: "dir_ok e \<Longrightarrow> dir_of (dir_bytes e) = e"
  by (simp add: dir_of_def dir_bytes_def dir_ok_def subslice_def nth_append)

lemma dir_ok_dir_of: "length buf = 32 \<Longrightarrow> dir_ok (dir_of buf)"
  by (simp add: dir_ok_def dir_of_def)

lemma dir_ok_empty_entry [simp]: "dir_ok empty_entry"
  by (simp add: dir_ok_def empty_entry_def)

lemma takeWhile_no_nul: "0 \<notin> set nm \<Longrightarrow> takeWhile (\<lambda>b. b \<noteq> (0::u8)) (nm @ replicate n 0) = nm"
  by (cases n) (auto simp: takeWhile_append intro: takeWhile_eq_all_conv [THEN iffD2])

lemma length_name_field [simp, len]: "name_valid nm \<Longrightarrow> length (name_field nm) = 22"
  by (simp add: name_field_def name_valid_def)

lemma entry_name_name_field:
  "0 \<notin> set nm \<Longrightarrow> de_name e = name_field nm \<Longrightarrow> entry_name e = nm"
  by (simp add: entry_name_def name_field_def takeWhile_no_nul)

lemma FsError_code_negative: "FsError_code e < 0"
  by (cases e) simp_all

lemma FsError_code_inject: "FsError_code e = FsError_code e' \<longleftrightarrow> e = e'"
  by (cases e; cases e') simp_all

end
