(* ===== verification/Utf8.thy ===== *)
theory Utf8
  imports Prelude
begin

section \<open>UTF-8 as the standard library decodes it\<close>

text \<open>
  \<open>core::str::from_utf8\<close> and \<open>String::from_utf8_lossy\<close>, which the system calls and the
  directory listing apply to file names.  \<open>utf8_step\<close> looks at the front of a byte string:
  it gives the number of bytes of the next character or ill-formed sequence (at least one)
  and whether they are a character.
\<close>

unbundle bit_operations_syntax

definition is_cont :: "u8 \<Rightarrow> bool" where
  "is_cont b \<longleftrightarrow> b AND 0xC0 = 0x80"

definition safe_get :: "bytes \<Rightarrow> nat \<Rightarrow> u8" where
  "safe_get bs i = (if i < length bs then bs ! i else 0)"

definition second_of_three :: "u8 \<Rightarrow> u8 \<Rightarrow> bool" where
  "second_of_three a b \<longleftrightarrow>
     a = 0xE0 \<and> 0xA0 \<le> b \<and> b \<le> 0xBF \<or>
     0xE1 \<le> a \<and> a \<le> 0xEC \<and> 0x80 \<le> b \<and> b \<le> 0xBF \<or>
     a = 0xED \<and> 0x80 \<le> b \<and> b \<le> 0x9F \<or>
     0xEE \<le> a \<and> a \<le> 0xEF \<and> 0x80 \<le> b \<and> b \<le> 0xBF"

definition second_of_four :: "u8 \<Rightarrow> u8 \<Rightarrow> bool" where
  "second_of_four a b \<longleftrightarrow>
     a = 0xF0 \<and> 0x90 \<le> b \<and> b \<le> 0xBF \<or>
     0xF1 \<le> a \<and> a \<le> 0xF3 \<and> 0x80 \<le> b \<and> b \<le> 0xBF \<or>
     a = 0xF4 \<and> 0x80 \<le> b \<and> b \<le> 0x8F"

definition utf8_step :: "u8 \<Rightarrow> bytes \<Rightarrow> nat \<times> bool" where
  "utf8_step a bs =
     (if a < 128 then (1, True)
      else if 0xC2 \<le> a \<and> a \<le> 0xDF then
        if is_cont (safe_get bs 0) then (2, True) else (1, False)
      else if 0xE0 \<le> a \<and> a \<le> 0xEF then
        if \<not> second_of_three a (safe_get bs 0) then (1, False)
        else if \<not> is_cont (safe_get bs 1) then (2, False) else (3, True)
      else if 0xF0 \<le> a \<and> a \<le> 0xF4 then
        if \<not> second_of_four a (safe_get bs 0) then (1, False)
        else if \<not> is_cont (safe_get bs 1) then (2, False)
        else if \<not> is_cont (safe_get bs 2) then (3, False) else (4, True)
      else (1, False))"

lemma utf8_step_pos: "1 \<le> fst (utf8_step a bs)"
  by (simp add: utf8_step_def)

function utf8_valid :: "bytes \<Rightarrow> bool" where
  "utf8_valid [] = True"
| "utf8_valid (a # bs) =
     (snd (utf8_step a bs) \<and> utf8_valid (drop (fst (utf8_step a bs) - 1) bs))"
  by pat_completeness auto
termination by (relation "measure length") auto

function utf8_lossy :: "bytes \<Rightarrow> bytes" where
  "utf8_lossy [] = []"
| "utf8_lossy (a # bs) =
     (if snd (utf8_step a bs) then take (fst (utf8_step a bs)) (a # bs) else [0xEF, 0xBF, 0xBD])
     @ utf8_lossy (drop (fst (utf8_step a bs) - 1) bs)"
  by pat_completeness auto
termination by (relation "measure length") auto

lemma utf8_lossy_valid: "utf8_valid bs \<Longrightarrow> utf8_lossy bs = bs"
proof (induction bs rule: utf8_lossy.induct)
  case 1
  show ?case by simp
next
  case (2 a bs)
  from utf8_step_pos [of a bs] obtain k where "fst (utf8_step a bs) = Suc k"
    by (cases "fst (utf8_step a bs)") auto
  with 2 show ?case by simp
qed

lemma utf8_valid_ascii: "\<forall>b \<in> set bs. b < 128 \<Longrightarrow> utf8_valid bs"
  by (induction bs) (simp_all add: utf8_step_def)

end
