(* ===== verification/Fs.thy ===== *)
theory Fs
  imports Fs_Layout Utf8
begin

section \<open>The file system operations\<close>

text \<open>
  \<open>src/src/fs.rs\<close>, one definition per function, over the three entry points of the NVMe
  driver it calls.  The driver's state is the state of every program here.  Loops are
  \<open>for_each\<close>, \<open>for_first\<close> and \<open>prog_loop\<close> of the prelude.  File names are the bytes of the
  \<open>&str\<close>; LBAs and indices are natural numbers (no LBA the code computes exceeds
  \<open>81 + 8 * 65533 + 8\<close>), cluster numbers and stored fields keep their width.
\<close>

text \<open>
  The driver as the file system sees it.  A transfer gives the status code, the data (a
  read fills the caller's buffer) and the new state; \<open>None\<close> if the driver's completion
  loop never ends.
\<close>

record 'd nvme_ops =
  default_nsid_op :: "'d \<Rightarrow> u32 option"
  nvme_read_op :: "u32 \<Rightarrow> nat \<Rightarrow> nat \<Rightarrow> 'd \<Rightarrow> (int \<times> bytes \<times> 'd) option"
  nvme_write_op :: "u32 \<Rightarrow> nat \<Rightarrow> bytes \<Rightarrow> nat \<Rightarrow> 'd \<Rightarrow> (int \<times> 'd) option"

type_synonym ('d, 'a) fs = "('d, FsError, 'a) prog"

subsection \<open>Block helpers\<close>

definition default_nsid :: "'d nvme_ops \<Rightarrow> ('d, u32 option) fs" where
  "default_nsid nv = (\<lambda>d. Ok (default_nsid_op nv d) d)"

definition nvme_read :: "'d nvme_ops \<Rightarrow> u32 \<Rightarrow> nat \<Rightarrow> nat \<Rightarrow> ('d, int \<times> bytes) fs" where
  "nvme_read nv nsid lba count = (\<lambda>d. case nvme_read_op nv nsid lba count d of
     None \<Rightarrow> Stop | Some (status, buf, d') \<Rightarrow> Ok (status, buf) d')"

definition nvme_write :: "'d nvme_ops \<Rightarrow> u32 \<Rightarrow> nat \<Rightarrow> bytes \<Rightarrow> nat \<Rightarrow> ('d, int) fs" where
  "nvme_write nv nsid lba buf count = (\<lambda>d. case nvme_write_op nv nsid lba buf count d of
     None \<Rightarrow> Stop | Some (status, d') \<Rightarrow> Ok status d')"

definition is_ready :: "'d nvme_ops \<Rightarrow> ('d, bool) fs" where
  "is_ready nv = bind (default_nsid nv) (\<lambda>n. ret (n \<noteq> None))"

text \<open>
  \<open>buffer_null\<close> is \<open>buffer.is_null()\<close>; the value of a read is what the buffer holds
  afterwards.
\<close>

definition read_blocks_unlocked :: "'d nvme_ops \<Rightarrow> nat \<Rightarrow> nat \<Rightarrow> bool \<Rightarrow> ('d, bytes) fs" where
  "read_blocks_unlocked nv lba count buffer_null =
     (if count = 0 \<or> buffer_null then throw InvalidArgument
      else bind (default_nsid nv) (\<lambda>n. bind (ok_or n NotReady) (\<lambda>nsid.
        bind (nvme_read nv nsid lba count) (\<lambda>(status, buf).
          if status = 0 then ret buf else throw DeviceError))))"

definition write_blocks_unlocked ::
  "'d nvme_ops \<Rightarrow> nat \<Rightarrow> nat \<Rightarrow> bytes option \<Rightarrow> ('d, unit) fs" where
  "write_blocks_unlocked nv lba count buffer =
     (case buffer of
        None \<Rightarrow> throw InvalidArgument
      | Some buf \<Rightarrow>
          if count = 0 then throw InvalidArgument
          else bind (default_nsid nv) (\<lambda>n. bind (ok_or n NotReady) (\<lambda>nsid.
            bind (nvme_write nv nsid lba buf count) (\<lambda>status.
              if status = 0 then ret () else throw DeviceError))))"

definition read_block_unlocked :: "'d nvme_ops \<Rightarrow> nat \<Rightarrow> ('d, bytes) fs" where
  "read_block_unlocked nv lba = read_blocks_unlocked nv lba 1 False"

definition write_block_unlocked :: "'d nvme_ops \<Rightarrow> nat \<Rightarrow> bytes \<Rightarrow> ('d, unit) fs" where
  "write_block_unlocked nv lba buf = write_blocks_unlocked nv lba 1 (Some buf)"

subsection \<open>Boot sector\<close>

definition read_boot_sector_unlocked :: "'d nvme_ops \<Rightarrow> ('d, BootSector) fs" where
  "read_boot_sector_unlocked nv = bind (is_ready nv) (\<lambda>rdy.
     if \<not> rdy then throw NotReady
     else bind (read_block_unlocked nv BOOT_SECTOR_LBA) (\<lambda>buf.
       if magic (boot_of buf) = FAT_MAGIC then ret (boot_of buf) else throw NotFormatted))"

definition write_boot_sector_unlocked :: "'d nvme_ops \<Rightarrow> BootSector \<Rightarrow> ('d, unit) fs" where
  "write_boot_sector_unlocked nv bs = bind (is_ready nv) (\<lambda>rdy.
     if \<not> rdy then throw NotReady
     else write_block_unlocked nv BOOT_SECTOR_LBA (boot_bytes bs))"

subsection \<open>The FAT\<close>

text \<open>\<open>cluster as u64 - 2\<close> panics below 2, which is \<open>None\<close>.\<close>

definition cluster_to_lba :: "u16 \<Rightarrow> nat option" where
  "cluster_to_lba cluster =
     (if unat cluster < 2 then None
      else Some (DATA_START_LBA + (unat cluster - 2) * SECTORS_PER_CLUSTER))"

definition read_fat_entry_unlocked :: "'d nvme_ops \<Rightarrow> u16 \<Rightarrow> ('d, u16) fs" where
  "read_fat_entry_unlocked nv cluster =
     (let entries_per_sector = BLOCK_SIZE div 2;
          sector_index = unat cluster div entries_per_sector;
          entry_index = unat cluster mod entries_per_sector
      in if sector_index \<ge> FAT_SECTORS then throw InvalidArgument
         else bind (read_block_unlocked nv (FAT_START_LBA + sector_index)) (\<lambda>buf.
           ret (from_le (subslice (entry_index * 2) 2 buf))))"

definition write_fat_entry_unlocked :: "'d nvme_ops \<Rightarrow> u16 \<Rightarrow> u16 \<Rightarrow> ('d, unit) fs" where
  "write_fat_entry_unlocked nv cluster value =
     (let entries_per_sector = BLOCK_SIZE div 2;
          sector_index = unat cluster div entries_per_sector;
          entry_index = unat cluster mod entries_per_sector
      in if sector_index \<ge> FAT_SECTORS then throw InvalidArgument
         else bind (read_block_unlocked nv (FAT_START_LBA + sector_index)) (\<lambda>buf.
           write_block_unlocked nv (FAT_START_LBA + sector_index)
             (copy_into (entry_index * 2) (to_le 2 value) buf)))"

text \<open>\<open>(2u32 + TOTAL_CLUSTERS - 1) as u16\<close> keeps the low 16 bits of 262134.\<close>

definition max_cluster :: u16 where
  "max_cluster = word_of_nat (2 + TOTAL_CLUSTERS - 1)"

definition alloc_cluster_unlocked :: "'d nvme_ops \<Rightarrow> ('d, u16) fs" where
  "alloc_cluster_unlocked nv =
     bind (for_first [2..<Suc (unat max_cluster)] (\<lambda>i.
       let cluster = word_of_nat i in
       bind (read_fat_entry_unlocked nv cluster) (\<lambda>entry.
         if entry = FAT_ENTRY_FREE
         then bind (write_fat_entry_unlocked nv cluster FAT_ENTRY_EOC) (\<lambda>_. ret (Some cluster))
         else ret None)))
       (\<lambda>r. ok_or r NoSpace)"

definition free_cluster_chain_unlocked :: "'d nvme_ops \<Rightarrow> u16 \<Rightarrow> ('d, unit) fs" where
  "free_cluster_chain_unlocked nv first_cluster =
     prog_loop (\<lambda>current.
       if current < 2 \<or> current \<ge> FAT_ENTRY_RESERVED then ret (Inr ())
       else bind (read_fat_entry_unlocked nv current) (\<lambda>nxt.
         bind (write_fat_entry_unlocked nv current FAT_ENTRY_FREE) (\<lambda>_.
           if nxt \<ge> FAT_ENTRY_RESERVED then ret (Inr ()) else ret (Inl nxt))))
       first_cluster"

subsection \<open>The root directory\<close>

definition read_dir_entry_unlocked :: "'d nvme_ops \<Rightarrow> nat \<Rightarrow> ('d, FatDirEntry) fs" where
  "read_dir_entry_unlocked nv index =
     (if index \<ge> ROOT_DIR_ENTRIES then throw InvalidArgument
      else let sector = index div DIR_ENTRIES_PER_SECTOR; slot = index mod DIR_ENTRIES_PER_SECTOR
        in bind (read_block_unlocked nv (ROOT_DIR_START_LBA + sector)) (\<lambda>buf.
             ret (dir_of (subslice (slot * 32) 32 buf))))"

definition write_dir_entry_unlocked :: "'d nvme_ops \<Rightarrow> nat \<Rightarrow> FatDirEntry \<Rightarrow> ('d, unit) fs" where
  "write_dir_entry_unlocked nv index entry =
     (if index \<ge> ROOT_DIR_ENTRIES then throw InvalidArgument
      else let sector = index div DIR_ENTRIES_PER_SECTOR; slot = index mod DIR_ENTRIES_PER_SECTOR
        in bind (read_block_unlocked nv (ROOT_DIR_START_LBA + sector)) (\<lambda>buf.
             write_block_unlocked nv (ROOT_DIR_START_LBA + sector)
               (copy_into (slot * 32) (dir_bytes entry) buf)))"

definition find_file_unlocked :: "'d nvme_ops \<Rightarrow> bytes \<Rightarrow> ('d, (nat \<times> FatDirEntry) option) fs"
where
  "find_file_unlocked nv nm =
     (if nm = [] \<or> length nm > 21 then throw InvalidArgument
      else for_first [0..<ROOT_DIR_ENTRIES] (\<lambda>i.
        bind (read_dir_entry_unlocked nv i) (\<lambda>entry.
          if de_in_use entry = 1 \<and> entry_name entry = nm then ret (Some (i, entry))
          else ret None)))"

definition find_free_dir_slot_unlocked :: "'d nvme_ops \<Rightarrow> ('d, nat option) fs" where
  "find_free_dir_slot_unlocked nv =
     for_first [0..<ROOT_DIR_ENTRIES] (\<lambda>i.
       bind (read_dir_entry_unlocked nv i) (\<lambda>entry.
         if de_in_use entry = 0 then ret (Some i) else ret None))"

subsection \<open>File operations\<close>

definition format_boot_sector :: BootSector where
  "format_boot_sector = \<lparr> magic = FAT_MAGIC, bytes_per_sector = word_of_nat BLOCK_SIZE,
     sectors_per_cluster = word_of_nat SECTORS_PER_CLUSTER,
     fat_start_lba = word_of_nat FAT_START_LBA, fat_sectors = word_of_nat FAT_SECTORS,
     root_dir_start_lba = word_of_nat ROOT_DIR_START_LBA,
     root_dir_sectors = word_of_nat ROOT_DIR_SECTORS,
     data_start_lba = word_of_nat DATA_START_LBA, total_clusters = word_of_nat TOTAL_CLUSTERS,
     padding = replicate 474 0 \<rparr>"

definition format_unlocked :: "'d nvme_ops \<Rightarrow> ('d, unit) fs" where
  "format_unlocked nv = bind (is_ready nv) (\<lambda>rdy.
     if \<not> rdy then throw NotReady
     else seq (write_boot_sector_unlocked nv format_boot_sector)
       (seq (for_each [0..<FAT_SECTORS] (\<lambda>i.
               write_block_unlocked nv (FAT_START_LBA + i) (replicate BLOCK_SIZE 0)))
       (seq (write_fat_entry_unlocked nv 0 0xFFF8)
       (seq (write_fat_entry_unlocked nv 1 FAT_ENTRY_EOC)
            (for_each [0..<ROOT_DIR_SECTORS] (\<lambda>i.
               write_block_unlocked nv (ROOT_DIR_START_LBA + i) (replicate BLOCK_SIZE 0)))))))"

definition cluster_bytes :: nat where [simp, layout]:
  "cluster_bytes = SECTORS_PER_CLUSTER * BLOCK_SIZE"

text \<open>\<open>(data.len() + cluster_bytes - 1) / cluster_bytes\<close>\<close>

definition clusters_needed :: "nat \<Rightarrow> nat" where
  "clusters_needed n = (n + cluster_bytes - 1) div cluster_bytes"

text \<open>The zero-padded buffer written for cluster number \<open>i\<close> of the file.\<close>

definition cluster_buf :: "bytes \<Rightarrow> nat \<Rightarrow> bytes" where
  "cluster_buf data i =
     (let src_offset = i * cluster_bytes;
          src_end = min (src_offset + cluster_bytes) (length data);
          chunk = subslice src_offset (src_end - src_offset) data
      in copy_into 0 chunk (replicate cluster_bytes 0))"

text \<open>
  The allocation loop of \<open>create_file_unlocked\<close>, with \<open>prev_cluster\<close> and \<open>first\<close> as its
  loop-carried variables.
\<close>

primrec create_clusters ::
  "'d nvme_ops \<Rightarrow> bytes \<Rightarrow> nat list \<Rightarrow> u16 option \<Rightarrow> u16 \<Rightarrow> ('d, u16) fs" where
  "create_clusters nv data [] prev_cluster first = ret first"
| "create_clusters nv data (i # is) prev_cluster first =
     bind (alloc_cluster_unlocked nv) (\<lambda>c.
       seq (case prev_cluster of None \<Rightarrow> ret () | Some prev \<Rightarrow> write_fat_entry_unlocked nv prev c)
       (bind (unwrap (cluster_to_lba c)) (\<lambda>lba.
          seq (write_blocks_unlocked nv lba SECTORS_PER_CLUSTER (Some (cluster_buf data i)))
              (create_clusters nv data is (Some c) (if i = 0 then c else first)))))"

definition new_entry :: "bytes \<Rightarrow> u16 \<Rightarrow> bytes \<Rightarrow> FatDirEntry" where
  "new_entry nm first_cluster data = \<lparr> de_name = name_field nm,
     de_first_cluster = first_cluster, de_size = word_of_nat (length data), de_in_use = 1,
     de_reserved = replicate 3 0 \<rparr>"

text \<open>Freeing the chain of an entry and clearing its slot, as create and delete do it.\<close>

definition erase_entry :: "'d nvme_ops \<Rightarrow> nat \<Rightarrow> FatDirEntry \<Rightarrow> ('d, unit) fs" where
  "erase_entry nv idx entry =
     seq (if de_first_cluster entry \<ge> 2
          then free_cluster_chain_unlocked nv (de_first_cluster entry) else ret ())
         (write_dir_entry_unlocked nv idx empty_entry)"

definition create_file_unlocked :: "'d nvme_ops \<Rightarrow> bytes \<Rightarrow> bytes \<Rightarrow> ('d, unit) fs" where
  "create_file_unlocked nv nm data =
     (if nm = [] \<or> length nm > 21 then throw InvalidArgument
      else seq (read_boot_sector_unlocked nv)
        (bind (find_file_unlocked nv nm) (\<lambda>old.
          seq (case old of None \<Rightarrow> ret () | Some (idx, old_entry) \<Rightarrow> erase_entry nv idx old_entry)
          (bind (find_free_dir_slot_unlocked nv) (\<lambda>slot.
            bind (ok_or slot NoSpace) (\<lambda>slot_idx.
              bind (if data = [] then ret 0
                    else create_clusters nv data [0..<clusters_needed (length data)] None 0)
                (\<lambda>first_cluster.
                  write_dir_entry_unlocked nv slot_idx (new_entry nm first_cluster data))))))))"

text \<open>
  The loop of \<open>read_file_unlocked\<close>: \<open>result\<close> is the zero-initialised vector of length
  \<open>size\<close>, of which \<open>written\<close> bytes have been filled.
\<close>

function read_clusters :: "'d nvme_ops \<Rightarrow> nat \<Rightarrow> u16 \<Rightarrow> nat \<Rightarrow> bytes \<Rightarrow> ('d, bytes) fs" where
  "read_clusters nv sz current written result =
     (if current \<ge> 2 \<and> current < FAT_ENTRY_RESERVED \<and> written < sz then
        (let to_read = min (sz - written) cluster_bytes in
         bind (unwrap (cluster_to_lba current)) (\<lambda>lba.
           bind (read_blocks_unlocked nv lba SECTORS_PER_CLUSTER False) (\<lambda>buf.
             bind (read_fat_entry_unlocked nv current) (\<lambda>nxt.
               read_clusters nv sz nxt (written + to_read)
                 (copy_into written (subslice 0 to_read buf) result)))))
      else ret result)"
  by pat_completeness auto
termination
  by (relation "measure (\<lambda>(nv, sz, current, written, result). sz - written)") auto

declare read_clusters.simps [simp del]

definition read_file_unlocked :: "'d nvme_ops \<Rightarrow> bytes \<Rightarrow> ('d, bytes) fs" where
  "read_file_unlocked nv nm =
     bind (find_file_unlocked nv nm) (\<lambda>r. bind (ok_or r FileNotFound) (\<lambda>(idx, entry).
       let size = unat (de_size entry) in
       if size = 0 then ret []
       else read_clusters nv size (de_first_cluster entry) 0 (replicate size 0)))"

definition delete_file_unlocked :: "'d nvme_ops \<Rightarrow> bytes \<Rightarrow> ('d, unit) fs" where
  "delete_file_unlocked nv nm =
     bind (find_file_unlocked nv nm) (\<lambda>r. bind (ok_or r FileNotFound) (\<lambda>(idx, entry).
       erase_entry nv idx entry))"

definition public_entry :: "FatDirEntry \<Rightarrow> PublicFileEntry" where
  "public_entry entry = \<lparr> pf_name = utf8_lossy (entry_name entry),
     pf_size = ucast (de_size entry), pf_first_cluster = de_first_cluster entry \<rparr>"

primrec list_entries :: "'d nvme_ops \<Rightarrow> nat list \<Rightarrow> ('d, PublicFileEntry list) fs" where
  "list_entries nv [] = ret []"
| "list_entries nv (i # is) =
     bind (read_dir_entry_unlocked nv i) (\<lambda>entry. bind (list_entries nv is) (\<lambda>rest.
       ret (if de_in_use entry = 1 then public_entry entry # rest else rest)))"

definition list_files_unlocked :: "'d nvme_ops \<Rightarrow> ('d, PublicFileEntry list) fs" where
  "list_files_unlocked nv =
     seq (read_boot_sector_unlocked nv) (list_entries nv [0..<ROOT_DIR_ENTRIES])"

subsection \<open>The locked interface\<close>

text \<open>
  \<open>FS_LOCK.lock()\<close> spins while the lock is held, and the guard releases it when the
  operation returns, with a value or with an error.
\<close>

definition with_guard :: "('d, 'a) fs \<Rightarrow> (bool \<times> 'd, 'a) fs" where
  "with_guard p = (\<lambda>(held, d).
     if held then Stop
     else case p d of Ok x d' \<Rightarrow> Ok x (False, d') | Err e d' \<Rightarrow> Err e (False, d') | Stop \<Rightarrow> Stop)"

definition read_block :: "'d nvme_ops \<Rightarrow> nat \<Rightarrow> (bool \<times> 'd, bytes) fs" where
  "read_block nv lba = with_guard (read_block_unlocked nv lba)"

definition write_block :: "'d nvme_ops \<Rightarrow> nat \<Rightarrow> bytes \<Rightarrow> (bool \<times> 'd, unit) fs" where
  "write_block nv lba buf = with_guard (write_block_unlocked nv lba buf)"

definition read_blocks :: "'d nvme_ops \<Rightarrow> nat \<Rightarrow> nat \<Rightarrow> bool \<Rightarrow> (bool \<times> 'd, bytes) fs" where
  "read_blocks nv lba count buffer_null =
     with_guard (read_blocks_unlocked nv lba count buffer_null)"

definition write_blocks ::
  "'d nvme_ops \<Rightarrow> nat \<Rightarrow> nat \<Rightarrow> bytes option \<Rightarrow> (bool \<times> 'd, unit) fs" where
  "write_blocks nv lba count buffer = with_guard (write_blocks_unlocked nv lba count buffer)"

definition fs_format :: "'d nvme_ops \<Rightarrow> (bool \<times> 'd, unit) fs" where
  "fs_format nv = with_guard (format_unlocked nv)"

definition create_file :: "'d nvme_ops \<Rightarrow> bytes \<Rightarrow> bytes \<Rightarrow> (bool \<times> 'd, unit) fs" where
  "create_file nv nm data = with_guard (create_file_unlocked nv nm data)"

definition read_file :: "'d nvme_ops \<Rightarrow> bytes \<Rightarrow> (bool \<times> 'd, bytes) fs" where
  "read_file nv nm = with_guard (read_file_unlocked nv nm)"

definition delete_file :: "'d nvme_ops \<Rightarrow> bytes \<Rightarrow> (bool \<times> 'd, unit) fs" where
  "delete_file nv nm = with_guard (delete_file_unlocked nv nm)"

definition list_files :: "'d nvme_ops \<Rightarrow> (bool \<times> 'd, PublicFileEntry list) fs" where
  "list_files nv = with_guard (list_files_unlocked nv)"

definition read_boot_sector :: "'d nvme_ops \<Rightarrow> (bool \<times> 'd, BootSector) fs" where
  "read_boot_sector nv = with_guard (read_boot_sector_unlocked nv)"

definition write_boot_sector :: "'d nvme_ops \<Rightarrow> BootSector \<Rightarrow> (bool \<times> 'd, unit) fs" where
  "write_boot_sector nv bs = with_guard (write_boot_sector_unlocked nv bs)"

definition read_fat_entry :: "'d nvme_ops \<Rightarrow> u16 \<Rightarrow> (bool \<times> 'd, u16) fs" where
  "read_fat_entry nv cluster = with_guard (read_fat_entry_unlocked nv cluster)"

definition write_fat_entry :: "'d nvme_ops \<Rightarrow> u16 \<Rightarrow> u16 \<Rightarrow> (bool \<times> 'd, unit) fs" where
  "write_fat_entry nv cluster value = with_guard (write_fat_entry_unlocked nv cluster value)"

definition read_dir_entry :: "'d nvme_ops \<Rightarrow> nat \<Rightarrow> (bool \<times> 'd, FatDirEntry) fs" where
  "read_dir_entry nv index = with_guard (read_dir_entry_unlocked nv index)"

definition write_dir_entry :: "'d nvme_ops \<Rightarrow> nat \<Rightarrow> FatDirEntry \<Rightarrow> (bool \<times> 'd, unit) fs" where
  "write_dir_entry nv index entry = with_guard (write_dir_entry_unlocked nv index entry)"

definition find_file :: "'d nvme_ops \<Rightarrow> bytes \<Rightarrow> (bool \<times> 'd, (nat \<times> FatDirEntry) option) fs"
where
  "find_file nv nm = with_guard (find_file_unlocked nv nm)"

lemma runs_to_with_guard [simp]:
  "runs_to (with_guard p) (held, d) P \<longleftrightarrow>
     \<not> held \<and> runs_to p d (\<lambda>r d'. P r (False, d'))"
  by (simp add: with_guard_def runs_to_def split: res.splits)

end
