(* ===== verification/Fs_Volume.thy ===== *)
theory Fs_Volume
  imports Fs
begin

section \<open>The volume behind the sectors\<close>

text \<open>
  What the file system keeps on a disk, read off its sectors: the FAT as a function from
  cluster numbers to entries, the root directory as a function from slots to entries, and
  the contents of the data clusters (\<open>view\<close>).  The interface of the driver is the locale
  \<open>block_device\<close>; inside it every helper of \<open>fs.rs\<close> that touches the disk becomes one
  update of the volume (\<open>at_dev d V\<close>: the driver in state \<open>d\<close> stores the volume \<open>V\<close>).
\<close>

subsection \<open>Definitions\<close>

text \<open>Replacing \<open>n\<close> sectors from \<open>lba\<close> on by the bytes of \<open>buf\<close>.\<close>

definition write_sectors :: "nat \<Rightarrow> nat \<Rightarrow> bytes \<Rightarrow> (nat \<Rightarrow> bytes) \<Rightarrow> nat \<Rightarrow> bytes" where
  "write_sectors lba n buf D = (\<lambda>s.
     if lba \<le> s \<and> s < lba + n then subslice (512 * (s - lba)) 512 buf else D s)"

definition read_sectors :: "nat \<Rightarrow> nat \<Rightarrow> (nat \<Rightarrow> bytes) \<Rightarrow> bytes" where
  "read_sectors lba n D = concat (map D [lba..<lba + n])"

definition sectors_ok :: "(nat \<Rightarrow> bytes) \<Rightarrow> bool" where
  "sectors_ok D \<longleftrightarrow> (\<forall>s < TOTAL_SECTORS. length (D s) = 512)"

record volume =
  vboot :: BootSector
  vfat :: "u16 \<Rightarrow> u16"
  vdir :: "nat \<Rightarrow> FatDirEntry"
  vdata :: "u16 \<Rightarrow> bytes"

abbreviation vmagic :: "volume \<Rightarrow> u64" where
  "vmagic V \<equiv> magic (vboot V)"

text \<open>The FAT has 16384 entries, so these are the clusters a file can use.\<close>

definition usable :: "u16 \<Rightarrow> bool" where
  "usable c \<longleftrightarrow> 2 \<le> unat c \<and> unat c < 16384"

definition sector_fat :: "(nat \<Rightarrow> bytes) \<Rightarrow> u16 \<Rightarrow> u16" where
  "sector_fat D c = (if unat c < 16384
     then from_le (subslice (unat c mod 256 * 2) 2 (D (Suc (unat c div 256)))) else 0xFFFF)"

definition sector_dir :: "(nat \<Rightarrow> bytes) \<Rightarrow> nat \<Rightarrow> FatDirEntry" where
  "sector_dir D i = (if i < 256
     then dir_of (subslice (i mod 16 * 32) 32 (D (65 + i div 16))) else empty_entry)"

definition sector_data :: "(nat \<Rightarrow> bytes) \<Rightarrow> u16 \<Rightarrow> bytes" where
  "sector_data D c = (if usable c then read_sectors (81 + (unat c - 2) * 8) 8 D else [])"

definition view :: "(nat \<Rightarrow> bytes) \<Rightarrow> volume" where
  "view D = \<lparr> vboot = boot_of (D 0), vfat = sector_fat D, vdir = sector_dir D,
     vdata = sector_data D \<rparr>"

subsection \<open>The interface of the driver\<close>

locale block_device =
  fixes nv :: "'d nvme_ops" and ok :: "'d \<Rightarrow> bool" and disk :: "'d \<Rightarrow> nat \<Rightarrow> bytes"
  assumes ready: "ok d \<Longrightarrow> default_nsid_op nv d \<noteq> None"
    and disk_sectors: "ok d \<Longrightarrow> sectors_ok (disk d)"
    and read_law: "ok d \<Longrightarrow> default_nsid_op nv d = Some n \<Longrightarrow> 0 < count \<Longrightarrow> count \<le> 8 \<Longrightarrow>
      lba + count \<le> TOTAL_SECTORS \<Longrightarrow>
      \<exists>d'. nvme_read_op nv n lba count d = Some (0, read_sectors lba count (disk d), d')
        \<and> ok d' \<and> disk d' = disk d"
    and write_law: "ok d \<Longrightarrow> default_nsid_op nv d = Some n \<Longrightarrow> 0 < count \<Longrightarrow> count \<le> 8 \<Longrightarrow>
      lba + count \<le> TOTAL_SECTORS \<Longrightarrow> length buf = 512 * count \<Longrightarrow>
      \<exists>d'. nvme_write_op nv n lba buf count d = Some (0, d')
        \<and> ok d' \<and> disk d' = write_sectors lba count buf (disk d)"

subsection \<open>Sectors and the volume\<close>

lemma length_concat_same: "\<forall>x \<in> set xs. length x = n \<Longrightarrow> length (concat xs) = length xs * n"
  by (induction xs) auto

lemma length_read_sectors:
  "sectors_ok D \<Longrightarrow> lba + n \<le> TOTAL_SECTORS \<Longrightarrow> length (read_sectors lba n D) = 512 * n"
  by (subst read_sectors_def, subst length_concat_same [where n = 512])
    (auto simp: sectors_ok_def)

lemma sectors_ok_write:
  "sectors_ok D \<Longrightarrow> length buf = 512 * n \<Longrightarrow> sectors_ok (write_sectors lba n buf D)"
  by (auto simp: sectors_ok_def write_sectors_def)

lemma write_one_sector: "length buf = 512 \<Longrightarrow> write_sectors lba 1 buf D = D(lba := buf)"
  by (auto simp: write_sectors_def fun_eq_iff)

lemma write_sectors_below: "s < lba \<Longrightarrow> write_sectors lba n buf D s = D s"
  by (simp add: write_sectors_def)

lemma read_one_sector [simp]: "read_sectors lba (Suc 0) D = D lba"
  by (simp add: read_sectors_def)

lemma concat_slices:
  "length buf = k * n \<Longrightarrow> concat (map (\<lambda>j. subslice (k * j) k buf) [0..<n]) = buf"
proof (induction n arbitrary: buf)
  case 0
  then show ?case by simp
next
  case (Suc n)
  have len: "length (take (k * n) buf) = k * n" using Suc.prems by simp
  have "subslice (k * j) k (take (k * n) buf) = subslice (k * j) k buf" if "j < n" for j
  proof -
    have "k * j + k \<le> k * n" using that mult_le_mono2 [of "Suc j" n k] by simp
    then have "k \<le> k * n - k * j" by simp
    then show ?thesis by (simp add: subslice_def drop_take min_absorb1)
  qed
  then have "map (\<lambda>j. subslice (k * j) k buf) [0..<n] =
      map (\<lambda>j. subslice (k * j) k (take (k * n) buf)) [0..<n]"
    by (intro map_cong) auto
  then have "concat (map (\<lambda>j. subslice (k * j) k buf) [0..<n]) = take (k * n) buf"
    by (simp only: Suc.IH [OF len])
  moreover have "subslice (k * n) k buf = drop (k * n) buf"
    using Suc.prems by (simp add: subslice_def)
  ultimately show ?case by simp
qed

lemma read_sectors_same:
  assumes "length buf = 512 * n"
  shows "read_sectors lba n (write_sectors lba n buf D) = buf"
proof -
  have "map (write_sectors lba n buf D) [lba..<lba + n] =
      map (\<lambda>j. subslice (512 * j) 512 buf) [0..<n]"
    by (rule nth_equalityI) (auto simp: write_sectors_def)
  then show ?thesis by (simp add: read_sectors_def concat_slices assms)
qed

lemma read_sectors_other:
  "lba + n \<le> lba' \<or> lba' + m \<le> lba \<Longrightarrow>
     read_sectors lba n (write_sectors lba' m buf D) = read_sectors lba n D"
  unfolding read_sectors_def by (rule arg_cong [where f = concat]) (auto simp: write_sectors_def)

lemma cluster_lba_bound: "usable c \<Longrightarrow> 81 + (unat c - 2) * 8 + 8 \<le> TOTAL_SECTORS"
  by (auto simp: usable_def)

lemma div_mod_neq_nat: "(a::nat) \<noteq> b \<Longrightarrow> a div k = b div k \<Longrightarrow> a mod k \<noteq> b mod k"
  by (metis div_mult_mod_eq)

lemma slots_disjoint:
  fixes a b k :: nat
  assumes "a \<noteq> b"
  shows "a * k + k \<le> b * k \<or> b * k + k \<le> a * k"
proof (cases "a < b")
  case True
  then show ?thesis using mult_le_mono1 [of "Suc a" b k] by simp
next
  case False
  with assms show ?thesis using mult_le_mono1 [of "Suc b" a k] by simp
qed

lemma sector_fat_write:
  assumes "sectors_ok D" and "unat c < 16384"
  shows "sector_fat (D(Suc (unat c div 256) :=
      copy_into (unat c mod 256 * 2) (to_le 2 v) (D (Suc (unat c div 256))))) = (sector_fat D)(c := v)"
proof
  fix c'
  have len: "length (D (Suc (unat c div 256))) = 512"
    using assms by (simp add: sectors_ok_def)
  have in_sector: "unat x mod 256 * 2 + 2 \<le> 512" for x :: u16
    using mod_less_divisor [of 256 "unat x"] by simp
  have same: "subslice (unat c mod 256 * 2) 2 (copy_into (unat c mod 256 * 2) (to_le 2 v)
      (D (Suc (unat c div 256)))) = to_le 2 v"
    using subslice_copy_same [of "unat c mod 256 * 2" "to_le 2 v"] in_sector [of c] len by simp
  have other: "subslice (unat c' mod 256 * 2) 2 (copy_into (unat c mod 256 * 2) (to_le 2 v)
      (D (Suc (unat c div 256)))) = subslice (unat c' mod 256 * 2) 2 (D (Suc (unat c div 256)))"
    if "c' \<noteq> c" and "unat c' div 256 = unat c div 256"
  proof (rule subslice_copy_disjoint)
    have "unat c' mod 256 \<noteq> unat c mod 256"
      using that by (intro div_mod_neq_nat) (auto simp: word_unat_eq_iff)
    then show "unat c' mod 256 * 2 + 2 \<le> unat c mod 256 * 2 \<or>
        unat c mod 256 * 2 + length (to_le 2 v) \<le> unat c' mod 256 * 2"
      using slots_disjoint [of "unat c' mod 256" "unat c mod 256" 2] by simp
  qed (use in_sector [of c] in_sector [of c'] len in auto)
  show "sector_fat (D(Suc (unat c div 256) :=
      copy_into (unat c mod 256 * 2) (to_le 2 v) (D (Suc (unat c div 256))))) c' =
      ((sector_fat D)(c := v)) c'"
    using same other assms(2) by (auto simp: sector_fat_def)
qed

lemma sector_dir_write:
  assumes "sectors_ok D" and "i < 256" and "dir_ok e"
  shows "sector_dir (D(65 + i div 16 := copy_into (i mod 16 * 32) (dir_bytes e) (D (65 + i div 16)))) =
    (sector_dir D)(i := e)"
proof
  fix j
  have len: "length (D (65 + i div 16)) = 512"
    using assms by (simp add: sectors_ok_def)
  have in_sector: "x mod 16 * 32 + 32 \<le> 512" for x :: nat
    using mod_less_divisor [of 16 x] by simp
  have same: "subslice (i mod 16 * 32) 32 (copy_into (i mod 16 * 32) (dir_bytes e) (D (65 + i div 16)))
      = dir_bytes e"
    using subslice_copy_same [of "i mod 16 * 32" "dir_bytes e"] in_sector [of i] len assms(3)
    by simp
  have other: "subslice (j mod 16 * 32) 32 (copy_into (i mod 16 * 32) (dir_bytes e) (D (65 + i div 16)))
      = subslice (j mod 16 * 32) 32 (D (65 + i div 16))"
    if "j \<noteq> i" and "j div 16 = i div 16"
  proof (rule subslice_copy_disjoint)
    have "j mod 16 \<noteq> i mod 16" using that by (intro div_mod_neq_nat) auto
    then show "j mod 16 * 32 + 32 \<le> i mod 16 * 32 \<or>
        i mod 16 * 32 + length (dir_bytes e) \<le> j mod 16 * 32"
      using slots_disjoint [of "j mod 16" "i mod 16" 32] assms(3) by simp
  qed (use in_sector [of i] in_sector [of j] len assms(3) in auto)
  show "sector_dir (D(65 + i div 16 := copy_into (i mod 16 * 32) (dir_bytes e) (D (65 + i div 16)))) j
      = ((sector_dir D)(i := e)) j"
    using same other assms(2,3) by (auto simp: sector_dir_def dir_roundtrip)
qed

lemma sector_data_write:
  assumes "usable c" and "length buf = 4096"
  shows "sector_data (write_sectors (81 + (unat c - 2) * 8) 8 buf D) = (sector_data D)(c := buf)"
proof
  fix c'
  have "81 + (unat c' - 2) * 8 + 8 \<le> 81 + (unat c - 2) * 8 \<or>
      81 + (unat c - 2) * 8 + 8 \<le> 81 + (unat c' - 2) * 8" if "c' \<noteq> c" and "usable c'"
  proof -
    have "unat c' - 2 \<noteq> unat c - 2"
      using that assms(1) by (auto simp: usable_def word_unat_eq_iff)
    then show ?thesis using slots_disjoint [of "unat c' - 2" "unat c - 2" 8] by auto
  qed
  then show "sector_data (write_sectors (81 + (unat c - 2) * 8) 8 buf D) c' =
      ((sector_data D)(c := buf)) c'"
    using assms by (auto simp: sector_data_def read_sectors_same read_sectors_other)
qed

lemma view_write_fat:
  assumes "sectors_ok D" and "unat c < 16384"
  shows "view (D(Suc (unat c div 256) :=
      copy_into (unat c mod 256 * 2) (to_le 2 v) (D (Suc (unat c div 256))))) =
    (view D)\<lparr>vfat := (vfat (view D))(c := v)\<rparr>"
  using assms
  by (auto simp: view_def sector_fat_write sector_dir_def sector_data_def read_sectors_def fun_eq_iff)

lemma view_write_dir:
  assumes "sectors_ok D" and "i < 256" and "dir_ok e"
  shows "view (D(65 + i div 16 := copy_into (i mod 16 * 32) (dir_bytes e) (D (65 + i div 16)))) =
    (view D)\<lparr>vdir := (vdir (view D))(i := e)\<rparr>"
  using assms
  by (auto simp: view_def sector_dir_write sector_fat_def sector_data_def read_sectors_def fun_eq_iff)

lemma view_write_data:
  assumes "usable c" and "length buf = 4096"
  shows "view (write_sectors (81 + (unat c - 2) * 8) 8 buf D) =
    (view D)\<lparr>vdata := (vdata (view D))(c := buf)\<rparr>"
  using assms
  by (auto simp: view_def sector_data_write sector_fat_def sector_dir_def write_sectors_below fun_eq_iff)


lemma length_vdata: "sectors_ok D \<Longrightarrow> usable c \<Longrightarrow> length (vdata (view D) c) = 4096"
  using length_read_sectors [of D "81 + (unat c - 2) * 8" 8] cluster_lba_bound [of c]
  by (simp add: view_def sector_data_def)

lemma dir_ok_vdir: "sectors_ok D \<Longrightarrow> dir_ok (vdir (view D) i)"
proof -
  assume ok: "sectors_ok D"
  show ?thesis
  proof (cases "i < 256")
    case True
    then have "length (D (65 + i div 16)) = 512" using ok by (simp add: sectors_ok_def)
    moreover have "i mod 16 * 32 + 32 \<le> 512" using mod_less_divisor [of 16 i] by simp
    ultimately have "length (subslice (i mod 16 * 32) 32 (D (65 + i div 16))) = 32" by simp
    with True show ?thesis by (simp add: view_def sector_dir_def dir_ok_dir_of)
  qed (simp add: view_def sector_dir_def)
qed

subsection \<open>The helpers of the file system as volume operations\<close>

context block_device
begin

definition at_dev :: "'d \<Rightarrow> volume \<Rightarrow> bool" where
  "at_dev d V \<longleftrightarrow> ok d \<and> view (disk d) = V"

lemma at_length_vdata: "at_dev d V \<Longrightarrow> usable c \<Longrightarrow> length (vdata V c) = 4096"
  by (auto simp: at_dev_def length_vdata disk_sectors)

lemma at_dir_ok: "at_dev d V \<Longrightarrow> dir_ok (vdir V i)"
  by (auto simp: at_dev_def dir_ok_vdir disk_sectors)

lemma runs_is_ready:
  "ok d \<Longrightarrow> P (Inr True) d \<Longrightarrow> runs_to (is_ready nv) d P"
  using ready [of d] by (simp add: is_ready_def default_nsid_def runs_to_def bind_def ret_def)

lemma runs_read_blocks:
  assumes "ok d" and "0 < count" and "count \<le> 8" and "lba + count \<le> TOTAL_SECTORS"
    and "\<And>d'. ok d' \<Longrightarrow> disk d' = disk d \<Longrightarrow> P (Inr (read_sectors lba count (disk d))) d'"
  shows "runs_to (read_blocks_unlocked nv lba count False) d P"
proof -
  obtain n where n: "default_nsid_op nv d = Some n" using ready [OF assms(1)] by auto
  with read_law [OF assms(1) n assms(2-4)] assms show ?thesis
    by (auto simp: read_blocks_unlocked_def default_nsid_def nvme_read_def runs_to_def bind_def
        ok_or_def ret_def)
qed

lemma runs_write_blocks:
  assumes "ok d" and "0 < count" and "count \<le> 8" and "lba + count \<le> TOTAL_SECTORS"
    and "length buf = 512 * count"
    and "\<And>d'. ok d' \<Longrightarrow> disk d' = write_sectors lba count buf (disk d) \<Longrightarrow> P (Inr ()) d'"
  shows "runs_to (write_blocks_unlocked nv lba count (Some buf)) d P"
proof -
  obtain n where n: "default_nsid_op nv d = Some n" using ready [OF assms(1)] by auto
  with write_law [OF assms(1) n assms(2-5)] assms show ?thesis
    by (auto simp: write_blocks_unlocked_def default_nsid_def nvme_write_def runs_to_def bind_def
        ok_or_def ret_def)
qed

lemma runs_read_block:
  assumes "ok d" and "lba < TOTAL_SECTORS"
    and "\<And>d'. ok d' \<Longrightarrow> disk d' = disk d \<Longrightarrow> P (Inr (disk d lba)) d'"
  shows "runs_to (read_block_unlocked nv lba) d P"
  unfolding read_block_unlocked_def using assms by (intro runs_read_blocks) auto

lemma runs_write_block:
  assumes "ok d" and "lba < TOTAL_SECTORS" and "length buf = 512"
    and "\<And>d'. ok d' \<Longrightarrow> disk d' = (disk d)(lba := buf) \<Longrightarrow> P (Inr ()) d'"
  shows "runs_to (write_block_unlocked nv lba buf) d P"
  unfolding write_block_unlocked_def using assms
  by (intro runs_write_blocks) (auto simp: write_one_sector [unfolded One_nat_def])

lemma runs_read_boot:
  assumes "at_dev d V"
    and "\<And>d'. at_dev d' V \<Longrightarrow> vmagic V = FAT_MAGIC \<Longrightarrow> P (Inr (vboot V)) d'"
    and "\<And>d'. at_dev d' V \<Longrightarrow> vmagic V \<noteq> FAT_MAGIC \<Longrightarrow> P (Inl NotFormatted) d'"
  shows "runs_to (read_boot_sector_unlocked nv) d P"
  using assms
  by (auto simp: read_boot_sector_unlocked_def at_dev_def view_def
      intro!: runs_is_ready runs_read_block)

lemma runs_read_fat:
  assumes "at_dev d V" and "unat c < 16384"
    and "\<And>d'. at_dev d' V \<Longrightarrow> P (Inr (vfat V c)) d'"
  shows "runs_to (read_fat_entry_unlocked nv c) d P"
proof -
  have "unat c div 256 < 64" using assms(2) by auto
  with assms show ?thesis
    by (auto simp: read_fat_entry_unlocked_def at_dev_def view_def sector_fat_def Let_def
        intro!: runs_read_block)
qed

lemma runs_read_fat_out:
  assumes "16384 \<le> unat c" and "P (Inl InvalidArgument) d"
  shows "runs_to (read_fat_entry_unlocked nv c) d P"
proof -
  have "64 \<le> unat c div 256" using assms(1) by auto
  with assms(2) show ?thesis by (simp add: read_fat_entry_unlocked_def)
qed

lemma runs_write_fat:
  assumes "at_dev d V" and "unat c < 16384"
    and "\<And>d'. at_dev d' (V\<lparr>vfat := (vfat V)(c := v)\<rparr>) \<Longrightarrow> P (Inr ()) d'"
  shows "runs_to (write_fat_entry_unlocked nv c v) d P"
proof -
  have sector: "unat c div 256 < 64" using assms(2) by auto
  have len: "length (disk d (Suc (unat c div 256))) = 512"
    using assms(1) disk_sectors [of d] sector by (auto simp: at_dev_def sectors_ok_def)
  have "unat c mod 256 * 2 + 2 \<le> 512" using mod_less_divisor [of 256 "unat c"] by simp
  with sector len assms show ?thesis
    by (auto simp: write_fat_entry_unlocked_def at_dev_def Let_def view_write_fat disk_sectors
        intro!: runs_read_block runs_write_block)
qed

lemma runs_read_dir:
  assumes "at_dev d V" and "i < 256" and "\<And>d'. at_dev d' V \<Longrightarrow> P (Inr (vdir V i)) d'"
  shows "runs_to (read_dir_entry_unlocked nv i) d P"
  using assms
  by (auto simp: read_dir_entry_unlocked_def at_dev_def view_def sector_dir_def Let_def
      intro!: runs_read_block)

lemma runs_write_dir:
  assumes "at_dev d V" and "i < 256" and "dir_ok e"
    and "\<And>d'. at_dev d' (V\<lparr>vdir := (vdir V)(i := e)\<rparr>) \<Longrightarrow> P (Inr ()) d'"
  shows "runs_to (write_dir_entry_unlocked nv i e) d P"
proof -
  have len: "length (disk d (65 + i div 16)) = 512"
    using assms(1,2) disk_sectors [of d] by (auto simp: at_dev_def sectors_ok_def)
  have "i mod 16 * 32 + 32 \<le> 512" using mod_less_divisor [of 16 i] by simp
  with len assms show ?thesis
    by (auto simp: write_dir_entry_unlocked_def at_dev_def Let_def view_write_dir disk_sectors
        intro!: runs_read_block runs_write_block)
qed

lemma runs_read_data:
  assumes "at_dev d V" and "usable c" and "cluster_to_lba c = Some lba"
    and "\<And>d'. at_dev d' V \<Longrightarrow> P (Inr (vdata V c)) d'"
  shows "runs_to (read_blocks_unlocked nv lba SECTORS_PER_CLUSTER False) d P"
  using assms cluster_lba_bound [OF assms(2)]
  by (auto simp: at_dev_def view_def sector_data_def cluster_to_lba_def split: if_splits
      intro!: runs_read_blocks)

lemma runs_write_data:
  assumes "at_dev d V" and "usable c" and "cluster_to_lba c = Some lba" and "length buf = 4096"
    and "\<And>d'. at_dev d' (V\<lparr>vdata := (vdata V)(c := buf)\<rparr>) \<Longrightarrow> P (Inr ()) d'"
  shows "runs_to (write_blocks_unlocked nv lba SECTORS_PER_CLUSTER (Some buf)) d P"
  using assms cluster_lba_bound [OF assms(2)]
  by (auto simp: at_dev_def cluster_to_lba_def view_write_data split: if_splits
      intro!: runs_write_blocks)

end

lemma cluster_to_lba_usable: "usable c \<Longrightarrow> cluster_to_lba c = Some (81 + (unat c - 2) * 8)"
  by (simp add: cluster_to_lba_def usable_def)

end
