(* ===== verification/Fs_Files.thy ===== *)
theory Fs_Files
  imports Fs_Volume
begin

section \<open>Well-formed volumes and the files they hold\<close>

text \<open>
  The abstract specification of the file system: a volume holds a finite map from names to
  byte strings (\<open>files\<close>).  A volume is well formed (\<open>vol_wf\<close>) when every used slot names a
  chain of clusters of the right length that ends in the FAT, when no two used slots share
  a cluster or a name, and when the boot sector is the one the formatter writes.  The lemmas say what freeing, allocating and linking clusters and
  rewriting a slot do to the invariant and to the map.
\<close>

subsection \<open>Definitions\<close>

text \<open>The first \<open>n\<close> clusters of the chain that starts at \<open>x\<close>.\<close>

primrec follow :: "(u16 \<Rightarrow> u16) \<Rightarrow> nat \<Rightarrow> u16 \<Rightarrow> u16 list" where
  "follow F 0 x = []"
| "follow F (Suc n) x = x # follow F n (F x)"

definition chain_ok :: "(u16 \<Rightarrow> u16) \<Rightarrow> u16 list \<Rightarrow> bool" where
  "chain_ok F cs \<longleftrightarrow> (\<forall>c \<in> set cs. usable c) \<and> distinct cs \<and>
     (cs \<noteq> [] \<longrightarrow> F (last cs) \<ge> FAT_ENTRY_RESERVED)"

definition entry_clusters :: "volume \<Rightarrow> FatDirEntry \<Rightarrow> u16 list" where
  "entry_clusters V e =
     follow (vfat V) (clusters_needed (unat (de_size e))) (de_first_cluster e)"

definition entry_ok :: "volume \<Rightarrow> FatDirEntry \<Rightarrow> bool" where
  "entry_ok V e \<longleftrightarrow> name_valid (entry_name e) \<and> chain_ok (vfat V) (entry_clusters V e) \<and>
     (de_size e = 0 \<longrightarrow> de_first_cluster e = 0)"

definition used :: "volume \<Rightarrow> nat \<Rightarrow> bool" where
  "used V i \<longleftrightarrow> i < 256 \<and> de_in_use (vdir V i) = 1"

definition slot_clusters :: "volume \<Rightarrow> nat \<Rightarrow> u16 list" where
  "slot_clusters V i = entry_clusters V (vdir V i)"

definition vol_wf :: "volume \<Rightarrow> bool" where
  "vol_wf V \<longleftrightarrow> vboot V = format_boot_sector \<and>
     (\<forall>i < 256. de_in_use (vdir V i) \<le> 1) \<and>
     (\<forall>i. used V i \<longrightarrow> entry_ok V (vdir V i)) \<and>
     (\<forall>i j. used V i \<and> used V j \<and> i \<noteq> j \<longrightarrow>
        set (slot_clusters V i) \<inter> set (slot_clusters V j) = {} \<and>
        entry_name (vdir V i) \<noteq> entry_name (vdir V j))"

definition entry_bytes :: "volume \<Rightarrow> FatDirEntry \<Rightarrow> bytes" where
  "entry_bytes V e = take (unat (de_size e)) (concat (map (vdata V) (entry_clusters V e)))"

text \<open>The slot \<open>find_file_unlocked\<close> stops at, and the file map.\<close>

definition named :: "volume \<Rightarrow> bytes \<Rightarrow> nat \<Rightarrow> bool" where
  "named V nm i \<longleftrightarrow> de_in_use (vdir V i) = 1 \<and> entry_name (vdir V i) = nm"

definition slot_of :: "volume \<Rightarrow> bytes \<Rightarrow> nat option" where
  "slot_of V nm = find (named V nm) [0..<256]"

definition files :: "volume \<Rightarrow> bytes \<rightharpoonup> bytes" where
  "files V = (\<lambda>nm. map_option (\<lambda>i. entry_bytes V (vdir V i)) (slot_of V nm))"

definition free_slot :: "volume \<Rightarrow> nat option" where
  "free_slot V = find (\<lambda>i. de_in_use (vdir V i) = 0) [0..<256]"

definition free_clusters :: "volume \<Rightarrow> u16 set" where
  "free_clusters V = {c. usable c \<and> vfat V c = 0}"

text \<open>Releasing the clusters of a slot and clearing the slot.\<close>

definition erase_slot :: "nat \<Rightarrow> volume \<Rightarrow> volume" where
  "erase_slot i V = V\<lparr>vfat := (\<lambda>c. if c \<in> set (slot_clusters V i) then 0 else vfat V c),
     vdir := (vdir V)(i := empty_entry)\<rparr>"

definition erase_name :: "bytes \<Rightarrow> volume \<Rightarrow> volume" where
  "erase_name nm V = (case slot_of V nm of None \<Rightarrow> V | Some i \<Rightarrow> erase_slot i V)"

text \<open>\<open>V'\<close> differs from \<open>V\<close> only in the contents and FAT entries of clusters free in \<open>V\<close>.\<close>

definition same_used :: "volume \<Rightarrow> volume \<Rightarrow> bool" where
  "same_used V V' \<longleftrightarrow> vboot V' = vboot V \<and> vdir V' = vdir V \<and>
     (\<forall>c. vfat V c \<noteq> 0 \<longrightarrow> vfat V' c = vfat V c \<and> vdata V' c = vdata V c)"

subsection \<open>Chains\<close>

lemma length_follow [simp, len]: "length (follow F n x) = n"
  by (induction n arbitrary: x) simp_all

lemma usable_range: "usable c \<Longrightarrow> 2 \<le> c \<and> c < 0xFFF0"
  by (auto simp: usable_def word_le_nat_alt word_less_nat_alt)

lemma usable_nonzero: "usable c \<Longrightarrow> c \<noteq> 0"
  by (auto simp: usable_def)

lemma follow_cong: "(\<And>c. c \<in> set (follow F n x) \<Longrightarrow> G c = F c) \<Longrightarrow> follow G n x = follow F n x"
  by (induction n arbitrary: x) simp_all

lemma chain_ok_nonzero: "chain_ok F (follow F n x) \<Longrightarrow> c \<in> set (follow F n x) \<Longrightarrow> F c \<noteq> 0"
proof (induction n arbitrary: x)
  case 0
  then show ?case by simp
next
  case (Suc n)
  show ?case
  proof (cases n)
    case 0
    with Suc.prems show ?thesis by (auto simp: chain_ok_def)
  next
    case (Suc m)
    then have tail: "chain_ok F (follow F n (F x))" and "usable (F x)"
      using \<open>chain_ok F (follow F (Suc n) x)\<close> by (auto simp: chain_ok_def)
    with Suc.IH [OF tail] Suc.prems(2) show ?thesis by (auto dest: usable_nonzero)
  qed
qed

lemma chain_ok_tail: "chain_ok F (x # cs) \<Longrightarrow> cs \<noteq> [] \<Longrightarrow> chain_ok F cs"
  by (auto simp: chain_ok_def)

lemma chain_ok_upd: "chain_ok F cs \<Longrightarrow> x \<notin> set cs \<Longrightarrow> chain_ok (F(x := v)) cs"
  using last_in_set [of cs] by (auto simp: chain_ok_def)

lemma clusters_needed_0 [simp]: "clusters_needed n = 0 \<longleftrightarrow> n = 0" "clusters_needed 0 = 0"
  by (auto simp: clusters_needed_def div_eq_0_iff)

lemma clusters_needed_step:
  "Suc n = clusters_needed m \<Longrightarrow> clusters_needed (m - min m 4096) = n"
proof (cases "m \<le> 4096")
  case True
  assume "Suc n = clusters_needed m"
  moreover from this have "(m + 4095) div 4096 = 1"
    using True by (cases m) (auto simp: clusters_needed_def intro!: div_nat_eqI)
  ultimately show ?thesis using True by (simp add: clusters_needed_def)
next
  case False
  then obtain k where "m = k + 4096" by (metis add.commute le_add_diff_inverse nat_le_linear)
  moreover assume "Suc n = clusters_needed m"
  ultimately show ?thesis by (simp add: clusters_needed_def)
qed

lemma entry_clusters_nonzero:
  "entry_ok V e \<Longrightarrow> c \<in> set (entry_clusters V e) \<Longrightarrow> vfat V c \<noteq> 0"
  unfolding entry_ok_def entry_clusters_def by (blast dest: chain_ok_nonzero)

lemma entry_clusters_usable:
  "entry_ok V e \<Longrightarrow> c \<in> set (entry_clusters V e) \<Longrightarrow> usable c"
  by (simp add: entry_ok_def chain_ok_def)

subsection \<open>Looking up names\<close>

lemma find_upt_Some:
  "find P [0..<n] = Some i \<longleftrightarrow> i < n \<and> P i \<and> (\<forall>j < i. \<not> P j)"
  by (auto simp: find_Some_iff)

lemma find_upt_None: "find P [0..<n] = None \<longleftrightarrow> (\<forall>i < n. \<not> P i)"
  by (auto simp: find_None_iff)

lemma slot_of_SomeD: "slot_of V nm = Some i \<Longrightarrow> used V i \<and> entry_name (vdir V i) = nm"
  by (auto simp: slot_of_def find_upt_Some named_def used_def)

lemma slot_of_None: "slot_of V nm = None \<longleftrightarrow> (\<forall>i. used V i \<longrightarrow> entry_name (vdir V i) \<noteq> nm)"
  by (auto simp: slot_of_def find_upt_None named_def used_def)

lemma vol_wf_names:
  "vol_wf V \<Longrightarrow> used V i \<Longrightarrow> used V j \<Longrightarrow> entry_name (vdir V i) = entry_name (vdir V j) \<Longrightarrow> i = j"
  unfolding vol_wf_def by blast

lemma vol_wf_apart:
  "vol_wf V \<Longrightarrow> used V i \<Longrightarrow> used V j \<Longrightarrow> i \<noteq> j \<Longrightarrow>
     set (slot_clusters V i) \<inter> set (slot_clusters V j) = {}"
  unfolding vol_wf_def by blast

lemma vol_wf_entry: "vol_wf V \<Longrightarrow> used V i \<Longrightarrow> entry_ok V (vdir V i)"
  unfolding vol_wf_def by blast

lemma vol_wf_flags: "vol_wf V \<Longrightarrow> i < 256 \<Longrightarrow> de_in_use (vdir V i) \<le> 1"
  unfolding vol_wf_def by blast

lemma vol_wfI:
  assumes "vboot V = format_boot_sector" and "\<And>i. i < 256 \<Longrightarrow> de_in_use (vdir V i) \<le> 1"
    and "\<And>i. used V i \<Longrightarrow> entry_ok V (vdir V i)"
    and "\<And>i j. used V i \<Longrightarrow> used V j \<Longrightarrow> i \<noteq> j \<Longrightarrow>
      set (slot_clusters V i) \<inter> set (slot_clusters V j) = {}"
    and "\<And>i j. used V i \<Longrightarrow> used V j \<Longrightarrow> i \<noteq> j \<Longrightarrow> entry_name (vdir V i) \<noteq> entry_name (vdir V j)"
  shows "vol_wf V"
  using assms unfolding vol_wf_def by blast

lemma vol_wf_boot: "vol_wf V \<Longrightarrow> vboot V = format_boot_sector"
  by (simp add: vol_wf_def)

lemma vol_wf_magic: "vol_wf V \<Longrightarrow> vmagic V = FAT_MAGIC"
  by (simp add: vol_wf_def format_boot_sector_def)

lemma slot_of_Some_wf:
  assumes "vol_wf V"
  shows "slot_of V nm = Some i \<longleftrightarrow> used V i \<and> entry_name (vdir V i) = nm"
proof
  assume "slot_of V nm = Some i"
  then show "used V i \<and> entry_name (vdir V i) = nm" by (rule slot_of_SomeD)
next
  assume i: "used V i \<and> entry_name (vdir V i) = nm"
  then obtain j where "slot_of V nm = Some j" using slot_of_None [of V nm] by auto
  with i slot_of_SomeD vol_wf_names [OF assms] show "slot_of V nm = Some i" by blast
qed

lemma files_eq:
  assumes "vol_wf V"
  shows "files V nm = Some bs \<longleftrightarrow>
    (\<exists>i. used V i \<and> entry_name (vdir V i) = nm \<and> bs = entry_bytes V (vdir V i))"
  using slot_of_Some_wf [OF assms, of nm] by (auto simp: files_def)

lemma files_None: "files V nm = None \<longleftrightarrow> (\<forall>i. used V i \<longrightarrow> entry_name (vdir V i) \<noteq> nm)"
  by (simp add: files_def slot_of_None)

text \<open>The files of a well-formed volume are determined by its used slots.\<close>

lemma files_ext:
  assumes "vol_wf V"
    and "\<And>nm bs. (\<exists>i. used V i \<and> entry_name (vdir V i) = nm \<and> bs = entry_bytes V (vdir V i)) \<longleftrightarrow>
      m nm = Some bs"
  shows "files V = m"
proof
  fix nm
  show "files V nm = m nm"
  proof (cases "m nm")
    case None
    then have "\<not> (\<exists>bs. files V nm = Some bs)" using assms(2) files_eq [OF assms(1)] by simp
    with None show ?thesis by simp
  next
    case (Some bs)
    with assms(2) [of nm bs] files_eq [OF assms(1), of nm bs] show ?thesis by simp
  qed
qed

subsection \<open>Changes to free clusters\<close>

lemma same_used_clusters:
  assumes "same_used V V'" and "entry_ok V e"
  shows "entry_clusters V' e = entry_clusters V e"
  unfolding entry_clusters_def
  using assms entry_clusters_nonzero [OF assms(2)]
  by (intro follow_cong) (auto simp: same_used_def entry_clusters_def)

lemma same_used_entry:
  assumes "same_used V V'" and "entry_ok V e"
  shows "entry_ok V' e" and "entry_bytes V' e = entry_bytes V e"
proof -
  note cs = same_used_clusters [OF assms]
  have F: "vfat V' c = vfat V c" "vdata V' c = vdata V c" if "c \<in> set (entry_clusters V e)" for c
    using assms entry_clusters_nonzero [OF assms(2) that] by (auto simp: same_used_def)
  show "entry_ok V' e"
    using assms(2) F(1) [OF last_in_set] by (auto simp: entry_ok_def cs chain_ok_def)
  show "entry_bytes V' e = entry_bytes V e"
    using F(2) by (simp add: entry_bytes_def cs cong: map_cong)
qed

lemma same_used_wf:
  assumes "same_used V V'" and "vol_wf V"
  shows "vol_wf V'"
proof -
  have used: "used V' i = used V i" and dir: "vdir V' = vdir V" for i
    using assms(1) by (auto simp: used_def same_used_def)
  have "slot_clusters V' i = slot_clusters V i" if "used V i" for i
    using that assms same_used_clusters by (auto simp: slot_clusters_def dir vol_wf_def)
  with assms show ?thesis
    using same_used_entry(1) [OF assms(1)]
    by (auto simp: vol_wf_def used dir same_used_def)
qed

lemma same_used_files:
  assumes "same_used V V'" and "vol_wf V"
  shows "files V' = files V"
proof
  fix nm
  have "named V' nm = named V nm"
    using assms(1) by (simp add: named_def same_used_def fun_eq_iff)
  then have slot: "slot_of V' nm = slot_of V nm" by (simp add: slot_of_def)
  have "entry_bytes V' (vdir V' i) = entry_bytes V (vdir V i)" if "used V i" for i
    using that assms same_used_entry(2) by (auto simp: same_used_def vol_wf_def)
  then show "files V' nm = files V nm"
    using slot slot_of_SomeD [of V nm] by (cases "slot_of V nm") (auto simp: files_def)
qed

lemma same_used_refl [simp]: "same_used V V"
  by (simp add: same_used_def)

lemma same_used_trans:
  assumes "same_used V V'"
    and "vboot V'' = vboot V'" and "vdir V'' = vdir V'"
    and "\<And>c. vfat V c \<noteq> 0 \<Longrightarrow> vfat V'' c = vfat V' c \<and> vdata V'' c = vdata V' c"
  shows "same_used V V''"
  using assms by (auto simp: same_used_def)

subsection \<open>Erasing a file\<close>

lemma used_erase [simp]: "used (erase_slot i V) j \<longleftrightarrow> used V j \<and> j \<noteq> i"
  by (auto simp: used_def erase_slot_def empty_entry_def)

lemma erase_slot_simps [simp]:
  "vboot (erase_slot i V) = vboot V" "vdata (erase_slot i V) = vdata V"
  "j \<noteq> i \<Longrightarrow> vdir (erase_slot i V) j = vdir V j" "vdir (erase_slot i V) i = empty_entry"
  by (simp_all add: erase_slot_def)

lemma vdir_erase_slot: "vdir (erase_slot i V) j = (if j = i then empty_entry else vdir V j)"
  by simp

lemma erase_other_clusters:
  assumes "vol_wf V" and "used V i" and "used V j" and "j \<noteq> i"
  shows "slot_clusters (erase_slot i V) j = slot_clusters V j"
    and "c \<in> set (slot_clusters V j) \<Longrightarrow> vfat (erase_slot i V) c = vfat V c"
proof -
  have "set (slot_clusters V j) \<inter> set (slot_clusters V i) = {}"
    using assms by (auto simp: vol_wf_def)
  then show F: "vfat (erase_slot i V) c = vfat V c" if "c \<in> set (slot_clusters V j)" for c
    using that by (auto simp: erase_slot_def)
  show "slot_clusters (erase_slot i V) j = slot_clusters V j"
    using F assms(4) unfolding slot_clusters_def entry_clusters_def
    by (simp, intro follow_cong) auto
qed

lemma erase_other_entry:
  assumes "vol_wf V" and "used V i" and "used V j" and "j \<noteq> i"
  shows "entry_ok (erase_slot i V) (vdir V j)"
    and "entry_bytes (erase_slot i V) (vdir V j) = entry_bytes V (vdir V j)"
proof -
  note cs = erase_other_clusters [OF assms]
  have same: "entry_clusters (erase_slot i V) (vdir V j) = entry_clusters V (vdir V j)"
    using cs(1) assms(4) by (simp add: slot_clusters_def)
  have F: "vfat (erase_slot i V) c = vfat V c" if "c \<in> set (entry_clusters V (vdir V j))" for c
    using cs(2) that by (simp add: slot_clusters_def)
  have "entry_ok V (vdir V j)" using assms(1,3) by (simp add: vol_wf_def)
  then show "entry_ok (erase_slot i V) (vdir V j)"
    using F [OF last_in_set] by (auto simp: entry_ok_def same chain_ok_def)
  show "entry_bytes (erase_slot i V) (vdir V j) = entry_bytes V (vdir V j)"
    by (simp add: entry_bytes_def same)
qed

lemma erase_slot_wf:
  assumes "vol_wf V" and "used V i"
  shows "vol_wf (erase_slot i V)"
proof (rule vol_wfI)
  show "vboot (erase_slot i V) = format_boot_sector" using vol_wf_boot [OF assms(1)] by simp
  show "de_in_use (vdir (erase_slot i V) j) \<le> 1" if "j < 256" for j
    using vol_wf_flags [OF assms(1) that] by (cases "j = i") (auto simp: empty_entry_def)
  show "entry_ok (erase_slot i V) (vdir (erase_slot i V) j)" if "used (erase_slot i V) j" for j
    using that erase_other_entry(1) [OF assms] by simp
  fix j k
  assume "used (erase_slot i V) j" and "used (erase_slot i V) k" and "j \<noteq> k"
  then show "set (slot_clusters (erase_slot i V) j) \<inter> set (slot_clusters (erase_slot i V) k) = {}"
    and "entry_name (vdir (erase_slot i V) j) \<noteq> entry_name (vdir (erase_slot i V) k)"
    using vol_wf_apart [OF assms(1)] vol_wf_names [OF assms(1)]
    by (auto simp: erase_other_clusters(1) [OF assms])
qed

lemma erase_slot_files:
  assumes "vol_wf V" and "used V i"
  shows "files (erase_slot i V) = (files V)(entry_name (vdir V i) := None)"
proof (rule files_ext [OF erase_slot_wf [OF assms]])
  fix nm bs
  show "(\<exists>j. used (erase_slot i V) j \<and> entry_name (vdir (erase_slot i V) j) = nm \<and>
        bs = entry_bytes (erase_slot i V) (vdir (erase_slot i V) j)) \<longleftrightarrow>
      ((files V)(entry_name (vdir V i) := None)) nm = Some bs"
  proof (cases "nm = entry_name (vdir V i)")
    case True
    then show ?thesis using vol_wf_names [OF assms(1) _ assms(2)] by auto
  next
    case False
    show ?thesis
      unfolding fun_upd_other [OF False] files_eq [OF assms(1)]
      using False erase_other_entry(2) [OF assms]
      by (intro ex_cong1) (auto simp: vdir_erase_slot)
  qed
qed

lemma erase_name_wf: "vol_wf V \<Longrightarrow> vol_wf (erase_name nm V)"
  by (auto simp: erase_name_def erase_slot_wf dest: slot_of_SomeD split: option.split)

lemma erase_name_files:
  assumes "vol_wf V"
  shows "files (erase_name nm V) = (files V)(nm := None)"
proof (cases "slot_of V nm")
  case None
  then show ?thesis by (simp add: erase_name_def files_def fun_upd_idem)
next
  case (Some i)
  then show ?thesis
    using slot_of_SomeD [OF Some] erase_slot_files [OF assms, of i] by (simp add: erase_name_def)
qed

subsection \<open>Adding a file\<close>

lemma add_entry_wf:
  assumes "vol_wf V" and "i < 256" and "de_in_use (vdir V i) = 0"
    and "entry_ok V e" and "de_in_use e = 1" and "files V (entry_name e) = None"
    and "\<And>j. used V j \<Longrightarrow> set (slot_clusters V j) \<inter> set (entry_clusters V e) = {}"
  defines "V' \<equiv> V\<lparr>vdir := (vdir V)(i := e)\<rparr>"
  shows "vol_wf V'" and "files V' = (files V)(entry_name e \<mapsto> entry_bytes V e)"
proof -
  have used: "used V' j \<longleftrightarrow> used V j \<or> j = i" for j
    using assms(2,3,5) by (auto simp: V'_def used_def)
  have not_i: "\<not> used V i" using assms(3) by (simp add: used_def)
  have clusters: "entry_clusters V' x = entry_clusters V x" for x
    by (simp add: entry_clusters_def V'_def)
  have bytes: "entry_bytes V' x = entry_bytes V x" for x
    unfolding entry_bytes_def clusters by (simp add: V'_def)
  have entry: "entry_ok V' x \<longleftrightarrow> entry_ok V x" for x
    unfolding entry_ok_def clusters by (simp add: V'_def)
  have dir: "vdir V' j = (if j = i then e else vdir V j)" for j by (simp add: V'_def)
  have fresh: "used V j \<Longrightarrow> entry_name (vdir V j) \<noteq> entry_name e" for j
    using assms(6) by (simp add: files_None)
  show wf: "vol_wf V'"
  proof (rule vol_wfI)
    show "vboot V' = format_boot_sector" using vol_wf_boot [OF assms(1)] by (simp add: V'_def)
    show "de_in_use (vdir V' j) \<le> 1" if "j < 256" for j
      using vol_wf_flags [OF assms(1) that] assms(5) by (simp add: dir)
    show "entry_ok V' (vdir V' j)" if "used V' j" for j
      using that vol_wf_entry [OF assms(1)] assms(4) by (auto simp: used dir entry)
    fix j k
    assume jk: "used V' j" "used V' k" "j \<noteq> k"
    show "set (slot_clusters V' j) \<inter> set (slot_clusters V' k) = {}"
      using jk vol_wf_apart [OF assms(1), of j k] assms(7) [of j] assms(7) [of k]
      by (auto simp: used slot_clusters_def clusters dir)
    show "entry_name (vdir V' j) \<noteq> entry_name (vdir V' k)"
      using jk vol_wf_names [OF assms(1)] fresh [of j] fresh [of k] by (auto simp: used dir)
  qed
  show "files V' = (files V)(entry_name e \<mapsto> entry_bytes V e)"
  proof (rule files_ext [OF wf])
    fix nm bs
    show "(\<exists>j. used V' j \<and> entry_name (vdir V' j) = nm \<and> bs = entry_bytes V' (vdir V' j)) \<longleftrightarrow>
        ((files V)(entry_name e \<mapsto> entry_bytes V e)) nm = Some bs"
    proof (cases "nm = entry_name e")
      case True
      then show ?thesis using fresh by (auto simp: used dir bytes)
    next
      case False
      show ?thesis
        unfolding fun_upd_other [OF False] files_eq [OF assms(1)] used dir bytes
        by (rule ex_cong1) (use False not_i in auto)
    qed
  qed
qed

end
