(* ===== verification/Fs_Correct.thy ===== *)
theory Fs_Correct
  imports Fs_Files
begin

section \<open>Correctness of the file system operations\<close>

text \<open>
  On every device that satisfies the \<open>block_device\<close> interface, each operation of \<open>fs.rs\<close>
  returns, keeps the volume well formed and changes the map of files the way its name says:
  the block-level code refines the abstract map \<open>files\<close>.
\<close>

subsection \<open>Searching the directory and the FAT\<close>

lemma upt_split:
  assumes "[m..<n] = ys @ x # zs"
  shows "ys = [m..<x] \<and> m \<le> x \<and> x < n"
proof -
  have len: "length ys < n - m" using arg_cong [OF assms, of length] by simp
  have "x = [m..<n] ! length ys" by (simp add: assms)
  with len have x: "x = m + length ys" by simp
  have "ys = take (length ys) [m..<n]" by (simp add: assms)
  with len x show ?thesis by (simp add: take_upt)
qed

context block_device
begin

lemma runs_find_file:
  assumes "at_dev d V" and "name_valid nm"
    and "\<And>d'. at_dev d' V \<Longrightarrow> P (Inr (map_option (\<lambda>i. (i, vdir V i)) (slot_of V nm))) d'"
  shows "runs_to (find_file_unlocked nv nm) d P"
proof -
  have nm: "\<not> (nm = [] \<or> length nm > 21)" using assms(2) by (simp add: name_valid_def not_less)
  show ?thesis
    unfolding find_file_unlocked_def if_not_P [OF nm]
  proof (rule for_first_rule [where I = "\<lambda>ys d. at_dev d V \<and> (\<forall>i \<in> set ys. \<not> named V nm i)"])
    fix ys i zs s
    assume "[0..<ROOT_DIR_ENTRIES] = ys @ i # zs" and I: "at_dev s V \<and> (\<forall>i \<in> set ys. \<not> named V nm i)"
    then have i: "ys = [0..<i]" "i < 256" by (auto dest: upt_split)
    have found: "P (Inr (Some (i, vdir V i))) d'" if "at_dev d' V" and "named V nm i" for d'
    proof -
      have "slot_of V nm = Some i" using I i that by (simp add: slot_of_def find_upt_Some)
      with assms(3) [OF that(1)] show ?thesis by simp
    qed
    show "runs_to (bind (read_dir_entry_unlocked nv i) (\<lambda>entry.
        if de_in_use entry = 1 \<and> entry_name entry = nm then ret (Some (i, entry)) else ret None)) s
      (\<lambda>r s'. case r of Inl e \<Rightarrow> P (Inl e) s'
        | Inr None \<Rightarrow> at_dev s' V \<and> (\<forall>i \<in> set (ys @ [i]). \<not> named V nm i)
        | Inr (Some y) \<Rightarrow> P (Inr (Some y)) s')"
      using I i found by (auto simp: named_def intro!: runs_read_dir)
  next
    fix s
    assume I: "at_dev s V \<and> (\<forall>i \<in> set [0..<ROOT_DIR_ENTRIES]. \<not> named V nm i)"
    then have "slot_of V nm = None" by (simp add: slot_of_def find_upt_None)
    with assms(3) I show "P (Inr None) s" by force
  qed (use assms(1) in simp)
qed

lemma runs_find_free_slot:
  assumes "at_dev d V" and "\<And>d'. at_dev d' V \<Longrightarrow> P (Inr (free_slot V)) d'"
  shows "runs_to (find_free_dir_slot_unlocked nv) d P"
  unfolding find_free_dir_slot_unlocked_def
proof (rule for_first_rule
    [where I = "\<lambda>ys d. at_dev d V \<and> (\<forall>i \<in> set ys. de_in_use (vdir V i) \<noteq> 0)"])
  fix ys i zs s
  assume "[0..<ROOT_DIR_ENTRIES] = ys @ i # zs"
    and I: "at_dev s V \<and> (\<forall>i \<in> set ys. de_in_use (vdir V i) \<noteq> 0)"
  then have i: "ys = [0..<i]" "i < 256" by (auto dest: upt_split)
  have found: "P (Inr (Some i)) d'" if "at_dev d' V" and "de_in_use (vdir V i) = 0" for d'
  proof -
    have "free_slot V = Some i" using I i that by (simp add: free_slot_def find_upt_Some)
    with assms(2) [OF that(1)] show ?thesis by simp
  qed
  show "runs_to (bind (read_dir_entry_unlocked nv i) (\<lambda>entry.
      if de_in_use entry = 0 then ret (Some i) else ret None)) s
    (\<lambda>r s'. case r of Inl e \<Rightarrow> P (Inl e) s'
      | Inr None \<Rightarrow> at_dev s' V \<and> (\<forall>i \<in> set (ys @ [i]). de_in_use (vdir V i) \<noteq> 0)
      | Inr (Some y) \<Rightarrow> P (Inr (Some y)) s')"
    using I i found by (auto intro!: runs_read_dir)
next
  fix s
  assume I: "at_dev s V \<and> (\<forall>i \<in> set [0..<ROOT_DIR_ENTRIES]. de_in_use (vdir V i) \<noteq> 0)"
  then have "free_slot V = None" by (simp add: free_slot_def find_upt_None)
  with assms(2) I show "P (Inr None) s" by force
qed (use assms(1) in simp)

text \<open>
  Allocation takes the least free cluster.  The scan runs up to \<open>max_cluster\<close> = 65526, past
  the 16384 entries the FAT has, so on a full FAT the entry read fails.
\<close>

lemma runs_alloc_cluster:
  assumes "at_dev d V"
    and "\<And>d' c. at_dev d' (V\<lparr>vfat := (vfat V)(c := 0xFFFF)\<rparr>) \<Longrightarrow> c \<in> free_clusters V \<Longrightarrow>
      (\<And>c'. c' \<in> free_clusters V \<Longrightarrow> c \<le> c') \<Longrightarrow> P (Inr c) d'"
    and "\<And>d'. at_dev d' V \<Longrightarrow> free_clusters V = {} \<Longrightarrow> P (Inl InvalidArgument) d'"
  shows "runs_to (alloc_cluster_unlocked nv) d P"
proof -
  have max: "unat max_cluster = 65526"
    by (simp add: max_cluster_def unat_of_nat)
  define I where "I = (\<lambda>ys d. at_dev d V \<and> (\<forall>i \<in> set ys. i < 16384 \<and> vfat V (word_of_nat i) \<noteq> 0))"
  have below: "unat c < 16384 \<Longrightarrow> \<forall>i \<in> set [2..<x]. i < 16384 \<and> vfat V (word_of_nat i) \<noteq> 0 \<Longrightarrow>
      c \<in> free_clusters V \<Longrightarrow> x \<le> unat c" for c x
    by (rule ccontr) (auto simp: free_clusters_def usable_def not_le Ball_def
        dest!: spec [where x = "unat c"])
  show ?thesis
    unfolding alloc_cluster_unlocked_def runs_to_bind
  proof (rule for_first_rule [where I = I], goal_cases)
    case 1
    then show ?case using assms(1) by (simp add: I_def)
  next
    case (2 ys i zs s)
    then have ys: "ys = [2..<i]" and i: "2 \<le> i" "i < 65527" and at: "at_dev s V"
      and prior: "\<forall>i \<in> set [2..<i]. i < 16384 \<and> vfat V (word_of_nat i) \<noteq> 0"
      by (auto dest!: upt_split simp: max I_def)
    have c: "unat (word_of_nat i :: u16) = i" using i by (simp add: unat_of_nat)
    have least: "word_of_nat i \<le> c'" if "c' \<in> free_clusters V" for c'
      using below [of c' i] prior that by (auto simp: word_le_nat_alt c free_clusters_def usable_def)
    have none: "free_clusters V = {}" if "\<not> i < 16384"
    proof -
      have "c' \<notin> free_clusters V" for c'
        using below [of c' i] prior that by (auto simp: free_clusters_def usable_def)
      then show ?thesis by blast
    qed
    show ?case
    proof (cases "i < 16384")
      case True
      then show ?thesis
        using at prior i assms(2) [OF _ _ least] c
        by (auto simp: Let_def I_def ys free_clusters_def usable_def
            intro!: runs_read_fat runs_write_fat)
    next
      case False
      then show ?thesis
        using assms(3) [OF at none] c by (auto simp: Let_def intro!: runs_read_fat_out)
    qed
  next
    case (3 s)
    then show ?case by (auto simp: I_def max dest!: bspec [where x = 20000])
  qed
qed

subsection \<open>Freeing a chain\<close>

lemma free_chain_unfold:
  "free_cluster_chain_unlocked nv x =
     (if x < 2 \<or> FAT_ENTRY_RESERVED \<le> x then ret ()
      else bind (read_fat_entry_unlocked nv x) (\<lambda>nxt.
        bind (write_fat_entry_unlocked nv x FAT_ENTRY_FREE) (\<lambda>_.
          if FAT_ENTRY_RESERVED \<le> nxt then ret () else free_cluster_chain_unlocked nv nxt)))"
  (is "?l = ?r")
proof
  fix d
  show "?l d = ?r d"
    unfolding free_cluster_chain_unlocked_def prog_loop_unfold [of _ x d]
    by (simp add: bind_def ret_def split: res.split)
qed

lemma runs_free_chain:
  assumes "at_dev d V" and "chain_ok (vfat V) (follow (vfat V) (Suc n) x)"
    and "\<And>d'. at_dev d' (V\<lparr>vfat := (\<lambda>c. if c \<in> set (follow (vfat V) (Suc n) x) then 0 else vfat V c)\<rparr>) \<Longrightarrow>
      P (Inr ()) d'"
  shows "runs_to (free_cluster_chain_unlocked nv x) d P"
  using assms
proof (induction n arbitrary: d V x)
  case 0
  let ?V = "V\<lparr>vfat := (vfat V)(x := 0)\<rparr>"
  from 0 have x: "usable x" and eoc: "vfat V x \<ge> 0xFFF0" by (auto simp: chain_ok_def)
  have "?V = V\<lparr>vfat := (\<lambda>c. if c \<in> set (follow (vfat V) (Suc 0) x) then 0 else vfat V c)\<rparr>"
    by (auto simp: fun_eq_iff)
  with 0 x eoc usable_range [OF x] show ?case
    by (subst free_chain_unfold) (auto simp: usable_def intro!: runs_read_fat runs_write_fat)
next
  case (Suc n)
  define F where "F = (vfat V)(x := 0)"
  let ?cs = "follow (vfat V) (Suc n) (vfat V x)"
  from Suc.prems(2) have x: "usable x" and nxt: "usable (vfat V x)" and notin: "x \<notin> set ?cs"
    and ok: "chain_ok (vfat V) ?cs"
    by (auto simp: chain_ok_def)
  have same: "follow F (Suc n) (vfat V x) = ?cs"
    using notin by (intro follow_cong) (auto simp: F_def)
  have tail: "chain_ok F (follow F (Suc n) (vfat V x))"
    unfolding same unfolding F_def using ok notin by (rule chain_ok_upd)
  have post: "P (Inr ()) d'"
    if "at_dev d' (V\<lparr>vfat := F, vfat := (\<lambda>c. if c \<in> set (follow F (Suc n) (vfat V x)) then 0 else F c)\<rparr>)" for d'
  proof -
    have "(\<lambda>c. if c \<in> set ?cs then 0 else F c) =
        (\<lambda>c. if c \<in> set (follow (vfat V) (Suc (Suc n)) x) then 0 else vfat V c)"
      by (auto simp: fun_eq_iff F_def)
    with that Suc.prems(3) show ?thesis unfolding same by simp
  qed
  have "\<not> vfat V x \<ge> 0xFFF0" using usable_range [OF nxt] by (simp add: not_le)
  moreover have rest: "runs_to (free_cluster_chain_unlocked nv (vfat V x)) d' P"
    if "at_dev d' (V\<lparr>vfat := F\<rparr>)" for d'
    using Suc.IH [of d' "V\<lparr>vfat := F\<rparr>" "vfat V x", OF that] tail post
    by (simp del: follow.simps cong: if_cong)
  ultimately show ?case
    using Suc.prems(1) x usable_range [OF x]
    by (subst free_chain_unfold)
      (auto simp: usable_def F_def intro!: runs_read_fat runs_write_fat)
qed

lemma runs_erase_entry:
  assumes "at_dev d V" and "vol_wf V" and "used V i"
    and "\<And>d'. at_dev d' (erase_slot i V) \<Longrightarrow> P (Inr ()) d'"
  shows "runs_to (erase_entry nv i (vdir V i)) d P"
proof -
  let ?e = "vdir V i"
  have i: "i < 256" using assms(3) by (simp add: used_def)
  have ok: "entry_ok V ?e" using assms(2,3) by (rule vol_wf_entry)
  show ?thesis
  proof (cases "clusters_needed (unat (de_size ?e))")
    case 0
    then have sz: "de_size ?e = 0" by (simp add: unat_eq_0)
    with ok have "de_first_cluster ?e = 0" by (simp add: entry_ok_def)
    moreover have "erase_slot i V = V\<lparr>vdir := (vdir V)(i := empty_entry)\<rparr>"
      by (simp add: erase_slot_def slot_clusters_def entry_clusters_def 0)
    ultimately show ?thesis
      using assms(1,4) i by (auto simp: erase_entry_def intro!: runs_write_dir)
  next
    case (Suc n)
    then have cs: "slot_clusters V i = follow (vfat V) (Suc n) (de_first_cluster ?e)"
      by (simp only: slot_clusters_def entry_clusters_def)
    have chain: "chain_ok (vfat V) (follow (vfat V) (Suc n) (de_first_cluster ?e))"
      using ok by (simp only: entry_ok_def entry_clusters_def Suc)
    then have "2 \<le> de_first_cluster ?e"
      using usable_range by (auto simp: chain_ok_def)
    then show ?thesis
      using assms(1,4) i chain
      by (auto simp: erase_entry_def erase_slot_def cs simp del: follow.simps
          intro!: runs_free_chain runs_write_dir)
  qed
qed

subsection \<open>Reading a chain\<close>

lemma runs_read_clusters:
  assumes "at_dev d V" and "chain_ok (vfat V) (follow (vfat V) n x)"
    and "n = clusters_needed (sz - written)" and "written \<le> sz" and "length result = sz"
    and "\<And>d'. at_dev d' V \<Longrightarrow> P (Inr (take written result
      @ take (sz - written) (concat (map (vdata V) (follow (vfat V) n x))))) d'"
  shows "runs_to (read_clusters nv sz x written result) d P"
  using assms
proof (induction n arbitrary: d x written result)
  case 0
  then have "written = sz" by simp
  with 0 show ?case by (subst read_clusters.simps) simp
next
  case (Suc n)
  let ?to_read = "min (sz - written) 4096"
  let ?result = "copy_into written (subslice 0 ?to_read (vdata V x)) result"
  from Suc.prems(2) have x: "usable x" by (simp add: chain_ok_def)
  have more: "written < sz" using Suc.prems(3,4) by (cases "written = sz") auto
  have n: "n = clusters_needed (sz - (written + ?to_read))"
    using clusters_needed_step [OF Suc.prems(3)] by simp
  have len: "length (vdata V x) = 4096" using Suc.prems(1) x by (rule at_length_vdata)
  have chunk: "length (subslice 0 ?to_read (vdata V x)) = ?to_read" by (simp add: len)
  have len_result: "length ?result = sz"
    using Suc.prems(5) chunk more by (subst length_copy_into) auto
  have filled: "take (written + ?to_read) ?result =
      take written result @ take ?to_read (vdata V x)"
    using Suc.prems(5) more len by (simp add: copy_into_def subslice_def)
  have tail: "chain_ok (vfat V) (follow (vfat V) n (vfat V x))"
    using Suc.prems(2) by (cases n) (auto simp: chain_ok_def)
  have split: "take ?to_read (vdata V x)
      @ take (sz - (written + ?to_read)) (concat (map (vdata V) (follow (vfat V) n (vfat V x))))
    = take (sz - written) (concat (map (vdata V) (follow (vfat V) (Suc n) x)))"
    by (simp add: len min_def)
  have rest: "runs_to (read_clusters nv sz (vfat V x) (written + ?to_read) ?result) d' P"
    if "at_dev d' V" for d'
    using that tail n _ len_result
  proof (rule Suc.IH)
    show "P (Inr (take (written + ?to_read) ?result @ take (sz - (written + ?to_read))
        (concat (map (vdata V) (follow (vfat V) n (vfat V x)))))) d''" if "at_dev d'' V" for d''
      unfolding filled append_assoc split using that by (rule Suc.prems(6))
  qed (use more in simp)
  show ?case
    using Suc.prems(1) x more usable_range [OF x] rest cluster_to_lba_usable [OF x]
    by (subst read_clusters.simps)
      (auto simp: usable_def Let_def intro!: runs_read_data [unfolded SECTORS_PER_CLUSTER_def] runs_read_fat)
qed

subsection \<open>Read, delete and list\<close>

lemma runs_read_file:
  assumes "at_dev d V" and "vol_wf V" and "name_valid nm"
    and "\<And>d'. at_dev d' V \<Longrightarrow>
      P (case files V nm of None \<Rightarrow> Inl FileNotFound | Some bs \<Rightarrow> Inr bs) d'"
  shows "runs_to (read_file_unlocked nv nm) d P"
proof (cases "slot_of V nm")
  case None
  then show ?thesis
    using assms by (auto simp: read_file_unlocked_def files_def intro!: runs_find_file)
next
  case (Some i)
  let ?e = "vdir V i"
  have ok: "entry_ok V ?e" using slot_of_SomeD [OF Some] vol_wf_entry [OF assms(2)] by blast
  have files: "files V nm = Some (entry_bytes V ?e)" by (simp add: files_def Some)
  show ?thesis
  proof (cases "unat (de_size ?e) = 0")
    case True
    with assms files Some show ?thesis
      by (auto simp: read_file_unlocked_def entry_bytes_def intro!: runs_find_file)
  next
    case False
    have chain: "chain_ok (vfat V) (follow (vfat V) (clusters_needed (unat (de_size ?e))) (de_first_cluster ?e))"
      using ok by (simp only: entry_ok_def entry_clusters_def)
    show ?thesis
      using assms(1,3,4) False Some files
      by (auto simp: read_file_unlocked_def Let_def entry_bytes_def entry_clusters_def
          intro!: runs_find_file runs_read_clusters chain)
  qed
qed

lemma runs_delete_file:
  assumes "at_dev d V" and "vol_wf V" and "name_valid nm"
    and "\<And>d'. at_dev d' (erase_name nm V) \<Longrightarrow>
      P (if files V nm = None then Inl FileNotFound else Inr ()) d'"
  shows "runs_to (delete_file_unlocked nv nm) d P"
  using assms slot_of_SomeD [of V nm]
  by (cases "slot_of V nm")
    (auto simp: delete_file_unlocked_def files_def erase_name_def
      intro!: runs_find_file runs_erase_entry)

lemma runs_list_entries:
  assumes "at_dev d V" and "set is \<subseteq> {..<256}"
    and "\<And>d'. at_dev d' V \<Longrightarrow>
      P (Inr (map (\<lambda>i. public_entry (vdir V i)) (filter (\<lambda>i. de_in_use (vdir V i) = 1) is))) d'"
  shows "runs_to (list_entries nv is) d P"
  using assms
proof (induction "is" arbitrary: d P)
  case Nil
  then show ?case by simp
next
  case (Cons i "is")
  then show ?case by (auto intro!: runs_read_dir Cons.IH)
qed

end

end
