(* ===== verification/Fs_Create.thy ===== *)
theory Fs_Create
  imports Fs_Correct
begin

section \<open>Creating files and formatting\<close>

text \<open>
  \<open>create_file_unlocked\<close> allocates the clusters of a file one by one, links each to its
  predecessor and writes its data before the directory entry is written; the invariant of
  that loop says that everything it has touched was free.  \<open>format_unlocked\<close> is followed at
  the level of sectors.
\<close>

subsection \<open>Definitions\<close>

text \<open>The clusters allocated so far, each linked to the next, the last one marked as the end.\<close>

definition linked :: "(u16 \<Rightarrow> u16) \<Rightarrow> u16 list \<Rightarrow> bool" where
  "linked F cs \<longleftrightarrow> (\<forall>j. Suc j < length cs \<longrightarrow> F (cs ! j) = cs ! Suc j) \<and>
     (cs \<noteq> [] \<longrightarrow> F (last cs) = 0xFFFF)"

text \<open>
  The state of the allocation loop: \<open>V1\<close> is the volume it started from and \<open>cs\<close> the
  clusters it has taken, which hold the first blocks of the data.
\<close>

definition filled :: "bytes \<Rightarrow> volume \<Rightarrow> u16 list \<Rightarrow> volume \<Rightarrow> bool" where
  "filled data V1 cs V \<longleftrightarrow> vboot V = vboot V1 \<and> vdir V = vdir V1 \<and>
     distinct cs \<and> set cs \<subseteq> free_clusters V1 \<and> linked (vfat V) cs \<and>
     (\<forall>c. c \<notin> set cs \<longrightarrow> vfat V c = vfat V1 c \<and> vdata V c = vdata V1 c) \<and>
     (\<forall>j < length cs. vdata V (cs ! j) = cluster_buf data j)"

definition empty_volume :: "(u16 \<Rightarrow> bytes) \<Rightarrow> volume" where
  "empty_volume C = \<lparr> vboot = format_boot_sector,
     vfat = (\<lambda>c. if unat c < 16384 then 0 else 0xFFFF)(0 := 0xFFF8, 1 := 0xFFFF),
     vdir = (\<lambda>_. empty_entry), vdata = C \<rparr>"

subsection \<open>Cutting data into clusters\<close>

lemma clusters_needed_bound: "n \<le> 4096 * clusters_needed n"
  by (simp add: clusters_needed_def)

lemma length_cluster_buf [simp, len]: "length (cluster_buf data i) = 4096"
  by (simp add: cluster_buf_def Let_def)

lemma cluster_buf_padded:
  assumes "i < clusters_needed (length data)"
  defines "padded \<equiv> data @ replicate (4096 * clusters_needed (length data) - length data) 0"
  shows "cluster_buf data i = subslice (4096 * i) 4096 padded"
proof -
  let ?n = "clusters_needed (length data)"
  have fit: "4096 * i + 4096 \<le> 4096 * ?n" using assms(1) by (simp add: mult.commute)
  have "4096 * i < length data"
    using assms(1) by (simp add: clusters_needed_def less_eq_div_iff_mult_less_eq Suc_le_eq)
  then show ?thesis
    using fit clusters_needed_bound [of "length data"]
    by (auto simp: cluster_buf_def Let_def copy_into_def subslice_def padded_def min_def mult.commute
        simp flip: replicate_add)
qed

lemma cluster_bufs_join:
  "take (length data) (concat (map (cluster_buf data) [0..<clusters_needed (length data)])) = data"
proof -
  let ?n = "clusters_needed (length data)"
  let ?padded = "data @ replicate (4096 * ?n - length data) 0"
  have "map (cluster_buf data) [0..<?n] = map (\<lambda>i. subslice (4096 * i) 4096 ?padded) [0..<?n]"
    by (auto simp: cluster_buf_padded)
  moreover have "length ?padded = 4096 * ?n" using clusters_needed_bound [of "length data"] by simp
  ultimately show ?thesis by (simp only: concat_slices) simp
qed

subsection \<open>The allocation loop\<close>

lemma linked_follow: "linked F cs \<Longrightarrow> cs \<noteq> [] \<Longrightarrow> follow F (length cs) (hd cs) = cs"
proof (induction cs)
  case Nil
  then show ?case by simp
next
  case (Cons c cs)
  show ?case
  proof (cases cs)
    case Nil
    then show ?thesis by simp
  next
    case (Cons c' cs')
    have link: "F ((c # cs) ! j) = (c # cs) ! Suc j" if "Suc j < length (c # cs)" for j
      using Cons.prems that by (simp only: linked_def)
    have "linked F cs"
      using Cons.prems(1) link [of "Suc _"] Cons by (auto simp: linked_def)
    moreover have "F c = hd cs" using link [of 0] Cons by simp
    ultimately show ?thesis using Cons.IH Cons by simp
  qed
qed

lemma linked_snoc:
  assumes "linked F cs" and "distinct (cs @ [c])"
  shows "linked (if cs = [] then F(c := 0xFFFF) else (F(c := 0xFFFF))(last cs := c)) (cs @ [c])"
proof (cases cs rule: rev_cases)
  case Nil
  then show ?thesis by (simp add: linked_def)
next
  case (snoc as a)
  have "((F(c := 0xFFFF))(a := c)) ((cs @ [c]) ! j) = (cs @ [c]) ! Suc j"
    if "Suc j < length (cs @ [c])" for j
  proof (cases "j = length as")
    case True
    then show ?thesis by (simp add: snoc nth_append)
  next
    case False
    with that snoc have j: "j < length as" by simp
    then have "as ! j \<noteq> a" "as ! j \<noteq> c" using assms(2) snoc by (auto dest: nth_mem)
    moreover have "F (as ! j) = cs ! Suc j"
      using assms(1) j snoc unfolding linked_def by (auto simp: nth_append dest!: spec [of _ j])
    ultimately show ?thesis using j snoc by (simp add: nth_append)
  qed
  then show ?thesis using snoc assms(2) by (auto simp: linked_def)
qed

lemma filled_Nil [simp]: "filled data V [] V"
  by (simp add: filled_def linked_def)

lemma filled_free: "filled data V1 cs V \<Longrightarrow> free_clusters V = free_clusters V1 - set cs"
proof -
  assume f: "filled data V1 cs V"
  have "vfat V c \<noteq> 0" if "c \<in> set cs" for c
  proof -
    from that obtain j where j: "j < length cs" "c = cs ! j" by (auto simp: in_set_conv_nth)
    show ?thesis
    proof (cases "Suc j < length cs")
      case True
      then have "vfat V c = cs ! Suc j" and "cs ! Suc j \<in> free_clusters V1"
        using f j by (auto simp: filled_def linked_def)
      then show ?thesis by (auto simp: free_clusters_def usable_nonzero)
    next
      case False
      with j have "j = length cs - 1" "cs \<noteq> []" by auto
      then have "c = last cs" using j by (simp add: last_conv_nth)
      with f \<open>cs \<noteq> []\<close> show ?thesis by (simp add: filled_def linked_def)
    qed
  qed
  with f show ?thesis by (auto simp: filled_def free_clusters_def)
qed

lemma filled_same_used: "filled data V1 cs V \<Longrightarrow> same_used V1 V"
  by (auto simp: filled_def same_used_def free_clusters_def)

lemma finite_free_clusters [simp]: "finite (free_clusters V)"
  by (rule finite)

context block_device
begin

lemma runs_create_clusters:
  assumes "at_dev d V" and "filled data V1 cs V"
    and "length cs \<le> n"
    and "\<And>d' V' cs'. at_dev d' V' \<Longrightarrow> filled data V1 cs' V' \<Longrightarrow> length cs' = n \<Longrightarrow>
      P (Inr (if cs' = [] then first else hd cs')) d'"
    and "\<And>d' V' cs'. at_dev d' V' \<Longrightarrow> filled data V1 cs' V' \<Longrightarrow> card (free_clusters V1) < n \<Longrightarrow>
      P (Inl InvalidArgument) d'"
  shows "runs_to (create_clusters nv data [length cs..<n] (if cs = [] then None else Some (last cs))
    (if cs = [] then first else hd cs)) d P"
  using assms(1-3)
proof (induction "n - length cs" arbitrary: d V cs)
  case 0
  then show ?case using assms(4) by simp
next
  case (Suc k)
  let ?prev = "if cs = [] then None else Some (last cs)"
  have more: "length cs < n" using Suc.hyps(2) by simp
  have range: "[length cs..<n] = length cs # [Suc (length cs)..<n]"
    using more by (rule upt_conv_Cons)
  note free = filled_free [OF Suc.prems(2)]
  show ?case
    unfolding range create_clusters.simps runs_to_bind
  proof (rule runs_alloc_cluster [OF Suc.prems(1)], goal_cases)
    case (1 d' c)
    from 1(2) have c: "c \<notin> set cs" "c \<in> free_clusters V1" "usable c"
      unfolding free by (auto simp: free_clusters_def)
    let ?F = "if cs = [] then (vfat V)(c := 0xFFFF) else ((vfat V)(c := 0xFFFF))(last cs := c)"
    let ?V = "V\<lparr>vfat := ?F, vdata := (vdata V)(c := cluster_buf data (length cs))\<rparr>"
    have last: "unat (last cs) < 16384" if "cs \<noteq> []"
      using Suc.prems(2) last_in_set [OF that] by (auto simp: filled_def free_clusters_def usable_def)
    have step: "filled data V1 (cs @ [c]) ?V"
      using Suc.prems(2) c linked_snoc [of "vfat V" cs c]
      by (auto simp: filled_def nth_append less_Suc_eq)
    have rest: "runs_to (create_clusters nv data [Suc (length cs)..<n] (Some c)
        (if length cs = 0 then c else if cs = [] then first else hd cs)) d'' P"
      if "at_dev d'' ?V" for d''
      using Suc.hyps(1) [of "cs @ [c]" d'' ?V] Suc.hyps(2) that step more
      by (cases cs) simp_all
    show ?case
      using 1(1) c rest last cluster_to_lba_usable [OF c(3)]
      by (cases "cs = []")
        (auto intro!: runs_write_fat runs_write_data [OF _ c(3), unfolded SECTORS_PER_CLUSTER_def])
  next
    case (2 d')
    then have "free_clusters V1 \<subseteq> set cs" using free by simp
    then have "card (free_clusters V1) \<le> length cs"
      by (metis List.finite_set card_length card_mono le_trans)
    with more assms(5) [OF 2(1) Suc.prems(2)] show ?case by simp
  qed
qed

lemmas runs_create_all =
  runs_create_clusters [where cs = "[]" and first = 0, OF _ filled_Nil, simplified]

end

lemma card_usable: "card {c :: u16. usable c} = 16382"
proof -
  have "unat ` {c :: u16. usable c} = {2..<16384}"
  proof (intro equalityI subsetI)
    fix n :: nat
    assume "n \<in> {2..<16384}"
    then have "n = unat (word_of_nat n :: u16)" and "usable (word_of_nat n)"
      by (auto simp: usable_def unat_of_nat)
    then show "n \<in> unat ` {c :: u16. usable c}" by blast
  qed (auto simp: usable_def)
  then have "card (unat ` {c :: u16. usable c}) = 16382" by simp
  moreover have "inj_on unat {c :: u16. usable c}" by (auto simp: inj_on_def word_unat_eq_iff)
  ultimately show ?thesis by (simp add: card_image)
qed

lemma card_free_clusters: "card (free_clusters V) \<le> 16382"
  using card_mono [of "{c :: u16. usable c}" "free_clusters V"]
  by (simp add: card_usable free_clusters_def) (auto simp: subset_iff)

text \<open>The entry the filled clusters are given is a well-formed one and holds the data.\<close>

lemma filled_entry:
  assumes "filled data V1 cs V" and "length cs = clusters_needed (length data)"
    and "name_valid nm" and "0 \<notin> set nm"
  defines "e \<equiv> new_entry nm (if cs = [] then 0 else hd cs) data"
  shows "entry_clusters V e = cs" and "entry_ok V e" and "entry_bytes V e = data"
    and "entry_name e = nm"
proof -
  have "length cs = card (set cs)" using assms(1) by (simp add: filled_def distinct_card)
  also have "\<dots> \<le> card (free_clusters V1)" using assms(1) by (intro card_mono) (auto simp: filled_def)
  also have "\<dots> \<le> 16382" by (rule card_free_clusters)
  finally have "clusters_needed (length data) \<le> 16382" using assms(2) by simp
  then have "length data < 2 ^ 32" using clusters_needed_bound [of "length data"] by simp
  then have size: "unat (de_size e) = length data" by (simp add: e_def new_entry_def unat_of_nat)
  have linked: "linked (vfat V) cs" using assms(1) by (simp add: filled_def)
  show clusters: "entry_clusters V e = cs"
    using linked_follow [OF linked] assms(2) size
    by (cases cs) (auto simp: entry_clusters_def e_def new_entry_def simp flip: assms(2))
  show name: "entry_name e = nm"
    using assms(4) by (rule entry_name_name_field) (simp add: e_def new_entry_def)
  have "chain_ok (vfat V) cs"
    using assms(1) linked by (auto simp: chain_ok_def filled_def linked_def free_clusters_def)
  moreover have "de_first_cluster e = 0" if "de_size e = 0"
  proof -
    have "length data = 0" using that size by simp
    then have "cs = []" using assms(2) by simp
    then show ?thesis by (simp add: e_def new_entry_def)
  qed
  ultimately show "entry_ok V e" using assms(3) by (simp add: entry_ok_def name clusters)
  have "map (vdata V) cs = map (cluster_buf data) [0..<clusters_needed (length data)]"
    using assms(1,2) by (intro nth_equalityI) (auto simp: filled_def)
  then show "entry_bytes V e = data"
    by (simp add: entry_bytes_def size clusters cluster_bufs_join)
qed

lemma filled_add_entry:
  assumes "filled data V1 cs V" and "length cs = clusters_needed (length data)"
    and "name_valid nm" and "0 \<notin> set nm" and "vol_wf V1" and "files V1 nm = None"
    and "i < 256" and "de_in_use (vdir V1 i) = 0"
  defines "e \<equiv> new_entry nm (if cs = [] then 0 else hd cs) data"
  shows "vol_wf (V\<lparr>vdir := (vdir V)(i := e)\<rparr>)"
    and "files (V\<lparr>vdir := (vdir V)(i := e)\<rparr>) = (files V1)(nm \<mapsto> data)"
proof -
  note new = filled_entry [OF assms(1-4), folded e_def]
  have same: "same_used V1 V" using assms(1) by (rule filled_same_used)
  have wf: "vol_wf V" using same assms(5) by (rule same_used_wf)
  have files: "files V = files V1" using same assms(5) by (rule same_used_files)
  have used: "used V j = used V1 j" "vdir V = vdir V1" for j
    using same by (auto simp: same_used_def used_def)
  have apart: "set (slot_clusters V j) \<inter> set (entry_clusters V e) = {}" if "used V j" for j
  proof -
    have ok: "entry_ok V1 (vdir V1 j)" using that used vol_wf_entry [OF assms(5)] by simp
    have "slot_clusters V j = entry_clusters V1 (vdir V1 j)"
      using same_used_clusters [OF same ok] used by (simp add: slot_clusters_def)
    moreover have "vfat V1 c \<noteq> 0" if "c \<in> set (entry_clusters V1 (vdir V1 j))" for c
      using entry_clusters_nonzero [OF ok that] .
    ultimately show ?thesis
      using assms(1) by (auto simp: new filled_def free_clusters_def)
  qed
  have free: "de_in_use (vdir V i) = 0" using assms(8) used by simp
  have flag: "de_in_use e = 1" by (simp add: e_def new_entry_def)
  have name: "files V (entry_name e) = None" using assms(6) by (simp add: new files)
  note add = add_entry_wf [OF wf assms(7) free new(2) flag name apart]
  show "vol_wf (V\<lparr>vdir := (vdir V)(i := e)\<rparr>)" by (rule add(1))
  show "files (V\<lparr>vdir := (vdir V)(i := e)\<rparr>) = (files V1)(nm \<mapsto> data)"
    using add(2) by (simp add: new files)
qed

subsection \<open>The whole operation\<close>

lemma free_slot_SomeD: "free_slot V = Some i \<Longrightarrow> i < 256 \<and> de_in_use (vdir V i) = 0"
  by (simp add: free_slot_def find_upt_Some)

lemma dir_ok_new_entry: "name_valid nm \<Longrightarrow> dir_ok (new_entry nm first_cluster data)"
  by (simp add: dir_ok_def new_entry_def)

context block_device
begin

lemma runs_enter_file:
  assumes "at_dev d V" and "filled data V1 cs V" and "length cs = clusters_needed (length data)"
    and "name_valid nm" and "0 \<notin> set nm" and "vol_wf V1" and "files V1 nm = None"
    and "free_slot V1 = Some i"
    and "\<And>d' V'. at_dev d' V' \<Longrightarrow> vol_wf V' \<Longrightarrow> files V' = (files V1)(nm \<mapsto> data) \<Longrightarrow>
      clusters_needed (length data) \<le> card (free_clusters V1) \<Longrightarrow> P (Inr ()) d'"
  shows "runs_to (write_dir_entry_unlocked nv i
    (new_entry nm (if cs = [] then 0 else hd cs) data)) d P"
proof (rule runs_write_dir [OF assms(1)])
  from free_slot_SomeD [OF assms(8)] have i: "i < 256" "de_in_use (vdir V1 i) = 0" by auto
  show "i < 256" by (rule i(1))
  show "dir_ok (new_entry nm (if cs = [] then 0 else hd cs) data)"
    using assms(4) by (rule dir_ok_new_entry)
  note new = filled_add_entry [OF assms(2-7) i]
  have "card (set cs) \<le> card (free_clusters V1)"
    using assms(2) by (intro card_mono) (auto simp: filled_def)
  then have enough: "clusters_needed (length data) \<le> card (free_clusters V1)"
    using assms(2,3) by (simp add: filled_def distinct_card)
  show "P (Inr ()) d'"
    if "at_dev d' (V\<lparr>vdir := (vdir V)(i := new_entry nm (if cs = [] then 0 else hd cs) data)\<rparr>)" for d'
    using that new enough by (rule assms(9))
qed

lemma runs_store_file:
  assumes "at_dev d V1" and "name_valid nm" and "0 \<notin> set nm" and "vol_wf V1"
    and "files V1 nm = None" and "free_slot V1 = Some i"
    and success: "\<And>d' V'. at_dev d' V' \<Longrightarrow> vol_wf V' \<Longrightarrow> files V' = (files V1)(nm \<mapsto> data) \<Longrightarrow>
      clusters_needed (length data) \<le> card (free_clusters V1) \<Longrightarrow> P (Inr ()) d'"
    and failure: "\<And>d' V'. at_dev d' V' \<Longrightarrow> vol_wf V' \<Longrightarrow> files V' = files V1 \<Longrightarrow>
      card (free_clusters V1) < clusters_needed (length data) \<Longrightarrow> P (Inl InvalidArgument) d'"
  shows "runs_to (if data = [] then ret 0
      else create_clusters nv data [0..<clusters_needed (length data)] None 0) d
    (\<lambda>r d'. case r of Inl e \<Rightarrow> P (Inl e) d'
      | Inr first \<Rightarrow> runs_to (write_dir_entry_unlocked nv i (new_entry nm first data)) d' P)"
    (is "runs_to _ d ?Q")
proof -
  have enter: "?Q (Inr (if cs = [] then 0 else hd cs)) d'"
    if "at_dev d' V'" "filled data V1 cs V'" "length cs = clusters_needed (length data)" for d' V' cs
    using runs_enter_file [OF that assms(2-6)] success by simp
  show ?thesis
  proof (cases "data = []")
    case True
    then show ?thesis using enter [OF assms(1) filled_Nil] by simp
  next
    case False
    have "?Q (Inl InvalidArgument) d'"
      if "at_dev d' V'" "filled data V1 cs V'" "card (free_clusters V1) < clusters_needed (length data)"
      for d' V' cs
      using failure [OF that(1) _ _ that(3)] filled_same_used [OF that(2)] assms(4)
      by (auto simp: same_used_wf same_used_files)
    with assms(1) enter
    have "runs_to (create_clusters nv data [0..<clusters_needed (length data)] None 0) d ?Q"
      by (rule runs_create_all)
    with False show ?thesis by simp
  qed
qed

lemma runs_create_file:
  assumes "at_dev d V" and "vol_wf V" and "name_valid nm" and "0 \<notin> set nm"
  defines "V1 \<equiv> erase_name nm V"
  assumes success: "\<And>d' V'. at_dev d' V' \<Longrightarrow> vol_wf V' \<Longrightarrow> files V' = (files V)(nm \<mapsto> data) \<Longrightarrow>
      free_slot V1 \<noteq> None \<Longrightarrow> clusters_needed (length data) \<le> card (free_clusters V1) \<Longrightarrow> P (Inr ()) d'"
    and no_slot: "\<And>d'. at_dev d' V1 \<Longrightarrow> free_slot V1 = None \<Longrightarrow> P (Inl NoSpace) d'"
    and no_cluster: "\<And>d' V'. at_dev d' V' \<Longrightarrow> vol_wf V' \<Longrightarrow> files V' = (files V)(nm := None) \<Longrightarrow>
      free_slot V1 \<noteq> None \<Longrightarrow> card (free_clusters V1) < clusters_needed (length data) \<Longrightarrow>
      P (Inl InvalidArgument) d'"
  shows "runs_to (create_file_unlocked nv nm data) d P"
proof -
  have wf1: "vol_wf V1" and files1: "files V1 = (files V)(nm := None)"
    unfolding V1_def using assms(2) by (rule erase_name_wf, rule erase_name_files)
  have nm: "\<not> (nm = [] \<or> length nm > 21)" using assms(3) by (simp add: name_valid_def not_less)
  have old: "runs_to (case map_option (\<lambda>i. (i, vdir V i)) (slot_of V nm) of None \<Rightarrow> ret ()
        | Some (idx, e) \<Rightarrow> erase_entry nv idx e) d1 Q"
    if "at_dev d1 V" and "\<And>d'. at_dev d' V1 \<Longrightarrow> Q (Inr ()) d'" for d1 Q
    using that assms(2) slot_of_SomeD [of V nm]
    by (auto simp: V1_def erase_name_def split: option.split intro!: runs_erase_entry)
  have clusters: "runs_to (if data = [] then ret 0
        else create_clusters nv data [0..<clusters_needed (length data)] None 0) d2
      (\<lambda>r d3. case r of Inl e \<Rightarrow> P (Inl e) d3
        | Inr first \<Rightarrow> runs_to (write_dir_entry_unlocked nv i (new_entry nm first data)) d3 P)"
    if "at_dev d2 V1" and "free_slot V1 = Some i" for i d2
    using that(1) assms(3,4) wf1 _ that(2)
    by (rule runs_store_file) (use that(2) files1 success no_cluster in auto)
  show ?thesis
    unfolding create_file_unlocked_def if_not_P [OF nm]
    using assms(1,3) vol_wf_magic [OF assms(2)] no_slot clusters
    by (cases "free_slot V1")
      (auto simp del: case_map_option intro!: runs_read_boot [of _ V] runs_find_file [of _ V] old
        runs_find_free_slot [of _ V1])
qed

end

end
