(* ===== verification/Fs_Format.thy ===== *)
theory Fs_Format
  imports Fs_Create
begin

section \<open>Formatting, and freeing chains on arbitrary volumes\<close>

text \<open>
  \<open>format_unlocked\<close> zeroes the FAT and the directory sector by sector, so it is followed on
  the sectors.  The second half needs no well-formedness: \<open>free_cluster_chain_unlocked\<close>
  returns on every volume, chains with cycles and out-of-range links included.
\<close>

subsection \<open>The empty volume\<close>

lemma vol_wf_empty_volume: "vol_wf (empty_volume C)"
  by (rule vol_wfI) (auto simp: empty_volume_def used_def empty_entry_def format_boot_sector_def)

lemma files_empty_volume: "files (empty_volume C) = Map.empty"
proof
  fix nm
  show "files (empty_volume C) nm = None"
    by (simp add: files_None used_def empty_volume_def empty_entry_def)
qed

lemma free_slot_empty_volume: "free_slot (empty_volume C) = Some 0"
  by (simp add: free_slot_def find_upt_Some empty_volume_def empty_entry_def)

lemma free_clusters_empty_volume: "free_clusters (empty_volume C) = {c. usable c}"
  by (auto simp: free_clusters_def empty_volume_def usable_def)

lemma erase_name_empty_volume: "erase_name nm (empty_volume C) = empty_volume C"
  using files_empty_volume [of C] by (auto simp: erase_name_def files_def fun_eq_iff split: option.split)

subsection \<open>Formatting\<close>

lemma boot_ok_format: "boot_ok format_boot_sector"
  by (simp add: boot_ok_def format_boot_sector_def)

lemma subslice_replicate: "off + n \<le> k \<Longrightarrow> subslice off n (replicate k x) = replicate n x"
  by (simp add: subslice_def min_def)

lemma nat_of_le_zero: "nat_of_le (replicate n 0) = 0"
  by (induction n) simp_all

lemma from_le_zero: "from_le (replicate n 0) = 0"
  by (simp add: from_le_def nat_of_le_zero)

lemma dir_of_zero: "dir_of (replicate 32 0) = empty_entry"
  by (simp add: dir_of_def empty_entry_def subslice_replicate from_le_zero)

text \<open>The disk after the boot sector and the first \<open>n\<close> FAT sectors have been written.\<close>

definition zeroed :: "nat \<Rightarrow> nat \<Rightarrow> (nat \<Rightarrow> bytes) \<Rightarrow> nat \<Rightarrow> bytes" where
  "zeroed start n D = (\<lambda>s. if start \<le> s \<and> s < start + n then replicate 512 0 else D s)"

lemma zeroed_0 [simp]: "zeroed start 0 D = D"
  by (auto simp: zeroed_def fun_eq_iff)

lemma zeroed_Suc: "(zeroed start n D)(start + n := replicate 512 0) = zeroed start (Suc n) D"
  by (auto simp: zeroed_def fun_eq_iff)

lemma view_zeroed_fat:
  "vfat (view (zeroed (Suc 0) 64 D)) = (\<lambda>c. if unat c < 16384 then 0 else 0xFFFF)"
proof
  fix c :: u16
  have "unat c mod 256 * 2 + 2 \<le> 512" using mod_less_divisor [of 256 "unat c"] by simp
  moreover have "unat c div 256 < 64" if "unat c < 16384" using that by auto
  ultimately show "vfat (view (zeroed (Suc 0) 64 D)) c = (if unat c < 16384 then 0 else 0xFFFF)"
    by (simp add: view_def sector_fat_def zeroed_def subslice_replicate from_le_zero)
qed

lemma view_zeroed_dir: "view (zeroed 65 16 D) = (view D)\<lparr>vdir := (\<lambda>_. empty_entry)\<rparr>"
proof -
  have dir: "sector_dir (zeroed 65 16 D) i = empty_entry" for i
  proof -
    have "i mod 16 * 32 + 32 \<le> 512" using mod_less_divisor [of 16 i] by simp
    moreover have "i div 16 < 16" if "i < 256" using that by auto
    ultimately show ?thesis
      by (simp add: sector_dir_def zeroed_def subslice_replicate dir_of_zero)
  qed
  have fat: "sector_fat (zeroed 65 16 D) c = sector_fat D c" for c
  proof -
    have "unat c div 256 < 64" if "unat c < 16384" using that by auto
    then show ?thesis by (auto simp: sector_fat_def zeroed_def)
  qed
  have data: "sector_data (zeroed 65 16 D) c = sector_data D c" for c
    by (auto simp: sector_data_def read_sectors_def zeroed_def intro!: arg_cong [of _ _ concat])
  have "zeroed 65 16 D 0 = D 0" by (simp add: zeroed_def)
  then show ?thesis by (simp add: view_def dir fat data fun_eq_iff)
qed

lemma view_other:
  "vboot (view (zeroed (Suc 0) 64 (D(0 := b)))) = boot_of b"
  "vdata (view (zeroed (Suc 0) 64 (D(0 := b)))) = vdata (view D)"
proof -
  show "vboot (view (zeroed (Suc 0) 64 (D(0 := b)))) = boot_of b"
    by (simp add: view_def zeroed_def)
  have "sector_data (zeroed (Suc 0) 64 (D(0 := b))) c = sector_data D c" for c
    by (auto simp: sector_data_def read_sectors_def zeroed_def intro!: arg_cong [of _ _ concat])
  then show "vdata (view (zeroed (Suc 0) 64 (D(0 := b)))) = vdata (view D)"
    by (simp add: view_def fun_eq_iff)
qed

context block_device
begin

lemma runs_zero_sectors:
  assumes "ok d" and "start + n \<le> TOTAL_SECTORS"
    and "\<And>d'. ok d' \<Longrightarrow> disk d' = zeroed start n (disk d) \<Longrightarrow> P (Inr ()) d'"
  shows "runs_to (for_each [0..<n] (\<lambda>i. write_block_unlocked nv (start + i) (replicate BLOCK_SIZE 0))) d P"
proof -
  let ?I = "\<lambda>ys d'. ok d' \<and> disk d' = zeroed start (length ys) (disk d)"
  have "runs_to (for_each [0..<n] (\<lambda>i. write_block_unlocked nv (start + i) (replicate BLOCK_SIZE 0))) d
      (\<lambda>r d'. r = Inr () \<and> ?I [0..<n] d')"
  proof (rule for_each_invariant [where I = ?I])
    fix ys x zs s
    assume "[0..<n] = ys @ x # zs" and I: "?I ys s"
    then have x: "x = length ys" "x < n" by (auto dest: upt_split)
    with assms(2) I show "runs_to (write_block_unlocked nv (start + x) (replicate BLOCK_SIZE 0)) s
        (\<lambda>r s'. r = Inr () \<and> ?I (ys @ [x]) s')"
      by (intro runs_write_block) (auto simp: zeroed_Suc)
  qed (use assms(1) in simp)
  then show ?thesis by (rule runs_to_mono) (use assms(3) in auto)
qed

lemma runs_format:
  assumes "ok d" and "\<And>d'. at_dev d' (empty_volume (vdata (view (disk d)))) \<Longrightarrow> P (Inr ()) d'"
  shows "runs_to (format_unlocked nv) d P"
proof -
  let ?boot = "boot_bytes format_boot_sector"
  let ?D = "zeroed (Suc 0) 64 ((disk d)(0 := ?boot))"
  let ?V = "view ?D"
  let ?V2 = "?V\<lparr>vfat := (vfat ?V)(0 := 0xFFF8, 1 := 0xFFFF)\<rparr>"
  have boot: "length ?boot = 512" using boot_ok_format by simp
  have fats: "vfat ?V = (\<lambda>c. if unat c < 16384 then 0 else 0xFFFF)" by (rule view_zeroed_fat)
  have magic: "boot_of ?boot = format_boot_sector" by (rule boot_roundtrip [OF boot_ok_format])
  have final: "?V2\<lparr>vdir := (\<lambda>_. empty_entry)\<rparr> = empty_volume (vdata (view (disk d)))"
    by (rule volume.equality) (simp_all add: empty_volume_def fats view_other magic)
  have dirs: "runs_to (for_each [0..<ROOT_DIR_SECTORS] (\<lambda>i.
      write_block_unlocked nv (ROOT_DIR_START_LBA + i) (replicate BLOCK_SIZE 0))) d' P"
    if "at_dev d' ?V2" for d'
    using that assms(2) unfolding final [symmetric]
    by (intro runs_zero_sectors) (auto simp: at_dev_def view_zeroed_dir)
  have tables: "runs_to (write_fat_entry_unlocked nv 0 0xFFF8) d' Q"
    if "at_dev d' ?V" and "\<And>d''. at_dev d'' (?V\<lparr>vfat := (vfat ?V)(0 := 0xFFF8)\<rparr>) \<Longrightarrow> Q (Inr ()) d''" for d' Q
    using that by (intro runs_write_fat [of _ ?V]) auto
  have media: "runs_to (write_fat_entry_unlocked nv 1 FAT_ENTRY_EOC) d' Q"
    if "at_dev d' (?V\<lparr>vfat := (vfat ?V)(0 := 0xFFF8)\<rparr>)" and "\<And>d''. at_dev d'' ?V2 \<Longrightarrow> Q (Inr ()) d''" for d' Q
    using that by (intro runs_write_fat [of _ "?V\<lparr>vfat := (vfat ?V)(0 := 0xFFF8)\<rparr>"]) auto
  have fat_zero: "runs_to (for_each [0..<FAT_SECTORS] (\<lambda>i.
      write_block_unlocked nv (FAT_START_LBA + i) (replicate BLOCK_SIZE 0))) d' Q"
    if "ok d'" and "disk d' = (disk d)(0 := ?boot)" and "\<And>d''. at_dev d'' ?V \<Longrightarrow> Q (Inr ()) d''" for d' Q
    using that by (intro runs_zero_sectors) (auto simp: at_dev_def)
  show ?thesis
    unfolding format_unlocked_def write_boot_sector_unlocked_def
    using assms(1) boot
    by (simp only: runs_to_bind runs_to_seq, intro runs_is_ready)
      (auto simp only: sum.case simp_thms if_False runs_to_bind runs_to_seq
          BOOT_SECTOR_LBA_def TOTAL_SECTORS_def zero_less_numeral
        intro!: runs_is_ready runs_write_block fat_zero tables media dirs)
qed

subsection \<open>Freeing terminates on every volume\<close>

text \<open>
  The number of non-free FAT entries falls with every entry the loop clears; an entry that
  is already free sends the loop to cluster 0, where it ends.
\<close>

definition chain_measure :: "u16 \<Rightarrow> 'd \<Rightarrow> nat" where
  "chain_measure x d = 2 * card {c. unat c < 16384 \<and> vfat (view (disk d)) c \<noteq> 0} +
     (if x < 2 then 0 else 1)"

definition only_freed :: "volume \<Rightarrow> volume \<Rightarrow> bool" where
  "only_freed V V' \<longleftrightarrow> vboot V' = vboot V \<and> vdir V' = vdir V \<and> vdata V' = vdata V \<and>
     (\<forall>c. vfat V' c = vfat V c \<or> vfat V' c = 0)"

lemma only_freed_upd: "only_freed W V \<Longrightarrow> only_freed W (V\<lparr>vfat := (vfat V)(x := 0)\<rparr>)"
  by (simp add: only_freed_def)

lemma chain_measure_less:
  assumes "at_dev d V" and "at_dev d' (V\<lparr>vfat := (vfat V)(x := 0)\<rparr>)" and "unat x < 16384"
    and "2 \<le> x"
  shows "chain_measure (vfat V x) d' < chain_measure x d"
proof -
  let ?S = "\<lambda>F. {c. unat c < 16384 \<and> F c \<noteq> (0 :: u16)}"
  have m: "chain_measure y d = 2 * card (?S (vfat V)) + (if y < 2 then 0 else 1)"
    "chain_measure y d' = 2 * card (?S ((vfat V)(x := 0))) + (if y < 2 then 0 else 1)" for y
    using assms(1,2) by (auto simp: chain_measure_def at_dev_def)
  show ?thesis
  proof (cases "vfat V x = 0")
    case True
    then have "(vfat V)(x := 0) = vfat V" by auto
    with True assms(4) show ?thesis by (simp add: m not_less)
  next
    case False
    have "card (?S ((vfat V)(x := 0))) < card (?S (vfat V))"
      by (rule psubset_card_mono) (use False assms(3) in auto)
    with assms(4) show ?thesis by (simp add: m not_less)
  qed
qed

lemma free_chain_returns:
  assumes "ok d"
  shows "runs_to (free_cluster_chain_unlocked nv x) d (\<lambda>r d'. ok d' \<and>
    only_freed (view (disk d)) (view (disk d')) \<and> (r = Inr () \<or> r = Inl InvalidArgument))"
  unfolding free_cluster_chain_unlocked_def
proof (rule prog_loop_rule [where m = chain_measure
      and I = "\<lambda>_ d'. ok d' \<and> only_freed (view (disk d)) (view (disk d'))"], goal_cases)
  case 1
  then show ?case using assms by (simp add: only_freed_def)
next
  case (2 x d1)
  define V where "V = view (disk d1)"
  have at: "at_dev d1 V" and freed: "only_freed (view (disk d)) V"
    using 2 by (auto simp: V_def at_dev_def)
  have freed': "ok d' \<and> only_freed (view (disk d)) (view (disk d'))"
    if "at_dev d' V \<or> at_dev d' (V\<lparr>vfat := (vfat V)(x := 0)\<rparr>)" for d'
    using that freed only_freed_upd [OF freed] by (auto simp: at_dev_def)
  have less: "chain_measure (vfat V x) d' < chain_measure x d1"
    if "at_dev d' (V\<lparr>vfat := (vfat V)(x := 0)\<rparr>)" and "unat x < 16384" and "\<not> x < 2" for d'
    using chain_measure_less [OF at] that by (simp add: not_less)
  show ?case
  proof (cases "unat x < 16384")
    case True
    then show ?thesis
      using at freed' less 2
      by (auto intro!: runs_read_fat [of _ V] runs_write_fat [of _ V])
  next
    case False
    then show ?thesis using 2 by (auto intro!: runs_read_fat_out)
  qed
qed

end

end
