(* ===== verification/Hw.thy ===== *)
theory Hw
  imports Prelude
begin

section \<open>Hardware seen by the processor\<close>

text \<open>
  Everything the drivers reach through raw pointers and port instructions is hardware: RAM
  shared with devices, memory-mapped registers and I/O ports.  It is a parameter of the
  model, a \<open>bus\<close>: reads and writes of a given width at an address change the world \<open>'w\<close>
  (a volatile read may let a device make progress).  \<open>io.rs\<close> and the volatile accesses of
  the drivers are the operations below on top of it.
\<close>

unbundle bit_operations_syntax

record 'w bus =
  bus_read :: "nat \<Rightarrow> nat \<Rightarrow> 'w \<Rightarrow> bytes \<times> 'w"
  bus_write :: "nat \<Rightarrow> bytes \<Rightarrow> 'w \<Rightarrow> 'w"
  port_in :: "u16 \<Rightarrow> nat \<Rightarrow> 'w \<Rightarrow> bytes \<times> 'w"
  port_out :: "u16 \<Rightarrow> bytes \<Rightarrow> 'w \<Rightarrow> 'w"

type_synonym ('w, 'a) io = "('w, unit, 'a) prog"

definition get_bytes :: "'w bus \<Rightarrow> nat \<Rightarrow> nat \<Rightarrow> ('w, 'e, bytes) prog" where
  "get_bytes b addr n = (\<lambda>w. case bus_read b addr n w of (bs, w') \<Rightarrow> Ok bs w')"

definition put_bytes :: "'w bus \<Rightarrow> nat \<Rightarrow> bytes \<Rightarrow> ('w, 'e, unit) prog" where
  "put_bytes b addr bs = (\<lambda>w. Ok () (bus_write b addr bs w))"

text \<open>\<open>read_volatile\<close> and \<open>write_volatile\<close> on \<open>*mut u32\<close>, and the 64-bit store.\<close>

definition read32 :: "'w bus \<Rightarrow> nat \<Rightarrow> ('w, 'e, u32) prog" where
  "read32 b addr = bind (get_bytes b addr 4) (\<lambda>bs. ret (from_le bs))"

definition write32 :: "'w bus \<Rightarrow> nat \<Rightarrow> u32 \<Rightarrow> ('w, 'e, unit) prog" where
  "write32 b addr v = put_bytes b addr (to_le 4 v)"

definition write64 :: "'w bus \<Rightarrow> nat \<Rightarrow> u64 \<Rightarrow> ('w, 'e, unit) prog" where
  "write64 b addr v = put_bytes b addr (to_le 8 v)"

text \<open>The port instructions of \<open>src/src/io.rs\<close>.\<close>

definition inb :: "'w bus \<Rightarrow> u16 \<Rightarrow> ('w, 'e, u8) prog" where
  "inb b port = (\<lambda>w. case port_in b port 1 w of (bs, w') \<Rightarrow> Ok (from_le bs) w')"

definition outb :: "'w bus \<Rightarrow> u16 \<Rightarrow> u8 \<Rightarrow> ('w, 'e, unit) prog" where
  "outb b port v = (\<lambda>w. Ok () (port_out b port (to_le 1 v) w))"

definition inw :: "'w bus \<Rightarrow> u16 \<Rightarrow> ('w, 'e, u16) prog" where
  "inw b port = (\<lambda>w. case port_in b port 2 w of (bs, w') \<Rightarrow> Ok (from_le bs) w')"

definition outw :: "'w bus \<Rightarrow> u16 \<Rightarrow> u16 \<Rightarrow> ('w, 'e, unit) prog" where
  "outw b port v = (\<lambda>w. Ok () (port_out b port (to_le 2 v) w))"

definition inl :: "'w bus \<Rightarrow> u16 \<Rightarrow> ('w, 'e, u32) prog" where
  "inl b port = (\<lambda>w. case port_in b port 4 w of (bs, w') \<Rightarrow> Ok (from_le bs) w')"

definition outl :: "'w bus \<Rightarrow> u16 \<Rightarrow> u32 \<Rightarrow> ('w, 'e, unit) prog" where
  "outl b port v = (\<lambda>w. Ok () (port_out b port (to_le 4 v) w))"

definition io_wait :: "'w bus \<Rightarrow> ('w, 'e, unit) prog" where
  "io_wait b = outb b 0x80 0"

lemma runs_get_bytes [simp]:
  "runs_to (get_bytes b addr n) w P \<longleftrightarrow>
     (case bus_read b addr n w of (bs, w') \<Rightarrow> P (Inr bs) w')"
  by (simp add: get_bytes_def runs_to_def split: prod.split)

lemma runs_put_bytes [simp]:
  "runs_to (put_bytes b addr bs) w P \<longleftrightarrow> P (Inr ()) (bus_write b addr bs w)"
  by (simp add: put_bytes_def runs_to_def)

lemma runs_read32 [simp]:
  "runs_to (read32 b addr) w P \<longleftrightarrow>
     (case bus_read b addr 4 w of (bs, w') \<Rightarrow> P (Inr (from_le bs)) w')"
  by (simp add: read32_def split: prod.split)

lemma runs_write32 [simp]:
  "runs_to (write32 b addr v) w P \<longleftrightarrow> P (Inr ()) (bus_write b addr (to_le 4 v) w)"
  by (simp add: write32_def)

lemma runs_write64 [simp]:
  "runs_to (write64 b addr v) w P \<longleftrightarrow> P (Inr ()) (bus_write b addr (to_le 8 v) w)"
  by (simp add: write64_def)

end
