(* ===== verification/Pci.thy ===== *)
theory Pci
  imports Hw
begin

section \<open>PCI configuration space and the bus scan\<close>

text \<open>
  \<open>src/src/pci.rs\<close>: configuration mechanism 1 over the ports 0xCF8 and 0xCFC, the scan of
  all 256 buses, and the three devices the kernel keeps.  The state is the three globals and
  the world behind the ports.  Console output is not modelled.
\<close>

subsection \<open>Definitions\<close>

abbreviation (input) PCI_CONFIG_ADDRESS :: u16 where "PCI_CONFIG_ADDRESS \<equiv> 0xCF8"
abbreviation (input) PCI_CONFIG_DATA :: u16 where "PCI_CONFIG_DATA \<equiv> 0xCFC"
abbreviation (input) PCI_CLASS_STORAGE :: u8 where "PCI_CLASS_STORAGE \<equiv> 0x01"
abbreviation (input) PCI_SUBCLASS_NVME :: u8 where "PCI_SUBCLASS_NVME \<equiv> 0x08"
abbreviation (input) PCI_PROG_IF_NVME :: u8 where "PCI_PROG_IF_NVME \<equiv> 0x02"
abbreviation (input) PCI_CLASS_SERIAL_BUS :: u8 where "PCI_CLASS_SERIAL_BUS \<equiv> 0x0C"
abbreviation (input) PCI_SUBCLASS_USB :: u8 where "PCI_SUBCLASS_USB \<equiv> 0x03"
abbreviation (input) PCI_PROG_IF_XHCI :: u8 where "PCI_PROG_IF_XHCI \<equiv> 0x30"
abbreviation (input) PCI_CLASS_NETWORK :: u8 where "PCI_CLASS_NETWORK \<equiv> 0x02"
abbreviation (input) PCI_SUBCLASS_ETHERNET :: u8 where "PCI_SUBCLASS_ETHERNET \<equiv> 0x00"

record PciDevice =
  pci_bus :: u8
  pci_device :: u8
  pci_function :: u8
  vendor_id :: u16
  device_id :: u16
  bar0 :: u32
  bar1 :: u32

record 'w pci_state =
  NVME_DEVICE :: "PciDevice option"
  XHCI_DEVICE :: "PciDevice option"
  ETHERNET_DEVICE :: "PciDevice option"
  pci_world :: 'w

type_synonym ('w, 'a) pci = "('w pci_state, unit, 'a) prog"

text \<open>Running an access to the ports on the world of the state.\<close>

definition on_ports :: "('w, unit, 'a) prog \<Rightarrow> ('w, 'a) pci" where
  "on_ports p = (\<lambda>s. case p (pci_world s) of
     Ok x w \<Rightarrow> Ok x (s\<lparr>pci_world := w\<rparr>) | Err e w \<Rightarrow> Err e (s\<lparr>pci_world := w\<rparr>) | Stop \<Rightarrow> Stop)"

definition mmio_bar0 :: "PciDevice \<Rightarrow> u64" where
  "mmio_bar0 device =
     (let base = ucast (bar0 device) AND 0xFFFFFFF0; bar_type = drop_bit 1 (bar0 device) AND 3
      in if bar_type = 2 then base OR push_bit 32 (ucast (bar1 device)) else base)"

definition config_address :: "u8 \<Rightarrow> u8 \<Rightarrow> u8 \<Rightarrow> u8 \<Rightarrow> u32" where
  "config_address bus dev func offset =
     push_bit 16 (ucast bus) OR push_bit 11 (ucast dev) OR push_bit 8 (ucast func)
     OR (ucast offset AND 0xFC) OR 0x80000000"

definition read_config_32 :: "'w bus \<Rightarrow> u8 \<Rightarrow> u8 \<Rightarrow> u8 \<Rightarrow> u8 \<Rightarrow> ('w, u32) pci" where
  "read_config_32 b bus dev func offset =
     seq (on_ports (outl b PCI_CONFIG_ADDRESS (config_address bus dev func offset)))
       (on_ports (inl b PCI_CONFIG_DATA))"

definition read_config_16 :: "'w bus \<Rightarrow> u8 \<Rightarrow> u8 \<Rightarrow> u8 \<Rightarrow> u8 \<Rightarrow> ('w, u16) pci" where
  "read_config_16 b bus dev func offset =
     bind (read_config_32 b bus dev func offset)
       (\<lambda>val. ret (ucast (drop_bit (unat ((offset AND 2) * 8)) val)))"

definition read_config_8 :: "'w bus \<Rightarrow> u8 \<Rightarrow> u8 \<Rightarrow> u8 \<Rightarrow> u8 \<Rightarrow> ('w, u8) pci" where
  "read_config_8 b bus dev func offset =
     bind (read_config_32 b bus dev func offset)
       (\<lambda>val. ret (ucast (drop_bit (unat ((offset AND 3) * 8)) val)))"

definition write_config_32 :: "'w bus \<Rightarrow> u8 \<Rightarrow> u8 \<Rightarrow> u8 \<Rightarrow> u8 \<Rightarrow> u32 \<Rightarrow> ('w, unit) pci" where
  "write_config_32 b bus dev func offset val =
     seq (on_ports (outl b PCI_CONFIG_ADDRESS (config_address bus dev func offset)))
       (on_ports (outl b PCI_CONFIG_DATA val))"

text \<open>
  The three branches of \<open>check_function\<close> read the two BARs, store the device in their
  global (\<open>store\<close>) and enable memory space and bus mastering.
\<close>

definition claim_function ::
  "'w bus \<Rightarrow> u8 \<Rightarrow> u8 \<Rightarrow> u8 \<Rightarrow> u16 \<Rightarrow> u16 \<Rightarrow> (PciDevice \<Rightarrow> 'w pci_state \<Rightarrow> 'w pci_state) \<Rightarrow> ('w, unit) pci"
where
  "claim_function b bus dev func vid did store =
     bind (read_config_32 b bus dev func 0x10) (\<lambda>v0.
     bind (read_config_32 b bus dev func 0x14) (\<lambda>v1.
     seq (\<lambda>s. Ok () (store \<lparr> pci_bus = bus, pci_device = dev, pci_function = func,
            vendor_id = vid, device_id = did, bar0 = v0, bar1 = v1 \<rparr> s))
     (bind (read_config_16 b bus dev func 0x04) (\<lambda>cmd.
        write_config_32 b bus dev func 0x04 (ucast (cmd OR 0x0006))))))"

definition check_function :: "'w bus \<Rightarrow> u8 \<Rightarrow> u8 \<Rightarrow> u8 \<Rightarrow> ('w, unit) pci" where
  "check_function b bus dev func =
     bind (read_config_16 b bus dev func 0x00) (\<lambda>vid.
     if vid = 0xFFFF then ret ()
     else bind (read_config_16 b bus dev func 0x02) (\<lambda>did.
     bind (read_config_8 b bus dev func 0x0B) (\<lambda>class_code.
     bind (read_config_8 b bus dev func 0x0A) (\<lambda>sub_class.
     bind (read_config_8 b bus dev func 0x09) (\<lambda>prog_if.
       if class_code = PCI_CLASS_STORAGE \<and> sub_class = PCI_SUBCLASS_NVME \<and> prog_if = PCI_PROG_IF_NVME
       then claim_function b bus dev func vid did (\<lambda>d s. s\<lparr>NVME_DEVICE := Some d\<rparr>)
       else if class_code = PCI_CLASS_SERIAL_BUS \<and> sub_class = PCI_SUBCLASS_USB \<and> prog_if = PCI_PROG_IF_XHCI
       then claim_function b bus dev func vid did (\<lambda>d s. s\<lparr>XHCI_DEVICE := Some d\<rparr>)
       else if class_code = PCI_CLASS_NETWORK \<and> sub_class = PCI_SUBCLASS_ETHERNET
       then claim_function b bus dev func vid did (\<lambda>d s. s\<lparr>ETHERNET_DEVICE := Some d\<rparr>)
       else ret ())))))"

definition check_device :: "'w bus \<Rightarrow> u8 \<Rightarrow> u8 \<Rightarrow> ('w, unit) pci" where
  "check_device b bus dev =
     bind (read_config_16 b bus dev 0 0x00) (\<lambda>vid.
     if vid = 0xFFFF then ret ()
     else seq (check_function b bus dev 0)
       (bind (read_config_8 b bus dev 0 0x0E) (\<lambda>header_type.
          if header_type AND 0x80 \<noteq> 0 then
            for_each [1..<8] (\<lambda>func.
              bind (read_config_16 b bus dev (word_of_nat func) 0x00) (\<lambda>v.
                if v \<noteq> 0xFFFF then check_function b bus dev (word_of_nat func) else ret ()))
          else ret ())))"

definition scan_bus :: "'w bus \<Rightarrow> ('w, unit) pci" where
  "scan_bus b = for_each [0..<256] (\<lambda>bus. for_each [0..<32] (\<lambda>dev.
     check_device b (word_of_nat bus) (word_of_nat dev)))"

end
