(* ===== verification/Nvme.thy ===== *)
theory Nvme
  imports Pci Fs
begin

section \<open>The NVMe driver\<close>

text \<open>
  \<open>src/src/nvme.rs\<close>: submission and completion queue entries with their byte images, the
  queue structure, initialisation, and the read and write commands the file system issues.
  A queue is passed to and returned from the functions the source hands a pointer to it;
  the world is reached through the bus.  The addresses of the five page-aligned static
  buffers are parameters.  Console output is not modelled.
\<close>

subsection \<open>Structures\<close>

abbreviation (input) NVME_ADMIN_OP_CREATE_IOSQ :: u8 where "NVME_ADMIN_OP_CREATE_IOSQ \<equiv> 0x01"
abbreviation (input) NVME_ADMIN_OP_CREATE_IOCQ :: u8 where "NVME_ADMIN_OP_CREATE_IOCQ \<equiv> 0x05"
abbreviation (input) NVME_ADMIN_OP_IDENTIFY :: u8 where "NVME_ADMIN_OP_IDENTIFY \<equiv> 0x06"
definition NVME_OP_READ :: u8 where "NVME_OP_READ = 0x02"
definition NVME_OP_WRITE :: u8 where "NVME_OP_WRITE = 0x01"

text \<open>Offsets of the registers in \<open>NvmeRegisters\<close>.\<close>

abbreviation (input) REG_CC :: nat where "REG_CC \<equiv> 0x14"
abbreviation (input) REG_CSTS :: nat where "REG_CSTS \<equiv> 0x1C"
abbreviation (input) REG_AQA :: nat where "REG_AQA \<equiv> 0x24"
abbreviation (input) REG_ASQ :: nat where "REG_ASQ \<equiv> 0x28"
abbreviation (input) REG_ACQ :: nat where "REG_ACQ \<equiv> 0x30"

record NvmeSQEntry =
  sq_opcode :: u8
  sq_flags :: u8
  sq_command_id :: u16
  sq_nsid :: u32
  sq_reserved1 :: u64
  sq_metadata_ptr :: u64
  sq_prp1 :: u64
  sq_prp2 :: u64
  sq_cdw10 :: u32
  sq_cdw11 :: u32
  sq_cdw12 :: u32
  sq_cdw13 :: u32
  sq_cdw14 :: u32
  sq_cdw15 :: u32

definition sqe_default :: NvmeSQEntry where
  "sqe_default = \<lparr> sq_opcode = 0, sq_flags = 0, sq_command_id = 0, sq_nsid = 0, sq_reserved1 = 0,
     sq_metadata_ptr = 0, sq_prp1 = 0, sq_prp2 = 0, sq_cdw10 = 0, sq_cdw11 = 0, sq_cdw12 = 0,
     sq_cdw13 = 0, sq_cdw14 = 0, sq_cdw15 = 0 \<rparr>"

definition sqe_bytes :: "NvmeSQEntry \<Rightarrow> bytes" where
  "sqe_bytes e = [sq_opcode e, sq_flags e] @ to_le 2 (sq_command_id e) @ to_le 4 (sq_nsid e)
     @ to_le 8 (sq_reserved1 e) @ to_le 8 (sq_metadata_ptr e) @ to_le 8 (sq_prp1 e)
     @ to_le 8 (sq_prp2 e) @ to_le 4 (sq_cdw10 e) @ to_le 4 (sq_cdw11 e) @ to_le 4 (sq_cdw12 e)
     @ to_le 4 (sq_cdw13 e) @ to_le 4 (sq_cdw14 e) @ to_le 4 (sq_cdw15 e)"

definition sqe_of :: "bytes \<Rightarrow> NvmeSQEntry" where
  "sqe_of bs = \<lparr> sq_opcode = bs ! 0, sq_flags = bs ! 1, sq_command_id = from_le (subslice 2 2 bs),
     sq_nsid = from_le (subslice 4 4 bs), sq_reserved1 = from_le (subslice 8 8 bs),
     sq_metadata_ptr = from_le (subslice 16 8 bs), sq_prp1 = from_le (subslice 24 8 bs),
     sq_prp2 = from_le (subslice 32 8 bs), sq_cdw10 = from_le (subslice 40 4 bs),
     sq_cdw11 = from_le (subslice 44 4 bs), sq_cdw12 = from_le (subslice 48 4 bs),
     sq_cdw13 = from_le (subslice 52 4 bs), sq_cdw14 = from_le (subslice 56 4 bs),
     sq_cdw15 = from_le (subslice 60 4 bs) \<rparr>"

record NvmeCQEntry =
  cq_cdw0 :: u32
  cq_reserved :: u32
  cq_sq_head :: u16
  cq_sq_id :: u16
  cq_command_id :: u16
  cq_status :: u16

definition cqe_of :: "bytes \<Rightarrow> NvmeCQEntry" where
  "cqe_of bs = \<lparr> cq_cdw0 = from_le (subslice 0 4 bs), cq_reserved = from_le (subslice 4 4 bs),
     cq_sq_head = from_le (subslice 8 2 bs), cq_sq_id = from_le (subslice 10 2 bs),
     cq_command_id = from_le (subslice 12 2 bs), cq_status = from_le (subslice 14 2 bs) \<rparr>"

definition cqe_bytes :: "NvmeCQEntry \<Rightarrow> bytes" where
  "cqe_bytes e = to_le 4 (cq_cdw0 e) @ to_le 4 (cq_reserved e) @ to_le 2 (cq_sq_head e)
     @ to_le 2 (cq_sq_id e) @ to_le 2 (cq_command_id e) @ to_le 2 (cq_status e)"

record NvmeQueue =
  q_id :: u16
  q_tail :: u16
  q_head :: u16
  q_size :: u16
  q_phase :: u16
  q_doorbell_tail :: nat
  q_doorbell_head :: nat
  q_sq_base :: nat
  q_cq_base :: nat

definition queue_default :: NvmeQueue where
  "queue_default = \<lparr> q_id = 0, q_tail = 0, q_head = 0, q_size = 0, q_phase = 1,
     q_doorbell_tail = 0, q_doorbell_head = 0, q_sq_base = 0, q_cq_base = 0 \<rparr>"

record NvmeContext =
  ctx_pci_dev :: "PciDevice option"
  ctx_regs :: nat
  admin_queue :: NvmeQueue
  io_queue :: NvmeQueue
  ctx_nsid :: u32

definition NVME_CTX :: NvmeContext where
  "NVME_CTX = \<lparr> ctx_pci_dev = None, ctx_regs = 0, admin_queue = queue_default,
     io_queue = queue_default, ctx_nsid = 0 \<rparr>"

record nvme_buffers =
  ADMIN_SQ_BUFFER :: nat
  ADMIN_CQ_BUFFER :: nat
  IDENTIFY_BUFFER :: nat
  IO_SQ_BUFFER :: nat
  IO_CQ_BUFFER :: nat

subsection \<open>Queues\<close>

text \<open>
  \<open>q.tail += 1\<close> and \<open>q.head += 1\<close> stay below 65536: the queues have 64 entries and both
  indices are reset at the size.
\<close>

definition advance_tail :: "NvmeQueue \<Rightarrow> NvmeQueue" where
  "advance_tail q = (let t = q_tail q + 1 in q\<lparr>q_tail := if t \<ge> q_size q then 0 else t\<rparr>)"

definition advance_head :: "NvmeQueue \<Rightarrow> NvmeQueue" where
  "advance_head q = (let h = q_head q + 1 in
     if h \<ge> q_size q then q\<lparr>q_head := 0, q_phase := if q_phase q = 1 then 0 else 1\<rparr>
     else q\<lparr>q_head := h\<rparr>)"

definition nvme_submit_command :: "'w bus \<Rightarrow> NvmeQueue \<Rightarrow> NvmeSQEntry \<Rightarrow> ('w, NvmeQueue) io" where
  "nvme_submit_command b q cmd =
     seq (put_bytes b (q_sq_base q + unat (q_tail q) * 64) (sqe_bytes cmd))
       (let q' = advance_tail q in
        seq (write32 b (q_doorbell_tail q') (ucast (q_tail q'))) (ret q'))"

definition nvme_wait_for_completion :: "'w bus \<Rightarrow> NvmeQueue \<Rightarrow> u16 \<Rightarrow> ('w, NvmeQueue) io" where
  "nvme_wait_for_completion b q0 cid =
     prog_loop (\<lambda>q.
       bind (get_bytes b (q_cq_base q + unat (q_head q) * 16) 16) (\<lambda>bs.
         let entry = cqe_of bs in
         if cq_status entry AND 1 = q_phase q then
           let q' = advance_head q in
           seq (write32 b (q_doorbell_head q') (ucast (q_head q')))
             (if cq_command_id entry = cid then ret (Inr q') else ret (Inl q'))
         else ret (Inl q)))
       q0"

text \<open>Submitting a command and waiting for the completion with its identifier.\<close>

definition nvme_run :: "'w bus \<Rightarrow> NvmeQueue \<Rightarrow> NvmeSQEntry \<Rightarrow> ('w, NvmeQueue) io" where
  "nvme_run b q cmd =
     bind (nvme_submit_command b q cmd) (\<lambda>q'. nvme_wait_for_completion b q' (sq_command_id cmd))"

subsection \<open>Initialisation\<close>

definition create_iocq_cmd :: "nvme_buffers \<Rightarrow> NvmeSQEntry" where
  "create_iocq_cmd bufs = sqe_default\<lparr> sq_opcode := NVME_ADMIN_OP_CREATE_IOCQ, sq_command_id := 2,
     sq_prp1 := word_of_nat (IO_CQ_BUFFER bufs), sq_cdw10 := push_bit 16 (64 - 1) OR 1, sq_cdw11 := 1 \<rparr>"

definition create_iosq_cmd :: "nvme_buffers \<Rightarrow> NvmeSQEntry" where
  "create_iosq_cmd bufs = sqe_default\<lparr> sq_opcode := NVME_ADMIN_OP_CREATE_IOSQ, sq_command_id := 3,
     sq_prp1 := word_of_nat (IO_SQ_BUFFER bufs), sq_cdw10 := push_bit 16 (64 - 1) OR 1,
     sq_cdw11 := push_bit 16 1 OR 1 \<rparr>"

definition nvme_setup_io_queues :: "'w bus \<Rightarrow> nvme_buffers \<Rightarrow> NvmeContext \<Rightarrow> ('w, NvmeContext) io" where
  "nvme_setup_io_queues b bufs ctx =
     bind (nvme_run b (admin_queue ctx) (create_iocq_cmd bufs)) (\<lambda>aq.
     bind (nvme_run b aq (create_iosq_cmd bufs)) (\<lambda>aq'.
       let db_base = ctx_regs ctx + 0x1000 in
       ret (ctx\<lparr> admin_queue := aq', io_queue := \<lparr> q_id = 1, q_tail = 0, q_head = 0, q_size = 64,
         q_phase = 1, q_doorbell_tail = db_base + 2 * 1 * 4, q_doorbell_head = db_base + 2 * 1 * 4 + 4,
         q_sq_base = IO_SQ_BUFFER bufs, q_cq_base = IO_CQ_BUFFER bufs \<rparr> \<rparr>)))"

definition identify_cmd :: "nvme_buffers \<Rightarrow> NvmeSQEntry" where
  "identify_cmd bufs = sqe_default\<lparr> sq_opcode := NVME_ADMIN_OP_IDENTIFY, sq_command_id := 1,
     sq_prp1 := word_of_nat (IDENTIFY_BUFFER bufs), sq_cdw10 := 1 \<rparr>"

text \<open>The model name is bytes 24 to 63 of the identify data, with trailing blanks removed.\<close>

definition trim_right :: "bytes \<Rightarrow> bytes" where
  "trim_right bs = rev (dropWhile (\<lambda>c. c = 0x20) (rev bs))"

definition nvme_identify_controller ::
  "'w bus \<Rightarrow> nvme_buffers \<Rightarrow> NvmeContext \<Rightarrow> ('w, NvmeContext \<times> bytes) io" where
  "nvme_identify_controller b bufs ctx =
     bind (nvme_run b (admin_queue ctx) (identify_cmd bufs)) (\<lambda>aq.
     bind (get_bytes b (IDENTIFY_BUFFER bufs + 24) 40) (\<lambda>model.
       ret (ctx\<lparr>admin_queue := aq\<rparr>, trim_right model)))"

definition nvme_identify_namespace :: "NvmeContext \<Rightarrow> NvmeContext" where
  "nvme_identify_namespace ctx = ctx\<lparr>ctx_nsid := 1\<rparr>"

definition nvme_bar :: "PciDevice \<Rightarrow> u64" where
  "nvme_bar device = (let bar = ucast (bar0 device) AND 0xFFFFFFF0 in
     if bar1 device \<noteq> 0 then bar OR push_bit 32 (ucast (bar1 device)) else bar)"

text \<open>Waiting for \<open>CSTS.RDY\<close>: \<open>while ready != expected { sleep_stub(1) }\<close>.\<close>

definition wait_ready :: "'w bus \<Rightarrow> nat \<Rightarrow> bool \<Rightarrow> ('w, unit) io" where
  "wait_ready b regs expected =
     prog_loop (\<lambda>_. bind (read32 b (regs + REG_CSTS)) (\<lambda>csts.
       if (csts AND 1 \<noteq> 0) = expected then ret (Inr ()) else ret (Inl ()))) ()"

definition admin_queue_init :: "nat \<Rightarrow> nvme_buffers \<Rightarrow> NvmeQueue" where
  "admin_queue_init regs bufs = \<lparr> q_id = 0, q_tail = 0, q_head = 0, q_size = 64, q_phase = 1,
     q_doorbell_tail = regs + 0x1000, q_doorbell_head = regs + 0x1000 + 4,
     q_sq_base = ADMIN_SQ_BUFFER bufs, q_cq_base = ADMIN_CQ_BUFFER bufs \<rparr>"

definition nvme_init ::
  "'w bus \<Rightarrow> nvme_buffers \<Rightarrow> PciDevice \<Rightarrow> NvmeContext \<Rightarrow> ('w, NvmeContext) io" where
  "nvme_init b bufs device ctx0 =
     (let regs = unat (nvme_bar device) in
      bind (read32 b (regs + REG_CC)) (\<lambda>cc.
      seq (if cc AND 1 \<noteq> 0 then write32 b (regs + REG_CC) (cc AND NOT 1) else ret ())
      (seq (wait_ready b regs False)
      (seq (write32 b (regs + REG_AQA) (push_bit 16 (64 - 1) OR (64 - 1)))
      (seq (put_bytes b (ADMIN_SQ_BUFFER bufs) (replicate 4096 0))
      (seq (put_bytes b (ADMIN_CQ_BUFFER bufs) (replicate 4096 0))
      (seq (write64 b (regs + REG_ASQ) (word_of_nat (ADMIN_SQ_BUFFER bufs)))
      (seq (write64 b (regs + REG_ACQ) (word_of_nat (ADMIN_CQ_BUFFER bufs)))
      (seq (write32 b (regs + REG_CC) (push_bit 20 4 OR push_bit 16 6 OR 1))
      (seq (wait_ready b regs True)
      (bind (nvme_identify_controller b bufs (ctx0\<lparr> ctx_pci_dev := Some device, ctx_regs := regs,
               admin_queue := admin_queue_init regs bufs \<rparr>)) (\<lambda>(ctx1, model).
       bind (nvme_setup_io_queues b bufs ctx1) (\<lambda>ctx2.
         ret (nvme_identify_namespace ctx2))))))))))))))"

subsection \<open>Commands\<close>

definition rw_cmd :: "u8 \<Rightarrow> u16 \<Rightarrow> u32 \<Rightarrow> u64 \<Rightarrow> nat \<Rightarrow> u32 \<Rightarrow> NvmeSQEntry" where
  "rw_cmd opcode cid nsid lba buffer count = sqe_default\<lparr> sq_opcode := opcode, sq_command_id := cid,
     sq_nsid := nsid, sq_prp1 := word_of_nat buffer, sq_cdw10 := ucast lba,
     sq_cdw11 := ucast (drop_bit 32 lba), sq_cdw12 := (count - 1) AND 0xFFFF \<rparr>"

definition on_io_queue :: "'w bus \<Rightarrow> NvmeSQEntry \<Rightarrow> NvmeContext \<Rightarrow> ('w, NvmeContext) io" where
  "on_io_queue b cmd ctx = bind (nvme_run b (io_queue ctx) cmd) (\<lambda>q. ret (ctx\<lparr>io_queue := q\<rparr>))"

text \<open>Both transfers return 0; the status field of the completion is not looked at.\<close>

definition nvme_read_cmd ::
  "'w bus \<Rightarrow> u32 \<Rightarrow> u64 \<Rightarrow> nat \<Rightarrow> u32 \<Rightarrow> NvmeContext \<Rightarrow> ('w, int \<times> NvmeContext) io" where
  "nvme_read_cmd b nsid lba buffer count ctx =
     bind (on_io_queue b (rw_cmd NVME_OP_READ 100 nsid lba buffer count) ctx) (\<lambda>ctx'. ret (0, ctx'))"

definition nvme_write_cmd ::
  "'w bus \<Rightarrow> u32 \<Rightarrow> u64 \<Rightarrow> nat \<Rightarrow> u32 \<Rightarrow> NvmeContext \<Rightarrow> ('w, int \<times> NvmeContext) io" where
  "nvme_write_cmd b nsid lba buffer count ctx =
     bind (on_io_queue b (rw_cmd NVME_OP_WRITE 101 nsid lba buffer count) ctx) (\<lambda>ctx'. ret (0, ctx'))"

definition nvme_default_nsid :: "NvmeContext \<Rightarrow> u32 option" where
  "nvme_default_nsid ctx =
     (if ctx_regs ctx = 0 \<or> q_size (io_queue ctx) = 0 \<or> ctx_nsid ctx = 0 then None
      else Some (ctx_nsid ctx))"

text \<open>\<open>shutdown\<close>: the poll gives up after 10000001 reads.\<close>

function shutdown_poll :: "'w bus \<Rightarrow> nat \<Rightarrow> nat \<Rightarrow> ('w, unit) io" where
  "shutdown_poll b regs timeout =
     bind (read32 b (regs + REG_CSTS)) (\<lambda>csts.
       if drop_bit 2 csts AND 3 = 2 then ret ()
       else if timeout + 1 > 10000000 then ret () else shutdown_poll b regs (timeout + 1))"
  by pat_completeness auto
termination by (relation "measure (\<lambda>(b, regs, timeout). 10000000 - timeout)") auto

declare shutdown_poll.simps [simp del]

definition nvme_shutdown :: "'w bus \<Rightarrow> NvmeContext \<Rightarrow> ('w, unit) io" where
  "nvme_shutdown b ctx =
     (if ctx_regs ctx = 0 then ret ()
      else bind (read32 b (ctx_regs ctx + REG_CC)) (\<lambda>cc.
        seq (write32 b (ctx_regs ctx + REG_CC) ((cc AND NOT (push_bit 14 3)) OR push_bit 14 1))
          (shutdown_poll b (ctx_regs ctx) 0)))"

subsection \<open>The driver as the file system calls it\<close>

text \<open>
  The file system's sector buffers are local arrays and vectors; \<open>buf\<close> is the address of
  the one in use.  A write stores the data there before the call, a read takes it from
  there afterwards.
\<close>

type_synonym 'w nvme_dev = "NvmeContext \<times> 'w"

definition nvme_fs_read ::
  "'w bus \<Rightarrow> nat \<Rightarrow> u32 \<Rightarrow> nat \<Rightarrow> nat \<Rightarrow> 'w nvme_dev \<Rightarrow> (int \<times> bytes \<times> 'w nvme_dev) option" where
  "nvme_fs_read b buf nsid lba count = (\<lambda>(ctx, w).
     case nvme_read_cmd b nsid (word_of_nat lba) buf (word_of_nat count) ctx w of
       Ok (status, ctx') w' \<Rightarrow>
         (case bus_read b buf (512 * count) w' of (bs, w'') \<Rightarrow> Some (status, bs, ctx', w''))
     | _ \<Rightarrow> None)"

definition nvme_fs_write ::
  "'w bus \<Rightarrow> nat \<Rightarrow> u32 \<Rightarrow> nat \<Rightarrow> bytes \<Rightarrow> nat \<Rightarrow> 'w nvme_dev \<Rightarrow> (int \<times> 'w nvme_dev) option" where
  "nvme_fs_write b buf nsid lba data count = (\<lambda>(ctx, w).
     case nvme_write_cmd b nsid (word_of_nat lba) buf (word_of_nat count) ctx (bus_write b buf data w) of
       Ok (status, ctx') w' \<Rightarrow> Some (status, ctx', w')
     | _ \<Rightarrow> None)"

definition nvme_fs_ops :: "'w bus \<Rightarrow> nat \<Rightarrow> 'w nvme_dev nvme_ops" where
  "nvme_fs_ops b buf = \<lparr> default_nsid_op = (\<lambda>(ctx, w). nvme_default_nsid ctx),
     nvme_read_op = nvme_fs_read b buf, nvme_write_op = nvme_fs_write b buf \<rparr>"

subsection \<open>Byte images\<close>

lemma length_sqe_bytes [simp, len]: "length (sqe_bytes e) = 64"
  by (simp add: sqe_bytes_def)

lemma sqe_roundtrip: "sqe_of (sqe_bytes e) = e"
  by (simp add: sqe_of_def sqe_bytes_def subslice_def nth_append)

lemma cqe_roundtrip: "cqe_of (cqe_bytes e) = e"
  by (simp add: cqe_of_def cqe_bytes_def subslice_def)

end
