(* ===== verification/Nvme_Block.thy ===== *)
theory Nvme_Block
  imports Nvme Fs_Volume
begin

section \<open>The NVMe driver provides the block device\<close>

text \<open>
  The contract of an NVMe controller for one I/O queue pair, from the NVMe base
  specification, as the locale \<open>nvme_controller\<close>: what the stores, doorbells and polls of the
  driver do to the controller's view of the world.  Under it the driver of \<open>Nvme\<close> satisfies
  the interface \<open>block_device\<close> of the file system (\<open>sublocale\<close>): every transfer is completed,
  the phase tag and the ring indices stay in step with the controller across wrap-around,
  and the data moves between the disk and the file system's buffer.  The controller
  \<open>sim_bus\<close> is a concrete one that satisfies the contract.
\<close>

subsection \<open>The controller's view\<close>

record hw_view =
  hv_disk :: "nat \<Rightarrow> bytes"
  hv_slot :: "nat \<Rightarrow> NvmeSQEntry"
  hv_buf :: bytes
  hv_pending :: "NvmeSQEntry option"
  hv_sqh :: nat
  hv_cqt :: nat
  hv_phase :: u16

record queue_layout =
  ly_sq :: nat
  ly_cq :: nat
  ly_tail_db :: nat
  ly_head_db :: nat
  ly_buf :: nat

text \<open>
  One read or write of at most eight sectors between the disk and the page at PRP1.
\<close>

definition cmd_lba :: "NvmeSQEntry \<Rightarrow> nat" where
  "cmd_lba cmd = unat (sq_cdw10 cmd) + 2 ^ 32 * unat (sq_cdw11 cmd)"

definition cmd_count :: "NvmeSQEntry \<Rightarrow> nat" where
  "cmd_count cmd = unat (sq_cdw12 cmd AND 0xFFFF) + 1"

definition cmd_ok :: "queue_layout \<Rightarrow> NvmeSQEntry \<Rightarrow> bool" where
  "cmd_ok ly cmd \<longleftrightarrow> unat (sq_prp1 cmd) = ly_buf ly \<and> cmd_count cmd \<le> 8 \<and>
     cmd_lba cmd + cmd_count cmd \<le> TOTAL_SECTORS \<and>
     (sq_opcode cmd = NVME_OP_READ \<or> sq_opcode cmd = NVME_OP_WRITE)"

definition io_execute :: "NvmeSQEntry \<Rightarrow> hw_view \<Rightarrow> hw_view" where
  "io_execute cmd v =
     (if sq_opcode cmd = NVME_OP_READ
      then v\<lparr>hv_buf := copy_into 0 (read_sectors (cmd_lba cmd) (cmd_count cmd) (hv_disk v)) (hv_buf v)\<rparr>
      else v\<lparr>hv_disk := write_sectors (cmd_lba cmd) (cmd_count cmd)
               (take (512 * cmd_count cmd) (hv_buf v)) (hv_disk v)\<rparr>)"

definition post_completion :: "hw_view \<Rightarrow> hw_view" where
  "post_completion v = v\<lparr>hv_pending := None, hv_cqt := (hv_cqt v + 1) mod 64,
     hv_phase := if hv_cqt v = 63 then 1 - hv_phase v else hv_phase v\<rparr>"

subsection \<open>The contract\<close>

locale nvme_controller =
  fixes b :: "'w bus" and hw_ok :: "'w \<Rightarrow> bool" and hv :: "'w \<Rightarrow> hw_view" and delay :: "'w \<Rightarrow> nat"
    and ly :: queue_layout
  assumes sectors: "hw_ok w \<Longrightarrow> sectors_ok (hv_disk (hv w))"
    and page: "hw_ok w \<Longrightarrow> length (hv_buf (hv w)) = 4096"
    and buf_addr: "ly_buf ly < 2 ^ 64"
    and submit: "hw_ok w \<Longrightarrow> i < 64 \<Longrightarrow>
      hw_ok (bus_write b (ly_sq ly + i * 64) (sqe_bytes e) w) \<and>
      hv (bus_write b (ly_sq ly + i * 64) (sqe_bytes e) w) = (hv w)\<lparr>hv_slot := (hv_slot (hv w))(i := e)\<rparr>"
    and ring: "hw_ok w \<Longrightarrow> hv_pending (hv w) = None \<Longrightarrow> v = word_of_nat ((hv_sqh (hv w) + 1) mod 64) \<Longrightarrow>
      hw_ok (bus_write b (ly_tail_db ly) (to_le 4 (v :: u32)) w) \<and>
      hv (bus_write b (ly_tail_db ly) (to_le 4 v) w) =
        (hv w)\<lparr>hv_pending := Some (hv_slot (hv w) (hv_sqh (hv w))), hv_sqh := (hv_sqh (hv w) + 1) mod 64\<rparr>"
    and poll: "hw_ok w \<Longrightarrow> hv_pending (hv w) = Some cmd \<Longrightarrow> cmd_ok ly cmd \<Longrightarrow>
      bus_read b (ly_cq ly + hv_cqt (hv w) * 16) 16 w = (bs, w') \<Longrightarrow>
      hw_ok w' \<and>
      (cq_status (cqe_of bs) AND 1 \<noteq> hv_phase (hv w) \<and> hv w' = hv w \<and> delay w' < delay w \<or>
       cq_status (cqe_of bs) AND 1 = hv_phase (hv w) \<and> cq_command_id (cqe_of bs) = sq_command_id cmd \<and>
       hv w' = post_completion (io_execute cmd (hv w)))"
    and head_doorbell: "hw_ok w \<Longrightarrow>
      hw_ok (bus_write b (ly_head_db ly) (to_le 4 (v :: u32)) w) \<and>
      hv (bus_write b (ly_head_db ly) (to_le 4 v) w) = hv w"
    and load_buf: "hw_ok w \<Longrightarrow> n \<le> 4096 \<Longrightarrow> bus_read b (ly_buf ly) n w = (bs, w') \<Longrightarrow>
      bs = take n (hv_buf (hv w)) \<and> hw_ok w' \<and> hv w' = hv w"
    and store_buf: "hw_ok w \<Longrightarrow> length bs \<le> 4096 \<Longrightarrow>
      hw_ok (bus_write b (ly_buf ly) bs w) \<and>
      hv (bus_write b (ly_buf ly) bs w) = (hv w)\<lparr>hv_buf := copy_into 0 bs (hv_buf (hv w))\<rparr>"

text \<open>The driver's queue in step with the controller.\<close>

definition queue_in_step :: "queue_layout \<Rightarrow> hw_view \<Rightarrow> NvmeQueue \<Rightarrow> bool" where
  "queue_in_step ly v q \<longleftrightarrow> q_size q = 64 \<and> q_sq_base q = ly_sq ly \<and> q_cq_base q = ly_cq ly \<and>
     q_doorbell_tail q = ly_tail_db ly \<and> q_doorbell_head q = ly_head_db ly \<and>
     unat (q_tail q) = hv_sqh v \<and> unat (q_head q) = hv_cqt v \<and> hv_sqh v < 64 \<and> hv_cqt v < 64 \<and>
     q_phase q = hv_phase v \<and> (hv_phase v = 0 \<or> hv_phase v = 1)"

definition nvme_dev_ok :: "('w \<Rightarrow> bool) \<Rightarrow> ('w \<Rightarrow> hw_view) \<Rightarrow> queue_layout \<Rightarrow> 'w nvme_dev \<Rightarrow> bool" where
  "nvme_dev_ok hw_ok hv ly = (\<lambda>(ctx, w). hw_ok w \<and> ctx_regs ctx \<noteq> 0 \<and> ctx_nsid ctx \<noteq> 0 \<and>
     hv_pending (hv w) = None \<and> queue_in_step ly (hv w) (io_queue ctx))"

definition nvme_dev_disk :: "('w \<Rightarrow> hw_view) \<Rightarrow> 'w nvme_dev \<Rightarrow> nat \<Rightarrow> bytes" where
  "nvme_dev_disk hv = (\<lambda>(ctx, w). hv_disk (hv w))"

subsection \<open>Queue indices\<close>

lemma unat_suc16:
  fixes x :: u16
  assumes "unat x < 64"
  shows "unat (x + 1) = unat x + 1"
proof -
  have "x + 1 = word_of_nat (unat x + 1)" by simp
  moreover have "unat (word_of_nat (unat x + 1) :: u16) = unat x + 1"
    using assms by (simp only: unat_of_nat) simp
  ultimately show ?thesis by (simp add: add.commute)
qed

lemma wrap_64: "n < 64 \<Longrightarrow> (if n + 1 \<ge> 64 then 0 else n + 1) = (n + 1) mod (64::nat)"
  by (cases "n = 63") auto

lemma advance_tail_index:
  assumes "q_size q = 64" and "unat (q_tail q) < 64"
  shows "unat (q_tail (advance_tail q)) = (unat (q_tail q) + 1) mod 64"
  using assms unat_suc16 [OF assms(2)] wrap_64 [OF assms(2)]
  by (simp add: advance_tail_def Let_def word_le_nat_alt split: if_splits)

lemma advance_tail_same [simp]:
  "q_size (advance_tail q) = q_size q" "q_head (advance_tail q) = q_head q"
  "q_phase (advance_tail q) = q_phase q" "q_sq_base (advance_tail q) = q_sq_base q"
  "q_cq_base (advance_tail q) = q_cq_base q" "q_doorbell_tail (advance_tail q) = q_doorbell_tail q"
  "q_doorbell_head (advance_tail q) = q_doorbell_head q"
  by (simp_all add: advance_tail_def Let_def)

lemma advance_head_index:
  assumes "q_size q = 64" and "unat (q_head q) < 64"
  shows "unat (q_head (advance_head q)) = (unat (q_head q) + 1) mod 64"
    and "q_phase (advance_head q) =
      (if unat (q_head q) = 63 then if q_phase q = 1 then 0 else 1 else q_phase q)"
  using assms unat_suc16 [OF assms(2)] wrap_64 [OF assms(2)]
  by (simp_all add: advance_head_def Let_def word_le_nat_alt split: if_splits)

lemma advance_head_same [simp]:
  "q_size (advance_head q) = q_size q" "q_tail (advance_head q) = q_tail q"
  "q_sq_base (advance_head q) = q_sq_base q" "q_cq_base (advance_head q) = q_cq_base q"
  "q_doorbell_tail (advance_head q) = q_doorbell_tail q"
  "q_doorbell_head (advance_head q) = q_doorbell_head q"
  by (simp_all add: advance_head_def Let_def)

lemma io_execute_same [simp]:
  "hv_slot (io_execute cmd v) = hv_slot v" "hv_pending (io_execute cmd v) = hv_pending v"
  "hv_sqh (io_execute cmd v) = hv_sqh v" "hv_cqt (io_execute cmd v) = hv_cqt v"
  "hv_phase (io_execute cmd v) = hv_phase v"
  by (simp_all add: io_execute_def)

lemma rw_cmd_fields:
  assumes "lba + count \<le> TOTAL_SECTORS" and "0 < count" and "count \<le> 8" and "buf < 2 ^ 64"
  shows "cmd_lba (rw_cmd opc cid nsid (word_of_nat lba) buf (word_of_nat count)) = lba"
    and "cmd_count (rw_cmd opc cid nsid (word_of_nat lba) buf (word_of_nat count)) = count"
    and "unat (sq_prp1 (rw_cmd opc cid nsid (word_of_nat lba) buf (word_of_nat count))) = buf"
proof -
  have "lba < 2 ^ 32" using assms(1) by simp
  then have "unat (word_of_nat lba :: u64) = lba" by (simp add: unat_of_nat)
  then show "cmd_lba (rw_cmd opc cid nsid (word_of_nat lba) buf (word_of_nat count)) = lba"
    using \<open>lba < 2 ^ 32\<close>
    by (simp add: cmd_lba_def rw_cmd_def unsigned_ucast_eq unsigned_drop_bit_eq drop_bit_nat_def
        take_bit_nat_eq_self)
  have "count \<in> {1..8}" using assms(2,3) by simp
  then have "count = 1 \<or> count = 2 \<or> count = 3 \<or> count = 4 \<or> count = 5 \<or> count = 6 \<or> count = 7 \<or> count = 8"
    by auto
  then show "cmd_count (rw_cmd opc cid nsid (word_of_nat lba) buf (word_of_nat count)) = count"
    by (elim disjE) (simp_all add: cmd_count_def rw_cmd_def)
  show "unat (sq_prp1 (rw_cmd opc cid nsid (word_of_nat lba) buf (word_of_nat count))) = buf"
    using assms(4) by (simp add: rw_cmd_def unat_of_nat)
qed

subsection \<open>The driver over the contract\<close>

lemma in_step_completed:
  assumes "queue_in_step ly v q"
  shows "queue_in_step ly (post_completion (io_execute cmd v)) (advance_head q)"
  using assms advance_head_index [of q]
  by (auto simp: queue_in_step_def post_completion_def)

lemma in_step_submitted:
  assumes "queue_in_step ly v q"
  shows "queue_in_step ly (v\<lparr>hv_pending := c, hv_sqh := (hv_sqh v + 1) mod 64\<rparr>) (advance_tail q)"
  using assms advance_tail_index [of q] by (auto simp: queue_in_step_def)

lemma in_step_cong:
  "hv_sqh v' = hv_sqh v \<Longrightarrow> hv_cqt v' = hv_cqt v \<Longrightarrow> hv_phase v' = hv_phase v \<Longrightarrow>
     queue_in_step ly v' q \<longleftrightarrow> queue_in_step ly v q"
  by (simp add: queue_in_step_def)

context nvme_controller
begin

lemma runs_wait:
  assumes "hw_ok w" and "hv_pending (hv w) = Some cmd" and "cmd_ok ly cmd"
    and "queue_in_step ly (hv w) q"
    and "\<And>w' q'. hw_ok w' \<Longrightarrow> hv w' = post_completion (io_execute cmd (hv w)) \<Longrightarrow>
      queue_in_step ly (hv w') q' \<Longrightarrow> P (Inr q') w'"
  shows "runs_to (nvme_wait_for_completion b q (sq_command_id cmd)) w P"
  unfolding nvme_wait_for_completion_def
proof (rule prog_loop_rule [where m = "\<lambda>_. delay" and I = "\<lambda>q' w'. q' = q \<and> hw_ok w' \<and> hv w' = hv w"],
    goal_cases)
  case 1
  then show ?case using assms(1) by simp
next
  case (2 q' w1)
  obtain bs w2 where rd: "bus_read b (ly_cq ly + hv_cqt (hv w) * 16) 16 w1 = (bs, w2)" by fastforce
  have addr: "q_cq_base q' + unat (q_head q') * 16 = ly_cq ly + hv_cqt (hv w) * 16"
    using 2 assms(4) by (simp add: queue_in_step_def)
  have phase: "q_phase q' = hv_phase (hv w)" and head_db: "q_doorbell_head (advance_head q') = ly_head_db ly"
    using 2 assms(4) by (simp_all add: queue_in_step_def)
  have step: "queue_in_step ly (post_completion (io_execute cmd (hv w))) (advance_head q')"
    using in_step_completed [OF assms(4)] 2 by simp
  from poll [of w1 cmd bs w2] rd 2 assms(2,3)
  consider "cq_status (cqe_of bs) AND 1 \<noteq> hv_phase (hv w)" "hw_ok w2" "hv w2 = hv w" "delay w2 < delay w1"
    | "cq_status (cqe_of bs) AND 1 = hv_phase (hv w)" "cq_command_id (cqe_of bs) = sq_command_id cmd"
      "hw_ok w2" "hv w2 = post_completion (io_execute cmd (hv w))"
    by auto
  then show ?case
  proof cases
    case 1
    with rd addr phase 2 show ?thesis by simp
  next
    case posted: 2
    have "P (Inr (advance_head q')) (bus_write b (ly_head_db ly) (to_le 4 v) w2)" for v :: u32
      using head_doorbell [OF posted(3), of v] posted(4) step assms(5) by simp
    with posted rd addr phase head_db show ?thesis by (simp add: Let_def)
  qed
qed

lemma runs_nvme_run:
  assumes "hw_ok w" and "hv_pending (hv w) = None" and "cmd_ok ly cmd" and "queue_in_step ly (hv w) q"
    and "\<And>w' q'. hw_ok w' \<Longrightarrow> hv_pending (hv w') = None \<Longrightarrow> queue_in_step ly (hv w') q' \<Longrightarrow>
      hv_disk (hv w') = hv_disk (io_execute cmd (hv w)) \<Longrightarrow>
      hv_buf (hv w') = hv_buf (io_execute cmd (hv w)) \<Longrightarrow> P (Inr q') w'"
  shows "runs_to (nvme_run b q cmd) w P"
proof -
  let ?w1 = "bus_write b (ly_sq ly + hv_sqh (hv w) * 64) (sqe_bytes cmd) w"
  let ?v = "ucast (q_tail (advance_tail q)) :: u32"
  let ?w2 = "bus_write b (ly_tail_db ly) (to_le 4 ?v) ?w1"
  have idx: "hv_sqh (hv w) < 64" and tail: "unat (q_tail q) = hv_sqh (hv w)"
    and base: "q_sq_base q = ly_sq ly" "q_doorbell_tail q = ly_tail_db ly"
    using assms(4) by (simp_all add: queue_in_step_def)
  have w1: "hw_ok ?w1" "hv ?w1 = (hv w)\<lparr>hv_slot := (hv_slot (hv w))(hv_sqh (hv w) := cmd)\<rparr>"
    using submit [OF assms(1) idx, of cmd] by auto
  have unat_v: "unat ?v = (hv_sqh (hv w) + 1) mod 64"
    using advance_tail_index [of q] assms(4) by (simp add: queue_in_step_def unat_ucast_up)
  have v: "?v = word_of_nat ((hv_sqh (hv w) + 1) mod 64)" unfolding unat_v [symmetric] by simp
  have w2: "hw_ok ?w2" "hv ?w2 = (hv ?w1)\<lparr>hv_pending := Some cmd, hv_sqh := (hv_sqh (hv ?w1) + 1) mod 64\<rparr>"
    using ring [OF w1(1), of ?v] w1(2) assms(2) v by simp_all
  have pending: "hv_pending (hv ?w2) = Some cmd" by (simp add: w2(2))
  have "queue_in_step ly (hv ?w1) q" using assms(4) by (simp add: w1(2) queue_in_step_def)
  then have step: "queue_in_step ly (hv ?w2) (advance_tail q)"
    unfolding w2(2) by (rule in_step_submitted)
  have "runs_to (nvme_wait_for_completion b (advance_tail q) (sq_command_id cmd)) ?w2 P"
    using w2(1) pending assms(3) step
  proof (rule runs_wait)
    fix w' q'
    assume w': "hw_ok w'" "hv w' = post_completion (io_execute cmd (hv ?w2))" "queue_in_step ly (hv w') q'"
    show "P (Inr q') w'"
      by (rule assms(5) [OF w'(1) _ w'(3)]) (simp_all add: w'(2) post_completion_def io_execute_def w2(2) w1(2))
  qed
  then show ?thesis by (simp add: nvme_run_def nvme_submit_command_def Let_def base tail)
qed

lemma nvme_read_law:
  assumes "nvme_dev_ok hw_ok hv ly d" and "0 < count" and "count \<le> 8" and "lba + count \<le> TOTAL_SECTORS"
  shows "\<exists>d'. nvme_fs_read b (ly_buf ly) n lba count d =
      Some (0, read_sectors lba count (nvme_dev_disk hv d), d')
    \<and> nvme_dev_ok hw_ok hv ly d' \<and> nvme_dev_disk hv d' = nvme_dev_disk hv d"
proof -
  obtain ctx w where d: "d = (ctx, w)" by (cases d)
  let ?cmd = "rw_cmd NVME_OP_READ 100 n (word_of_nat lba) (ly_buf ly) (word_of_nat count)"
  let ?data = "read_sectors lba count (hv_disk (hv w))"
  have ok: "hw_ok w" "hv_pending (hv w) = None" "queue_in_step ly (hv w) (io_queue ctx)"
    "ctx_regs ctx \<noteq> 0" "ctx_nsid ctx \<noteq> 0"
    using assms(1) by (auto simp: d nvme_dev_ok_def)
  note fields = rw_cmd_fields [OF assms(4,2,3) buf_addr]
  have cmd: "cmd_ok ly ?cmd"
    using fields [of NVME_OP_READ 100 n] assms by (simp add: cmd_ok_def) (simp add: rw_cmd_def)
  have op: "sq_opcode ?cmd = NVME_OP_READ" by (simp add: rw_cmd_def)
  have len: "length ?data = 512 * count"
    using length_read_sectors sectors [OF ok(1)] assms(4) by blast
  have run: "runs_to (nvme_run b (io_queue ctx) ?cmd) w (\<lambda>r w'. \<exists>q'. r = Inr q' \<and> hw_ok w' \<and>
      hv_pending (hv w') = None \<and> queue_in_step ly (hv w') q' \<and> hv_disk (hv w') = hv_disk (hv w) \<and>
      hv_buf (hv w') = copy_into 0 ?data (hv_buf (hv w)))"
    by (rule runs_nvme_run [OF ok(1,2) cmd ok(3)]) (simp add: io_execute_def op fields)
  have "take (512 * count) (copy_into 0 ?data (hv_buf (hv w))) = ?data"
    using len by (simp add: copy_into_def)
  moreover from run obtain q' w' where w': "nvme_run b (io_queue ctx) ?cmd w = Ok q' w'" "hw_ok w'"
    "hv_pending (hv w') = None" "queue_in_step ly (hv w') q'" "hv_disk (hv w') = hv_disk (hv w)"
    "hv_buf (hv w') = copy_into 0 ?data (hv_buf (hv w))"
    by (auto simp: runs_to_def split: res.splits)
  moreover obtain bs w'' where rd: "bus_read b (ly_buf ly) (512 * count) w' = (bs, w'')" by fastforce
  moreover from load_buf [OF w'(2) _ rd] assms(3)
  have "bs = take (512 * count) (hv_buf (hv w')) \<and> hw_ok w'' \<and> hv w'' = hv w'" by simp
  ultimately show ?thesis
    using ok(4,5)
    by (simp add: d nvme_fs_read_def nvme_read_cmd_def on_io_queue_def bind_def ret_def
        nvme_dev_ok_def nvme_dev_disk_def)
qed

lemma nvme_write_law:
  assumes "nvme_dev_ok hw_ok hv ly d" and "0 < count" and "count \<le> 8" and "lba + count \<le> TOTAL_SECTORS"
    and "length data = 512 * count"
  shows "\<exists>d'. nvme_fs_write b (ly_buf ly) n lba data count d = Some (0, d')
    \<and> nvme_dev_ok hw_ok hv ly d' \<and> nvme_dev_disk hv d' = write_sectors lba count data (nvme_dev_disk hv d)"
proof -
  obtain ctx w where d: "d = (ctx, w)" by (cases d)
  let ?cmd = "rw_cmd NVME_OP_WRITE 101 n (word_of_nat lba) (ly_buf ly) (word_of_nat count)"
  let ?w = "bus_write b (ly_buf ly) data w"
  have ok: "hw_ok w" "hv_pending (hv w) = None" "queue_in_step ly (hv w) (io_queue ctx)"
    "ctx_regs ctx \<noteq> 0" "ctx_nsid ctx \<noteq> 0"
    using assms(1) by (auto simp: d nvme_dev_ok_def)
  have w: "hw_ok ?w" "hv ?w = (hv w)\<lparr>hv_buf := copy_into 0 data (hv_buf (hv w))\<rparr>"
    using store_buf [OF ok(1), of data] assms(3,5) by auto
  have pending: "hv_pending (hv ?w) = None" and step: "queue_in_step ly (hv ?w) (io_queue ctx)"
    using ok(2,3) by (simp_all add: w(2) queue_in_step_def)
  note fields = rw_cmd_fields [OF assms(4,2,3) buf_addr]
  have cmd: "cmd_ok ly ?cmd"
    using fields [of NVME_OP_WRITE 101 n] assms by (simp add: cmd_ok_def) (simp add: rw_cmd_def)
  have op: "sq_opcode ?cmd \<noteq> NVME_OP_READ" by (simp add: rw_cmd_def NVME_OP_READ_def NVME_OP_WRITE_def)
  have "take (512 * count) (copy_into 0 data (hv_buf (hv w))) = data"
    using assms(5) by (simp add: copy_into_def)
  then have run: "runs_to (nvme_run b (io_queue ctx) ?cmd) ?w (\<lambda>r w'. \<exists>q'. r = Inr q' \<and> hw_ok w' \<and>
      hv_pending (hv w') = None \<and> queue_in_step ly (hv w') q' \<and>
      hv_disk (hv w') = write_sectors lba count data (hv_disk (hv w)))"
    by (intro runs_nvme_run [OF w(1) pending cmd step]) (simp add: io_execute_def op fields w(2))
  with ok(4,5) show ?thesis
    by (auto simp: d nvme_fs_write_def nvme_write_cmd_def on_io_queue_def runs_to_def bind_def ret_def
        nvme_dev_ok_def nvme_dev_disk_def split: res.splits prod.splits)
qed

end

text \<open>A controller that keeps the contract makes the driver a block device.\<close>

sublocale nvme_controller \<subseteq> blk: block_device "nvme_fs_ops b (ly_buf ly)" "nvme_dev_ok hw_ok hv ly" "nvme_dev_disk hv"
proof unfold_locales
  show "default_nsid_op (nvme_fs_ops b (ly_buf ly)) d \<noteq> None" if "nvme_dev_ok hw_ok hv ly d" for d
    using that
    by (auto simp: nvme_fs_ops_def nvme_dev_ok_def nvme_default_nsid_def queue_in_step_def)
  show "sectors_ok (nvme_dev_disk hv d)" if "nvme_dev_ok hw_ok hv ly d" for d
    using that sectors by (auto simp: nvme_dev_ok_def nvme_dev_disk_def)
  show "\<exists>d'. nvme_read_op (nvme_fs_ops b (ly_buf ly)) n lba count d =
        Some (0, read_sectors lba count (nvme_dev_disk hv d), d')
      \<and> nvme_dev_ok hw_ok hv ly d' \<and> nvme_dev_disk hv d' = nvme_dev_disk hv d"
    if "nvme_dev_ok hw_ok hv ly d" "0 < count" "count \<le> 8" "lba + count \<le> TOTAL_SECTORS" for d n lba count
    using nvme_read_law [OF that, of n] by (simp only: nvme_fs_ops_def nvme_ops.simps)
  show "\<exists>d'. nvme_write_op (nvme_fs_ops b (ly_buf ly)) n lba buf count d = Some (0, d')
      \<and> nvme_dev_ok hw_ok hv ly d' \<and> nvme_dev_disk hv d' = write_sectors lba count buf (nvme_dev_disk hv d)"
    if "nvme_dev_ok hw_ok hv ly d" "0 < count" "count \<le> 8" "lba + count \<le> TOTAL_SECTORS"
      "length buf = 512 * count" for d n lba count buf
    using nvme_write_law [OF that, of n] by (simp only: nvme_fs_ops_def nvme_ops.simps)
qed

end
