(* ===== verification/Nvme_Sim.thy ===== *)
theory Nvme_Sim
  imports Nvme_Block
begin

section \<open>A controller that keeps the contract\<close>

text \<open>
  A concrete NVMe controller behind the bus: it decodes stores to the submission queue, the
  doorbells and the data page, and completes each command at the third poll.  It satisfies
  \<open>nvme_controller\<close>, so the driver over it is a block device on which the theorems about the
  file system apply.
\<close>

record sim_world =
  sw_view :: hw_view
  sw_delay :: nat

definition sim_ly :: queue_layout where
  "sim_ly = \<lparr> ly_sq = 0x10000, ly_cq = 0x20000, ly_tail_db = 0x31008, ly_head_db = 0x3100C,
     ly_buf = 0x40000 \<rparr>"

definition sim_write :: "nat \<Rightarrow> bytes \<Rightarrow> sim_world \<Rightarrow> sim_world" where
  "sim_write addr bs sw = (let v = sw_view sw in
     if addr = 0x31008 then
       if unat (from_le bs :: u32) \<noteq> hv_sqh v
       then sw\<lparr>sw_view := v\<lparr>hv_pending := Some (hv_slot v (hv_sqh v)), hv_sqh := (hv_sqh v + 1) mod 64\<rparr>,
               sw_delay := 2\<rparr>
       else sw
     else if addr = 0x3100C then sw
     else if addr = 0x40000 then sw\<lparr>sw_view := v\<lparr>hv_buf := copy_into 0 bs (hv_buf v)\<rparr>\<rparr>
     else if 0x10000 \<le> addr \<and> addr < 0x11000
       then sw\<lparr>sw_view := v\<lparr>hv_slot := (hv_slot v)((addr - 0x10000) div 64 := sqe_of bs)\<rparr>\<rparr>
     else sw)"

definition sim_completion :: "u16 \<Rightarrow> u16 \<Rightarrow> bytes" where
  "sim_completion cid phase = cqe_bytes \<lparr> cq_cdw0 = 0, cq_reserved = 0, cq_sq_head = 0, cq_sq_id = 1,
     cq_command_id = cid, cq_status = phase \<rparr>"

definition sim_read :: "nat \<Rightarrow> nat \<Rightarrow> sim_world \<Rightarrow> bytes \<times> sim_world" where
  "sim_read addr n sw = (let v = sw_view sw in
     if addr = 0x40000 then (take n (hv_buf v), sw)
     else case hv_pending v of
       None \<Rightarrow> (replicate n 0, sw)
     | Some cmd \<Rightarrow>
         if sw_delay sw = 0
         then (sim_completion (sq_command_id cmd) (hv_phase v),
               sw\<lparr>sw_view := post_completion (io_execute cmd v)\<rparr>)
         else (sim_completion 0 (1 - hv_phase v), sw\<lparr>sw_delay := sw_delay sw - 1\<rparr>))"

definition sim_bus :: "sim_world bus" where
  "sim_bus = \<lparr> bus_read = sim_read, bus_write = sim_write,
     port_in = (\<lambda>p n w. (replicate n 0, w)), port_out = (\<lambda>p bs w. w) \<rparr>"

definition sim_ok :: "sim_world \<Rightarrow> bool" where
  "sim_ok sw \<longleftrightarrow> sectors_ok (hv_disk (sw_view sw)) \<and> length (hv_buf (sw_view sw)) = 4096 \<and>
     (hv_phase (sw_view sw) = 0 \<or> hv_phase (sw_view sw) = 1) \<and> hv_sqh (sw_view sw) < 64 \<and>
     hv_cqt (sw_view sw) < 64"

text \<open>The controller and the driver's context after initialisation, over a disk \<open>D\<close>.\<close>

definition sim_start :: "(nat \<Rightarrow> bytes) \<Rightarrow> sim_world" where
  "sim_start D = \<lparr> sw_view = \<lparr> hv_disk = D, hv_slot = (\<lambda>_. sqe_default), hv_buf = replicate 4096 0,
     hv_pending = None, hv_sqh = 0, hv_cqt = 0, hv_phase = 1 \<rparr>, sw_delay = 0 \<rparr>"

definition sim_ctx :: NvmeContext where
  "sim_ctx = NVME_CTX\<lparr> ctx_regs := 0x30000, ctx_nsid := 1, io_queue := \<lparr> q_id = 1, q_tail = 0,
     q_head = 0, q_size = 64, q_phase = 1, q_doorbell_tail = 0x31008, q_doorbell_head = 0x3100C,
     q_sq_base = 0x10000, q_cq_base = 0x20000 \<rparr> \<rparr>"

definition blank_disk :: "nat \<Rightarrow> bytes" where
  "blank_disk = (\<lambda>_. replicate 512 0)"

lemma sim_completion_fields:
  "cq_command_id (cqe_of (sim_completion cid ph)) = cid"
  "cq_status (cqe_of (sim_completion cid ph)) = ph"
  by (simp_all add: sim_completion_def cqe_roundtrip)

lemma sim_ok_execute:
  assumes "sim_ok sw" and "cmd_ok sim_ly cmd"
  shows "sim_ok (sw\<lparr>sw_view := post_completion (io_execute cmd (sw_view sw))\<rparr>)"
proof -
  have count: "cmd_count cmd \<le> 8" and range: "cmd_lba cmd + cmd_count cmd \<le> TOTAL_SECTORS"
    using assms(2) by (simp_all add: cmd_ok_def)
  have disk: "sectors_ok (hv_disk (sw_view sw))" and buf: "length (hv_buf (sw_view sw)) = 4096"
    using assms(1) by (simp_all add: sim_ok_def)
  have "length (read_sectors (cmd_lba cmd) (cmd_count cmd) (hv_disk (sw_view sw))) = 512 * cmd_count cmd"
    using disk range by (rule length_read_sectors)
  then have "length (copy_into 0 (read_sectors (cmd_lba cmd) (cmd_count cmd) (hv_disk (sw_view sw)))
      (hv_buf (sw_view sw))) = 4096"
    using buf count by (subst length_copy_into) auto
  moreover have "sectors_ok (write_sectors (cmd_lba cmd) (cmd_count cmd)
      (take (512 * cmd_count cmd) (hv_buf (sw_view sw))) (hv_disk (sw_view sw)))"
    using disk buf count by (intro sectors_ok_write) auto
  ultimately show ?thesis
    using assms(1) by (auto simp: sim_ok_def post_completion_def io_execute_def)
qed

interpretation sim: nvme_controller sim_bus sim_ok sw_view sw_delay sim_ly
proof unfold_locales
  show "sectors_ok (hv_disk (sw_view w))" if "sim_ok w" for w using that by (simp add: sim_ok_def)
  show "length (hv_buf (sw_view w)) = 4096" if "sim_ok w" for w using that by (simp add: sim_ok_def)
  show "ly_buf sim_ly < 2 ^ 64" by (simp add: sim_ly_def)
  show "sim_ok (bus_write sim_bus (ly_sq sim_ly + i * 64) (sqe_bytes e) w) \<and>
      sw_view (bus_write sim_bus (ly_sq sim_ly + i * 64) (sqe_bytes e) w) =
        (sw_view w)\<lparr>hv_slot := (hv_slot (sw_view w))(i := e)\<rparr>" if "sim_ok w" "i < 64" for w i e
    using that by (simp add: sim_bus_def sim_write_def sim_ly_def sim_ok_def Let_def sqe_roundtrip)
  show "sim_ok (bus_write sim_bus (ly_tail_db sim_ly) (to_le 4 v) w) \<and>
      sw_view (bus_write sim_bus (ly_tail_db sim_ly) (to_le 4 v) w) =
        (sw_view w)\<lparr>hv_pending := Some (hv_slot (sw_view w) (hv_sqh (sw_view w))),
          hv_sqh := (hv_sqh (sw_view w) + 1) mod 64\<rparr>"
    if "sim_ok w" "v = word_of_nat ((hv_sqh (sw_view w) + 1) mod 64)" for w and v :: u32
  proof -
    have "(hv_sqh (sw_view w) + 1) mod 64 \<noteq> hv_sqh (sw_view w)"
      using that(1) by (cases "hv_sqh (sw_view w) = 63") (auto simp: sim_ok_def)
    moreover have "unat v = (hv_sqh (sw_view w) + 1) mod 64"
      using that(2) by (simp add: unat_of_nat take_bit_nat_eq_self less_trans [OF mod_less_divisor])
    ultimately show ?thesis
      using that(1) by (simp add: sim_bus_def sim_write_def sim_ly_def sim_ok_def Let_def)
  qed
  show "sim_ok w' \<and>
      (cq_status (cqe_of bs) AND 1 \<noteq> hv_phase (sw_view w) \<and> sw_view w' = sw_view w \<and> sw_delay w' < sw_delay w \<or>
       cq_status (cqe_of bs) AND 1 = hv_phase (sw_view w) \<and> cq_command_id (cqe_of bs) = sq_command_id cmd \<and>
       sw_view w' = post_completion (io_execute cmd (sw_view w)))"
    if "sim_ok w" "hv_pending (sw_view w) = Some cmd" "cmd_ok sim_ly cmd"
      "bus_read sim_bus (ly_cq sim_ly + hv_cqt (sw_view w) * 16) 16 w = (bs, w')" for w cmd bs w'
  proof -
    have phase: "hv_phase (sw_view w) = 0 \<or> hv_phase (sw_view w) = 1" and "hv_cqt (sw_view w) < 64"
      using that(1) by (simp_all add: sim_ok_def)
    then show ?thesis
      using that sim_ok_execute [OF that(1,3)]
      by (cases "sw_delay w = 0")
        (auto simp: sim_bus_def sim_read_def sim_ly_def Let_def sim_completion_fields sim_ok_def)
  qed
  show "sim_ok (bus_write sim_bus (ly_head_db sim_ly) (to_le 4 v) w) \<and>
      sw_view (bus_write sim_bus (ly_head_db sim_ly) (to_le 4 v) w) = sw_view w" if "sim_ok w" for w and v :: u32
    using that by (simp add: sim_bus_def sim_write_def sim_ly_def Let_def)
  show "bs = take n (hv_buf (sw_view w)) \<and> sim_ok w' \<and> sw_view w' = sw_view w"
    if "sim_ok w" "bus_read sim_bus (ly_buf sim_ly) n w = (bs, w')" for w n bs w'
    using that by (auto simp: sim_bus_def sim_read_def sim_ly_def Let_def)
  show "sim_ok (bus_write sim_bus (ly_buf sim_ly) bs w) \<and>
      sw_view (bus_write sim_bus (ly_buf sim_ly) bs w) =
        (sw_view w)\<lparr>hv_buf := copy_into 0 bs (hv_buf (sw_view w))\<rparr>"
    if "sim_ok w" "length bs \<le> 4096" for w bs
    using that by (simp add: sim_bus_def sim_write_def sim_ly_def sim_ok_def Let_def)
qed

lemmas sim_block_device = sim.blk.block_device_axioms

lemma sim_start_ok:
  "sectors_ok D \<Longrightarrow> nvme_dev_ok sim_ok sw_view sim_ly (sim_ctx, sim_start D)"
  by (simp add: nvme_dev_ok_def sim_ok_def sim_start_def sim_ctx_def sim_ly_def queue_in_step_def NVME_CTX_def)

lemma sim_start_disk: "nvme_dev_disk sw_view (sim_ctx, sim_start D) = D"
  by (simp add: nvme_dev_disk_def sim_start_def)

lemma sectors_ok_blank: "sectors_ok blank_disk"
  by (simp add: sectors_ok_def blank_disk_def)

end
