(* ===== verification/Fs_Spec.thy ===== *)
theory Fs_Spec
  imports Fs_Format Nvme_Sim
begin

section \<open>What the file system promises\<close>

text \<open>
  The properties of the file system, for every block device, over its locked interface: each
  operation against the map of files, any sequence of operations against the abstract
  specification \<open>spec_run\<close>, and the helpers the operations rest on.  The witnesses run on
  the NVMe driver over the concrete controller of \<open>Nvme_Sim\<close>.
\<close>

subsection \<open>The abstract specification\<close>

text \<open>The operations of the public interface and their replies.\<close>

datatype fs_op = OpCreate bytes bytes | OpRead bytes | OpDelete bytes | OpList | OpFormat

datatype fs_reply = RUnit | RBytes bytes | RList "PublicFileEntry list" | RErr FsError

definition reply_of :: "('a \<Rightarrow> fs_reply) \<Rightarrow> (FsError, 'a, 's) res \<Rightarrow> (fs_reply \<times> 's) option" where
  "reply_of f r = (case r of Ok x s \<Rightarrow> Some (f x, s) | Err e s \<Rightarrow> Some (RErr e, s) | Stop \<Rightarrow> None)"

fun exec_op :: "'d nvme_ops \<Rightarrow> fs_op \<Rightarrow> bool \<times> 'd \<Rightarrow> (fs_reply \<times> bool \<times> 'd) option" where
  "exec_op nv (OpCreate nm data) s = reply_of (\<lambda>_. RUnit) (create_file nv nm data s)"
| "exec_op nv (OpRead nm) s = reply_of RBytes (read_file nv nm s)"
| "exec_op nv (OpDelete nm) s = reply_of (\<lambda>_. RUnit) (delete_file nv nm s)"
| "exec_op nv OpList s = reply_of RList (list_files nv s)"
| "exec_op nv OpFormat s = reply_of (\<lambda>_. RUnit) (fs_format nv s)"

fun exec_ops :: "'d nvme_ops \<Rightarrow> fs_op list \<Rightarrow> bool \<times> 'd \<Rightarrow> (fs_reply list \<times> bool \<times> 'd) option" where
  "exec_ops nv [] s = Some ([], s)"
| "exec_ops nv (op # ops) s = (case exec_op nv op s of None \<Rightarrow> None
     | Some (r, s') \<Rightarrow> (case exec_ops nv ops s' of None \<Rightarrow> None | Some (rs, s'') \<Rightarrow> Some (r # rs, s'')))"

text \<open>The listing of a map of files: one entry per file, with its name and its length.\<close>

definition lists_files :: "(bytes \<rightharpoonup> bytes) \<Rightarrow> PublicFileEntry list \<Rightarrow> bool" where
  "lists_files m l \<longleftrightarrow> length l = card (dom m) \<and>
     (\<lambda>e. (pf_name e, unat (pf_size e))) ` set l = {(utf8_lossy nm, length bs) | nm bs. m nm = Some bs}"

inductive spec_step :: "(bytes \<rightharpoonup> bytes) \<Rightarrow> fs_op \<Rightarrow> fs_reply \<Rightarrow> (bytes \<rightharpoonup> bytes) \<Rightarrow> bool" where
  create_done: "spec_step m (OpCreate nm data) RUnit (m(nm \<mapsto> data))"
| create_full: "e = NoSpace \<or> e = InvalidArgument \<Longrightarrow> spec_step m (OpCreate nm data) (RErr e) (m(nm := None))"
| read_hit: "m nm = Some bs \<Longrightarrow> spec_step m (OpRead nm) (RBytes bs) m"
| read_miss: "m nm = None \<Longrightarrow> spec_step m (OpRead nm) (RErr FileNotFound) m"
| delete_hit: "m nm \<noteq> None \<Longrightarrow> spec_step m (OpDelete nm) RUnit (m(nm := None))"
| delete_miss: "m nm = None \<Longrightarrow> spec_step m (OpDelete nm) (RErr FileNotFound) m"
| list_all: "lists_files m l \<Longrightarrow> spec_step m OpList (RList l) m"
| format_done: "spec_step m OpFormat RUnit Map.empty"

inductive spec_run :: "(bytes \<rightharpoonup> bytes) \<Rightarrow> fs_op list \<Rightarrow> fs_reply list \<Rightarrow> (bytes \<rightharpoonup> bytes) \<Rightarrow> bool" where
  run_nil: "spec_run m [] [] m"
| run_cons: "spec_step m op r m' \<Longrightarrow> spec_run m' ops rs m'' \<Longrightarrow> spec_run m (op # ops) (r # rs) m''"

inductive_simps spec_step_create: "spec_step m (OpCreate nm data) r m'"
inductive_simps spec_run_Nil: "spec_run m [] rs m'"

text \<open>The names an operation is used with: 1 to 21 bytes, and no NUL in a name that is created.\<close>

fun op_ok :: "fs_op \<Rightarrow> bool" where
  "op_ok (OpCreate nm data) = (name_valid nm \<and> 0 \<notin> set nm)"
| "op_ok (OpRead nm) = name_valid nm"
| "op_ok (OpDelete nm) = name_valid nm"
| "op_ok OpList = True"
| "op_ok OpFormat = True"

subsection \<open>A formatted disk\<close>

definition formatted_disk :: "nat \<Rightarrow> bytes" where
  "formatted_disk = (\<lambda>s. if s = 0 then boot_bytes format_boot_sector else replicate 512 0)"

lemma sectors_ok_formatted: "sectors_ok formatted_disk"
  using boot_ok_format by (simp add: sectors_ok_def formatted_disk_def)

lemma formatted_dir: "vdir (view formatted_disk) i = empty_entry"
proof -
  have "i mod 16 * 32 + 32 \<le> 512" using mod_less_divisor [of 16 i] by simp
  then show ?thesis
    by (simp add: view_def sector_dir_def formatted_disk_def subslice_replicate dir_of_zero)
qed

lemma formatted_wf: "vol_wf (view formatted_disk)"
proof (rule vol_wfI)
  show "vboot (view formatted_disk) = format_boot_sector"
    using boot_roundtrip [OF boot_ok_format] by (simp add: view_def formatted_disk_def)
qed (auto simp: formatted_dir used_def empty_entry_def)

lemma formatted_files: "files (view formatted_disk) = Map.empty"
proof
  fix nm
  show "files (view formatted_disk) nm = None"
    by (simp add: files_None used_def formatted_dir empty_entry_def)
qed

lemmas sim_disk_facts =
  sim_start_ok [OF sectors_ok_formatted] sim_start_disk [of formatted_disk] formatted_wf formatted_files

subsection \<open>Listing\<close>

context block_device
begin

lemma length_entry_bytes:
  assumes "at_dev d V" and "entry_ok V e"
  shows "length (entry_bytes V e) = unat (de_size e)"
proof -
  have "length (concat (map (vdata V) (entry_clusters V e))) = length (map (vdata V) (entry_clusters V e)) * 4096"
    using at_length_vdata [OF assms(1) entry_clusters_usable [OF assms(2)]]
    by (intro length_concat_same) auto
  then show ?thesis
    using clusters_needed_bound [of "unat (de_size e)"]
    by (simp add: entry_bytes_def entry_clusters_def mult.commute)
qed

lemma lists_files_slots:
  assumes "at_dev d V" and "vol_wf V"
  shows "lists_files (files V)
    (map (\<lambda>i. public_entry (vdir V i)) (filter (\<lambda>i. de_in_use (vdir V i) = 1) [0..<256]))"
proof -
  let ?S = "{i. used V i}"
  have S: "set (filter (\<lambda>i. de_in_use (vdir V i) = 1) [0..<256]) = ?S"
    by (auto simp: used_def)
  have inj: "inj_on (\<lambda>i. entry_name (vdir V i)) ?S"
    using vol_wf_names [OF assms(2)] by (auto simp: inj_on_def)
  have dom: "dom (files V) = (\<lambda>i. entry_name (vdir V i)) ` ?S"
    using files_eq [OF assms(2)] by (auto simp: dom_def image_def)
  have "length (filter (\<lambda>i. de_in_use (vdir V i) = 1) [0..<256]) =
      card (set (filter (\<lambda>i. de_in_use (vdir V i) = 1) [0..<256]))"
    by (simp add: distinct_card del: set_filter)
  then have "length (filter (\<lambda>i. de_in_use (vdir V i) = 1) [0..<256]) = card (dom (files V))"
    unfolding S dom using inj by (simp add: card_image)
  moreover have "(pf_name (public_entry (vdir V i)), unat (pf_size (public_entry (vdir V i)))) =
      (utf8_lossy (entry_name (vdir V i)), length (entry_bytes V (vdir V i)))" if "used V i" for i
    using length_entry_bytes [OF assms(1) vol_wf_entry [OF assms(2) that]]
    by (simp add: public_entry_def unat_ucast_up)
  ultimately show ?thesis
    using files_eq [OF assms(2)] unfolding lists_files_def set_map S
    by (auto simp: image_iff)
qed

end

subsection \<open>Operations against the map of files\<close>

text \<open>
  C1.  Creating a file on a well-formed volume returns, releases the lock and leaves a
  well-formed volume.  After the old file of that name is gone, it succeeds exactly when a
  directory slot is free and the FAT has enough free clusters, and then the volume holds
  the old files with the name bound to exactly the data.  With no free slot it reports
  \<open>NoSpace\<close>, with too few clusters \<open>InvalidArgument\<close>; in both cases the old file is gone and
  all other files are as before.
\<close>

theorem create_file_correct:
  assumes "block_device nv ok disk" and "ok d" and "vol_wf (view (disk d))"
    and "name_valid nm" and "0 \<notin> set nm"
  shows "runs_to (create_file nv nm data) (False, d) (\<lambda>r (held, d'). \<not> held \<and> ok d' \<and>
    vol_wf (view (disk d')) \<and>
    (let V = view (disk d); V1 = erase_name nm V; m' = files (view (disk d')) in
     if free_slot V1 = None then r = Inl NoSpace \<and> m' = (files V)(nm := None)
     else if card (free_clusters V1) < clusters_needed (length data)
       then r = Inl InvalidArgument \<and> m' = (files V)(nm := None)
     else r = Inr () \<and> m' = (files V)(nm \<mapsto> data)))"
proof -
  have at: "block_device.at_dev ok disk d (view (disk d))"
    using assms(2) by (simp add: block_device.at_dev_def [OF assms(1)])
  show ?thesis
    unfolding create_file_def runs_to_with_guard
    using erase_name_wf [OF assms(3)] erase_name_files [OF assms(3)]
    by (auto simp: Let_def block_device.at_dev_def [OF assms(1)]
        intro!: block_device.runs_create_file [OF assms(1) at assms(3-5)])
qed

theorem create_file_correct_witness:
  "runs_to (create_file (nvme_fs_ops sim_bus 0x40000) [0x61] [1, 2, 3]) (False, sim_ctx, sim_start formatted_disk)
    (\<lambda>r (held, d'). \<not> held \<and> nvme_dev_ok sim_ok sw_view sim_ly d' \<and>
      vol_wf (view (nvme_dev_disk sw_view d')) \<and>
      (let V = view (nvme_dev_disk sw_view (sim_ctx, sim_start formatted_disk)); V1 = erase_name [0x61] V;
           m' = files (view (nvme_dev_disk sw_view d')) in
       if free_slot V1 = None then r = Inl NoSpace \<and> m' = (files V)([0x61] := None)
       else if card (free_clusters V1) < clusters_needed (length [1, 2, 3 :: u8])
         then r = Inl InvalidArgument \<and> m' = (files V)([0x61] := None)
       else r = Inr () \<and> m' = (files V)([0x61] \<mapsto> [1, 2, 3])))"
  using create_file_correct [OF sim_block_device, of "(sim_ctx, sim_start formatted_disk)" "[0x61]" "[1, 2, 3]"]
    sim_disk_facts
  by (simp add: name_valid_def sim_ly_def)

text \<open>
  Reading a name on a well-formed volume gives exactly the bytes the volume holds under it, or
  \<open>FileNotFound\<close> if it holds none, and changes no file.
\<close>

lemma read_file_correct:
  assumes "block_device nv ok disk" and "ok d" and "vol_wf (view (disk d))" and "name_valid nm"
  shows "runs_to (read_file nv nm) (False, d) (\<lambda>r (held, d'). \<not> held \<and> ok d' \<and>
    view (disk d') = view (disk d) \<and>
    r = (case files (view (disk d)) nm of None \<Rightarrow> Inl FileNotFound | Some bs \<Rightarrow> Inr bs))"
proof -
  have at: "block_device.at_dev ok disk d (view (disk d))"
    using assms(2) by (simp add: block_device.at_dev_def [OF assms(1)])
  show ?thesis
    unfolding read_file_def runs_to_with_guard
    by (auto simp: block_device.at_dev_def [OF assms(1)]
        intro!: block_device.runs_read_file [OF assms(1) at assms(3,4)])
qed

text \<open>
  Deleting a file on a well-formed volume removes exactly that name from the map of files and
  keeps the volume well formed; a name that is not there gives \<open>FileNotFound\<close>.
\<close>

lemma delete_file_correct:
  assumes "block_device nv ok disk" and "ok d" and "vol_wf (view (disk d))" and "name_valid nm"
  shows "runs_to (delete_file nv nm) (False, d) (\<lambda>r (held, d'). \<not> held \<and> ok d' \<and>
    vol_wf (view (disk d')) \<and> files (view (disk d')) = (files (view (disk d)))(nm := None) \<and>
    r = (if files (view (disk d)) nm = None then Inl FileNotFound else Inr ()))"
proof -
  have at: "block_device.at_dev ok disk d (view (disk d))"
    using assms(2) by (simp add: block_device.at_dev_def [OF assms(1)])
  show ?thesis
    unfolding delete_file_def runs_to_with_guard
    using erase_name_wf [OF assms(3)] erase_name_files [OF assms(3)]
    by (auto simp: block_device.at_dev_def [OF assms(1)]
        intro!: block_device.runs_delete_file [OF assms(1) at assms(3,4)])
qed

text \<open>
  C4.  Formatting any disk, whatever it held, returns and leaves a well-formed volume
  without files, in which slot 0 and all 16382 usable clusters are free.
\<close>

theorem format_correct:
  assumes "block_device nv ok disk" and "ok d"
  shows "runs_to (fs_format nv) (False, d) (\<lambda>r (held, d'). r = Inr () \<and> \<not> held \<and> ok d' \<and>
    vol_wf (view (disk d')) \<and> files (view (disk d')) = Map.empty \<and>
    free_slot (view (disk d')) = Some 0 \<and> card (free_clusters (view (disk d'))) = 16382)"
  unfolding fs_format_def runs_to_with_guard
  using vol_wf_empty_volume files_empty_volume free_slot_empty_volume free_clusters_empty_volume card_usable
  by (auto simp: block_device.at_dev_def [OF assms(1)] intro!: block_device.runs_format [OF assms])

theorem format_correct_witness:
  "runs_to (fs_format (nvme_fs_ops sim_bus 0x40000)) (False, sim_ctx, sim_start blank_disk)
    (\<lambda>r (held, d'). r = Inr () \<and> \<not> held \<and> nvme_dev_ok sim_ok sw_view sim_ly d' \<and>
      vol_wf (view (nvme_dev_disk sw_view d')) \<and> files (view (nvme_dev_disk sw_view d')) = Map.empty \<and>
      free_slot (view (nvme_dev_disk sw_view d')) = Some 0 \<and>
      card (free_clusters (view (nvme_dev_disk sw_view d'))) = 16382)"
  using format_correct [OF sim_block_device, of "(sim_ctx, sim_start blank_disk)"]
    sim_start_ok [OF sectors_ok_blank]
  by (simp add: sim_ly_def)

text \<open>
  The listing has one entry per file, with its name and its length.
\<close>

lemma list_files_correct:
  assumes "block_device nv ok disk" and "ok d" and "vol_wf (view (disk d))"
  shows "runs_to (list_files nv) (False, d) (\<lambda>r (held, d'). \<not> held \<and> ok d' \<and>
    view (disk d') = view (disk d) \<and> (\<exists>l. r = Inr l \<and> lists_files (files (view (disk d))) l))"
proof -
  have at: "block_device.at_dev ok disk d (view (disk d))"
    using assms(2) by (simp add: block_device.at_dev_def [OF assms(1)])
  note lists = block_device.lists_files_slots [OF assms(1) at assms(3)]
  show ?thesis
    unfolding list_files_def list_files_unlocked_def runs_to_with_guard runs_to_seq
    using at lists vol_wf_magic [OF assms(3)]
    by (auto simp: block_device.at_dev_def [OF assms(1)]
        intro!: block_device.runs_read_boot [OF assms(1) at] block_device.runs_list_entries [OF assms(1)])
qed

subsection \<open>Sequences of operations\<close>

lemma reply_of_runs:
  assumes "runs_to p s Q"
  shows "\<exists>r s'. reply_of f (p s) = Some (r, s') \<and>
    (\<exists>x. Q x s' \<and> r = (case x of Inl e \<Rightarrow> RErr e | Inr y \<Rightarrow> f y))"
  using assms by (auto simp: runs_to_def reply_of_def split: res.splits)

context block_device
begin

text \<open>The unlocked operations, in the form the locked interface runs them.\<close>

lemma runs_create_step:
  assumes "ok d" and "vol_wf (view (disk d))" and "name_valid nm" and "0 \<notin> set nm"
  shows "runs_to (create_file nv nm data) (False, d) (\<lambda>r (held, d'). \<not> held \<and> ok d' \<and>
    vol_wf (view (disk d')) \<and> spec_step (files (view (disk d))) (OpCreate nm data)
      (case r of Inl e \<Rightarrow> RErr e | Inr _ \<Rightarrow> RUnit) (files (view (disk d'))))"
proof -
  have at: "at_dev d (view (disk d))" using assms(1) by (simp add: at_dev_def)
  show ?thesis
    using erase_name_wf [OF assms(2)] erase_name_files [OF assms(2)]
    by (auto simp: create_file_def at_dev_def spec_step_create
        intro!: runs_create_file [OF at assms(2-4)])
qed

lemma runs_read_step:
  assumes "ok d" and "vol_wf (view (disk d))" and "name_valid nm"
  shows "runs_to (read_file nv nm) (False, d) (\<lambda>r (held, d'). \<not> held \<and> ok d' \<and>
    vol_wf (view (disk d')) \<and> spec_step (files (view (disk d))) (OpRead nm)
      (case r of Inl e \<Rightarrow> RErr e | Inr bs \<Rightarrow> RBytes bs) (files (view (disk d'))))"
proof -
  have at: "at_dev d (view (disk d))" using assms(1) by (simp add: at_dev_def)
  show ?thesis
    using assms(2)
    by (auto simp: read_file_def at_dev_def intro!: runs_read_file [OF at assms(2,3)]
        intro: spec_step.intros split: option.split)
qed

lemma runs_delete_step:
  assumes "ok d" and "vol_wf (view (disk d))" and "name_valid nm"
  shows "runs_to (delete_file nv nm) (False, d) (\<lambda>r (held, d'). \<not> held \<and> ok d' \<and>
    vol_wf (view (disk d')) \<and> spec_step (files (view (disk d))) (OpDelete nm)
      (case r of Inl e \<Rightarrow> RErr e | Inr _ \<Rightarrow> RUnit) (files (view (disk d'))))"
proof -
  have at: "at_dev d (view (disk d))" using assms(1) by (simp add: at_dev_def)
  have miss: "spec_step m (OpDelete nm) (RErr FileNotFound) (m(nm := None))" if "m nm = None" for m
    using spec_step.delete_miss [of m nm] that by (simp add: fun_upd_idem)
  have hit: "spec_step m (OpDelete nm) RUnit (m(nm := None))" if "m nm = Some bs" for m bs
    using spec_step.delete_hit [of m nm] that by simp
  show ?thesis
    using erase_name_wf [OF assms(2)] erase_name_files [OF assms(2)]
    by (auto simp: delete_file_def at_dev_def miss hit intro!: runs_delete_file [OF at assms(2,3)])
qed

lemma runs_list_step:
  assumes "ok d" and "vol_wf (view (disk d))"
  shows "runs_to (list_files nv) (False, d) (\<lambda>r (held, d'). \<not> held \<and> ok d' \<and>
    vol_wf (view (disk d')) \<and> spec_step (files (view (disk d))) OpList
      (case r of Inl e \<Rightarrow> RErr e | Inr l \<Rightarrow> RList l) (files (view (disk d'))))"
proof -
  have at: "at_dev d (view (disk d))" using assms(1) by (simp add: at_dev_def)
  show ?thesis
    using lists_files_slots [OF at assms(2)] vol_wf_magic [OF assms(2)] assms(2)
    by (auto simp: list_files_def list_files_unlocked_def at_dev_def
        intro!: runs_read_boot [OF at] runs_list_entries spec_step.list_all)
qed

lemma runs_format_step:
  assumes "ok d"
  shows "runs_to (fs_format nv) (False, d) (\<lambda>r (held, d'). \<not> held \<and> ok d' \<and>
    vol_wf (view (disk d')) \<and> spec_step m OpFormat
      (case r of Inl e \<Rightarrow> RErr e | Inr _ \<Rightarrow> RUnit) (files (view (disk d'))))"
  using vol_wf_empty_volume files_empty_volume
  by (auto simp: fs_format_def at_dev_def intro!: runs_format [OF assms] spec_step.format_done)

lemma exec_op_refines:
  assumes "ok d" and "vol_wf (view (disk d))" and "op_ok op"
  shows "\<exists>r d'. exec_op nv op (False, d) = Some (r, False, d') \<and> ok d' \<and> vol_wf (view (disk d')) \<and>
    spec_step (files (view (disk d))) op r (files (view (disk d')))"
proof (cases op)
  case (OpCreate nm data)
  with assms(3) reply_of_runs [OF runs_create_step [OF assms(1,2), of nm data], of "\<lambda>_. RUnit"]
  show ?thesis by fastforce
next
  case (OpRead nm)
  with assms(3) reply_of_runs [OF runs_read_step [OF assms(1,2), of nm], of RBytes]
  show ?thesis by fastforce
next
  case (OpDelete nm)
  with assms(3) reply_of_runs [OF runs_delete_step [OF assms(1,2), of nm], of "\<lambda>_. RUnit"]
  show ?thesis by fastforce
next
  case OpList
  with reply_of_runs [OF runs_list_step [OF assms(1,2)], of RList] show ?thesis by fastforce
next
  case OpFormat
  with reply_of_runs [OF runs_format_step [OF assms(1)], of "\<lambda>_. RUnit"] show ?thesis by fastforce
qed

lemma exec_ops_refines:
  "ok d \<Longrightarrow> vol_wf (view (disk d)) \<Longrightarrow> \<forall>op \<in> set ops. op_ok op \<Longrightarrow>
     \<exists>rs d'. exec_ops nv ops (False, d) = Some (rs, False, d') \<and> ok d' \<and> vol_wf (view (disk d')) \<and>
       spec_run (files (view (disk d))) ops rs (files (view (disk d')))"
proof (induction ops arbitrary: d)
  case Nil
  then show ?case by (simp add: spec_run_Nil)
next
  case (Cons op ops)
  then obtain r d1 where step: "exec_op nv op (False, d) = Some (r, False, d1)" "ok d1"
      "vol_wf (view (disk d1))" "spec_step (files (view (disk d))) op r (files (view (disk d1)))"
    using exec_op_refines [of d op] by auto
  with Cons.IH [of d1] Cons.prems(3) obtain rs d2 where
    "exec_ops nv ops (False, d1) = Some (rs, False, d2)" "ok d2" "vol_wf (view (disk d2))"
    "spec_run (files (view (disk d1))) ops rs (files (view (disk d2)))"
    by auto
  with step show ?case by (auto intro: spec_run.run_cons)
qed

end

text \<open>
  C2.  Any sequence of create, read, delete, list and format calls on a well-formed volume
  returns call by call with the lock free and the volume well formed, and the replies and
  the final files are those of a run of the abstract file map: the block-level code refines
  the specification \<open>spec_run\<close>.
\<close>

theorem file_system_refines_map:
  assumes "block_device nv ok disk" and "ok d" and "vol_wf (view (disk d))"
    and "\<forall>op \<in> set ops. op_ok op"
  shows "\<exists>rs d'. exec_ops nv ops (False, d) = Some (rs, False, d') \<and> ok d' \<and>
    vol_wf (view (disk d')) \<and> spec_run (files (view (disk d))) ops rs (files (view (disk d')))"
  using assms by (rule block_device.exec_ops_refines)

theorem file_system_refines_map_witness:
  "\<exists>rs d'. exec_ops (nvme_fs_ops sim_bus 0x40000) [OpCreate [0x61] [7], OpRead [0x61], OpDelete [0x61]]
      (False, sim_ctx, sim_start formatted_disk) = Some (rs, False, d') \<and>
    nvme_dev_ok sim_ok sw_view sim_ly d' \<and> vol_wf (view (nvme_dev_disk sw_view d')) \<and>
    spec_run Map.empty [OpCreate [0x61] [7], OpRead [0x61], OpDelete [0x61]] rs
      (files (view (nvme_dev_disk sw_view d')))"
  using file_system_refines_map [OF sim_block_device, of "(sim_ctx, sim_start formatted_disk)"
      "[OpCreate [0x61] [7], OpRead [0x61], OpDelete [0x61]]"] sim_disk_facts
  by (simp add: name_valid_def sim_ly_def split_paired_Ex)

subsection \<open>Allocation and release\<close>

text \<open>
  C5.  Allocation takes the least free cluster, marks it as the end of a chain and changes
  nothing else.  On a full FAT it fails with \<open>InvalidArgument\<close> and changes nothing: the scan
  goes on to cluster 65526 although the FAT has 16384 entries, so it never reaches the
  \<open>NoSpace\<close> it would return at the end.
\<close>

theorem alloc_cluster_least:
  assumes "block_device nv ok disk" and "ok d"
  shows "runs_to (alloc_cluster_unlocked nv) d (\<lambda>r d'. ok d' \<and>
    (let V = view (disk d) in
     if free_clusters V = {} then r = Inl InvalidArgument \<and> view (disk d') = V
     else r = Inr (Min (free_clusters V)) \<and>
       view (disk d') = V\<lparr>vfat := (vfat V)(Min (free_clusters V) := FAT_ENTRY_EOC)\<rparr>))"
proof -
  have at: "block_device.at_dev ok disk d (view (disk d))"
    using assms(2) by (simp add: block_device.at_dev_def [OF assms(1)])
  have Min: "c = Min (free_clusters V)" if "c \<in> free_clusters V" "\<And>c'. c' \<in> free_clusters V \<Longrightarrow> c \<le> c'" for c V
    using that by (intro Min_eqI [symmetric]) auto
  show ?thesis
    by (rule block_device.runs_alloc_cluster [OF assms(1) at])
      (auto simp: Let_def block_device.at_dev_def [OF assms(1)] dest: Min)
qed

theorem alloc_cluster_least_witness:
  "runs_to (alloc_cluster_unlocked (nvme_fs_ops sim_bus 0x40000)) (sim_ctx, sim_start blank_disk) (\<lambda>r d'.
    nvme_dev_ok sim_ok sw_view sim_ly d' \<and>
    (let V = view blank_disk in
     if free_clusters V = {} then r = Inl InvalidArgument \<and> view (nvme_dev_disk sw_view d') = V
     else r = Inr (Min (free_clusters V)) \<and>
       view (nvme_dev_disk sw_view d') = V\<lparr>vfat := (vfat V)(Min (free_clusters V) := FAT_ENTRY_EOC)\<rparr>))"
  using alloc_cluster_least [OF sim_block_device, of "(sim_ctx, sim_start blank_disk)"]
    sim_start_ok [OF sectors_ok_blank] sim_start_disk [of blank_disk]
  by (simp add: sim_ly_def)

text \<open>
  C6.  Freeing a chain returns on every volume, whatever the FAT holds: cycles, links out of
  range and links into free clusters included.  It frees entries and changes nothing else,
  and its only error is \<open>InvalidArgument\<close>.
\<close>

theorem free_chain_terminates:
  assumes "block_device nv ok disk" and "ok d"
  shows "runs_to (free_cluster_chain_unlocked nv x) d (\<lambda>r d'. ok d' \<and>
    vboot (view (disk d')) = vboot (view (disk d)) \<and> vdir (view (disk d')) = vdir (view (disk d)) \<and>
    vdata (view (disk d')) = vdata (view (disk d)) \<and>
    (\<forall>c. vfat (view (disk d')) c = vfat (view (disk d)) c \<or> vfat (view (disk d')) c = FAT_ENTRY_FREE) \<and>
    (r = Inr () \<or> r = Inl InvalidArgument))"
  using block_device.free_chain_returns [OF assms, of x]
  by (rule runs_to_mono) (auto simp: block_device.only_freed_def [OF assms(1)])

theorem free_chain_terminates_witness:
  "runs_to (free_cluster_chain_unlocked (nvme_fs_ops sim_bus 0x40000) 5) (sim_ctx, sim_start blank_disk) (\<lambda>r d'.
    nvme_dev_ok sim_ok sw_view sim_ly d' \<and>
    vboot (view (nvme_dev_disk sw_view d')) = vboot (view blank_disk) \<and>
    vdir (view (nvme_dev_disk sw_view d')) = vdir (view blank_disk) \<and>
    vdata (view (nvme_dev_disk sw_view d')) = vdata (view blank_disk) \<and>
    (\<forall>c. vfat (view (nvme_dev_disk sw_view d')) c = vfat (view blank_disk) c \<or>
      vfat (view (nvme_dev_disk sw_view d')) c = FAT_ENTRY_FREE) \<and>
    (r = Inr () \<or> r = Inl InvalidArgument))"
  using free_chain_terminates [OF sim_block_device, of "(sim_ctx, sim_start blank_disk)" 5]
    sim_start_ok [OF sectors_ok_blank] sim_start_disk [of blank_disk]
  by (simp add: sim_ly_def)

end
