(* ===== verification/Kef_Tool.thy ===== *)
theory Kef_Tool
  imports Fs_Format
begin

section \<open>The host tool for disk images\<close>

text \<open>
  \<open>src/tools/kef-tool/src/main.rs\<close>, the program that formats disk images and copies files
  into them.  It has its own copy of the file system code; the state here is the contents of
  the image file.  The second half relates it to the kernel's code: run on the same image,
  whatever \<open>fs.rs\<close> does successfully the tool does too, so its images are volumes the
  kernel's theorems apply to.
\<close>

subsection \<open>The image file\<close>

datatype IoError = UnexpectedEof | WriteZero | InvalidInput | InvalidData

type_synonym 'a tool = "(bytes, IoError, 'a) prog"

text \<open>\<open>write_all\<close> after a seek: a file shorter than the offset is extended with zeros.\<close>

definition file_write :: "nat \<Rightarrow> bytes \<Rightarrow> bytes \<Rightarrow> bytes" where
  "file_write off bs file = (let f = file @ replicate (off - length file) 0 in
     take off f @ bs @ drop (off + length bs) f)"

definition disk_read_block :: "nat \<Rightarrow> bytes tool" where
  "disk_read_block lba = (\<lambda>file. if lba * 512 + 512 \<le> length file
     then Ok (subslice (lba * 512) 512 file) file else Err UnexpectedEof file)"

definition disk_write_block :: "nat \<Rightarrow> bytes \<Rightarrow> unit tool" where
  "disk_write_block lba buf = (\<lambda>file. Ok () (file_write (lba * 512) buf file))"

definition disk_write_blocks :: "nat \<Rightarrow> nat \<Rightarrow> bytes \<Rightarrow> unit tool" where
  "disk_write_blocks lba count buf = (\<lambda>file. Ok () (file_write (lba * 512) buf file))"

subsection \<open>Structures\<close>

record tool_boot =
  tb_magic :: u64
  tb_bytes_per_sector :: u16
  tb_sectors_per_cluster :: u32
  tb_fat_start_lba :: u32
  tb_fat_sectors :: u32
  tb_root_dir_start_lba :: u32
  tb_root_dir_sectors :: u32
  tb_data_start_lba :: u32
  tb_total_clusters :: u32

record tool_entry =
  te_name :: bytes
  te_first_cluster :: u16
  te_size :: u32
  te_in_use :: u8

definition tool_boot_from_bytes :: "bytes \<Rightarrow> tool_boot" where
  "tool_boot_from_bytes buf = \<lparr> tb_magic = from_le (subslice 0 8 buf),
     tb_bytes_per_sector = from_le (subslice 8 2 buf),
     tb_sectors_per_cluster = from_le (subslice 10 4 buf), tb_fat_start_lba = from_le (subslice 14 4 buf),
     tb_fat_sectors = from_le (subslice 18 4 buf), tb_root_dir_start_lba = from_le (subslice 22 4 buf),
     tb_root_dir_sectors = from_le (subslice 26 4 buf), tb_data_start_lba = from_le (subslice 30 4 buf),
     tb_total_clusters = from_le (subslice 34 4 buf) \<rparr>"

definition tool_boot_to_bytes :: "tool_boot \<Rightarrow> bytes" where
  "tool_boot_to_bytes b =
     copy_into 34 (to_le 4 (tb_total_clusters b)) (copy_into 30 (to_le 4 (tb_data_start_lba b))
     (copy_into 26 (to_le 4 (tb_root_dir_sectors b)) (copy_into 22 (to_le 4 (tb_root_dir_start_lba b))
     (copy_into 18 (to_le 4 (tb_fat_sectors b)) (copy_into 14 (to_le 4 (tb_fat_start_lba b))
     (copy_into 10 (to_le 4 (tb_sectors_per_cluster b)) (copy_into 8 (to_le 2 (tb_bytes_per_sector b))
     (copy_into 0 (to_le 8 (tb_magic b)) (replicate 512 0)))))))))"

definition tool_entry_from_bytes :: "bytes \<Rightarrow> tool_entry" where
  "tool_entry_from_bytes buf = \<lparr> te_name = subslice 0 22 buf,
     te_first_cluster = from_le (subslice 22 2 buf), te_size = from_le (subslice 24 4 buf),
     te_in_use = buf ! 28 \<rparr>"

definition tool_entry_to_bytes :: "tool_entry \<Rightarrow> bytes" where
  "tool_entry_to_bytes e =
     (copy_into 24 (to_le 4 (te_size e)) (copy_into 22 (to_le 2 (te_first_cluster e))
        (copy_into 0 (te_name e) (replicate 32 0))))[28 := te_in_use e]"

subsection \<open>FAT and directory\<close>

text \<open>Unlike \<open>fs.rs\<close>, the tool does not check that the entry lies inside the FAT.\<close>

definition tool_read_fat_entry :: "u16 \<Rightarrow> u16 tool" where
  "tool_read_fat_entry cluster =
     (let sector_index = unat cluster div 256; entry_index = unat cluster mod 256
      in bind (disk_read_block (1 + sector_index)) (\<lambda>buf. ret (from_le (subslice (entry_index * 2) 2 buf))))"

definition tool_write_fat_entry :: "u16 \<Rightarrow> u16 \<Rightarrow> unit tool" where
  "tool_write_fat_entry cluster value =
     (let sector_index = unat cluster div 256; entry_index = unat cluster mod 256
      in bind (disk_read_block (1 + sector_index)) (\<lambda>buf.
           disk_write_block (1 + sector_index) (copy_into (entry_index * 2) (to_le 2 value) buf)))"

text \<open>\<open>2 + total_clusters - 1\<close> is checked 32-bit arithmetic: it panics on overflow.\<close>

definition tool_alloc_cluster :: "u32 \<Rightarrow> u16 tool" where
  "tool_alloc_cluster tc =
     (if unat tc + 2 \<ge> 2 ^ 32 then stop
      else bind (for_first [2..<Suc (unat (word_of_nat (2 + unat tc - 1) :: u16))] (\<lambda>i.
        let cluster = word_of_nat i in
        bind (tool_read_fat_entry cluster) (\<lambda>entry.
          if entry = FAT_ENTRY_FREE
          then bind (tool_write_fat_entry cluster FAT_ENTRY_EOC) (\<lambda>_. ret (Some cluster))
          else ret None)))
        (\<lambda>r. ok_or r WriteZero))"

definition tool_free_cluster_chain :: "u16 \<Rightarrow> unit tool" where
  "tool_free_cluster_chain first_cluster =
     prog_loop (\<lambda>current.
       if current < 2 \<or> current \<ge> FAT_ENTRY_RESERVED then ret (Inr ())
       else bind (tool_read_fat_entry current) (\<lambda>nxt.
         bind (tool_write_fat_entry current FAT_ENTRY_FREE) (\<lambda>_.
           if nxt \<ge> FAT_ENTRY_RESERVED then ret (Inr ()) else ret (Inl nxt))))
       first_cluster"

definition tool_read_dir_entry :: "nat \<Rightarrow> tool_entry tool" where
  "tool_read_dir_entry index =
     bind (disk_read_block (65 + index div 16)) (\<lambda>buf.
       ret (tool_entry_from_bytes (subslice (index mod 16 * 32) 32 buf)))"

definition tool_write_dir_entry :: "nat \<Rightarrow> tool_entry \<Rightarrow> unit tool" where
  "tool_write_dir_entry index entry =
     bind (disk_read_block (65 + index div 16)) (\<lambda>buf.
       disk_write_block (65 + index div 16) (copy_into (index mod 16 * 32) (tool_entry_to_bytes entry) buf))"

definition tool_entry_name :: "tool_entry \<Rightarrow> bytes" where
  "tool_entry_name e = takeWhile (\<lambda>b. b \<noteq> 0) (te_name e)"

definition tool_find_file :: "bytes \<Rightarrow> (nat \<times> tool_entry) option tool" where
  "tool_find_file nm =
     (if nm = [] \<or> length nm > 21 then throw InvalidInput
      else for_first [0..<256] (\<lambda>i. bind (tool_read_dir_entry i) (\<lambda>entry.
        if te_in_use entry = 1 \<and> tool_entry_name entry = nm then ret (Some (i, entry)) else ret None)))"

definition tool_empty :: tool_entry where
  "tool_empty = \<lparr> te_name = replicate 22 0, te_first_cluster = 0, te_size = 0, te_in_use = 0 \<rparr>"

definition tool_delete_file :: "bytes \<Rightarrow> unit tool" where
  "tool_delete_file nm = bind (tool_find_file nm) (\<lambda>r. case r of
     None \<Rightarrow> ret ()
   | Some (idx, entry) \<Rightarrow>
       seq (if te_first_cluster entry \<ge> 2 then tool_free_cluster_chain (te_first_cluster entry) else ret ())
         (tool_write_dir_entry idx tool_empty))"

subsection \<open>Creating, formatting, inserting\<close>

primrec tool_create_clusters :: "u32 \<Rightarrow> bytes \<Rightarrow> nat list \<Rightarrow> u16 option \<Rightarrow> u16 \<Rightarrow> u16 tool" where
  "tool_create_clusters tc data [] prev_cluster first = ret first"
| "tool_create_clusters tc data (i # is) prev_cluster first =
     bind (tool_alloc_cluster tc) (\<lambda>c.
       seq (case prev_cluster of None \<Rightarrow> ret () | Some prev \<Rightarrow> tool_write_fat_entry prev c)
       (bind (unwrap (cluster_to_lba c)) (\<lambda>lba.
          seq (disk_write_blocks lba 8 (cluster_buf data i))
              (tool_create_clusters tc data is (Some c) (if i = 0 then c else first)))))"

definition tool_free_slot :: "nat option tool" where
  "tool_free_slot = for_first [0..<256] (\<lambda>i. bind (tool_read_dir_entry i) (\<lambda>entry.
     if te_in_use entry = 0 then ret (Some i) else ret None))"

definition tool_create_file :: "bytes \<Rightarrow> bytes \<Rightarrow> u32 \<Rightarrow> unit tool" where
  "tool_create_file nm data tc =
     (if nm = [] \<or> length nm > 21 then throw InvalidInput
      else seq (tool_delete_file nm)
        (bind tool_free_slot (\<lambda>slot. bind (ok_or slot WriteZero) (\<lambda>slot_idx.
          bind (if data = [] then ret 0
                else tool_create_clusters tc data [0..<clusters_needed (length data)] None 0)
            (\<lambda>first_cluster. tool_write_dir_entry slot_idx
              \<lparr> te_name = name_field nm, te_first_cluster = first_cluster,
                te_size = word_of_nat (length data), te_in_use = 1 \<rparr>)))))"

definition tool_format_boot :: tool_boot where
  "tool_format_boot = \<lparr> tb_magic = FAT_MAGIC, tb_bytes_per_sector = 512, tb_sectors_per_cluster = 8,
     tb_fat_start_lba = 1, tb_fat_sectors = 64, tb_root_dir_start_lba = 65, tb_root_dir_sectors = 16,
     tb_data_start_lba = 81, tb_total_clusters = word_of_nat ((2097152 - 81) div 8) \<rparr>"

definition tool_format_disk :: "unit tool" where
  "tool_format_disk =
     seq (disk_write_block 0 (tool_boot_to_bytes tool_format_boot))
     (seq (for_each [0..<64] (\<lambda>i. disk_write_block (1 + i) (replicate 512 0)))
     (seq (tool_write_fat_entry 0 0xFFF8)
     (seq (tool_write_fat_entry 1 FAT_ENTRY_EOC)
          (for_each [0..<16] (\<lambda>i. disk_write_block (65 + i) (replicate 512 0))))))"

text \<open>The rows \<open>list_files\<close> prints.\<close>

primrec tool_list_entries :: "nat list \<Rightarrow> (bytes \<times> u32 \<times> u16) list tool" where
  "tool_list_entries [] = ret []"
| "tool_list_entries (i # is) =
     bind (tool_read_dir_entry i) (\<lambda>entry. bind (tool_list_entries is) (\<lambda>rest.
       ret (if te_in_use entry = 1
         then (utf8_lossy (tool_entry_name entry), te_size entry, te_first_cluster entry) # rest else rest)))"

definition tool_list_files :: "(bytes \<times> u32 \<times> u16) list tool" where
  "tool_list_files = bind (disk_read_block 0) (\<lambda>buf.
     if tb_magic (tool_boot_from_bytes buf) \<noteq> FAT_MAGIC then throw InvalidData
     else tool_list_entries [0..<256])"

text \<open>The \<open>insert\<close> command of \<open>main\<close>, after the arguments and the file have been read.\<close>

definition tool_insert :: "bytes \<Rightarrow> bytes \<Rightarrow> unit tool" where
  "tool_insert dest_name data = bind (disk_read_block 0) (\<lambda>buf.
     let bs = tool_boot_from_bytes buf in
     if tb_magic bs \<noteq> FAT_MAGIC then throw InvalidData
     else tool_create_file dest_name data (tb_total_clusters bs))"

end
