(* ===== verification/Kef_Image.thy ===== *)
theory Kef_Image
  imports Kef_Tool
begin

section \<open>Images made by the host tool\<close>

text \<open>
  The image file as a block device, which makes the theorems about \<open>fs.rs\<close> available on
  images, and a simulation: whenever the kernel's code succeeds on an image, the host tool's
  code succeeds with the same value and the same image.
\<close>

subsection \<open>The image as a block device\<close>

definition img_ok :: "bytes \<Rightarrow> bool" where
  "img_ok img \<longleftrightarrow> 512 * TOTAL_SECTORS \<le> length img"

definition img_sectors :: "bytes \<Rightarrow> nat \<Rightarrow> bytes" where
  "img_sectors img s = subslice (s * 512) 512 img"

definition img_ops :: "bytes nvme_ops" where
  "img_ops = \<lparr> default_nsid_op = (\<lambda>img. Some 1),
     nvme_read_op = (\<lambda>n lba count img. Some (0, subslice (lba * 512) (512 * count) img, img)),
     nvme_write_op = (\<lambda>n lba buf count img. Some (0, file_write (lba * 512) buf img)) \<rparr>"

lemma file_write_copy: "off \<le> length file \<Longrightarrow> file_write off bs file = copy_into off bs file"
  by (simp add: file_write_def copy_into_def)

lemma length_file_write: "off + length bs \<le> length file \<Longrightarrow> length (file_write off bs file) = length file"
  by (simp add: file_write_copy)

lemma subslice_append:
  "subslice off n xs @ subslice (off + n) m xs = subslice off (n + m) xs"
  by (simp only: subslice_def take_add drop_drop add.commute [of n off])

lemma read_img_sectors: "read_sectors lba n (img_sectors img) = subslice (lba * 512) (512 * n) img"
proof (induction n)
  case 0
  show ?case by (simp add: read_sectors_def subslice_def)
next
  case (Suc n)
  have "read_sectors lba (Suc n) (img_sectors img) =
      read_sectors lba n (img_sectors img) @ subslice ((lba + n) * 512) 512 img"
    by (simp add: read_sectors_def img_sectors_def)
  also have "\<dots> = subslice (lba * 512) (512 * Suc n) img"
    using subslice_append [of "lba * 512" "512 * n" img 512] by (simp add: Suc algebra_simps)
  finally show ?case .
qed

lemma subslice_copy_after:
  "off + length ys \<le> length xs \<Longrightarrow> off + length ys \<le> off' \<Longrightarrow>
     subslice off' n (copy_into off ys xs) = subslice off' n xs"
  by (simp add: subslice_def copy_into_def)

lemma subslice_copy_before:
  assumes "off \<le> length xs" and "off' + n \<le> off"
  shows "subslice off' n (copy_into off ys xs) = subslice off' n xs"
proof -
  from assms(2) obtain k where "off = off' + n + k" by (auto simp: le_iff_add)
  with assms(1) show ?thesis by (simp add: subslice_def copy_into_def drop_take)
qed

lemma subslice_copy_inside:
  "off \<le> length xs \<Longrightarrow> k + n \<le> length ys \<Longrightarrow> subslice (off + k) n (copy_into off ys xs) = subslice k n ys"
  by (simp add: subslice_def copy_into_def)

lemma img_sectors_write:
  assumes "img_ok img" and "lba + n \<le> TOTAL_SECTORS" and "length buf = 512 * n"
  shows "img_sectors (file_write (lba * 512) buf img) = write_sectors lba n buf (img_sectors img)"
proof
  fix s
  have len: "lba * 512 + 512 * n \<le> length img" using assms(1,2) by (simp add: img_ok_def)
  consider "s < lba" | k where "s = lba + k" "k < n" | "lba + n \<le> s"
    by (metis add_less_cancel_left le_iff_add not_less)
  then show "img_sectors (file_write (lba * 512) buf img) s = write_sectors lba n buf (img_sectors img) s"
  proof cases
    case 1
    with len assms(3) show ?thesis
      by (simp add: img_sectors_def write_sectors_def file_write_copy subslice_copy_before)
  next
    case 2
    then have "512 * k + 512 \<le> length buf" using assms(3) by simp
    with 2 len show ?thesis
      using subslice_copy_inside [of "lba * 512" img "512 * k" 512 buf]
      by (simp add: img_sectors_def write_sectors_def file_write_copy algebra_simps)
  next
    case 3
    then have "lba * 512 + length buf \<le> s * 512" using assms(3) by simp
    with 3 len assms(3) show ?thesis
      by (simp add: img_sectors_def write_sectors_def file_write_copy subslice_copy_after)
  qed
qed

interpretation img: block_device img_ops img_ok img_sectors
proof unfold_locales
  show "default_nsid_op img_ops d \<noteq> None" for d by (simp add: img_ops_def)
  show "sectors_ok (img_sectors d)" if "img_ok d" for d
    using that by (auto simp: sectors_ok_def img_sectors_def img_ok_def)
  show "\<exists>d'. nvme_read_op img_ops n lba count d = Some (0, read_sectors lba count (img_sectors d), d')
      \<and> img_ok d' \<and> img_sectors d' = img_sectors d" if "img_ok d" for d n lba count
    using that by (simp add: img_ops_def read_img_sectors)
  show "\<exists>d'. nvme_write_op img_ops n lba buf count d = Some (0, d')
      \<and> img_ok d' \<and> img_sectors d' = write_sectors lba count buf (img_sectors d)"
    if "img_ok d" "lba + count \<le> TOTAL_SECTORS" "length buf = 512 * count" for d n lba count buf
    using that img_sectors_write [OF that]
    by (simp add: img_ops_def) (simp add: img_ok_def length_file_write)
qed

subsection \<open>Simulation\<close>

text \<open>
  \<open>agrees f p q\<close>: on an image of full size, if \<open>p\<close> returns a value then \<open>q\<close> returns the
  corresponding value and the same image, which is again of full size.
\<close>

definition agrees :: "('a \<Rightarrow> 'b) \<Rightarrow> (bytes, FsError, 'a) prog \<Rightarrow> 'b tool \<Rightarrow> bool" where
  "agrees f p q \<longleftrightarrow> (\<forall>s x s'. img_ok s \<longrightarrow> p s = Ok x s' \<longrightarrow> img_ok s' \<and> q s = Ok (f x) s')"

named_theorems sim "simulation rules"

lemma agrees_ret [sim]: "f x = y \<Longrightarrow> agrees f (ret x) (ret y)"
  by (simp add: agrees_def ret_def)

lemma agrees_throw [sim]: "agrees f (throw e) q"
  by (simp add: agrees_def throw_def)

lemma agreesD: "agrees f p q \<Longrightarrow> img_ok s \<Longrightarrow> p s = Ok x s' \<Longrightarrow> img_ok s' \<and> q s = Ok (f x) s'"
  by (simp add: agrees_def)

lemma agrees_bind:
  assumes "agrees f p q" and "\<And>x. agrees g (k x) (l (f x))"
  shows "agrees g (bind p k) (bind q l)"
  unfolding agrees_def
proof (intro allI impI)
  fix s x s'
  assume "img_ok s" and "bind p k s = Ok x s'"
  moreover from this obtain y t where "p s = Ok y t" "k y t = Ok x s'"
    by (auto simp: bind_def split: res.splits)
  ultimately show "img_ok s' \<and> bind q l s = Ok (g x) s'"
    using agreesD [OF assms(1), of s y t] agreesD [OF assms(2), of t y x s'] by (simp add: bind_def)
qed

lemma agrees_seq [sim]: "agrees id p q \<Longrightarrow> agrees g p' q' \<Longrightarrow> agrees g (seq p p') (seq q q')"
  unfolding seq_def by (rule agrees_bind)

lemma agrees_unwrap [sim]: "agrees id (unwrap v) (unwrap v)"
  by (cases v) (simp_all add: agrees_def unwrap_def ret_def stop_def)

lemma agrees_ok_or [sim]: "agrees id (ok_or v e) (ok_or v e')"
  by (cases v) (simp_all add: agrees_def ok_or_def ret_def throw_def)

lemma agrees_for_first:
  assumes "\<And>i. agrees (map_option f) (p i) (q i)"
  shows "agrees (map_option f) (for_first is p) (for_first is q)"
proof (induction "is")
  case Nil
  show ?case by (simp add: agrees_ret)
next
  case (Cons i "is")
  have "agrees (map_option f)
      (case r of None \<Rightarrow> for_first is p | Some y \<Rightarrow> ret (Some y))
      (case map_option f r of None \<Rightarrow> for_first is q | Some y \<Rightarrow> ret (Some y))" for r
    using Cons.IH by (cases r) (simp_all add: agrees_ret)
  then show ?case
    unfolding for_first.simps by (rule agrees_bind [OF assms])
qed

lemma agrees_for_each:
  assumes "\<And>i. agrees id (p i) (q i)"
  shows "agrees id (for_each is p) (for_each is q)"
proof (induction "is")
  case Nil
  show ?case unfolding for_each.simps by (rule agrees_ret) simp
next
  case (Cons i "is")
  show ?case unfolding for_each.simps by (rule agrees_seq [OF assms Cons.IH])
qed

lemma loop_round_fixed: "\<not> loop_goes_on r \<Longrightarrow> (loop_round body ^^ k) r = r"
  by (induction k) (auto simp: loop_goes_on_def loop_round_def split: res.splits sum.splits)

lemma loop_round_Inl: "loop_round body (Ok (Inl c) s) = body c s"
  by (simp add: loop_round_def)

lemma prog_loop_OkD:
  assumes "prog_loop body c s = Ok x s'"
  shows "\<exists>k. (loop_round body ^^ k) (Ok (Inl c) s) = Ok (Inr x) s'"
proof -
  from assms obtain r where r: "while_option loop_goes_on (loop_round body) (Ok (Inl c) s) = Some r"
      "loop_result (Some r) = Ok x s'"
    by (auto simp: prog_loop_def loop_result_def split: option.splits)
  then have "r = Ok (Inr x) s'" by (auto simp: loop_result_def split: res.splits sum.splits)
  with while_option_stop2 [OF r(1)] show ?thesis by auto
qed

lemma agrees_prog_loop:
  assumes "\<And>c. agrees id (p c) (q c)"
  shows "agrees id (prog_loop p c) (prog_loop q c)"
proof -
  have "img_ok s \<Longrightarrow> (loop_round p ^^ k) (Ok (Inl c) s) = Ok (Inr x) s' \<Longrightarrow>
      img_ok s' \<and> prog_loop q c s = Ok x s'" for k c s x s'
  proof (induction k arbitrary: c s)
    case 0
    then show ?case by simp
  next
    case (Suc k)
    have unroll: "(loop_round p ^^ k) (p c s) = Ok (Inr x) s'"
      using Suc.prems(2) by (simp only: funpow_Suc_right o_apply loop_round_Inl)
    show ?case
    proof (cases "loop_goes_on (p c s)")
      case True
      then obtain c1 s1 where "p c s = Ok (Inl c1) s1"
        by (auto simp: loop_goes_on_def split: res.splits sum.splits)
      with assms [of c] Suc.prems(1) Suc.IH [of s1 c1] unroll show ?thesis
        by (simp add: agrees_def prog_loop_unfold [of q c s] bind_def)
    next
      case False
      with unroll have "p c s = Ok (Inr x) s'" by (simp add: loop_round_fixed)
      with assms [of c] Suc.prems(1) show ?thesis
        by (simp add: agrees_def prog_loop_unfold [of q c s] bind_def ret_def)
    qed
  qed
  then show ?thesis unfolding agrees_def using prog_loop_OkD by fastforce
qed

subsection \<open>The tool's code simulates the kernel's\<close>

definition tool_of :: "FatDirEntry \<Rightarrow> tool_entry" where
  "tool_of e = \<lparr> te_name = de_name e, te_first_cluster = de_first_cluster e, te_size = de_size e,
     te_in_use = de_in_use e \<rparr>"

lemma length_file_write_ge: "length file \<le> length (file_write off bs file)"
  by (simp add: file_write_def Let_def)

lemma agrees_read_block: "lba < TOTAL_SECTORS \<Longrightarrow> agrees id (read_block_unlocked img_ops lba) (disk_read_block lba)"
  by (auto simp: agrees_def read_block_unlocked_def read_blocks_unlocked_def default_nsid_def nvme_read_def
      img_ops_def bind_def ok_or_def ret_def disk_read_block_def img_ok_def)

lemma agrees_write_block [sim]:
  "agrees id (write_block_unlocked img_ops lba buf) (disk_write_block lba buf)"
  using length_file_write_ge [of _ "lba * 512" buf]
  by (auto simp: agrees_def write_block_unlocked_def write_blocks_unlocked_def default_nsid_def nvme_write_def
      img_ops_def bind_def ok_or_def ret_def disk_write_block_def img_ok_def intro: order_trans)

lemma agrees_write_blocks [sim]:
  "agrees id (write_blocks_unlocked img_ops lba n (Some buf)) (disk_write_blocks lba n buf)"
  using length_file_write_ge [of _ "lba * 512" buf]
  by (auto simp: agrees_def write_blocks_unlocked_def default_nsid_def nvme_write_def throw_def
      img_ops_def bind_def ok_or_def ret_def disk_write_blocks_def img_ok_def intro: order_trans)

lemma agrees_read_fat: "agrees id (read_fat_entry_unlocked img_ops c) (tool_read_fat_entry c)"
  by (auto simp: read_fat_entry_unlocked_def tool_read_fat_entry_def Let_def agrees_throw
      intro!: agrees_bind [OF agrees_read_block [unfolded TOTAL_SECTORS_def]] agrees_ret)

lemma agrees_write_fat [sim]: "agrees id (write_fat_entry_unlocked img_ops c v) (tool_write_fat_entry c v)"
  using agrees_write_block
  by (auto simp: write_fat_entry_unlocked_def tool_write_fat_entry_def Let_def agrees_throw
      intro!: agrees_bind [OF agrees_read_block [unfolded TOTAL_SECTORS_def]])

lemma agrees_alloc: "agrees id (alloc_cluster_unlocked img_ops) (tool_alloc_cluster (word_of_nat TOTAL_CLUSTERS))"
proof -
  have max: "unat (word_of_nat (2 + unat (word_of_nat TOTAL_CLUSTERS :: u32) - 1) :: u16) = unat max_cluster"
    by (simp add: max_cluster_def unat_of_nat)
  have tc: "\<not> unat (word_of_nat TOTAL_CLUSTERS :: u32) + 2 \<ge> 2 ^ 32" by (simp add: unat_of_nat)
  have body: "agrees (map_option id)
      (let cluster = word_of_nat i in bind (read_fat_entry_unlocked img_ops cluster) (\<lambda>entry.
         if entry = FAT_ENTRY_FREE
         then bind (write_fat_entry_unlocked img_ops cluster FAT_ENTRY_EOC) (\<lambda>_. ret (Some cluster))
         else ret None))
      (let cluster = word_of_nat i in bind (tool_read_fat_entry cluster) (\<lambda>entry.
         if entry = FAT_ENTRY_FREE
         then bind (tool_write_fat_entry cluster FAT_ENTRY_EOC) (\<lambda>_. ret (Some cluster))
         else ret None))" for i
    unfolding Let_def
    by (rule agrees_bind [OF agrees_read_fat])
      (auto intro!: agrees_bind [OF agrees_write_fat] agrees_ret)
  have last: "agrees id (ok_or r NoSpace) (ok_or (map_option id r) WriteZero)" for r :: "u16 option"
    by (simp add: option.map_id agrees_ok_or)
  show ?thesis
    unfolding alloc_cluster_unlocked_def tool_alloc_cluster_def if_not_P [OF tc] max
    by (rule agrees_bind [where f = "map_option id"]) (rule agrees_for_first [OF body], rule last)
qed

lemma agrees_free_chain [sim]:
  "agrees id (free_cluster_chain_unlocked img_ops x) (tool_free_cluster_chain x)"
  unfolding free_cluster_chain_unlocked_def tool_free_cluster_chain_def
proof (rule agrees_prog_loop)
  fix c :: u16
  have "agrees id (bind (write_fat_entry_unlocked img_ops c FAT_ENTRY_FREE)
        (\<lambda>_. if nxt \<ge> FAT_ENTRY_RESERVED then ret (Inr ()) else ret (Inl nxt)))
      (bind (tool_write_fat_entry c FAT_ENTRY_FREE)
        (\<lambda>_. if id nxt \<ge> FAT_ENTRY_RESERVED then ret (Inr ()) else ret (Inl (id nxt))))" for nxt
    by (rule agrees_bind [OF agrees_write_fat]) (auto intro!: agrees_ret)
  then show "agrees id (if c < 2 \<or> FAT_ENTRY_RESERVED \<le> c then ret (Inr ())
      else bind (read_fat_entry_unlocked img_ops c) (\<lambda>nxt.
        bind (write_fat_entry_unlocked img_ops c FAT_ENTRY_FREE)
          (\<lambda>_. if FAT_ENTRY_RESERVED \<le> nxt then ret (Inr ()) else ret (Inl nxt))))
    (if c < 2 \<or> FAT_ENTRY_RESERVED \<le> c then ret (Inr ())
      else bind (tool_read_fat_entry c) (\<lambda>nxt.
        bind (tool_write_fat_entry c FAT_ENTRY_FREE)
          (\<lambda>_. if FAT_ENTRY_RESERVED \<le> nxt then ret (Inr ()) else ret (Inl nxt))))"
    by (auto intro!: agrees_ret agrees_bind [OF agrees_read_fat])
qed

lemma tool_of_dir_of: "tool_of (dir_of buf) = tool_entry_from_bytes buf"
  by (simp add: tool_of_def dir_of_def tool_entry_from_bytes_def)

lemma tool_entry_to_bytes_of:
  assumes "length (de_name e) = 22" and "de_reserved e = replicate 3 0"
  shows "tool_entry_to_bytes (tool_of e) = dir_bytes e"
  using assms
  by (simp add: tool_entry_to_bytes_def tool_of_def dir_bytes_def copy_into_def list_update_append
      numeral_eq_Suc)

lemma agrees_read_dir:
  assumes "i < 256"
  shows "agrees tool_of (read_dir_entry_unlocked img_ops i) (tool_read_dir_entry i)"
proof -
  have "agrees tool_of (bind (read_block_unlocked img_ops (65 + i div 16))
        (\<lambda>buf. ret (dir_of (subslice (i mod 16 * 32) 32 buf)))) (tool_read_dir_entry i)"
    unfolding tool_read_dir_entry_def
    using assms by (intro agrees_bind [OF agrees_read_block] agrees_ret) (auto simp: tool_of_dir_of)
  with assms show ?thesis by (simp add: read_dir_entry_unlocked_def Let_def)
qed

lemma agrees_write_dir:
  assumes "length (de_name e) = 22" and "de_reserved e = replicate 3 0"
  shows "agrees id (write_dir_entry_unlocked img_ops i e) (tool_write_dir_entry i (tool_of e))"
  using agrees_write_block
  by (auto simp: write_dir_entry_unlocked_def tool_write_dir_entry_def Let_def agrees_throw
      tool_entry_to_bytes_of [OF assms]
      intro!: agrees_bind [OF agrees_read_block [unfolded TOTAL_SECTORS_def]])

lemma agrees_find_file:
  "agrees (map_option (map_prod id tool_of)) (find_file_unlocked img_ops nm) (tool_find_file nm)"
proof (cases "nm = [] \<or> length nm > 21")
  case True
  then show ?thesis by (auto simp: find_file_unlocked_def agrees_throw)
next
  case False
  have body: "agrees (map_option (map_prod id tool_of))
      (bind (read_dir_entry_unlocked img_ops i) (\<lambda>entry.
        if de_in_use entry = 1 \<and> entry_name entry = nm then ret (Some (i, entry)) else ret None))
      (bind (tool_read_dir_entry i) (\<lambda>entry.
        if te_in_use entry = 1 \<and> tool_entry_name entry = nm then ret (Some (i, entry)) else ret None))" for i
  proof (cases "i < 256")
    case True
    show ?thesis
      by (rule agrees_bind [OF agrees_read_dir [OF True]])
        (auto simp: tool_of_def tool_entry_name_def entry_name_def intro!: agrees_ret)
  next
    case False
    then show ?thesis by (simp add: read_dir_entry_unlocked_def agrees_def throw_def bind_def)
  qed
  have "agrees (map_option (map_prod id tool_of)) (find_file_unlocked img_ops nm)
      (for_first [0..<ROOT_DIR_ENTRIES] (\<lambda>i. bind (tool_read_dir_entry i) (\<lambda>entry.
        if te_in_use entry = 1 \<and> tool_entry_name entry = nm then ret (Some (i, entry)) else ret None)))"
    unfolding find_file_unlocked_def if_not_P [OF False] by (rule agrees_for_first [OF body])
  then show ?thesis unfolding tool_find_file_def if_not_P [OF False] by simp
qed

lemma agrees_delete:
  "agrees id (bind (find_file_unlocked img_ops nm) (\<lambda>old. case old of None \<Rightarrow> ret ()
      | Some (idx, e) \<Rightarrow> erase_entry img_ops idx e)) (tool_delete_file nm)"
  unfolding tool_delete_file_def
proof (rule agrees_bind [OF agrees_find_file])
  fix r :: "(nat \<times> FatDirEntry) option"
  have "tool_of empty_entry = tool_empty" by (simp add: tool_of_def empty_entry_def tool_empty_def)
  then have clear: "agrees id (write_dir_entry_unlocked img_ops idx empty_entry) (tool_write_dir_entry idx tool_empty)" for idx
    using agrees_write_dir [of empty_entry idx] by (simp add: empty_entry_def)
  show "agrees id (case r of None \<Rightarrow> ret () | Some (idx, e) \<Rightarrow> erase_entry img_ops idx e)
      (case map_option (map_prod id tool_of) r of None \<Rightarrow> ret ()
       | Some (idx, entry) \<Rightarrow>
           seq (if te_first_cluster entry \<ge> 2 then tool_free_cluster_chain (te_first_cluster entry) else ret ())
             (tool_write_dir_entry idx tool_empty))"
    by (cases r) (auto simp: erase_entry_def tool_of_def intro!: agrees_ret agrees_seq agrees_free_chain clear)
qed

lemma agrees_free_slot: "agrees id (find_free_dir_slot_unlocked img_ops) tool_free_slot"
proof -
  have body: "agrees (map_option id)
      (bind (read_dir_entry_unlocked img_ops i) (\<lambda>entry. if de_in_use entry = 0 then ret (Some i) else ret None))
      (bind (tool_read_dir_entry i) (\<lambda>entry. if te_in_use entry = 0 then ret (Some i) else ret None))" for i
  proof (cases "i < 256")
    case True
    show ?thesis
      by (rule agrees_bind [OF agrees_read_dir [OF True]]) (auto simp: tool_of_def intro!: agrees_ret)
  next
    case False
    then show ?thesis by (simp add: read_dir_entry_unlocked_def agrees_def throw_def bind_def)
  qed
  have "agrees (map_option id) (find_free_dir_slot_unlocked img_ops) (for_first [0..<ROOT_DIR_ENTRIES]
      (\<lambda>i. bind (tool_read_dir_entry i) (\<lambda>entry. if te_in_use entry = 0 then ret (Some i) else ret None)))"
    unfolding find_free_dir_slot_unlocked_def by (rule agrees_for_first [OF body])
  then show ?thesis by (simp add: tool_free_slot_def option.map_id0)
qed

lemma agrees_create_clusters:
  "agrees id (create_clusters img_ops data is prev first)
     (tool_create_clusters (word_of_nat TOTAL_CLUSTERS) data is prev first)"
proof (induction "is" arbitrary: prev first)
  case Nil
  show ?case unfolding create_clusters.simps tool_create_clusters.simps by (rule agrees_ret) simp
next
  case (Cons i "is")
  have prev: "agrees id (case prev of None \<Rightarrow> ret () | Some p \<Rightarrow> write_fat_entry_unlocked img_ops p c)
      (case prev of None \<Rightarrow> ret () | Some p \<Rightarrow> tool_write_fat_entry p c)" for c
    by (cases prev) (auto intro!: agrees_ret agrees_write_fat)
  have data: "agrees id (write_blocks_unlocked img_ops lba SECTORS_PER_CLUSTER (Some (cluster_buf data i)))
      (disk_write_blocks lba 8 (cluster_buf data i))" for lba
    using agrees_write_blocks [of lba 8] by simp
  show ?case
    unfolding create_clusters.simps tool_create_clusters.simps
    by (intro agrees_bind [OF agrees_alloc, unfolded id_apply] agrees_seq prev data Cons.IH
        agrees_bind [OF agrees_unwrap, unfolded id_apply])
qed

lemma read_boot_same:
  "read_boot_sector_unlocked img_ops s = Ok bs s' \<Longrightarrow> s' = s"
  by (auto simp: read_boot_sector_unlocked_def is_ready_def default_nsid_def read_block_unlocked_def
      read_blocks_unlocked_def nvme_read_def img_ops_def bind_def ret_def ok_or_def throw_def
      split: res.splits if_splits)

lemma bind_seq_assoc: "bind p (\<lambda>x. seq (k x) r) = seq (bind p k) r"
  by (simp add: bind_def seq_def fun_eq_iff split: res.split)

lemma agrees_after_boot:
  assumes "agrees g q q'"
  shows "agrees g (seq (read_boot_sector_unlocked img_ops) q) q'"
  unfolding agrees_def seq_def
proof (intro allI impI)
  fix s x s'
  assume "img_ok s" and "bind (read_boot_sector_unlocked img_ops) (\<lambda>_. q) s = Ok x s'"
  moreover from this obtain bs t where "read_boot_sector_unlocked img_ops s = Ok bs t" "q t = Ok x s'"
    by (auto simp: bind_def split: res.splits)
  ultimately show "img_ok s' \<and> q' s = Ok (g x) s'"
    using read_boot_same [of s bs t] agreesD [OF assms, of s x s'] by simp
qed

lemma agrees_create_file:
  assumes "name_valid nm"
  shows "agrees id (create_file_unlocked img_ops nm data) (tool_create_file nm data (word_of_nat TOTAL_CLUSTERS))"
proof -
  have nm: "\<not> (nm = [] \<or> length nm > 21)" using assms by (simp add: name_valid_def not_less)
  have enter: "agrees id (write_dir_entry_unlocked img_ops i (new_entry nm c data)) (tool_write_dir_entry i
      \<lparr> te_name = name_field nm, te_first_cluster = c, te_size = word_of_nat (length data), te_in_use = 1 \<rparr>)" for i c
    using agrees_write_dir [of "new_entry nm c data" i] assms by (simp add: new_entry_def tool_of_def)
  have clusters: "agrees id (if data = [] then ret 0
        else create_clusters img_ops data [0..<clusters_needed (length data)] None 0)
      (if data = [] then ret 0
        else tool_create_clusters (word_of_nat TOTAL_CLUSTERS) data [0..<clusters_needed (length data)] None 0)"
    using agrees_create_clusters by (cases "data = []") (auto intro!: agrees_ret)
  have rest: "agrees id
      (bind (find_free_dir_slot_unlocked img_ops) (\<lambda>slot. bind (ok_or slot NoSpace) (\<lambda>slot_idx.
        bind (if data = [] then ret 0
              else create_clusters img_ops data [0..<clusters_needed (length data)] None 0)
          (\<lambda>first_cluster. write_dir_entry_unlocked img_ops slot_idx (new_entry nm first_cluster data)))))
      (bind tool_free_slot (\<lambda>slot. bind (ok_or slot WriteZero) (\<lambda>slot_idx.
        bind (if data = [] then ret 0
              else tool_create_clusters (word_of_nat TOTAL_CLUSTERS) data [0..<clusters_needed (length data)] None 0)
          (\<lambda>first_cluster. tool_write_dir_entry slot_idx \<lparr> te_name = name_field nm,
            te_first_cluster = first_cluster, te_size = word_of_nat (length data), te_in_use = 1 \<rparr>))))"
    by (intro agrees_bind [OF agrees_free_slot, unfolded id_apply] agrees_bind [OF agrees_ok_or, unfolded id_apply]
        agrees_bind [OF clusters, unfolded id_apply] enter)
  show ?thesis
    unfolding create_file_unlocked_def tool_create_file_def if_not_P [OF nm] bind_seq_assoc
    by (rule agrees_after_boot [OF agrees_seq [OF agrees_delete rest]])
qed

text \<open>Formatting.\<close>

lemma tool_boot_bytes: "tool_boot_to_bytes tool_format_boot = boot_bytes format_boot_sector"
  by (simp add: tool_boot_to_bytes_def tool_format_boot_def boot_bytes_def format_boot_sector_def copy_into_def)

lemma agrees_format: "agrees id (format_unlocked img_ops) tool_format_disk"
proof -
  have boot: "agrees id (write_boot_sector_unlocked img_ops format_boot_sector)
      (disk_write_block 0 (tool_boot_to_bytes tool_format_boot))"
    using agrees_write_block [of 0 "boot_bytes format_boot_sector"]
    by (simp add: write_boot_sector_unlocked_def is_ready_def default_nsid_def img_ops_def tool_boot_bytes
        agrees_def bind_def ret_def)
  have zero: "agrees id (for_each [0..<n] (\<lambda>i. write_block_unlocked img_ops (k + i) (replicate BLOCK_SIZE 0)))
      (for_each [0..<n] (\<lambda>i. disk_write_block (k + i) (replicate 512 0)))" for n k
    using agrees_write_block by (intro agrees_for_each) simp
  have "agrees id (seq (write_boot_sector_unlocked img_ops format_boot_sector)
       (seq (for_each [0..<FAT_SECTORS] (\<lambda>i.
               write_block_unlocked img_ops (FAT_START_LBA + i) (replicate BLOCK_SIZE 0)))
       (seq (write_fat_entry_unlocked img_ops 0 0xFFF8)
       (seq (write_fat_entry_unlocked img_ops 1 FAT_ENTRY_EOC)
            (for_each [0..<ROOT_DIR_SECTORS] (\<lambda>i.
               write_block_unlocked img_ops (ROOT_DIR_START_LBA + i) (replicate BLOCK_SIZE 0)))))))
     tool_format_disk"
    unfolding tool_format_disk_def
    using zero [of 64 1] zero [of 16 65] agrees_write_fat by (intro agrees_seq boot) simp_all
  then show ?thesis
    by (simp add: format_unlocked_def is_ready_def default_nsid_def img_ops_def bind_def ret_def agrees_def)
qed

end
