(* ===== verification/Kef_Spec.thy ===== *)
theory Kef_Spec
  imports Kef_Image
begin

section \<open>What the host tool promises\<close>

text \<open>
  The tool's images are volumes of the kernel's file system: formatting gives the empty
  volume and inserting binds the name to the data.
\<close>

lemma boot_total:
  assumes "vboot (view (img_sectors img)) = format_boot_sector"
  shows "tb_total_clusters (tool_boot_from_bytes (subslice 0 512 img)) = word_of_nat TOTAL_CLUSTERS"
    and "tb_magic (tool_boot_from_bytes (subslice 0 512 img)) = FAT_MAGIC"
proof -
  have "boot_of (subslice 0 512 img) = format_boot_sector"
    using assms by (simp add: view_def img_sectors_def)
  then have "total_clusters (boot_of (subslice 0 512 img)) = total_clusters format_boot_sector"
    "magic (boot_of (subslice 0 512 img)) = magic format_boot_sector"
    by simp_all
  then show "tb_total_clusters (tool_boot_from_bytes (subslice 0 512 img)) = word_of_nat TOTAL_CLUSTERS"
    "tb_magic (tool_boot_from_bytes (subslice 0 512 img)) = FAT_MAGIC"
    by (simp_all add: boot_of_def tool_boot_from_bytes_def format_boot_sector_def)
qed

lemma runs_to_OkD: "runs_to p s (\<lambda>r s'. r = Inr x \<and> P s') \<Longrightarrow> \<exists>s'. p s = Ok x s' \<and> P s'"
  by (auto simp: runs_to_def split: res.splits)

lemma tool_insert_step:
  assumes "img_ok img" and "vol_wf (view (img_sectors img))" and "name_valid nm" and "0 \<notin> set nm"
    and "free_slot (erase_name nm (view (img_sectors img))) \<noteq> None"
    and "clusters_needed (length data) \<le> card (free_clusters (erase_name nm (view (img_sectors img))))"
  shows "\<exists>img'. tool_insert nm data img = Ok () img' \<and> img_ok img' \<and> vol_wf (view (img_sectors img')) \<and>
    files (view (img_sectors img')) = (files (view (img_sectors img)))(nm \<mapsto> data)"
proof -
  have at: "img.at_dev img (view (img_sectors img))" using assms(1) by (simp add: img.at_dev_def)
  have "runs_to (create_file_unlocked img_ops nm data) img (\<lambda>r img'. r = Inr () \<and> (vol_wf (view (img_sectors img')) \<and>
      files (view (img_sectors img')) = (files (view (img_sectors img)))(nm \<mapsto> data)))"
    by (rule img.runs_create_file [OF at assms(2-4)]) (use assms(5,6) in \<open>auto simp: img.at_dev_def\<close>)
  then obtain img' where img': "create_file_unlocked img_ops nm data img = Ok () img'"
    "vol_wf (view (img_sectors img'))" "files (view (img_sectors img')) = (files (view (img_sectors img)))(nm \<mapsto> data)"
    by (auto dest!: runs_to_OkD)
  have "img_ok img' \<and> tool_create_file nm data (word_of_nat TOTAL_CLUSTERS) img = Ok () img'"
    using agreesD [OF agrees_create_file [OF assms(3)] assms(1) img'(1)] by simp
  moreover have "512 \<le> length img" using assms(1) by (simp add: img_ok_def)
  ultimately show ?thesis
    using img'(2,3) boot_total [OF vol_wf_boot [OF assms(2)]]
    by (simp add: tool_insert_def disk_read_block_def bind_def Let_def)
qed

definition fresh_image :: bytes where
  "fresh_image = boot_bytes format_boot_sector @ replicate (512 * 2097151) 0"

lemma fresh_image_ok: "img_ok fresh_image"
  using length_boot_bytes [OF boot_ok_format] by (simp add: img_ok_def fresh_image_def)

lemma fresh_image_sectors:
  "img_sectors fresh_image 0 = boot_bytes format_boot_sector"
  "0 < s \<Longrightarrow> s < 2097152 \<Longrightarrow> img_sectors fresh_image s = replicate 512 0"
  using length_boot_bytes [OF boot_ok_format]
  by (auto simp: img_sectors_def fresh_image_def subslice_def min_def)

lemma fresh_image_dir: "vdir (view (img_sectors fresh_image)) i = empty_entry"
proof (cases "i < 256")
  case True
  have "i mod 16 * 32 + 32 \<le> 512" using mod_less_divisor [of 16 i] by simp
  with True show ?thesis
    by (simp add: view_def sector_dir_def fresh_image_sectors subslice_replicate dir_of_zero)
qed (simp add: view_def sector_dir_def)

lemma fresh_image_wf: "vol_wf (view (img_sectors fresh_image))"
proof (rule vol_wfI)
  show "vboot (view (img_sectors fresh_image)) = format_boot_sector"
    using boot_roundtrip [OF boot_ok_format] by (simp add: view_def fresh_image_sectors)
qed (auto simp: fresh_image_dir used_def empty_entry_def)

lemma fresh_image_files: "files (view (img_sectors fresh_image)) nm = None"
  by (simp add: files_None used_def fresh_image_dir empty_entry_def)

lemma fresh_image_room:
  "free_slot (erase_name nm (view (img_sectors fresh_image))) = Some 0"
  "free_clusters (erase_name nm (view (img_sectors fresh_image))) = {c. usable c}"
proof -
  have slot: "slot_of (view (img_sectors fresh_image)) nm = None"
    by (simp add: slot_of_None used_def fresh_image_dir empty_entry_def)
  then show "free_slot (erase_name nm (view (img_sectors fresh_image))) = Some 0"
    by (simp add: erase_name_def free_slot_def find_upt_Some fresh_image_dir empty_entry_def)
  have "vfat (view (img_sectors fresh_image)) c = 0" if "usable c" for c
  proof -
    have "unat c mod 256 * 2 + 2 \<le> 512" using mod_less_divisor [of 256 "unat c"] by simp
    moreover have "unat c div 256 < 64" "unat c < 16384" using that by (auto simp: usable_def)
    ultimately show ?thesis
      by (simp add: view_def sector_fat_def fresh_image_sectors subslice_replicate from_le_zero)
  qed
  with slot show "free_clusters (erase_name nm (view (img_sectors fresh_image))) = {c. usable c}"
    by (auto simp: erase_name_def free_clusters_def)
qed



text \<open>
  C8.  Formatting a full-size image succeeds and leaves exactly the empty volume the kernel's
  own formatter would leave: same boot sector, same FAT, same directory.
\<close>

theorem kef_format_correct:
  assumes "img_ok img"
  shows "\<exists>img'. tool_format_disk img = Ok () img' \<and> img_ok img' \<and> vol_wf (view (img_sectors img')) \<and>
    files (view (img_sectors img')) = Map.empty \<and> format_unlocked img_ops img = Ok () img'"
proof -
  have "runs_to (format_unlocked img_ops) img (\<lambda>r img'. r = Inr () \<and> (vol_wf (view (img_sectors img')) \<and>
      files (view (img_sectors img')) = Map.empty))"
    using assms
    by (rule img.runs_format) (auto simp: img.at_dev_def vol_wf_empty_volume files_empty_volume)
  then obtain img' where "format_unlocked img_ops img = Ok () img'" "vol_wf (view (img_sectors img'))"
    "files (view (img_sectors img')) = Map.empty"
    by (auto dest!: runs_to_OkD)
  then show ?thesis using agreesD [OF agrees_format assms] by auto
qed

theorem kef_format_correct_witness:
  "\<exists>img'. tool_format_disk fresh_image = Ok () img' \<and> img_ok img' \<and> vol_wf (view (img_sectors img')) \<and>
    files (view (img_sectors img')) = Map.empty \<and> format_unlocked img_ops fresh_image = Ok () img'"
  by (rule kef_format_correct [OF fresh_image_ok])

end
