(* ===== verification/Phys.thy ===== *)
theory Phys
  imports Prelude
begin

section \<open>Physical memory\<close>

text \<open>
  Byte-addressed memory as the kernel reaches it through identity-mapped pointers: loads and
  stores of byte ranges and of 64-bit words, and the rules for a load after a store.
\<close>

unbundle bit_operations_syntax

type_synonym pmem = "nat \<Rightarrow> u8"

definition load_bytes :: "pmem \<Rightarrow> nat \<Rightarrow> nat \<Rightarrow> bytes" where
  "load_bytes m a n = map m [a..<a + n]"

definition store_bytes :: "nat \<Rightarrow> bytes \<Rightarrow> pmem \<Rightarrow> pmem" where
  "store_bytes a bs m = (\<lambda>x. if a \<le> x \<and> x < a + length bs then bs ! (x - a) else m x)"

definition load64 :: "pmem \<Rightarrow> nat \<Rightarrow> u64" where
  "load64 m a = from_le (load_bytes m a 8)"

definition store64 :: "nat \<Rightarrow> u64 \<Rightarrow> pmem \<Rightarrow> pmem" where
  "store64 a v = store_bytes a (to_le 8 v)"

lemma length_load_bytes [simp, len]: "length (load_bytes m a n) = n"
  by (simp add: load_bytes_def)

lemma load_store_bytes_same: "load_bytes (store_bytes a bs m) a (length bs) = bs"
  by (rule nth_equalityI) (auto simp: load_bytes_def store_bytes_def)

lemma load_store_bytes_other:
  "a + n \<le> b \<or> b + length bs \<le> a \<Longrightarrow> load_bytes (store_bytes b bs m) a n = load_bytes m a n"
  by (auto simp: load_bytes_def store_bytes_def)

lemma load_store_bytes_inside:
  "k + n \<le> length bs \<Longrightarrow> load_bytes (store_bytes a bs m) (a + k) n = subslice k n bs"
  by (rule nth_equalityI) (auto simp: load_bytes_def store_bytes_def nth_subslice)

lemma load64_store64_same [simp]: "load64 (store64 a v m) a = v"
  using load_store_bytes_same [of a "to_le 8 v" m] by (simp add: load64_def store64_def)

lemma load64_store64_other:
  "a + 8 \<le> b \<or> b + 8 \<le> a \<Longrightarrow> load64 (store64 b v m) a = load64 m a"
  by (simp add: load64_def store64_def load_store_bytes_other)

lemma load64_store_bytes_other:
  "a + 8 \<le> b \<or> b + length bs \<le> a \<Longrightarrow> load64 (store_bytes b bs m) a = load64 m a"
  by (simp add: load64_def load_store_bytes_other)

lemma load_bytes_store64_other:
  "a + n \<le> b \<or> b + 8 \<le> a \<Longrightarrow> load_bytes (store64 b v m) a n = load_bytes m a n"
  by (simp add: store64_def load_store_bytes_other)

lemma nat_of_le_zeros: "nat_of_le (replicate n 0) = 0"
  by (induction n) simp_all

lemma load64_zeros:
  assumes "k + 8 \<le> n"
  shows "load64 (store_bytes a (replicate n 0) m) (a + k) = 0"
proof -
  have "load_bytes (store_bytes a (replicate n 0) m) (a + k) 8 = subslice k 8 (replicate n 0)"
    using assms by (intro load_store_bytes_inside) simp
  also have "\<dots> = replicate 8 0" using assms by (simp add: subslice_def min_def)
  finally show ?thesis by (simp add: load64_def from_le_def nat_of_le_zeros)
qed

end
