(* ===== verification/Memory.thy ===== *)
theory Memory
  imports Phys
begin

section \<open>Frames and page tables\<close>

text \<open>
  \<open>src/src/memory.rs\<close>: the frame allocator over the UEFI memory map and the four-level page
  tables.  The memory map is the list of its descriptors.  Page tables live in physical
  memory as 512 little-endian words.  An exhausted allocator makes \<open>map_page\<close> panic, and so
  does an address computation past 64 bits; both are \<open>Stop\<close>.
\<close>

subsection \<open>Definitions\<close>

definition PAGE_SIZE :: nat where [simp]: "PAGE_SIZE = 4096"
definition PAGE_PRESENT :: u64 where "PAGE_PRESENT = push_bit 0 1"
definition PAGE_WRITABLE :: u64 where "PAGE_WRITABLE = push_bit 1 1"
definition PAGE_USER :: u64 where "PAGE_USER = push_bit 2 1"
abbreviation (input) PAGE_CACHE_DISABLE :: u64 where "PAGE_CACHE_DISABLE \<equiv> push_bit 4 1"
abbreviation (input) PAGE_NO_EXECUTE :: u64 where "PAGE_NO_EXECUTE \<equiv> push_bit 63 1"

abbreviation (input) EFI_LOADER_CODE :: u32 where "EFI_LOADER_CODE \<equiv> 1"
definition EFI_LOADER_DATA :: u32 where "EFI_LOADER_DATA = 2"
abbreviation (input) EFI_BOOT_SERVICES_CODE :: u32 where "EFI_BOOT_SERVICES_CODE \<equiv> 3"
abbreviation (input) EFI_BOOT_SERVICES_DATA :: u32 where "EFI_BOOT_SERVICES_DATA \<equiv> 4"
abbreviation (input) EFI_RUNTIME_SERVICES_CODE :: u32 where "EFI_RUNTIME_SERVICES_CODE \<equiv> 5"
abbreviation (input) EFI_RUNTIME_SERVICES_DATA :: u32 where "EFI_RUNTIME_SERVICES_DATA \<equiv> 6"
definition EFI_CONVENTIONAL_MEMORY :: u32 where "EFI_CONVENTIONAL_MEMORY = 7"
abbreviation (input) EFI_ACPI_RECLAIM_MEMORY :: u32 where "EFI_ACPI_RECLAIM_MEMORY \<equiv> 9"
abbreviation (input) EFI_ACPI_MEMORY_NVS :: u32 where "EFI_ACPI_MEMORY_NVS \<equiv> 10"
abbreviation (input) EFI_MEMORY_MAPPED_IO :: u32 where "EFI_MEMORY_MAPPED_IO \<equiv> 11"
abbreviation (input) EFI_MEMORY_MAPPED_IO_PORT_SPACE :: u32 where "EFI_MEMORY_MAPPED_IO_PORT_SPACE \<equiv> 12"

record EFI_MEMORY_DESCRIPTOR =
  md_Type :: u32
  md_PhysicalStart :: nat
  md_VirtualStart :: nat
  md_NumberOfPages :: nat
  md_Attribute :: u64

record FrameAllocator =
  memory_map :: "EFI_MEMORY_DESCRIPTOR list"
  current_descriptor_index :: nat
  current_page_offset :: nat

definition FrameAllocator_new :: "EFI_MEMORY_DESCRIPTOR list \<Rightarrow> FrameAllocator" where
  "FrameAllocator_new mm = \<lparr> memory_map = mm, current_descriptor_index = 0, current_page_offset = 0 \<rparr>"

text \<open>\<open>None\<close> outside is the overflow panic, \<open>Some None\<close> an exhausted map.\<close>

function allocate_frame :: "FrameAllocator \<Rightarrow> (nat option \<times> FrameAllocator) option" where
  "allocate_frame fa =
     (let i = current_descriptor_index fa; off = current_page_offset fa in
      if i < length (memory_map fa) then
        let d = memory_map fa ! i; frame_address = md_PhysicalStart d + off * PAGE_SIZE;
            fa' = fa\<lparr>current_descriptor_index := i + 1, current_page_offset := 0\<rparr> in
        if md_Type d = EFI_CONVENTIONAL_MEMORY \<and> off < md_NumberOfPages d then
          if frame_address \<ge> 2 ^ 64 then None
          else if frame_address > 0
            then Some (Some frame_address, fa\<lparr>current_page_offset := off + 1\<rparr>)
          else allocate_frame fa'
        else allocate_frame fa'
      else Some (None, fa))"
  by pat_completeness auto
termination
  by (relation "measure (\<lambda>fa. length (memory_map fa) - current_descriptor_index fa)") auto

declare allocate_frame.simps [simp del]

record mem_state =
  pmem :: pmem
  frames :: FrameAllocator

type_synonym 'a mm = "(mem_state, string, 'a) prog"

text \<open>\<open>allocator.allocate_frame()\<close> as an effect, and its \<open>expect\<close>.\<close>

definition alloc_frame :: "nat option mm" where
  "alloc_frame = (\<lambda>s. case allocate_frame (frames s) of
     None \<Rightarrow> Stop | Some (r, fa) \<Rightarrow> Ok r (s\<lparr>frames := fa\<rparr>))"

definition expect_frame :: "nat mm" where
  "expect_frame = bind alloc_frame unwrap"

definition table_entry :: "pmem \<Rightarrow> nat \<Rightarrow> nat \<Rightarrow> u64" where
  "table_entry m t i = load64 m (t + 8 * i)"

definition get_entry :: "nat \<Rightarrow> nat \<Rightarrow> u64 mm" where
  "get_entry t i = (\<lambda>s. Ok (table_entry (pmem s) t i) s)"

definition set_entry :: "nat \<Rightarrow> nat \<Rightarrow> u64 \<Rightarrow> unit mm" where
  "set_entry t i v = (\<lambda>s. Ok () (s\<lparr>pmem := store64 (t + 8 * i) v (pmem s)\<rparr>))"

text \<open>\<open>PageTable::zero\<close> on the table at a frame.\<close>

definition zero_table :: "nat \<Rightarrow> unit mm" where
  "zero_table t = (\<lambda>s. Ok () (s\<lparr>pmem := store_bytes t (replicate 4096 0) (pmem s)\<rparr>))"

text \<open>One level of \<open>map_page\<close>: the table below entry \<open>i\<close> of table \<open>t\<close>, created if absent.\<close>

definition next_level :: "nat \<Rightarrow> nat \<Rightarrow> nat mm" where
  "next_level t i =
     seq (bind (get_entry t i) (\<lambda>e.
            if e AND PAGE_PRESENT = 0 then
              bind expect_frame (\<lambda>frame. seq (zero_table frame)
                (set_entry t i (word_of_nat frame OR PAGE_PRESENT OR PAGE_WRITABLE OR PAGE_USER)))
            else ret ()))
         (bind (get_entry t i) (\<lambda>e. ret (unat (e AND NOT 0xFFF))))"

definition page_index :: "nat \<Rightarrow> u64 \<Rightarrow> nat" where
  "page_index shift virt_addr = unat (drop_bit shift virt_addr AND 0x1FF)"

definition map_page :: "nat \<Rightarrow> u64 \<Rightarrow> u64 \<Rightarrow> u64 \<Rightarrow> unit mm" where
  "map_page pml4 virt_addr phys_addr flags =
     bind (next_level pml4 (page_index 39 virt_addr)) (\<lambda>pdpt.
     bind (next_level pdpt (page_index 30 virt_addr)) (\<lambda>pd.
     bind (next_level pd (page_index 21 virt_addr)) (\<lambda>pt.
       set_entry pt (page_index 12 virt_addr) (phys_addr OR flags OR PAGE_PRESENT))))"

text \<open>Addresses \<open>(start..end).step_by(PAGE_SIZE)\<close>, and identity-mapping them.\<close>

definition page_range :: "nat \<Rightarrow> nat \<Rightarrow> nat list" where
  "page_range start end = map (\<lambda>k. start + k * PAGE_SIZE) [0..<(end - start + PAGE_SIZE - 1) div PAGE_SIZE]"

definition map_range :: "nat \<Rightarrow> u64 \<Rightarrow> nat list \<Rightarrow> unit mm" where
  "map_range pml4 flags addrs =
     for_each addrs (\<lambda>a. map_page pml4 (word_of_nat a) (word_of_nat a) flags)"

definition mapped_type :: "u32 \<Rightarrow> bool" where
  "mapped_type ty \<longleftrightarrow> ty \<in> {EFI_CONVENTIONAL_MEMORY, EFI_LOADER_CODE, EFI_LOADER_DATA,
     EFI_BOOT_SERVICES_CODE, EFI_BOOT_SERVICES_DATA, EFI_RUNTIME_SERVICES_CODE,
     EFI_RUNTIME_SERVICES_DATA, EFI_ACPI_RECLAIM_MEMORY, EFI_ACPI_MEMORY_NVS,
     EFI_MEMORY_MAPPED_IO, EFI_MEMORY_MAPPED_IO_PORT_SPACE}"

definition map_descriptor :: "nat \<Rightarrow> EFI_MEMORY_DESCRIPTOR \<Rightarrow> unit mm" where
  "map_descriptor pml4 d =
     (if mapped_type (md_Type d) then
        let start = md_PhysicalStart d; end = start + md_NumberOfPages d * PAGE_SIZE in
        if end \<ge> 2 ^ 64 then stop else map_range pml4 PAGE_WRITABLE (page_range start end)
      else ret ())"

text \<open>The value is the physical address loaded into \<open>cr3\<close>.\<close>

definition init_paging :: "nat \<Rightarrow> nat \<Rightarrow> nat mm" where
  "init_paging fb_base fb_size =
     bind expect_frame (\<lambda>pml4.
     seq (zero_table pml4)
     (bind (\<lambda>s. Ok (memory_map (frames s)) s) (\<lambda>mm.
     seq (for_each mm (map_descriptor pml4))
     (seq (if fb_base + fb_size \<ge> 2 ^ 64 then stop
           else map_range pml4 PAGE_WRITABLE (page_range fb_base (fb_base + fb_size)))
       (ret pml4)))))"

end
