(* ===== verification/Frames.thy ===== *)
theory Frames
  imports Memory
begin

section \<open>The frames the allocator hands out\<close>

text \<open>
  The allocator refines a list: \<open>remaining\<close> is the list of the frames it has still to give,
  in order, and \<open>allocate_frame\<close> takes its head.  On a memory map whose regions are page
  aligned and do not overlap the list has no duplicates.
\<close>

subsection \<open>Definitions\<close>

text \<open>
  A conventional region gives all its pages, except that a region that starts at physical
  address 0 gives none: the frame at 0 is refused by moving on to the next descriptor.
\<close>

definition desc_frames :: "EFI_MEMORY_DESCRIPTOR \<Rightarrow> nat list" where
  "desc_frames d = (if md_Type d = EFI_CONVENTIONAL_MEMORY \<and> 0 < md_PhysicalStart d
     then map (\<lambda>k. md_PhysicalStart d + k * 4096) [0..<md_NumberOfPages d] else [])"

definition remaining :: "FrameAllocator \<Rightarrow> nat list" where
  "remaining fa = (let i = current_descriptor_index fa in
     if i < length (memory_map fa)
     then drop (current_page_offset fa) (desc_frames (memory_map fa ! i))
       @ concat (map desc_frames (drop (Suc i) (memory_map fa)))
     else [])"

definition map_fits :: "EFI_MEMORY_DESCRIPTOR list \<Rightarrow> bool" where
  "map_fits mm \<longleftrightarrow> (\<forall>d \<in> set mm. md_PhysicalStart d + md_NumberOfPages d * 4096 < 2 ^ 64)"

definition fa_ok :: "FrameAllocator \<Rightarrow> bool" where
  "fa_ok fa \<longleftrightarrow> map_fits (memory_map fa) \<and>
     (current_descriptor_index fa < length (memory_map fa) \<longrightarrow>
      md_PhysicalStart (memory_map fa ! current_descriptor_index fa) = 0 \<longrightarrow> current_page_offset fa = 0)"

text \<open>What firmware guarantees about the map: aligned regions that do not overlap.\<close>

definition region :: "EFI_MEMORY_DESCRIPTOR \<Rightarrow> nat set" where
  "region d = {md_PhysicalStart d ..< md_PhysicalStart d + md_NumberOfPages d * 4096}"

definition map_ok :: "EFI_MEMORY_DESCRIPTOR list \<Rightarrow> bool" where
  "map_ok mm \<longleftrightarrow> map_fits mm \<and> (\<forall>d \<in> set mm. md_PhysicalStart d mod 4096 = 0) \<and>
     (\<forall>i < length mm. \<forall>j < length mm. i \<noteq> j \<longrightarrow> region (mm ! i) \<inter> region (mm ! j) = {})"

subsection \<open>Refinement\<close>

lemma remaining_next:
  assumes "current_descriptor_index fa < length (memory_map fa)"
  shows "remaining (fa\<lparr>current_descriptor_index := current_descriptor_index fa + 1, current_page_offset := 0\<rparr>) =
    concat (map desc_frames (drop (Suc (current_descriptor_index fa)) (memory_map fa)))"
proof (cases "Suc (current_descriptor_index fa) < length (memory_map fa)")
  case True
  then show ?thesis by (simp add: remaining_def Let_def Cons_nth_drop_Suc [symmetric, OF True])
qed (simp add: remaining_def)

lemma fa_ok_next:
  "fa_ok fa \<Longrightarrow> fa_ok (fa\<lparr>current_descriptor_index := current_descriptor_index fa + 1, current_page_offset := 0\<rparr>)"
  by (simp add: fa_ok_def)

lemma drop_desc_frames:
  assumes "md_Type d = EFI_CONVENTIONAL_MEMORY" and "0 < md_PhysicalStart d" and "off < md_NumberOfPages d"
  shows "drop off (desc_frames d) = (md_PhysicalStart d + off * 4096) # drop (Suc off) (desc_frames d)"
proof -
  have "[off..<md_NumberOfPages d] = off # [Suc off..<md_NumberOfPages d]"
    using assms(3) by (rule upt_conv_Cons)
  then show ?thesis using assms by (simp add: desc_frames_def drop_map)
qed

lemma allocate_frame_refines:
  assumes "fa_ok fa"
  shows "\<exists>fa'. allocate_frame fa = Some (case remaining fa of [] \<Rightarrow> None | f # fs \<Rightarrow> Some f, fa') \<and>
    fa_ok fa' \<and> memory_map fa' = memory_map fa \<and> remaining fa' = tl (remaining fa)"
  using assms
proof (induction fa rule: allocate_frame.induct)
  case (1 fa)
  let ?i = "current_descriptor_index fa" and ?off = "current_page_offset fa"
  let ?fa' = "fa\<lparr>current_descriptor_index := ?i + 1, current_page_offset := 0\<rparr>"
  let ?d = "memory_map fa ! ?i"
  show ?case
  proof (cases "?i < length (memory_map fa)")
    case False
    then show ?thesis using 1(3) by (subst allocate_frame.simps) (simp add: remaining_def Let_def)
  next
    case i: True
    have fits: "md_PhysicalStart ?d + md_NumberOfPages ?d * 4096 < 2 ^ 64"
      using 1(3) i by (auto simp: fa_ok_def map_fits_def)
    note IH = fa_ok_next [OF 1(3)] and rest = remaining_next [OF i]
    show ?thesis
    proof (cases "md_Type ?d = EFI_CONVENTIONAL_MEMORY \<and> ?off < md_NumberOfPages ?d")
      case conv: True
      show ?thesis
      proof (cases "md_PhysicalStart ?d = 0")
        case True
        then have off: "?off = 0" using 1(3) i by (simp add: fa_ok_def)
        have "remaining fa = remaining ?fa'"
          unfolding rest using i True by (simp add: remaining_def desc_frames_def Let_def)
        with i conv True off 1(1) [OF refl refl i refl refl refl conv] IH show ?thesis
          by (subst allocate_frame.simps) (simp add: Let_def)
      next
        case False
        have bound: "md_PhysicalStart ?d + ?off * 4096 < 2 ^ 64"
          using fits conv mult_le_mono1 [of ?off "md_NumberOfPages ?d" 4096] by linarith
        have "remaining fa = (md_PhysicalStart ?d + ?off * 4096)
            # remaining (fa\<lparr>current_page_offset := ?off + 1\<rparr>)"
          using i conv False drop_desc_frames [of ?d ?off] by (simp add: remaining_def Let_def)
        with i conv False bound 1(3) show ?thesis
          by (subst allocate_frame.simps) (simp add: Let_def fa_ok_def)
      qed
    next
      case False
      have "drop ?off (desc_frames ?d) = []" using False by (auto simp: desc_frames_def)
      then have "remaining fa = remaining ?fa'" unfolding rest using i by (simp add: remaining_def Let_def)
      with i False 1(2) [OF refl refl i refl refl refl] IH show ?thesis
        by (subst allocate_frame.simps) (auto simp: Let_def)
    qed
  qed
qed

subsection \<open>Distinct, aligned frames\<close>

lemma set_desc_frames: "set (desc_frames d) \<subseteq> region d"
  by (auto simp: desc_frames_def region_def)

lemma distinct_desc_frames: "distinct (desc_frames d)"
  by (auto simp: desc_frames_def distinct_map inj_on_def)

lemma distinct_concat_frames:
  assumes "\<forall>i < length mm. \<forall>j < length mm. i \<noteq> j \<longrightarrow> region (mm ! i) \<inter> region (mm ! j) = {}"
  shows "distinct (concat (map desc_frames mm))"
  using assms
proof (induction mm)
  case Nil
  then show ?case by simp
next
  case (Cons d mm)
  have tail: "\<forall>i < length mm. \<forall>j < length mm. i \<noteq> j \<longrightarrow> region (mm ! i) \<inter> region (mm ! j) = {}"
    using Cons.prems by (metis Suc_inject Suc_less_eq length_Cons nth_Cons_Suc)
  have "region d \<inter> region e = {}" if "e \<in> set mm" for e
  proof -
    from that obtain j where "j < length mm" "e = mm ! j" by (auto simp: in_set_conv_nth)
    then show ?thesis using Cons.prems [rule_format, of 0 "Suc j"] by simp
  qed
  then have "set (desc_frames d) \<inter> set (concat (map desc_frames mm)) = {}"
    using set_desc_frames by fastforce
  then show ?case using Cons.IH [OF tail] distinct_desc_frames by simp
qed

lemma remaining_start: "remaining (FrameAllocator_new mm) = concat (map desc_frames mm)"
  by (cases mm) (simp_all add: remaining_def FrameAllocator_new_def Let_def)

lemma fa_ok_start: "map_fits mm \<Longrightarrow> fa_ok (FrameAllocator_new mm)"
  by (simp add: fa_ok_def FrameAllocator_new_def)

lemma aligned_desc_frames:
  "md_PhysicalStart d mod 4096 = 0 \<Longrightarrow> f \<in> set (desc_frames d) \<Longrightarrow> f mod 4096 = 0 \<and> 0 < f"
  by (auto simp: desc_frames_def split: if_splits)

end
