(* ===== verification/Paging.thy ===== *)
theory Paging
  imports Frames
begin

section \<open>Page-table walks\<close>

text \<open>
  What the tables in memory mean: \<open>table_at\<close> follows present entries along a list of indices,
  \<open>translate\<close> is the leaf entry a virtual address reaches.  Under \<open>pt_ok\<close> the tables form a
  tree of separate frames, none of them free, so that writing one entry changes exactly one
  link or one leaf.
\<close>

subsection \<open>Definitions\<close>

definition child :: "pmem \<Rightarrow> nat \<Rightarrow> nat \<Rightarrow> nat option" where
  "child m t i = (let e = table_entry m t i in
     if e AND PAGE_PRESENT = 0 then None else Some (unat (e AND NOT 0xFFF)))"

primrec table_at_rev :: "pmem \<Rightarrow> nat \<Rightarrow> nat list \<Rightarrow> nat option" where
  "table_at_rev m root [] = Some root"
| "table_at_rev m root (i # p) = (case table_at_rev m root p of None \<Rightarrow> None | Some t \<Rightarrow> child m t i)"

definition table_at :: "pmem \<Rightarrow> nat \<Rightarrow> nat list \<Rightarrow> nat option" where
  "table_at m root p = table_at_rev m root (rev p)"

definition page_path :: "u64 \<Rightarrow> nat list" where
  "page_path va = [page_index 39 va, page_index 30 va, page_index 21 va]"

definition leaf :: "pmem \<Rightarrow> nat \<Rightarrow> nat list \<Rightarrow> nat \<Rightarrow> u64 option" where
  "leaf m root p i = (case table_at m root p of None \<Rightarrow> None | Some t \<Rightarrow>
     let e = table_entry m t i in if e AND PAGE_PRESENT = 0 then None else Some e)"

definition translate :: "pmem \<Rightarrow> nat \<Rightarrow> u64 \<Rightarrow> u64 option" where
  "translate m root va = leaf m root (page_path va) (page_index 12 va)"

definition paths :: "nat list set" where
  "paths = {p. length p \<le> 3 \<and> (\<forall>i \<in> set p. i < 512)}"

definition tables :: "pmem \<Rightarrow> nat \<Rightarrow> nat set" where
  "tables m root = {t. \<exists>p \<in> paths. table_at m root p = Some t}"

definition frame_ok :: "nat \<Rightarrow> bool" where
  "frame_ok f \<longleftrightarrow> f mod 4096 = 0 \<and> f < 2 ^ 64"

text \<open>
  \<open>pt_ok m root free\<close>: distinct paths reach distinct, page-aligned tables outside the free
  frames; every present upper entry lets the leaf decide (present, writable, user).
\<close>

definition pt_ok :: "pmem \<Rightarrow> nat \<Rightarrow> nat list \<Rightarrow> bool" where
  "pt_ok m root free \<longleftrightarrow>
     distinct free \<and> (\<forall>f \<in> set free. frame_ok f) \<and>
     (\<forall>p \<in> paths. \<forall>t. table_at m root p = Some t \<longrightarrow> frame_ok t \<and> t \<notin> set free) \<and>
     (\<forall>p \<in> paths. \<forall>q \<in> paths. \<forall>t. table_at m root p = Some t \<longrightarrow> table_at m root q = Some t \<longrightarrow> p = q) \<and>
     (\<forall>p \<in> paths. \<forall>t. \<forall>i < 512. table_at m root p = Some t \<longrightarrow> length p < 3 \<longrightarrow>
        table_entry m t i AND PAGE_PRESENT \<noteq> 0 \<longrightarrow> table_entry m t i AND 7 = 7)"

text \<open>The tables that the pages of a list of addresses need and do not have yet.\<close>

definition upper_paths :: "u64 \<Rightarrow> nat list list" where
  "upper_paths va = [[page_index 39 va], [page_index 39 va, page_index 30 va], page_path va]"

definition missing :: "pmem \<Rightarrow> nat \<Rightarrow> u64 list \<Rightarrow> nat list set" where
  "missing m root vas = {p \<in> set (concat (map upper_paths vas)). table_at m root p = None}"

subsection \<open>Walking\<close>

lemma table_at_Nil [simp]: "table_at m root [] = Some root"
  by (simp add: table_at_def)

lemma table_at_snoc:
  "table_at m root (p @ [i]) = (case table_at m root p of None \<Rightarrow> None | Some t \<Rightarrow> child m t i)"
  by (simp add: table_at_def)

lemma paths_snoc [simp]: "p @ [i] \<in> paths \<longleftrightarrow> p \<in> paths \<and> length p < 3 \<and> i < 512"
  by (auto simp: paths_def)

lemma paths_Nil [simp]: "[] \<in> paths"
  by (simp add: paths_def)

lemma pt_okD:
  assumes "pt_ok m root free" and "p \<in> paths" and "table_at m root p = Some t"
  shows "frame_ok t" and "t \<notin> set free"
    and "q \<in> paths \<Longrightarrow> table_at m root q = Some t \<Longrightarrow> q = p"
    and "i < 512 \<Longrightarrow> length p < 3 \<Longrightarrow> table_entry m t i AND PAGE_PRESENT \<noteq> 0 \<Longrightarrow> table_entry m t i AND 7 = 7"
  using assms unfolding pt_ok_def by blast+

lemma page_index_nat: "page_index k va = unat va div 2 ^ k mod 512"
proof -
  have "(0x1FF :: u64) = mask 9" by (simp add: mask_eq_exp_minus_1)
  then have "page_index k va = unat (take_bit 9 (drop_bit k va))"
    by (simp add: page_index_def take_bit_eq_mask)
  also have "\<dots> = take_bit 9 (drop_bit k (unat va))"
    using take_bit_nat_eq_self [OF unsigned_less [of va]]
    by (simp only: unsigned_take_bit_eq unsigned_drop_bit_eq)
  finally show ?thesis by (simp add: take_bit_eq_mod drop_bit_eq_div)
qed

lemma page_index_less [simp]: "page_index k va < 512"
  by (simp add: page_index_nat)

lemma page_path_paths [simp]: "page_path va \<in> paths"
  by (simp add: page_path_def paths_def)

lemma length_page_path [simp]: "length (page_path va) = 3"
  by (simp add: page_path_def)

lemma upper_paths_paths: "p \<in> set (upper_paths va) \<Longrightarrow> p \<in> paths \<and> p \<noteq> []"
  by (auto simp: upper_paths_def page_path_def paths_def)

lemma page_inject:
  assumes "page_path va = page_path vb" and "page_index 12 va = page_index 12 vb"
    and "unat va mod 4096 = 0" and "unat vb mod 4096 = 0" and "unat va < 2 ^ 48" and "unat vb < 2 ^ 48"
  shows "va = vb"
proof -
  have "unat v div 4096 = ((page_index 39 v * 512 + page_index 30 v) * 512 + page_index 21 v) * 512 + page_index 12 v"
    if "unat v < 2 ^ 48" for v
  proof -
    have split: "n div k = n div (k * 512) * 512 + n div k mod 512" for n k :: nat
      by (metis div_mult2_eq div_mult_mod_eq)
    have "unat v div 2 ^ 39 < 512" using that by (simp add: less_mult_imp_div_less)
    then show ?thesis
      using split [of "unat v" "2 ^ 12"] split [of "unat v" "2 ^ 21"] split [of "unat v" "2 ^ 30"]
      by (simp add: page_index_nat)
  qed
  then have "unat va div 4096 = unat vb div 4096"
    using assms(1,2,5,6) by (simp add: page_path_def)
  then have "unat va = unat vb" using assms(3,4) by (metis div_mult_mod_eq)
  then show ?thesis by (simp add: word_unat_eq_iff)
qed

lemma mod_gap:
  assumes "(f :: nat) mod 4096 = 0" and "g mod 4096 = 0" and "f \<noteq> g"
  shows "f + 4096 \<le> g \<or> g + 4096 \<le> f"
proof -
  obtain a b where "f = 4096 * a" "g = 4096 * b" using assms(1,2) by (auto simp: mod_eq_0_iff_dvd dvd_def)
  then show ?thesis using assms(3) by (cases a b rule: linorder_cases) auto
qed

lemma frame_gap: "frame_ok f \<Longrightarrow> frame_ok g \<Longrightarrow> f \<noteq> g \<Longrightarrow> f + 4096 \<le> g \<or> g + 4096 \<le> f"
  unfolding frame_ok_def by (elim conjE, drule (1) mod_gap) simp_all

lemma entry_store64:
  assumes "frame_ok t" and "frame_ok u" and "i < 512" and "j < 512"
  shows "table_entry (store64 (t + 8 * i) v m) u j = (if u = t \<and> j = i then v else table_entry m u j)"
proof (cases "u = t \<and> j = i")
  case False
  then have "u + 8 * j + 8 \<le> t + 8 * i \<or> t + 8 * i + 8 \<le> u + 8 * j"
    using frame_gap [OF assms(1,2)] assms(3,4) by (cases "u = t") auto
  then show ?thesis using False by (auto simp: table_entry_def load64_store64_other)
qed (simp add: table_entry_def)

lemma entry_zeroed:
  assumes "frame_ok f" and "frame_ok u" and "j < 512"
  shows "table_entry (store_bytes f (replicate 4096 0) m) u j = (if u = f then 0 else table_entry m u j)"
proof (cases "u = f")
  case True
  then show ?thesis using assms(3) by (simp add: table_entry_def load64_zeros)
next
  case False
  then show ?thesis using frame_gap [OF assms(1,2)] assms(3)
    by (auto simp: table_entry_def load64_store_bytes_other)
qed

subsection \<open>Linking a new table\<close>

definition table_bits :: u64 where
  "table_bits = PAGE_PRESENT OR PAGE_WRITABLE OR PAGE_USER"

lemma table_bits_value: "table_bits = 7"
  by (simp add: table_bits_def PAGE_PRESENT_def PAGE_WRITABLE_def PAGE_USER_def)

lemma aligned_bits:
  assumes "unat (w :: u64) mod 4096 = 0" and "n < 12"
  shows "\<not> bit w n"
proof -
  have "unat (take_bit 12 w) = 0"
    using assms(1) by (simp only: unsigned_take_bit_eq) (simp add: take_bit_eq_mod)
  then have "take_bit 12 w = 0" by (simp only: unsigned_eq_0_iff)
  then show ?thesis using assms(2) by (metis bit_0_eq bit_take_bit_iff bot_apply bot_bool_def)
qed

lemma low_masks: "(7 :: u64) = mask 3" "(0xFFF :: u64) = mask 12" "(1 :: u64) = mask 1"
  by (simp_all add: mask_eq_exp_minus_1)

lemma frame_word:
  assumes "frame_ok f"
  shows "(word_of_nat f OR table_bits) AND PAGE_PRESENT \<noteq> 0"
    and "(word_of_nat f OR table_bits) AND 7 = 7"
    and "unat ((word_of_nat f OR table_bits) AND NOT 0xFFF) = f"
proof -
  let ?w = "word_of_nat f :: u64"
  have f: "unat ?w = f" using assms by (simp add: frame_ok_def unat_of_nat)
  show rights: "(?w OR table_bits) AND 7 = 7"
    by (simp add: table_bits_value bit_eq_iff bit_simps)
  have "PAGE_PRESENT = 7 AND PAGE_PRESENT" by (simp add: PAGE_PRESENT_def)
  then have "(?w OR table_bits) AND PAGE_PRESENT = PAGE_PRESENT"
    using rights by (metis and.assoc)
  then show "(?w OR table_bits) AND PAGE_PRESENT \<noteq> 0" by (simp add: PAGE_PRESENT_def)
  have "(?w OR mask 3) AND NOT (mask 12) = ?w"
    using aligned_bits [of ?w] assms by (auto simp: f frame_ok_def bit_eq_iff bit_simps)
  then show "unat ((?w OR table_bits) AND NOT 0xFFF) = f"
    by (simp only: table_bits_value low_masks f)
qed

definition link :: "nat \<Rightarrow> nat \<Rightarrow> nat \<Rightarrow> pmem \<Rightarrow> pmem" where
  "link t i f m = store64 (t + 8 * i) (word_of_nat f OR table_bits) (store_bytes f (replicate 4096 0) m)"

lemma entry_link:
  assumes "frame_ok t" and "frame_ok f" and "frame_ok u" and "i < 512" and "j < 512" and "t \<noteq> f"
  shows "table_entry (link t i f m) u j =
    (if u = t \<and> j = i then word_of_nat f OR table_bits else if u = f then 0 else table_entry m u j)"
  using assms by (simp add: link_def entry_store64 entry_zeroed)

lemma table_at_link:
  assumes ok: "pt_ok m root (f # free)" and p: "p \<in> paths" "length p < 3" "i < 512"
    and t: "table_at m root p = Some t" and absent: "child m t i = None" and q: "q \<in> paths"
  shows "table_at (link t i f m) root q = (if q = p @ [i] then Some f else table_at m root q)"
  using q
proof (induction q rule: rev_induct)
  case Nil
  then show ?case by simp
next
  case (snoc j q)
  have frames: "frame_ok t" "frame_ok f" "t \<noteq> f"
    using pt_okD(1,2) [OF ok p(1) t] ok by (auto simp: pt_ok_def)
  have q: "q \<in> paths" "length q < 3" "j < 512" using snoc.prems by auto
  note IH = snoc.IH [OF q(1)]
  show ?case
  proof (cases "q = p @ [i]")
    case True
    have "child (link t i f m) f j = None" using frames q p(3) by (simp add: child_def entry_link)
    moreover have "table_at m root q = None" using True t absent by (simp add: table_at_snoc)
    ultimately show ?thesis
      unfolding table_at_snoc [of _ _ q j] using IH True by (simp del: append_assoc)
  next
    case other: False
    show ?thesis
    proof (cases "table_at m root q")
      case None
      then show ?thesis using IH other t by (auto simp: table_at_snoc)
    next
      case (Some u)
      have u: "frame_ok u" "u \<noteq> f" using pt_okD(1,2) [OF ok q(1) Some] by auto
      have "u = t \<longleftrightarrow> q = p" using pt_okD(3) [OF ok p(1) t q(1)] Some t by auto
      then show ?thesis
        using IH other Some u frames q p(3) frame_word [OF frames(2)]
        by (auto simp: table_at_snoc child_def Let_def entry_link)
    qed
  qed
qed

lemma leaf_link:
  assumes ok: "pt_ok m root (f # free)" and p: "p \<in> paths" "length p < 3" "i < 512"
    and t: "table_at m root p = Some t" and absent: "child m t i = None"
    and q: "q \<in> paths" "length q = 3" "j < 512"
  shows "leaf (link t i f m) root q j = leaf m root q j"
proof -
  have frames: "frame_ok t" "frame_ok f" "t \<noteq> f"
    using pt_okD(1,2) [OF ok p(1) t] ok by (auto simp: pt_ok_def)
  have "table_at m root (p @ [i]) = None" using t absent by (simp add: table_at_snoc)
  moreover have "u \<noteq> f \<and> u \<noteq> t \<and> frame_ok u" if "table_at m root q = Some u" for u
    using pt_okD(1,2) [OF ok q(1) that] pt_okD(3) [OF ok q(1) that p(1)] t p(2) q(2) by auto
  ultimately show ?thesis
    using frames p(3) q(3) table_at_link [OF ok p t absent q(1)]
    by (auto simp: leaf_def entry_link split: option.splits)
qed

lemma pt_ok_link:
  assumes ok: "pt_ok m root (f # free)" and p: "p \<in> paths" "length p < 3" "i < 512"
    and t: "table_at m root p = Some t" and absent: "child m t i = None"
  shows "pt_ok (link t i f m) root free"
  unfolding pt_ok_def
proof (intro conjI ballI allI impI, goal_cases)
  note at = table_at_link [OF ok p t absent]
  have frames: "frame_ok t" "frame_ok f" "t \<noteq> f" "distinct (f # free)" "\<forall>g \<in> set free. frame_ok g"
    using pt_okD(1,2) [OF ok p(1) t] ok by (auto simp: pt_ok_def)
  {
    case 1
    then show ?case using frames by simp
  next
    case (2 g)
    then show ?case using frames by simp
  next
    case (3 q u)
    then show ?case using at [OF 3(1)] frames pt_okD(1) [OF ok 3(1)] by (auto split: if_splits)
  next
    case (4 q u)
    then show ?case using at [OF 4(1)] frames pt_okD(2) [OF ok 4(1)] by (auto split: if_splits)
  next
    case (5 q r u)
    then show ?case
      using at [OF 5(1)] at [OF 5(2)] pt_okD(2) [OF ok 5(1)] pt_okD(2) [OF ok 5(2)]
        pt_okD(3) [OF ok 5(2) _ 5(1)] by (auto split: if_splits)
  next
    case (6 q u j)
    have u: "frame_ok u" using at [OF 6(1)] 6(3) frames pt_okD(1) [OF ok 6(1)] by (auto split: if_splits)
    show ?case
      using 6 at [OF 6(1)] u frames p(3) frame_word(2) [OF frames(2)] pt_okD(2,4) [OF ok 6(1)]
      by (auto simp: entry_link split: if_splits)
  }
qed

subsection \<open>Writing a leaf\<close>

lemma table_at_set_leaf:
  assumes ok: "pt_ok m root free" and p: "p \<in> paths" "length p = 3" "i < 512"
    and t: "table_at m root p = Some t" and q: "q \<in> paths"
  shows "table_at (store64 (t + 8 * i) v m) root q = table_at m root q"
  using q
proof (induction q rule: rev_induct)
  case Nil
  then show ?case by simp
next
  case (snoc j q)
  then have q: "q \<in> paths" "length q < 3" "j < 512" by auto
  show ?case
  proof (cases "table_at m root q")
    case None
    then show ?thesis using snoc.IH [OF q(1)] by (simp add: table_at_snoc)
  next
    case (Some u)
    have "u \<noteq> t" using pt_okD(3) [OF ok p(1) t q(1)] Some p(2) q(2) by auto
    then show ?thesis
      using snoc.IH [OF q(1)] Some q(3) p(3) pt_okD(1) [OF ok p(1) t] pt_okD(1) [OF ok q(1) Some]
      by (simp add: table_at_snoc child_def entry_store64)
  qed
qed

lemma leaf_set_leaf:
  assumes ok: "pt_ok m root free" and p: "p \<in> paths" "length p = 3" "i < 512"
    and t: "table_at m root p = Some t" and q: "q \<in> paths" "j < 512" and v: "v AND PAGE_PRESENT \<noteq> 0"
  shows "leaf (store64 (t + 8 * i) v m) root q j = (if q = p \<and> j = i then Some v else leaf m root q j)"
proof (cases "table_at m root q")
  case None
  then show ?thesis using t table_at_set_leaf [OF ok p t q(1)] by (auto simp: leaf_def)
next
  case (Some u)
  have "u = t \<longleftrightarrow> q = p" using pt_okD(3) [OF ok p(1) t q(1)] Some t by auto
  then show ?thesis
    using table_at_set_leaf [OF ok p t q(1)] Some v q(2) p(3)
      pt_okD(1) [OF ok p(1) t] pt_okD(1) [OF ok q(1) Some]
    by (auto simp: leaf_def entry_store64)
qed

lemma pt_ok_set_leaf:
  assumes ok: "pt_ok m root free" and p: "p \<in> paths" "length p = 3" "i < 512"
    and t: "table_at m root p = Some t"
  shows "pt_ok (store64 (t + 8 * i) v m) root free"
proof -
  note at = table_at_set_leaf [OF ok p t]
  have "table_entry (store64 (t + 8 * i) v m) u j = table_entry m u j"
    if "q \<in> paths" "length q < 3" "table_at m root q = Some u" "j < 512" for q u j
  proof -
    have "u \<noteq> t" using pt_okD(3) [OF ok p(1) t that(1)] that(2,3) p(2) by auto
    then show ?thesis
      using that(4) p(3) pt_okD(1) [OF ok p(1) t] pt_okD(1) [OF ok that(1,3)] by (simp add: entry_store64)
  qed
  then show ?thesis using ok unfolding pt_ok_def by (simp add: at)
qed

subsection \<open>What a mapping step does to the tables\<close>

definition same_outside :: "nat set \<Rightarrow> pmem \<Rightarrow> pmem \<Rightarrow> bool" where
  "same_outside S m m' \<longleftrightarrow> (\<forall>a. a - a mod 4096 \<notin> S \<longrightarrow> m' a = m a)"

definition absent :: "nat \<Rightarrow> nat list set \<Rightarrow> mem_state \<Rightarrow> nat list set" where
  "absent root P s = {q \<in> P. table_at (pmem s) root q = None}"

definition memory_ok :: "nat \<Rightarrow> mem_state \<Rightarrow> bool" where
  "memory_ok root s \<longleftrightarrow> fa_ok (frames s) \<and> pt_ok (pmem s) root (remaining (frames s))"

definition owned :: "nat \<Rightarrow> mem_state \<Rightarrow> nat set" where
  "owned root s = tables (pmem s) root \<union> set (remaining (frames s))"

text \<open>\<open>grown root P s s'\<close>: \<open>s'\<close> has the tables of \<open>s\<close> and those of the paths \<open>P\<close>, each new one on the next free frame.\<close>

definition grown :: "nat \<Rightarrow> nat list set \<Rightarrow> mem_state \<Rightarrow> mem_state \<Rightarrow> bool" where
  "grown root P s s' \<longleftrightarrow> memory_ok root s' \<and> memory_map (frames s') = memory_map (frames s) \<and>
     (\<forall>q \<in> paths. \<forall>u. table_at (pmem s) root q = Some u \<longrightarrow> table_at (pmem s') root q = Some u) \<and>
     (\<forall>q \<in> paths. table_at (pmem s') root q = None \<longleftrightarrow> table_at (pmem s) root q = None \<and> q \<notin> P) \<and>
     card (absent root P s) \<le> length (remaining (frames s)) \<and>
     remaining (frames s') = drop (card (absent root P s)) (remaining (frames s)) \<and>
     owned root s' \<subseteq> owned root s \<and> same_outside (owned root s) (pmem s) (pmem s')"

definition same_leaves :: "nat \<Rightarrow> mem_state \<Rightarrow> mem_state \<Rightarrow> bool" where
  "same_leaves root s s' \<longleftrightarrow> (\<forall>q \<in> paths. \<forall>j < 512. length q = 3 \<longrightarrow>
     leaf (pmem s') root q j = leaf (pmem s) root q j)"

lemma same_outside_trans:
  "same_outside S m m' \<Longrightarrow> same_outside T m' m'' \<Longrightarrow> T \<subseteq> S \<Longrightarrow> same_outside S m m''"
  by (auto simp: same_outside_def)

lemma same_outside_store64:
  assumes "t \<in> S" and "frame_ok t" and "i < 512"
  shows "same_outside S m (store64 (t + 8 * i) v m)"
proof -
  have "a - a mod 4096 = t" if "t + 8 * i \<le> a" "a < t + 8 * i + 8" for a
  proof -
    have "a = t + (a - t)" "a - t < 4096" using that assms(3) by auto
    then have "a mod 4096 = a - t" using assms(2) by (metis frame_ok_def mod_add_left_eq mod_less plus_nat.add_0)
    then show ?thesis using that by auto
  qed
  then show ?thesis using assms(1) by (auto simp: same_outside_def store64_def store_bytes_def)
qed

lemma same_outside_page:
  assumes "f \<in> S" and "frame_ok f" and "length bs \<le> 4096"
  shows "same_outside S m (store_bytes f bs m)"
proof -
  have "a - a mod 4096 = f" if "f \<le> a" "a < f + length bs" for a
  proof -
    have "a = f + (a - f)" "a - f < 4096" using that assms(3) by auto
    then have "a mod 4096 = a - f" using assms(2) by (metis frame_ok_def mod_add_left_eq mod_less plus_nat.add_0)
    then show ?thesis using that by auto
  qed
  then show ?thesis using assms(1) by (auto simp: same_outside_def store_bytes_def)
qed

lemma grown_refl: "memory_ok root s \<Longrightarrow> \<forall>q \<in> P. table_at (pmem s) root q \<noteq> None \<Longrightarrow> grown root P s s"
proof -
  assume "memory_ok root s" and P: "\<forall>q \<in> P. table_at (pmem s) root q \<noteq> None"
  moreover have "absent root P s = {}" using P by (auto simp: absent_def)
  ultimately show ?thesis by (auto simp: grown_def same_outside_def)
qed

lemma grown_trans:
  assumes a: "grown root P s s1" and b: "grown root Q s1 s2" and fin: "finite P" "finite Q"
    and sub: "P \<subseteq> paths" "Q \<subseteq> paths"
  shows "grown root (P \<union> Q) s s2"
proof -
  have new: "table_at (pmem s1) root q = None \<longleftrightarrow> table_at (pmem s) root q = None \<and> q \<notin> P"
    if "q \<in> P \<union> Q" for q
    using a sub that by (auto simp: grown_def)
  then have split: "absent root (P \<union> Q) s = absent root P s \<union> absent root Q s1"
    and disj: "absent root P s \<inter> absent root Q s1 = {}"
    unfolding absent_def by blast+
  have "card (absent root (P \<union> Q) s) = card (absent root P s) + card (absent root Q s1)"
    unfolding split using fin disj by (intro card_Un_disjoint) (auto simp: absent_def)
  with a b show ?thesis
    unfolding grown_def by (auto simp: add.commute intro: same_outside_trans)
qed

lemma same_leaves_refl: "same_leaves root s s"
  by (simp add: same_leaves_def)

lemma same_leaves_trans: "same_leaves root s s1 \<Longrightarrow> same_leaves root s1 s2 \<Longrightarrow> same_leaves root s s2"
  by (simp add: same_leaves_def)

subsection \<open>The operations\<close>

lemma runs_get_entry [simp]: "runs_to (get_entry t i) s P \<longleftrightarrow> P (Inr (table_entry (pmem s) t i)) s"
  by (simp add: get_entry_def runs_to_def)

lemma runs_set_entry [simp]:
  "runs_to (set_entry t i v) s P \<longleftrightarrow> P (Inr ()) (s\<lparr>pmem := store64 (t + 8 * i) v (pmem s)\<rparr>)"
  by (simp add: set_entry_def runs_to_def)

lemma runs_zero_table [simp]:
  "runs_to (zero_table t) s P \<longleftrightarrow> P (Inr ()) (s\<lparr>pmem := store_bytes t (replicate 4096 0) (pmem s)\<rparr>)"
  by (simp add: zero_table_def runs_to_def)

lemma runs_expect_frame [wp]:
  assumes "fa_ok (frames s)" and "remaining (frames s) = f # fs"
    and "\<And>fa. fa_ok fa \<Longrightarrow> remaining fa = fs \<Longrightarrow> memory_map fa = memory_map (frames s) \<Longrightarrow>
      P (Inr f) (s\<lparr>frames := fa\<rparr>)"
  shows "runs_to expect_frame s P"
  using allocate_frame_refines [OF assms(1)] assms(2,3)
  by (auto simp: expect_frame_def alloc_frame_def runs_to_def bind_def unwrap_def ret_def)

lemma tables_link:
  assumes ok: "pt_ok m root (f # free)" and p: "p \<in> paths" "length p < 3" "i < 512"
    and t: "table_at m root p = Some t" and absent: "child m t i = None"
  shows "tables (link t i f m) root = insert f (tables m root)"
proof -
  have "table_at m root (p @ [i]) = None" "p @ [i] \<in> paths"
    using t absent p by (simp_all add: table_at_snoc)
  then show ?thesis
    using table_at_link [OF ok p t absent] unfolding tables_def
    by (auto split: if_splits) (metis option.distinct(1))
qed

lemma grown_link:
  assumes ok: "memory_ok root s" and p: "p \<in> paths" "length p < 3" "i < 512"
    and t: "table_at (pmem s) root p = Some t" and none: "child (pmem s) t i = None"
    and free: "remaining (frames s) = f # fs"
    and fa: "fa_ok fa" "remaining fa = fs" "memory_map fa = memory_map (frames s)"
  shows "grown root {p @ [i]} s (s\<lparr>frames := fa, pmem := link t i f (pmem s)\<rparr>)"
proof -
  have pt: "pt_ok (pmem s) root (f # fs)" using ok free by (simp add: memory_ok_def)
  note facts = table_at_link [OF pt p t none] tables_link [OF pt p t none] pt_ok_link [OF pt p t none]
  have gone: "table_at (pmem s) root (p @ [i]) = None" using t none by (simp add: table_at_snoc)
  then have one: "absent root {p @ [i]} s = {p @ [i]}" by (auto simp: absent_def)
  have ft: "frame_ok t" "frame_ok f" using pt_okD(1) [OF pt p(1) t] pt by (auto simp: pt_ok_def)
  have "t \<in> owned root s" "f \<in> owned root s" using t p(1) free by (auto simp: owned_def tables_def)
  then have "same_outside (owned root s) (pmem s) (link t i f (pmem s))"
    unfolding link_def
    by (intro same_outside_trans [OF same_outside_page same_outside_store64 subset_refl])
      (use ft p(3) in simp_all)
  then show ?thesis
    using fa free facts gone unfolding grown_def one
    by (auto simp: memory_ok_def owned_def)
qed

lemma runs_next_level:
  assumes ok: "memory_ok root s" and p: "p \<in> paths" "length p < 3" "i < 512"
    and t: "table_at (pmem s) root p = Some t"
    and enough: "card (absent root {p @ [i]} s) \<le> length (remaining (frames s))"
    and post: "\<And>u s'. table_at (pmem s') root (p @ [i]) = Some u \<Longrightarrow> grown root {p @ [i]} s s' \<Longrightarrow>
      same_leaves root s s' \<Longrightarrow> P (Inr u) s'"
  shows "runs_to (next_level t i) s P"
proof (cases "child (pmem s) t i")
  case None
  have gone: "table_at (pmem s) root (p @ [i]) = None" using t None by (simp add: table_at_snoc)
  then have "absent root {p @ [i]} s = {p @ [i]}" by (auto simp: absent_def)
  then obtain f fs where free: "remaining (frames s) = f # fs"
    using enough by (cases "remaining (frames s)") auto
  have pt: "pt_ok (pmem s) root (f # fs)" using ok free by (simp add: memory_ok_def)
  have e: "table_entry (pmem s) t i AND PAGE_PRESENT = 0" using None by (auto simp: child_def Let_def split: if_splits)
  have fr: "frame_ok f" using pt by (simp add: pt_ok_def)
  have new: "runs_to (next_level t i) s P" if "\<And>fa. fa_ok fa \<Longrightarrow> remaining fa = fs \<Longrightarrow>
      memory_map fa = memory_map (frames s) \<Longrightarrow> P (Inr f) (s\<lparr>frames := fa, pmem := link t i f (pmem s)\<rparr>)"
    unfolding next_level_def
    apply (simp add: e)
    apply (rule runs_expect_frame [OF _ free])
    using ok that frame_word(3) [OF fr]
     apply (simp_all add: memory_ok_def link_def table_bits_def or.assoc table_entry_def)
    done
  show ?thesis
    by (rule new, rule post)
      (use grown_link [OF ok p t None free] table_at_link [OF pt p t None] leaf_link [OF pt p t None] p
       in \<open>simp_all add: same_leaves_def\<close>)
next
  case (Some u)
  then have e: "table_entry (pmem s) t i AND PAGE_PRESENT \<noteq> 0" and u: "u = unat (table_entry (pmem s) t i AND NOT 0xFFF)"
    by (auto simp: child_def Let_def split: if_splits)
  have "table_at (pmem s) root (p @ [i]) = Some u" using t Some by (simp add: table_at_snoc)
  then have "P (Inr u) s" by (intro post grown_refl ok) (auto simp: same_leaves_def)
  then show ?thesis using e u by (simp add: next_level_def)
qed

definition same_page :: "u64 \<Rightarrow> u64 \<Rightarrow> bool" where
  "same_page va vb \<longleftrightarrow> page_path va = page_path vb \<and> page_index 12 va = page_index 12 vb"

lemma finite_absent [simp]: "finite P \<Longrightarrow> finite (absent root P s)"
  by (simp add: absent_def)

lemma grown_enough:
  assumes "grown root P s s1" and "card (absent root (P \<union> Q) s) \<le> length (remaining (frames s))"
    and "finite P" "finite Q" and "P \<subseteq> paths" "Q \<subseteq> paths"
  shows "card (absent root Q s1) \<le> length (remaining (frames s1))"
proof -
  have "table_at (pmem s1) root q = None \<longleftrightarrow> table_at (pmem s) root q = None \<and> q \<notin> P" if "q \<in> Q" for q
    using assms(1,6) that by (auto simp: grown_def)
  then have "absent root Q s1 \<subseteq> absent root (P \<union> Q) s - absent root P s"
    unfolding absent_def by blast
  then have "card (absent root Q s1) \<le> card (absent root (P \<union> Q) s - absent root P s)"
    using assms(3,4) by (intro card_mono) simp_all
  also have "\<dots> = card (absent root (P \<union> Q) s) - card (absent root P s)"
    using assms(3) by (intro card_Diff_subset) (auto simp: absent_def)
  finally show ?thesis using assms(1,2) by (simp add: grown_def)
qed

lemma absent_mono: "P \<subseteq> Q \<Longrightarrow> finite Q \<Longrightarrow> card (absent root P s) \<le> card (absent root Q s)"
  by (intro card_mono) (auto simp: absent_def)

lemma grown_set_leaf:
  assumes ok: "memory_ok root s" and p: "p \<in> paths" "length p = 3" "i < 512"
    and t: "table_at (pmem s) root p = Some t"
  shows "grown root {} s (s\<lparr>pmem := store64 (t + 8 * i) v (pmem s)\<rparr>)"
proof -
  have pt: "pt_ok (pmem s) root (remaining (frames s))" using ok by (simp add: memory_ok_def)
  have "t \<in> owned root s" using t p(1) by (auto simp: owned_def tables_def)
  then have "same_outside (owned root s) (pmem s) (store64 (t + 8 * i) v (pmem s))"
    using pt_okD(1) [OF pt p(1) t] p(3) by (rule same_outside_store64)
  then show ?thesis
    using ok pt_ok_set_leaf [OF pt p t] table_at_set_leaf [OF pt p t]
    by (simp add: grown_def memory_ok_def absent_def owned_def tables_def)
qed

lemma or_present: "(v OR PAGE_PRESENT) AND PAGE_PRESENT \<noteq> 0"
proof -
  have "(v OR PAGE_PRESENT) AND PAGE_PRESENT = PAGE_PRESENT" by (simp add: bit_eq_iff bit_simps)
  then show ?thesis by (simp add: PAGE_PRESENT_def)
qed

text \<open>One level further down, seen from the state \<open>s0\<close> in which the mapping started.\<close>

lemma runs_descend:
  assumes g: "grown root P s0 s" and l: "same_leaves root s0 s"
    and t: "table_at (pmem s) root p = Some t" and p: "p @ [i] \<in> paths"
    and P: "insert (p @ [i]) P \<subseteq> all" "all \<subseteq> paths" "finite all"
    and enough: "card (absent root all s0) \<le> length (remaining (frames s0))"
    and post: "\<And>u s'. table_at (pmem s') root (p @ [i]) = Some u \<Longrightarrow> grown root (insert (p @ [i]) P) s0 s' \<Longrightarrow>
      same_leaves root s0 s' \<Longrightarrow> Q (Inr u) s'"
  shows "runs_to (next_level t i) s Q"
proof (rule runs_next_level [OF _ _ _ _ t])
  have sub: "P \<subseteq> paths" "finite P" using P by (auto dest: finite_subset)
  have "card (absent root (P \<union> {p @ [i]}) s0) \<le> length (remaining (frames s0))"
    using absent_mono [of "P \<union> {p @ [i]}" all root s0] P enough by auto
  then show "card (absent root {p @ [i]} s) \<le> length (remaining (frames s))"
    by (rule grown_enough [OF g]) (use sub p in auto)
  show "Q (Inr u) s'" if "table_at (pmem s') root (p @ [i]) = Some u" "grown root {p @ [i]} s s'" "same_leaves root s s'" for u s'
    using post [OF that(1)] grown_trans [OF g that(2)] same_leaves_trans [OF l that(3)] sub p by simp
qed (use g p in \<open>simp_all add: grown_def\<close>)

lemma runs_map_page:
  assumes ok: "memory_ok root s"
    and enough: "card (absent root (set (upper_paths va)) s) \<le> length (remaining (frames s))"
  shows "runs_to (map_page root va pa flags) s (\<lambda>r s'. r = Inr () \<and> grown root (set (upper_paths va)) s s' \<and>
    (\<forall>vb. translate (pmem s') root vb =
      (if same_page va vb then Some (pa OR flags OR PAGE_PRESENT) else translate (pmem s) root vb)))"
proof -
  define a b c where ix: "a = page_index 39 va" "b = page_index 30 va" "c = page_index 21 va"
  have less: "a < 512" "b < 512" "c < 512" by (simp_all add: ix)
  have up: "set (upper_paths va) = {[a], [a, b], [a, b, c]}" by (auto simp: upper_paths_def page_path_def ix)
  have P: "{[a], [a, b], [a, b, c]} \<subseteq> paths" using less by (simp add: paths_def)
  note down = runs_descend [where all = "{[a], [a, b], [a, b, c]}", OF _ _ _ _ _ P _ enough [unfolded up]]
  have leaf: "runs_to (set_entry pt (page_index 12 va) (pa OR flags OR PAGE_PRESENT)) s3 (\<lambda>r s'. r = Inr () \<and>
      grown root (set (upper_paths va)) s s' \<and> (\<forall>vb. translate (pmem s') root vb =
        (if same_page va vb then Some (pa OR flags OR PAGE_PRESENT) else translate (pmem s) root vb)))"
    if t: "table_at (pmem s3) root [a, b, c] = Some pt" and g: "grown root {[a, b, c], [a, b], [a]} s s3"
      and l: "same_leaves root s s3" for pt s3
  proof -
    have pp: "page_path va = [a, b, c]" by (simp add: page_path_def ix)
    have ok3: "memory_ok root s3" using g by (simp add: grown_def)
    have p: "[a, b, c] \<in> paths" "length [a, b, c] = 3" "page_index 12 va < 512" using P by simp_all
    have pt: "pt_ok (pmem s3) root (remaining (frames s3))" using ok3 by (simp add: memory_ok_def)
    have "grown root ({[a, b, c], [a, b], [a]} \<union> {}) s (s3\<lparr>pmem := store64 (pt + 8 * page_index 12 va) v (pmem s3)\<rparr>)" for v
      by (rule grown_trans [OF g grown_set_leaf [OF ok3 p t]]) (use P in auto)
    then show ?thesis
      using leaf_set_leaf [OF pt p t page_path_paths page_index_less
        or_present [of "pa OR flags", unfolded or.assoc]] l
      by (auto simp: up insert_commute translate_def same_page_def pp same_leaves_def length_page_path)
  qed
  show ?thesis
    unfolding map_page_def ix [symmetric] runs_to_bind
    apply (rule down [where p = "[]" and P = "{}" and s = s, OF grown_refl [OF ok]])
         apply (simp_all add: same_leaves_refl)
    using P apply simp
    apply (rule down [where p = "[a]" and P = "{[a]}"], assumption+)
        apply (use P in simp_all)
    apply (rule down [where p = "[a, b]" and P = "{[a, b], [a]}"], assumption+)
        apply (use P in simp_all)
    apply (drule (2) leaf)
    apply simp
    done
qed

end
