(* ===== verification/Memory_Spec.thy ===== *)
theory Memory_Spec
  imports Paging
begin

section \<open>Properties of the frame allocator and of paging\<close>

text \<open>
  Mapping a list of pages, the identity map that \<open>init_paging\<close> builds, and the properties of
  \<open>src/src/memory.rs\<close>.
\<close>

subsection \<open>Mapping a list of pages\<close>

definition uppers :: "nat list \<Rightarrow> nat list set" where
  "uppers addrs = (\<Union>a \<in> set addrs. set (upper_paths (word_of_nat a)))"

definition page_ok :: "nat \<Rightarrow> bool" where
  "page_ok a \<longleftrightarrow> a mod 4096 = 0 \<and> a < 2 ^ 48"

lemma uppers_simps [simp]:
  "uppers [] = {}" "uppers (a # as) = set (upper_paths (word_of_nat a)) \<union> uppers as"
  "uppers (as @ bs) = uppers as \<union> uppers bs"
  by (auto simp: uppers_def)

lemma uppers_paths: "uppers addrs \<subseteq> paths"
  using upper_paths_paths by (fastforce simp: uppers_def)

lemma finite_uppers [simp]: "finite (uppers addrs)"
  by (simp add: uppers_def)

lemma same_page_refl: "same_page va va"
  by (simp add: same_page_def)

lemma same_page_ok:
  assumes "page_ok a" and "page_ok b" and "same_page (word_of_nat a) (word_of_nat b)"
  shows "a = b"
proof -
  have nat: "unat (word_of_nat c :: u64) = c" if "page_ok c" for c
    using that by (simp add: page_ok_def unat_of_nat)
  have "(word_of_nat a :: u64) = word_of_nat b"
    using assms page_inject [of "word_of_nat a" "word_of_nat b"] nat by (simp add: page_ok_def same_page_def)
  then show ?thesis using nat assms(1,2) by metis
qed

lemma runs_map_range:
  assumes ok: "memory_ok root s" and pages: "\<forall>a \<in> set addrs. page_ok a"
    and enough: "card (absent root (uppers addrs) s) \<le> length (remaining (frames s))"
  shows "runs_to (map_range root flags addrs) s (\<lambda>r s'. r = Inr () \<and> grown root (uppers addrs) s s' \<and>
    (\<forall>a \<in> set addrs. translate (pmem s') root (word_of_nat a) = Some (word_of_nat a OR flags OR PAGE_PRESENT)) \<and>
    (\<forall>vb. (\<forall>a \<in> set addrs. \<not> same_page (word_of_nat a) vb) \<longrightarrow>
       translate (pmem s') root vb = translate (pmem s) root vb))"
  unfolding map_range_def
proof (rule for_each_invariant [where I = "\<lambda>done s'. grown root (uppers done) s s' \<and>
    (\<forall>a \<in> set done. translate (pmem s') root (word_of_nat a) = Some (word_of_nat a OR flags OR PAGE_PRESENT)) \<and>
    (\<forall>vb. (\<forall>a \<in> set done. \<not> same_page (word_of_nat a) vb) \<longrightarrow>
       translate (pmem s') root vb = translate (pmem s) root vb)"], goal_cases)
  case 1
  show ?case by (simp add: grown_refl ok)
next
  case (2 ys x zs s1)
  have ok1: "memory_ok root s1" using 2(2) by (simp add: grown_def)
  have g: "grown root (uppers ys) s s1" using 2(2) by blast
  have "card (absent root (uppers ys \<union> set (upper_paths (word_of_nat x))) s) \<le> length (remaining (frames s))"
    by (rule order_trans [OF absent_mono enough]) (auto simp: 2(1))
  then have "card (absent root (set (upper_paths (word_of_nat x))) s1) \<le> length (remaining (frames s1))"
    by (rule grown_enough [OF g]) (use uppers_paths upper_paths_paths in auto)
  note run = runs_map_page [OF ok1 this, of "word_of_nat x" flags]
  have inj: "a = x" if "a \<in> set ys" "same_page (word_of_nat x) (word_of_nat a)" for a
    using same_page_ok [of x a] pages that by (simp add: 2(1))
  show ?case
  proof (rule runs_to_mono [OF run], goal_cases)
    case (1 r s2)
    then have "grown root (uppers ys \<union> set (upper_paths (word_of_nat x))) s s2"
      using uppers_paths upper_paths_paths by (intro grown_trans [OF g]) auto
    with 1 2(2) show ?case using inj by (auto simp: same_page_refl)
  qed
qed

subsection \<open>The identity map\<close>

definition desc_pages :: "EFI_MEMORY_DESCRIPTOR \<Rightarrow> nat list" where
  "desc_pages d = (if mapped_type (md_Type d)
     then page_range (md_PhysicalStart d) (md_PhysicalStart d + md_NumberOfPages d * PAGE_SIZE) else [])"

definition identity_pages :: "EFI_MEMORY_DESCRIPTOR list \<Rightarrow> nat \<Rightarrow> nat \<Rightarrow> nat list" where
  "identity_pages mm fb_base fb_size = concat (map desc_pages mm) @ page_range fb_base (fb_base + fb_size)"

lemma for_each_append: "for_each (xs @ ys) b = seq (for_each xs b) (for_each ys b)"
  by (induction xs) (simp_all add: seq_def bind_def ret_def fun_eq_iff split: res.splits)

lemma runs_to_query: "runs_to (\<lambda>s. Ok (f s) s) s P \<longleftrightarrow> P (Inr (f s)) s"
  by (simp add: runs_to_def)

lemma map_descriptors_eq:
  "map_fits mm \<Longrightarrow> for_each mm (map_descriptor root) = map_range root PAGE_WRITABLE (concat (map desc_pages mm))"
proof (induction mm)
  case (Cons d mm)
  then have "map_descriptor root d = map_range root PAGE_WRITABLE (desc_pages d)"
    by (simp add: map_descriptor_def desc_pages_def map_fits_def Let_def map_range_def not_le)
  then show ?case using Cons by (simp add: map_range_def for_each_append map_fits_def)
qed (simp add: map_range_def)

lemma pt_ok_fresh:
  assumes root: "frame_ok root" and zero: "\<forall>i < 512. table_entry m root i = 0"
    and free: "distinct free" "\<forall>f \<in> set free. frame_ok f" "root \<notin> set free"
  shows "pt_ok m root free" and "q \<in> paths \<Longrightarrow> table_at m root q = (if q = [] then Some root else None)"
proof -
  have at: "table_at m root q = (if q = [] then Some root else None)" if "q \<in> paths" for q
    using that
  proof (induction q rule: rev_induct)
    case (snoc i q)
    then show ?case using zero by (simp add: table_at_snoc child_def)
  qed simp
  then show "q \<in> paths \<Longrightarrow> table_at m root q = (if q = [] then Some root else None)" .
  show "pt_ok m root free"
    unfolding pt_ok_def using at zero root free by simp
qed

lemma zeroed_root:
  assumes "frame_ok root" and "i < 512"
  shows "table_entry (store_bytes root (replicate 4096 0) m) root i = 0"
  using assms by (simp add: entry_zeroed)

lemma page_of_range:
  assumes "start mod 4096 = 0" and "start \<le> a" and "a < end"
  shows "a - a mod 4096 \<in> set (page_range start end)"
proof -
  have "a = start + (a - start)" using assms(2) by simp
  then have "a mod 4096 = (a - start) mod 4096" using assms(1) by (metis add.left_neutral mod_add_left_eq)
  then have base: "a - a mod 4096 = start + (a - start) div 4096 * 4096"
    using assms(2) by (simp add: minus_mod_eq_div_mult [symmetric])
  have "(a - start) div 4096 < (end - start + 4095) div 4096"
    using assms(2,3) div_le_mono [of "a - start + 4096" "end - start + 4095" 4096] by simp
  then show ?thesis unfolding page_range_def base by auto
qed

definition page_base :: "nat \<Rightarrow> nat" where
  "page_base a = a div 4096 * 4096"

lemma page_base_minus: "page_base a = a - a mod 4096"
  by (simp add: page_base_def minus_mod_eq_div_mult)

lemma page_base_le: "page_base a \<le> a"
  by (simp add: page_base_def)

lemma page_index_base:
  assumes "12 \<le> k" and "a < 2 ^ 64"
  shows "page_index k (word_of_nat (page_base a)) = page_index k (word_of_nat a)"
proof -
  obtain j where k: "k = 12 + j" using assms(1) le_Suc_ex by blast
  have "page_base a div 2 ^ k = a div 2 ^ k"
    unfolding k power_add div_mult2_eq by (simp add: page_base_def)
  moreover have "unat (word_of_nat c :: u64) = c" if "c \<le> a" for c
    using assms(2) that by (simp add: unat_of_nat)
  ultimately show ?thesis by (simp add: page_index_nat page_base_le)
qed

lemma translate_base:
  "a < 2 ^ 64 \<Longrightarrow> translate m root (word_of_nat a) = translate m root (word_of_nat (page_base a))"
  by (simp add: translate_def page_path_def page_index_base)

definition identity_area :: "EFI_MEMORY_DESCRIPTOR list \<Rightarrow> nat \<Rightarrow> nat \<Rightarrow> nat set" where
  "identity_area mm fb_base fb_size =
     (\<Union>d \<in> {d \<in> set mm. mapped_type (md_Type d)}. region d) \<union> {fb_base ..< fb_base + fb_size}"

lemma identity_area_pages:
  assumes "map_ok mm" and "fb_base mod 4096 = 0" and "a \<in> identity_area mm fb_base fb_size"
  shows "page_base a \<in> set (identity_pages mm fb_base fb_size)"
proof -
  from assms(3) consider d where "d \<in> set mm" "mapped_type (md_Type d)" "a \<in> region d"
    | "a \<in> {fb_base ..< fb_base + fb_size}" by (auto simp: identity_area_def)
  then show ?thesis
  proof cases
    case 1
    have "page_base a \<in> set (desc_pages d)"
      using assms(1) 1 page_of_range [of "md_PhysicalStart d" a]
      by (simp add: page_base_minus desc_pages_def map_ok_def region_def)
    then show ?thesis using 1(1) by (auto simp: identity_pages_def)
  next
    case 2
    then show ?thesis using assms(2) page_of_range [of fb_base a] by (simp add: page_base_minus identity_pages_def)
  qed
qed

lemma region_less: "map_fits mm \<Longrightarrow> d \<in> set mm \<Longrightarrow> a \<in> region d \<Longrightarrow> a < 2 ^ 64"
  unfolding map_fits_def region_def by (meson atLeastLessThan_iff less_trans)

lemma identity_area_less:
  "map_ok mm \<Longrightarrow> fb_base + fb_size < 2 ^ 64 \<Longrightarrow> a \<in> identity_area mm fb_base fb_size \<Longrightarrow> a < 2 ^ 64"
  using region_less [of mm] by (auto simp: identity_area_def map_ok_def)

lemma frames_of_map:
  assumes "map_ok mm"
  shows "distinct (concat (map desc_frames mm))" and "\<forall>f \<in> set (concat (map desc_frames mm)). frame_ok f"
proof -
  show "distinct (concat (map desc_frames mm))"
    using assms by (intro distinct_concat_frames) (simp add: map_ok_def)
  have "frame_ok f" if "d \<in> set mm" "f \<in> set (desc_frames d)" for d f
    using assms that aligned_desc_frames [of d f] set_desc_frames [of d]
    by (fastforce simp: map_ok_def map_fits_def frame_ok_def region_def)
  then show "\<forall>f \<in> set (concat (map desc_frames mm)). frame_ok f" by auto
qed

lemma runs_init_paging:
  assumes mm: "map_ok mm" and fb: "fb_base + fb_size < 2 ^ 64"
    and pages: "\<forall>a \<in> set (identity_pages mm fb_base fb_size). page_ok a"
    and enough: "card (uppers (identity_pages mm fb_base fb_size)) < length (concat (map desc_frames mm))"
  shows "runs_to (init_paging fb_base fb_size) \<lparr> pmem = m, frames = FrameAllocator_new mm \<rparr> (\<lambda>r s'.
    \<exists>root. r = Inr root \<and> memory_ok root s' \<and>
      remaining (frames s') = drop (Suc (card (uppers (identity_pages mm fb_base fb_size)))) (concat (map desc_frames mm)) \<and>
      (\<forall>a \<in> set (identity_pages mm fb_base fb_size).
         translate (pmem s') root (word_of_nat a) = Some (word_of_nat a OR PAGE_WRITABLE OR PAGE_PRESENT)) \<and>
      (\<forall>va. (\<forall>a \<in> set (identity_pages mm fb_base fb_size). \<not> same_page (word_of_nat a) va) \<longrightarrow>
         translate (pmem s') root va = None))"
proof -
  have fits: "map_fits mm" using mm by (simp add: map_ok_def)
  obtain root fs where free: "concat (map desc_frames mm) = root # fs"
    using enough by (cases "concat (map desc_frames mm)") auto
  let ?m = "store_bytes root (replicate 4096 0) m"
  have fr: "frame_ok root" "\<forall>f \<in> set fs. frame_ok f" "distinct fs" "root \<notin> set fs"
    using frames_of_map [OF mm] by (simp_all add: free)
  have fresh: "pt_ok ?m root fs" "\<And>q. q \<in> paths \<Longrightarrow> table_at ?m root q = (if q = [] then Some root else None)"
    using pt_ok_fresh [OF fr(1) _ fr(3,2,4), of ?m] zeroed_root [OF fr(1)] by auto
  have unmapped: "translate ?m root va = None" for va
    using fresh(2) [OF page_path_paths, of va] by (auto simp: translate_def leaf_def page_path_def)
  have run: "runs_to (map_range root PAGE_WRITABLE (identity_pages mm fb_base fb_size)) \<lparr> pmem = ?m, frames = fa \<rparr>
      (\<lambda>r s'. r = Inr () \<and> memory_ok root s' \<and>
        remaining (frames s') = drop (card (uppers (identity_pages mm fb_base fb_size))) fs \<and>
        (\<forall>a \<in> set (identity_pages mm fb_base fb_size).
           translate (pmem s') root (word_of_nat a) = Some (word_of_nat a OR PAGE_WRITABLE OR PAGE_PRESENT)) \<and>
        (\<forall>va. (\<forall>a \<in> set (identity_pages mm fb_base fb_size). \<not> same_page (word_of_nat a) va) \<longrightarrow>
           translate (pmem s') root va = None))"
    if fa: "fa_ok fa" "remaining fa = fs" for fa
  proof -
    have all: "absent root (uppers (identity_pages mm fb_base fb_size)) \<lparr> pmem = ?m, frames = fa \<rparr>
        = uppers (identity_pages mm fb_base fb_size)"
      using fresh(2) upper_paths_paths by (fastforce simp: absent_def uppers_def)
    show ?thesis
    proof (rule runs_to_mono [OF runs_map_range [OF _ pages]], goal_cases)
      case 1
      show ?case using fa fresh(1) by (simp add: memory_ok_def)
    next
      case 2
      show ?case using enough fa(2) by (simp add: free all)
    qed (use unmapped fa(2) in \<open>auto simp: grown_def all\<close>)
  qed
  show ?thesis
    unfolding init_paging_def runs_to_bind
  proof (rule runs_expect_frame [of _ root fs], goal_cases)
    case (3 fa)
    have prog: "seq (for_each mm (map_descriptor root)) (seq (map_range root PAGE_WRITABLE
        (page_range fb_base (fb_base + fb_size))) (ret root)) =
        seq (map_range root PAGE_WRITABLE (identity_pages mm fb_base fb_size)) (ret root)"
      by (simp add: map_descriptors_eq fits identity_pages_def map_range_def for_each_append seq_assoc)
    show ?case
      using 3 fb runs_to_mono [OF run [OF 3(1,2)]]
      by (simp add: FrameAllocator_new_def free runs_to_query prog runs_to_seq [of "map_range root f as" for f as]
          runs_to_seq [of "zero_table root"]
          del: runs_to_seq)
  qed (use fits free in \<open>simp_all add: fa_ok_start remaining_start\<close>)
qed

subsection \<open>Properties\<close>

text \<open>Calling \<open>allocate_frame\<close> until \<open>n\<close> frames are given or none is left.\<close>

primrec allocate_frames :: "nat \<Rightarrow> FrameAllocator \<Rightarrow> nat list option" where
  "allocate_frames 0 fa = Some []"
| "allocate_frames (Suc n) fa = (case allocate_frame fa of
     None \<Rightarrow> None
   | Some (None, fa') \<Rightarrow> Some []
   | Some (Some f, fa') \<Rightarrow> map_option ((#) f) (allocate_frames n fa'))"

lemma allocate_frames_take: "fa_ok fa \<Longrightarrow> allocate_frames n fa = Some (take n (remaining fa))"
proof (induction n arbitrary: fa)
  case (Suc n)
  from allocate_frame_refines [OF Suc.prems] obtain fa' where
    "allocate_frame fa = Some (case remaining fa of [] \<Rightarrow> None | f # fs \<Rightarrow> Some f, fa')"
    "fa_ok fa'" "remaining fa' = tl (remaining fa)" by blast
  then show ?case using Suc.IH [of fa'] by (cases "remaining fa") simp_all
qed simp

text \<open>
  C11.  On a memory map of aligned regions that do not overlap, the frames given out by any
  number of calls of \<open>allocate_frame\<close> are pairwise distinct, page aligned, never 0, and each
  lies in a conventional region of the map; the calls never panic, and they go on until every
  page of every conventional region that does not start at address 0 has been given.
\<close>

theorem allocate_frame_distinct:
  assumes "map_ok mm"
  shows "\<exists>fs. allocate_frames n (FrameAllocator_new mm) = Some fs \<and> distinct fs \<and>
    length fs = min n (sum_list (map (\<lambda>d. if md_Type d = EFI_CONVENTIONAL_MEMORY \<and> 0 < md_PhysicalStart d
      then md_NumberOfPages d else 0) mm)) \<and>
    (\<forall>f \<in> set fs. f mod 4096 = 0 \<and> 0 < f \<and>
      (\<exists>d \<in> set mm. md_Type d = EFI_CONVENTIONAL_MEMORY \<and> f \<in> region d))"
proof -
  let ?all = "concat (map desc_frames mm)"
  have "allocate_frames n (FrameAllocator_new mm) = Some (take n ?all)"
    using assms by (simp add: allocate_frames_take fa_ok_start remaining_start map_ok_def)
  moreover have "distinct (take n ?all)" using frames_of_map(1) [OF assms] by (rule distinct_take)
  moreover have "length ?all = sum_list (map (\<lambda>d. if md_Type d = EFI_CONVENTIONAL_MEMORY \<and> 0 < md_PhysicalStart d
      then md_NumberOfPages d else 0) mm)"
    by (induction mm) (simp_all add: desc_frames_def)
  moreover have "f mod 4096 = 0 \<and> 0 < f \<and> (\<exists>d \<in> set mm. md_Type d = EFI_CONVENTIONAL_MEMORY \<and> f \<in> region d)"
    if f: "f \<in> set (take n ?all)" for f
  proof -
    obtain d where d: "d \<in> set mm" "f \<in> set (desc_frames d)" using set_take_subset f by fastforce
    then have "md_Type d = EFI_CONVENTIONAL_MEMORY" by (auto simp: desc_frames_def split: if_splits)
    then show ?thesis
      using aligned_desc_frames [OF _ d(2)] set_desc_frames [of d] assms d by (auto simp: map_ok_def)
  qed
  ultimately show ?thesis by auto
qed

definition example_map :: "EFI_MEMORY_DESCRIPTOR list" where
  "example_map =
     [\<lparr> md_Type = EFI_CONVENTIONAL_MEMORY, md_PhysicalStart = 0, md_VirtualStart = 0, md_NumberOfPages = 2, md_Attribute = 15 \<rparr>,
      \<lparr> md_Type = EFI_LOADER_DATA, md_PhysicalStart = 0x2000, md_VirtualStart = 0, md_NumberOfPages = 1, md_Attribute = 15 \<rparr>,
      \<lparr> md_Type = EFI_CONVENTIONAL_MEMORY, md_PhysicalStart = 0x3000, md_VirtualStart = 0, md_NumberOfPages = 12, md_Attribute = 15 \<rparr>]"

lemma example_map_ok: "map_ok example_map"
  by (auto simp: map_ok_def map_fits_def example_map_def region_def less_Suc_eq numeral_3_eq_3)

theorem allocate_frame_distinct_witness:
  "map_ok example_map \<and> (\<exists>fs. allocate_frames 20 (FrameAllocator_new example_map) = Some fs \<and> length fs = 12 \<and> distinct fs)"
  using allocate_frame_distinct [OF example_map_ok, of 20] example_map_ok
  by (auto simp: example_map_def EFI_CONVENTIONAL_MEMORY_def EFI_LOADER_DATA_def)

text \<open>
  C9.  With tables that form a tree of frames outside the free ones, and enough free frames for
  the missing levels, \<open>map_page\<close> returns, the walk of the mapped page reaches exactly
  \<open>phys_addr | flags | PRESENT\<close>, every other page translates as before, the tables are
  well formed again and no memory outside the tables and the free frames has changed.
\<close>

theorem map_page_correct:
  assumes "memory_ok pml4 s"
    and "card (missing (pmem s) pml4 [virt_addr]) \<le> length (remaining (frames s))"
  shows "runs_to (map_page pml4 virt_addr phys_addr flags) s (\<lambda>r s'. r = Inr () \<and> memory_ok pml4 s' \<and>
    translate (pmem s') pml4 virt_addr = Some (phys_addr OR flags OR PAGE_PRESENT) \<and>
    (\<forall>va. \<not> same_page virt_addr va \<longrightarrow> translate (pmem s') pml4 va = translate (pmem s) pml4 va) \<and>
    same_outside (owned pml4 s) (pmem s) (pmem s'))"
  by (rule runs_to_mono [OF runs_map_page [OF assms(1)]])
    (use assms(2) in \<open>simp_all add: missing_def absent_def grown_def same_page_refl\<close>)

definition fresh_memory :: mem_state where
  "fresh_memory = \<lparr> pmem = (\<lambda>_. 0), frames = FrameAllocator_new example_map \<rparr>"

lemma fresh_memory_ok: "memory_ok 0x2000 fresh_memory"
proof -
  have "table_entry (\<lambda>_. 0) 0x2000 i = 0" for i
    by (simp add: table_entry_def load64_def load_bytes_def map_replicate_const from_le_def nat_of_le_zeros)
  moreover have "0x2000 \<notin> set (concat (map desc_frames example_map))"
    by (auto simp: example_map_def desc_frames_def EFI_CONVENTIONAL_MEMORY_def EFI_LOADER_DATA_def)
  ultimately have "pt_ok (\<lambda>_. 0) 0x2000 (concat (map desc_frames example_map))"
    using frames_of_map [OF example_map_ok] by (intro pt_ok_fresh) (simp_all add: frame_ok_def)
  then show ?thesis
    using example_map_ok by (simp add: memory_ok_def fresh_memory_def fa_ok_start remaining_start map_ok_def)
qed

lemma length_example_frames: "length (concat (map desc_frames example_map)) = 12"
  by (simp add: example_map_def desc_frames_def EFI_CONVENTIONAL_MEMORY_def EFI_LOADER_DATA_def)

theorem map_page_correct_witness:
  "memory_ok 0x2000 fresh_memory \<and>
   runs_to (map_page 0x2000 0x400000 0x400000 PAGE_USER) fresh_memory (\<lambda>r s'. r = Inr () \<and>
     translate (pmem s') 0x2000 0x400000 = Some 0x400005)"
proof -
  have "card (missing (pmem fresh_memory) 0x2000 [0x400000]) \<le> card (set (upper_paths 0x400000))"
    by (intro card_mono) (auto simp: missing_def)
  also have "\<dots> \<le> 3" by (rule order_trans [OF card_length]) (simp add: upper_paths_def)
  finally have "card (missing (pmem fresh_memory) 0x2000 [0x400000]) \<le> length (remaining (frames fresh_memory))"
    by (simp only: fresh_memory_def mem_state.simps remaining_start length_example_frames)
  from map_page_correct [OF fresh_memory_ok this, of "0x400000" PAGE_USER] show ?thesis
    using fresh_memory_ok by (auto simp: PAGE_USER_def PAGE_PRESENT_def elim!: runs_to_mono)
qed

text \<open>
  C10.  Started on a memory map of aligned regions that do not overlap, with free frames for the
  tables it needs, \<open>init_paging\<close> returns a root whose walk maps every address of every mapped
  kind of region and of the framebuffer to itself, writable and not user-accessible; every
  page it did not mean to map is unmapped, the tables are well formed, and it used one frame
  for the root and one for each table below it.
\<close>

theorem init_paging_identity:
  assumes "map_ok mm" and "fb_base mod 4096 = 0" and "fb_base + fb_size < 2 ^ 64"
    and "\<forall>a \<in> set (identity_pages mm fb_base fb_size). page_ok a"
    and "card (uppers (identity_pages mm fb_base fb_size)) < length (concat (map desc_frames mm))"
  shows "runs_to (init_paging fb_base fb_size) \<lparr> pmem = m, frames = FrameAllocator_new mm \<rparr> (\<lambda>r s'.
    \<exists>root. r = Inr root \<and> memory_ok root s' \<and>
      remaining (frames s') = drop (Suc (card (uppers (identity_pages mm fb_base fb_size)))) (concat (map desc_frames mm)) \<and>
      (\<forall>a \<in> identity_area mm fb_base fb_size. translate (pmem s') root (word_of_nat a) =
         Some (word_of_nat (page_base a) OR PAGE_WRITABLE OR PAGE_PRESENT)) \<and>
      (\<forall>va. (\<forall>a \<in> set (identity_pages mm fb_base fb_size). \<not> same_page (word_of_nat a) va) \<longrightarrow>
         translate (pmem s') root va = None))"
proof (rule runs_to_mono [OF runs_init_paging [OF assms(1,3,4,5)]], goal_cases)
  case (1 r s')
  have "translate (pmem s') root (word_of_nat a) = translate (pmem s') root (word_of_nat (page_base a))
      \<and> page_base a \<in> set (identity_pages mm fb_base fb_size)"
    if "a \<in> identity_area mm fb_base fb_size" for root a
    using translate_base [OF identity_area_less [OF assms(1,3) that]] identity_area_pages [OF assms(1,2) that]
    by simp
  with 1 show ?case by fastforce
qed

lemma uppers_low:
  assumes "\<forall>a \<in> set addrs. a < 2 ^ 21"
  shows "uppers addrs \<subseteq> {[0], [0, 0], [0, 0, 0]}"
proof -
  have "page_index k (word_of_nat a) = 0" if "a < 2 ^ 21" "21 \<le> k" for a k
  proof -
    have "(2 :: nat) ^ 21 \<le> 2 ^ k" using that(2) by (intro power_increasing) simp_all
    then have "a div 2 ^ k = 0" using that(1) by simp
    moreover have "unat (word_of_nat a :: u64) = a" using that(1) by (simp add: unat_of_nat)
    ultimately show ?thesis by (simp add: page_index_nat)
  qed
  with assms show ?thesis by (auto simp: uppers_def upper_paths_def page_path_def)
qed

lemma example_pages:
  "\<forall>a \<in> set (identity_pages example_map 0x100000 0x2000). a mod 4096 = 0 \<and> a < 2 ^ 21"
  by (auto simp: identity_pages_def example_map_def desc_pages_def page_range_def)

theorem init_paging_identity_witness:
  "runs_to (init_paging 0x100000 0x2000) \<lparr> pmem = (\<lambda>_. 0), frames = FrameAllocator_new example_map \<rparr> (\<lambda>r s'.
     \<exists>root. r = Inr root \<and> translate (pmem s') root 0x2345 = Some 0x2003 \<and> translate (pmem s') root 0x101FFF = Some 0x101003)"
proof -
  have pages: "\<forall>a \<in> set (identity_pages example_map 0x100000 0x2000). page_ok a"
    using example_pages by (auto simp: page_ok_def)
  have "card (uppers (identity_pages example_map 0x100000 0x2000)) \<le> card {[0 :: nat], [0, 0], [0, 0, 0]}"
    using example_pages by (intro card_mono uppers_low) simp_all
  then have few: "card (uppers (identity_pages example_map 0x100000 0x2000)) < length (concat (map desc_frames example_map))"
    by (simp add: length_example_frames)
  have area: "0x2345 \<in> identity_area example_map 0x100000 0x2000" "0x101FFF \<in> identity_area example_map 0x100000 0x2000"
    by (force simp: identity_area_def example_map_def region_def mapped_type_def)+
  show ?thesis
    by (rule runs_to_mono [OF init_paging_identity [OF example_map_ok _ _ pages few]])
      (use area in \<open>force simp: page_base_def PAGE_WRITABLE_def PAGE_PRESENT_def\<close>)+
qed

end
