(* ===== verification/Kef.thy ===== *)
theory Kef
  imports Memory_Spec
begin

section \<open>The KEF loader\<close>

text \<open>
  \<open>src/src/kef.rs\<close>: \<open>load_kef\<close> checks the header of an executable, allocates and maps
  contiguous code frames, copies the code and prepares a stack.  The error values are the
  messages of the source; the \<open>assert_eq!\<close>s on contiguity and an address past 64 bits panic
  and are \<open>Stop\<close>.
\<close>

subsection \<open>Definitions\<close>

record KefHeader =
  kef_magic :: bytes
  entry_offset :: u32
  code_offset :: u32
  code_size :: u32

definition kef_header :: "bytes \<Rightarrow> KefHeader" where
  "kef_header file_data = \<lparr> kef_magic = subslice 0 4 file_data, entry_offset = from_le (subslice 4 4 file_data),
     code_offset = from_le (subslice 8 4 file_data), code_size = from_le (subslice 12 4 file_data) \<rparr>"

definition KEF_MAGIC :: bytes where "KEF_MAGIC = [75, 69, 70, 0]"

text \<open>\<open>allocator.allocate_frame().ok_or(msg)?\<close>\<close>

definition frame_or :: "string \<Rightarrow> nat mm" where
  "frame_or msg = bind alloc_frame (\<lambda>r. ok_or r msg)"

text \<open>The allocation loop of both segments: \<open>n\<close> frames, each right after the one before.\<close>

definition alloc_contiguous :: "nat \<Rightarrow> string \<Rightarrow> nat mm" where
  "alloc_contiguous n msg =
     bind (frame_or msg) (\<lambda>start.
     seq (for_each [1..<n] (\<lambda>i. bind (frame_or msg) (\<lambda>frame.
            if frame = start + i * 4096 then ret () else stop)))
       (ret start))"

definition USER_PAGE :: u64 where
  "USER_PAGE = PAGE_PRESENT OR PAGE_WRITABLE OR PAGE_USER"

definition frame_run :: "nat \<Rightarrow> nat \<Rightarrow> nat list" where
  "frame_run start n = map (\<lambda>i. start + i * 4096) [0..<n]"

definition copy_to :: "nat \<Rightarrow> bytes \<Rightarrow> unit mm" where
  "copy_to a bs = (\<lambda>s. Ok () (s\<lparr>pmem := store_bytes a bs (pmem s)\<rparr>))"

text \<open>The second half of \<open>load_kef\<close>: the stack, and the two addresses it returns.\<close>

definition load_stack :: "nat \<Rightarrow> nat \<Rightarrow> nat \<Rightarrow> (nat \<times> nat) mm" where
  "load_stack pml4 code_start entry =
     bind (alloc_contiguous 4 ''OOM allocating stack frame'') (\<lambda>stack_start.
     seq (map_range pml4 USER_PAGE (frame_run stack_start 4))
     (if code_start + entry \<ge> 2 ^ 64 \<or> stack_start + 4 * 4096 \<ge> 2 ^ 64 then stop
      else ret (code_start + entry, stack_start + 4 * 4096)))"

definition load_kef :: "bytes \<Rightarrow> nat \<Rightarrow> (nat \<times> nat) mm" where
  "load_kef file_data pml4 =
     (if length file_data < 16 then throw ''File too small to contain KEF header'' else
      let header = kef_header file_data in
      if kef_magic header \<noteq> KEF_MAGIC then throw ''Invalid KEF magic number'' else
      let size = unat (code_size header); code_pages = (size + 4095) div 4096 in
      if code_pages = 0 then throw ''KEF code size is 0'' else
      bind (alloc_contiguous code_pages ''OOM allocating code frame'') (\<lambda>code_start.
      seq (map_range pml4 USER_PAGE (frame_run code_start code_pages))
      (if unat (code_offset header) + size > length file_data
       then throw ''KEF code segment extends past end of file''
       else seq (copy_to code_start (subslice (unat (code_offset header)) size file_data))
         (load_stack pml4 code_start (unat (entry_offset header))))))"

subsection \<open>Allocation of a run of frames\<close>

lemma runs_alloc_frame_or:
  assumes "fa_ok (frames s)" and "remaining (frames s) = f # fs"
    and "\<And>fa. fa_ok fa \<Longrightarrow> remaining fa = fs \<Longrightarrow> memory_map fa = memory_map (frames s) \<Longrightarrow>
      P (Inr f) (s\<lparr>frames := fa\<rparr>)"
  shows "runs_to (frame_or msg) s P"
  using allocate_frame_refines [OF assms(1)] assms(2,3)
  by (auto simp: frame_or_def alloc_frame_def runs_to_def bind_def ok_or_def ret_def)

lemma length_frame_run [simp]: "length (frame_run c n) = n"
  by (simp add: frame_run_def)

lemma frame_run_append: "frame_run c (m + n) = frame_run c m @ frame_run (c + m * 4096) n"
  by (rule nth_equalityI) (auto simp: frame_run_def nth_append algebra_simps)

lemma nth_frame_run [simp]: "k < n \<Longrightarrow> frame_run c n ! k = c + k * 4096"
  by (simp add: frame_run_def)

lemma take_run_nth:
  assumes "take n xs = frame_run c n" and "k < n"
  shows "drop k xs = (c + k * 4096) # drop (Suc k) xs"
proof -
  have len: "k < length xs" using arg_cong [OF assms(1), of length] assms(2) by simp
  have "xs ! k = frame_run c n ! k" using assms by (metis nth_take)
  then show ?thesis using Cons_nth_drop_Suc [OF len] assms(2) by simp
qed

lemma runs_alloc_contiguous:
  assumes ok: "fa_ok (frames s)" and run: "take n (remaining (frames s)) = frame_run c n" and n: "0 < n"
    and post: "\<And>fa. fa_ok fa \<Longrightarrow> remaining fa = drop n (remaining (frames s)) \<Longrightarrow>
      memory_map fa = memory_map (frames s) \<Longrightarrow> P (Inr c) (s\<lparr>frames := fa\<rparr>)"
  shows "runs_to (alloc_contiguous n msg) s P"
proof -
  let ?I = "\<lambda>(done :: nat list) s'. \<exists>fa. s' = s\<lparr>frames := fa\<rparr> \<and> fa_ok fa \<and> memory_map fa = memory_map (frames s) \<and>
    remaining fa = drop (Suc (length done)) (remaining (frames s))"
  have rest: "runs_to (for_each [1..<n] (\<lambda>i. bind (frame_or msg) (\<lambda>frame.
      if frame = c + i * 4096 then ret () else stop))) s1 (\<lambda>r s'. r = Inr () \<and> ?I [1..<n] s')"
    if "?I [] s1" for s1
  proof (rule for_each_invariant [where I = ?I], goal_cases)
    case 1
    show ?case by (rule that)
  next
    case (2 ys x zs s2)
    have x: "x = Suc (length ys)" "x < n"
      using arg_cong [OF 2(1), of "\<lambda>l. l ! length ys"] arg_cong [OF 2(1), of length] by simp_all
    obtain fa where fa: "s2 = s\<lparr>frames := fa\<rparr>" "fa_ok fa" "memory_map fa = memory_map (frames s)"
      "remaining fa = drop (Suc (length ys)) (remaining (frames s))" using 2(2) by blast
    have "remaining (frames s2) = (c + x * 4096) # drop (Suc x) (remaining (frames s))"
      using fa take_run_nth [OF run x(2)] x(1) by simp
    then show ?case
      unfolding runs_to_bind [of "frame_or msg"]
      by (rule runs_alloc_frame_or [rotated]) (use fa x in auto)
  qed
  show ?thesis
    unfolding alloc_contiguous_def runs_to_bind [of "frame_or msg"]
  proof (rule runs_alloc_frame_or [OF ok, of c "drop 1 (remaining (frames s))"], goal_cases)
    case 1
    show ?case using take_run_nth [OF run n] by simp
  next
    case (2 fa)
    then have "?I [] (s\<lparr>frames := fa\<rparr>)" by auto
    from rest [OF this] show ?case
      using n post by (auto elim!: runs_to_mono)
  qed
qed

subsection \<open>Stores outside the tables\<close>

lemma table_at_outside:
  assumes same: "\<forall>t \<in> tables m root. \<forall>i < 512. table_entry m' t i = table_entry m t i" and q: "q \<in> paths"
  shows "table_at m' root q = table_at m root q"
  using q
proof (induction q rule: rev_induct)
  case (snoc i q)
  then have q: "q \<in> paths" "i < 512" by auto
  show ?case
  proof (cases "table_at m root q")
    case (Some t)
    then have "t \<in> tables m root" using q(1) by (auto simp: tables_def)
    then show ?thesis using snoc.IH [OF q(1)] Some same q(2) by (simp add: table_at_snoc child_def)
  qed (use snoc.IH [OF q(1)] in \<open>simp add: table_at_snoc\<close>)
qed simp

lemma entry_outside:
  assumes "same_outside S m m'" and "frame_ok t" and "t \<notin> S" and "i < 512"
  shows "table_entry m' t i = table_entry m t i"
proof -
  have "m' a = m a" if "t + 8 * i \<le> a" "a < t + 8 * i + 8" for a
  proof -
    have "a = t + (a - t)" "a - t < 4096" using that assms(4) by auto
    then have "a mod 4096 = a - t" using assms(2) by (metis frame_ok_def mod_add_left_eq mod_less plus_nat.add_0)
    then have "a - a mod 4096 = t" using that by auto
    then show ?thesis using assms(1,3) by (simp add: same_outside_def)
  qed
  then have "map m' [t + 8 * i..<t + 8 * i + 8] = map m [t + 8 * i..<t + 8 * i + 8]" by simp
  then show ?thesis unfolding table_entry_def load64_def load_bytes_def by (rule arg_cong)
qed

lemma outside_tables:
  assumes pt: "pt_ok m root free" and same: "same_outside S m m'" and S: "S \<inter> tables m root = {}"
  shows "pt_ok m' root free" and "translate m' root va = translate m root va" and "tables m' root = tables m root"
proof -
  have e: "table_entry m' t i = table_entry m t i" if "q \<in> paths" "table_at m root q = Some t" "i < 512" for q t i
    using entry_outside [OF same pt_okD(1) [OF pt that(1,2)] _ that(3)] S that by (auto simp: tables_def)
  then have at: "table_at m' root q = table_at m root q" if "q \<in> paths" for q
    using that by (intro table_at_outside) (auto simp: tables_def)
  show "pt_ok m' root free" using pt e unfolding pt_ok_def by (simp add: at)
  show "translate m' root va = translate m root va"
    using e [OF page_path_paths] by (auto simp: translate_def leaf_def at split: option.splits)
  show "tables m' root = tables m root" by (auto simp: tables_def at)
qed

lemma memory_ok_alloc:
  assumes "memory_ok root s" and "fa_ok fa" and "remaining fa = drop n (remaining (frames s))"
  shows "memory_ok root (s\<lparr>frames := fa\<rparr>)"
proof -
  have "set (remaining fa) \<subseteq> set (remaining (frames s))" unfolding assms(3) by (rule set_drop_subset)
  moreover have "distinct (remaining (frames s)) \<Longrightarrow> distinct (remaining fa)" unfolding assms(3) by (rule distinct_drop)
  ultimately show ?thesis using assms(1,2) unfolding memory_ok_def pt_ok_def by simp blast
qed

lemma run_not_owned:
  assumes ok: "memory_ok root s" and rem: "remaining fa = drop n (remaining (frames s))"
    and run: "take n (remaining (frames s)) = frame_run c n" and k: "k < n"
  shows "c + k * 4096 \<notin> owned root (s\<lparr>frames := fa\<rparr>)" and "frame_ok (c + k * 4096)"
proof -
  have pt: "pt_ok (pmem s) root (remaining (frames s))" using ok by (simp add: memory_ok_def)
  have "c + k * 4096 \<in> set (frame_run c n)" using k by (auto simp: frame_run_def)
  then have mem: "c + k * 4096 \<in> set (take n (remaining (frames s)))" by (simp add: run)
  then have "c + k * 4096 \<notin> set (drop n (remaining (frames s)))"
    using pt set_take_disj_set_drop_if_distinct [of "remaining (frames s)" n n] by (auto simp: pt_ok_def)
  then show "c + k * 4096 \<notin> owned root (s\<lparr>frames := fa\<rparr>)"
    using pt in_set_takeD [OF mem] by (auto simp: owned_def rem tables_def pt_ok_def)
  show "frame_ok (c + k * 4096)" using pt in_set_takeD [OF mem] by (auto simp: pt_ok_def)
qed

lemma run_pages:
  assumes "frame_ok c" and "c \<le> a" and "a < c + n * 4096"
  shows "\<exists>k < n. a - a mod 4096 = c + k * 4096"
proof -
  have c: "c mod 4096 = 0" using assms(1) by (simp add: frame_ok_def)
  have "a = c + (a - c)" using assms(2) by simp
  then have "a mod 4096 = (a - c) mod 4096" using c by (metis add.left_neutral mod_add_left_eq)
  then have "a - a mod 4096 = c + (a - c) div 4096 * 4096"
    using assms(2) by (simp add: minus_mod_eq_div_mult [symmetric])
  moreover have "(a - c) div 4096 < n" using assms(2,3) by (simp add: less_mult_imp_div_less)
  ultimately show ?thesis by blast
qed

lemma load_bytes_same_run:
  assumes "same_outside S m m'" and "\<forall>k < n. c + k * 4096 \<notin> S" and "frame_ok c" and "len \<le> n * 4096"
  shows "load_bytes m' c len = load_bytes m c len"
  unfolding load_bytes_def
proof (rule map_cong [OF refl])
  fix a assume "a \<in> set [c..<c + len]"
  then obtain k where "k < n" "a - a mod 4096 = c + k * 4096" using run_pages [OF assms(3), of a n] assms(4) by auto
  then show "m' a = m a" using assms(1,2) by (simp add: same_outside_def)
qed

subsection \<open>Loading\<close>

definition runs_mapped :: "nat \<Rightarrow> nat \<Rightarrow> nat \<Rightarrow> mem_state \<Rightarrow> bool" where
  "runs_mapped root c n s \<longleftrightarrow> (\<forall>k < n. translate (pmem s) root (word_of_nat (c + k * 4096)) =
     Some (word_of_nat (c + k * 4096) OR USER_PAGE))"

text \<open>The tables for the pages of the run are there already, as \<open>init_paging\<close> leaves them.\<close>

definition tables_ready :: "nat \<Rightarrow> nat \<Rightarrow> nat \<Rightarrow> mem_state \<Rightarrow> bool" where
  "tables_ready root c n s \<longleftrightarrow> (\<forall>p \<in> uppers (frame_run c n). table_at (pmem s) root p \<noteq> None)"

lemma user_page_bits: "x OR USER_PAGE OR PAGE_PRESENT = x OR USER_PAGE"
  by (simp add: USER_PAGE_def PAGE_PRESENT_def PAGE_WRITABLE_def PAGE_USER_def)

lemma runs_map_run:
  assumes ok: "memory_ok root s" and pages: "\<forall>k < n. page_ok (c + k * 4096)" and ready: "tables_ready root c n s"
    and post: "\<And>s'. grown root {} s s' \<Longrightarrow> runs_mapped root c n s' \<Longrightarrow>
      (\<forall>va. (\<forall>k < n. \<not> same_page (word_of_nat (c + k * 4096)) va) \<longrightarrow> translate (pmem s') root va = translate (pmem s) root va) \<Longrightarrow>
      P (Inr ()) s'"
  shows "runs_to (map_range root USER_PAGE (frame_run c n)) s P"
proof -
  have none: "absent root (uppers (frame_run c n)) s = {}" "absent root {} s = {}"
    using ready by (auto simp: absent_def tables_ready_def)
  have "grown root {} s s'" if "grown root (uppers (frame_run c n)) s s'" for s'
    using that ready uppers_paths [of "frame_run c n"] unfolding grown_def none tables_ready_def by blast
  note grown = this
  have set: "set (frame_run c n) = (\<lambda>k. c + k * 4096) ` {..<n}" by (auto simp: frame_run_def)
  show ?thesis
  proof (rule runs_to_mono [OF runs_map_range [OF ok, of "frame_run c n" USER_PAGE]], goal_cases)
    case 1
    show ?case using pages by (simp add: set)
  next
    case 2
    show ?case by (simp add: none)
  next
    case (3 r s')
    then show ?case using post [of s'] grown [of s'] unfolding set runs_mapped_def user_page_bits by blast
  qed
qed

definition pages_kept :: "nat \<Rightarrow> nat \<Rightarrow> nat \<Rightarrow> mem_state \<Rightarrow> mem_state \<Rightarrow> bool" where
  "pages_kept root c n s s' \<longleftrightarrow> (\<forall>va. (\<forall>k < n. \<not> same_page (word_of_nat (c + k * 4096)) va) \<longrightarrow>
     translate (pmem s') root va = translate (pmem s) root va)"

definition segment_done :: "nat \<Rightarrow> nat \<Rightarrow> nat \<Rightarrow> mem_state \<Rightarrow> mem_state \<Rightarrow> bool" where
  "segment_done root c n s s' \<longleftrightarrow> memory_ok root s' \<and> remaining (frames s') = drop n (remaining (frames s)) \<and>
     runs_mapped root c n s' \<and> pages_kept root c n s s' \<and> (\<forall>k < n. c + k * 4096 \<notin> owned root s') \<and>
     (\<forall>q \<in> paths. table_at (pmem s') root q = table_at (pmem s) root q) \<and>
     same_outside (owned root s') (pmem s) (pmem s')"

text \<open>A segment: its frames, then their mapping.\<close>

lemma runs_segment:
  assumes ok: "memory_ok root s" and run: "take n (remaining (frames s)) = frame_run c n" and n: "0 < n"
    and pages: "\<forall>k < n. page_ok (c + k * 4096)" and ready: "tables_ready root c n s"
    and post: "\<And>s'. segment_done root c n s s' \<Longrightarrow> runs_to (K c) s' P"
  shows "runs_to (bind (alloc_contiguous n msg) (\<lambda>a. seq (map_range root USER_PAGE (frame_run a n)) (K a))) s P"
  unfolding runs_to_bind
proof (rule runs_alloc_contiguous [OF _ run n], goal_cases)
  case 1
  show ?case using ok by (simp add: memory_ok_def)
next
  case (2 fa)
  let ?s = "s\<lparr>frames := fa\<rparr>"
  have ok1: "memory_ok root ?s" by (rule memory_ok_alloc [OF ok 2(1,2)])
  have "runs_to (map_range root USER_PAGE (frame_run c n)) ?s
      (\<lambda>r s'. case r of Inl e \<Rightarrow> P (Inl e) s' | Inr x \<Rightarrow> runs_to (K c) s' P)"
  proof (rule runs_map_run [OF ok1 pages])
    show "tables_ready root c n ?s" using ready by (simp add: tables_ready_def)
  next
    fix s'
    assume g: "grown root {} ?s s'" and rest: "runs_mapped root c n s'"
      "\<forall>va. (\<forall>k < n. \<not> same_page (word_of_nat (c + k * 4096)) va) \<longrightarrow> translate (pmem s') root va = translate (pmem ?s) root va"
    have at: "table_at (pmem s') root q = table_at (pmem s) root q" if "q \<in> paths" for q
      using g that by (cases "table_at (pmem s) root q") (auto simp: grown_def)
    have "absent root {} ?s = {}" by (simp add: absent_def)
    then have rem: "remaining (frames s') = drop n (remaining (frames s))" using g 2(2) by (simp add: grown_def)
    have own: "owned root s' = owned root ?s" using at rem 2(2) by (auto simp: owned_def tables_def)
    have "segment_done root c n s s'"
      unfolding segment_done_def pages_kept_def using g rest rem at run_not_owned(1) [OF ok 2(2) run]
      by (simp add: grown_def own)
    then show "case Inr () of Inl e \<Rightarrow> P (Inl e) s' | Inr x \<Rightarrow> runs_to (K c) s' P" using post by simp
  qed
  then show ?case by simp
qed

text \<open>Copying the code into its own frames changes neither tables nor translations.\<close>

lemma copy_code:
  assumes ok: "memory_ok root s" and out: "\<forall>k < n. c + k * 4096 \<notin> owned root s"
    and c: "frame_ok c" and len: "length bs \<le> n * 4096"
  defines "s' \<equiv> s\<lparr>pmem := store_bytes c bs (pmem s)\<rparr>"
  shows "memory_ok root s'" and "translate (pmem s') root va = translate (pmem s) root va"
    and "owned root s' = owned root s" and "q \<in> paths \<Longrightarrow> table_at (pmem s') root q = table_at (pmem s) root q"
    and "same_outside ((\<lambda>k. c + k * 4096) ` {..<n}) (pmem s) (pmem s')"
proof -
  let ?S = "(\<lambda>k. c + k * 4096) ` {..<n}"
  have pt: "pt_ok (pmem s) root (remaining (frames s))" using ok by (simp add: memory_ok_def)
  have same: "same_outside ?S (pmem s) (pmem s')"
  proof -
    have "a - a mod 4096 \<in> ?S" if "c \<le> a" "a < c + length bs" for a
      using run_pages [OF c that(1), of n] that(2) len by auto
    then show ?thesis by (auto simp: s'_def same_outside_def store_bytes_def)
  qed
  have disj: "?S \<inter> tables (pmem s) root = {}" using out by (auto simp: owned_def)
  note facts = outside_tables [OF pt same disj]
  show "memory_ok root s'" using ok facts(1) by (simp add: memory_ok_def s'_def)
  show "translate (pmem s') root va = translate (pmem s) root va" by (rule facts(2))
  show "owned root s' = owned root s" using facts(3) by (simp add: owned_def s'_def)
  have "\<forall>t \<in> tables (pmem s) root. \<forall>i < 512. table_entry (pmem s') t i = table_entry (pmem s) t i"
  proof (intro ballI allI impI)
    fix t i assume t: "t \<in> tables (pmem s) root" and i: "i < (512 :: nat)"
    then have "frame_ok t" using pt_okD(1) [OF pt] by (auto simp: tables_def)
    then show "table_entry (pmem s') t i = table_entry (pmem s) t i"
      by (rule entry_outside [OF same _ _ i]) (use t disj in blast)
  qed
  then show "q \<in> paths \<Longrightarrow> table_at (pmem s') root q = table_at (pmem s) root q" by (rule table_at_outside)
  show "same_outside ?S (pmem s) (pmem s')" by (rule same)
qed

lemma run_owned: "take n (remaining (frames s)) = frame_run c n \<Longrightarrow> k < n \<Longrightarrow> c + k * 4096 \<in> owned root s"
  using set_take_subset [of n "remaining (frames s)"] by (auto simp: owned_def frame_run_def image_subset_iff)

definition kef_ok :: "bytes \<Rightarrow> bool" where
  "kef_ok file_data \<longleftrightarrow> 16 \<le> length file_data \<and> kef_magic (kef_header file_data) = KEF_MAGIC \<and>
     0 < unat (code_size (kef_header file_data)) \<and>
     unat (code_offset (kef_header file_data)) + unat (code_size (kef_header file_data)) \<le> length file_data"

definition kef_pages :: "bytes \<Rightarrow> nat" where
  "kef_pages file_data = (unat (code_size (kef_header file_data)) + 4095) div 4096"

definition kef_code :: "bytes \<Rightarrow> bytes" where
  "kef_code file_data = subslice (unat (code_offset (kef_header file_data))) (unat (code_size (kef_header file_data))) file_data"

lemma runs_mapped_kept:
  assumes "runs_mapped root c n s" and "pages_kept root d k s s'"
    and "\<forall>i < n. page_ok (c + i * 4096)" and "\<forall>j < k. page_ok (d + j * 4096)"
    and "set (frame_run c n) \<inter> set (frame_run d k) = {}"
  shows "runs_mapped root c n s'"
proof -
  have "\<not> same_page (word_of_nat (d + j * 4096)) (word_of_nat (c + i * 4096))" if "i < n" "j < k" for i j
  proof
    assume "same_page (word_of_nat (d + j * 4096)) (word_of_nat (c + i * 4096))"
    then have "d + j * 4096 = c + i * 4096" using same_page_ok assms(3,4) that by blast
    moreover have "c + i * 4096 \<in> set (frame_run c n)" "d + j * 4096 \<in> set (frame_run d k)"
      using that by (auto simp: frame_run_def)
    ultimately show False using assms(5) by auto
  qed
  then show ?thesis using assms(1,2) unfolding runs_mapped_def pages_kept_def by metis
qed

lemma runs_disjoint:
  assumes "distinct rem" and "take n rem = frame_run c n" and "take k (drop n rem) = frame_run d k"
  shows "set (frame_run c n) \<inter> set (frame_run d k) = {}"
proof -
  have "set (take n rem) \<inter> set (drop n rem) = {}"
    using assms(1) by (intro set_take_disj_set_drop_if_distinct) simp_all
  then show ?thesis using set_take_subset [of k "drop n rem"] unfolding assms(2,3) by blast
qed

lemma segment_done_owned: "segment_done root c n s s' \<Longrightarrow> owned root s' \<subseteq> owned root s"
  using set_drop_subset by (fastforce simp: segment_done_def owned_def tables_def)

lemma runs_load_stack:
  assumes ok: "memory_ok pml4 s" and stack: "take 4 (remaining (frames s)) = frame_run st 4"
    and pages: "\<forall>k < n. page_ok (c + k * 4096)" "\<forall>k < 4. page_ok (st + k * 4096)"
    and ready: "tables_ready pml4 st 4 s" and mapped: "runs_mapped pml4 c n s"
    and out: "\<forall>k < n. c + k * 4096 \<notin> owned pml4 s" and n: "0 < n" "len \<le> n * 4096"
    and disj: "set (frame_run c n) \<inter> set (frame_run st 4) = {}" and entry: "entry < 2 ^ 32"
  shows "runs_to (load_stack pml4 c entry) s (\<lambda>r s'. r = Inr (c + entry, st + 16384) \<and>
    load_bytes (pmem s') c len = load_bytes (pmem s) c len \<and>
    runs_mapped pml4 c n s' \<and> runs_mapped pml4 st 4 s' \<and> memory_ok pml4 s' \<and>
    remaining (frames s') = drop 4 (remaining (frames s)) \<and> same_outside (owned pml4 s) (pmem s) (pmem s'))"
  unfolding load_stack_def
proof (rule runs_segment [OF ok stack _ pages(2) ready], goal_cases)
  case (2 s')
  have small: "page_ok c" "page_ok st" using pages n(1) by (auto dest!: spec [of _ 0])
  have "c + entry < 2 ^ 64" "st + 16384 < 2 ^ 64" using small entry by (simp_all add: page_ok_def)
  moreover have "load_bytes (pmem s') c len = load_bytes (pmem s) c len"
    by (rule load_bytes_same_run [OF _ _ _ n(2), of "owned pml4 s'"])
      (use 2 out segment_done_owned [OF 2] small in \<open>auto simp: segment_done_def page_ok_def frame_ok_def\<close>)
  moreover have "runs_mapped pml4 c n s'"
    by (rule runs_mapped_kept [OF mapped _ pages disj]) (use 2 in \<open>simp add: segment_done_def\<close>)
  moreover have "same_outside (owned pml4 s) (pmem s) (pmem s')"
    using segment_done_owned [OF 2] 2 by (auto simp: segment_done_def same_outside_def)
  ultimately show ?case using 2 by (simp add: segment_done_def)
qed simp

lemma runs_load_kef:
  assumes kef: "kef_ok file_data" and ok: "memory_ok pml4 s"
    and code: "take (kef_pages file_data) (remaining (frames s)) = frame_run c (kef_pages file_data)"
    and stack: "take 4 (drop (kef_pages file_data) (remaining (frames s))) = frame_run st 4"
    and pages: "\<forall>k < kef_pages file_data. page_ok (c + k * 4096)" "\<forall>k < 4. page_ok (st + k * 4096)"
    and ready: "tables_ready pml4 c (kef_pages file_data) s" "tables_ready pml4 st 4 s"
  shows "runs_to (load_kef file_data pml4) s (\<lambda>r s'.
    r = Inr (c + unat (entry_offset (kef_header file_data)), st + 16384) \<and>
    load_bytes (pmem s') c (length (kef_code file_data)) = kef_code file_data \<and>
    runs_mapped pml4 c (kef_pages file_data) s' \<and> runs_mapped pml4 st 4 s' \<and> memory_ok pml4 s' \<and>
    remaining (frames s') = drop (kef_pages file_data + 4) (remaining (frames s)) \<and>
    same_outside (owned pml4 s) (pmem s) (pmem s'))"
proof -
  let ?n = "kef_pages file_data" and ?code = "kef_code file_data"
    and ?entry = "unat (entry_offset (kef_header file_data))"
  have n: "0 < ?n" and len: "length ?code \<le> ?n * 4096"
    using kef by (auto simp: kef_ok_def kef_pages_def kef_code_def)
  have entry: "?entry < 2 ^ 32" using unsigned_less [of "entry_offset (kef_header file_data)"] by simp
  have c: "frame_ok c" using pages(1) n by (auto simp: page_ok_def frame_ok_def dest!: spec [of _ 0])
  have disj: "set (frame_run c ?n) \<inter> set (frame_run st 4) = {}"
    using ok by (intro runs_disjoint [OF _ code stack]) (simp add: memory_ok_def pt_ok_def)
  have prog: "load_kef file_data pml4 = bind (alloc_contiguous ?n ''OOM allocating code frame'') (\<lambda>a.
      seq (map_range pml4 USER_PAGE (frame_run a ?n)) (seq (copy_to a ?code) (load_stack pml4 a ?entry)))"
    using kef n by (simp add: load_kef_def kef_ok_def kef_pages_def kef_code_def Let_def)
  show ?thesis
    unfolding prog
  proof (rule runs_segment [OF ok code n pages(1) ready(1)], goal_cases)
    case (1 s2)
    let ?s3 = "s2\<lparr>pmem := store_bytes c ?code (pmem s2)\<rparr>"
    have d: "memory_ok pml4 s2" "\<forall>k < ?n. c + k * 4096 \<notin> owned pml4 s2"
      using 1 by (simp_all add: segment_done_def)
    note copy = copy_code [OF d c len]
    have rem: "take 4 (remaining (frames ?s3)) = frame_run st 4" using 1 stack by (simp add: segment_done_def)
    have ready3: "tables_ready pml4 st 4 ?s3"
      using ready(2) uppers_paths copy(4) 1 by (fastforce simp: tables_ready_def segment_done_def)
    have mapped3: "runs_mapped pml4 c ?n ?s3" using 1 copy(2) by (simp add: segment_done_def runs_mapped_def)
    have "runs_to (load_stack pml4 c ?entry) ?s3 (\<lambda>r s'. r = Inr (c + ?entry, st + 16384) \<and>
        load_bytes (pmem s') c (length ?code) = load_bytes (pmem ?s3) c (length ?code) \<and>
        runs_mapped pml4 c ?n s' \<and> runs_mapped pml4 st 4 s' \<and> memory_ok pml4 s' \<and>
        remaining (frames s') = drop 4 (remaining (frames ?s3)) \<and> same_outside (owned pml4 ?s3) (pmem ?s3) (pmem s'))"
      using copy(3) d(2) by (intro runs_load_stack [OF copy(1) rem pages ready3 mapped3 _ n len disj entry]) simp
    moreover have "same_outside (owned pml4 s) (pmem s) (pmem s')" if "same_outside (owned pml4 ?s3) (pmem ?s3) (pmem s')" for s'
    proof -
      have "same_outside (owned pml4 s) (pmem s) (pmem s2)"
        using 1 segment_done_owned [OF 1] by (auto simp: segment_done_def same_outside_def)
      then have "same_outside (owned pml4 s) (pmem s) (pmem ?s3)"
        by (rule same_outside_trans [OF _ copy(5)]) (use run_owned [OF code] in auto)
      then show ?thesis
        by (rule same_outside_trans [OF _ that]) (use segment_done_owned [OF 1] copy(3) in simp)
    qed
    ultimately show ?case
      using 1 by (auto simp: copy_to_def runs_to_def seq_def bind_def segment_done_def load_store_bytes_same
          add.commute split: res.splits)
  qed
qed

lemma translate_tables:
  assumes "translate m root va \<noteq> None" and "p \<in> set (upper_paths va)"
  shows "table_at m root p \<noteq> None"
proof -
  have "table_at m root (page_path va) \<noteq> None" using assms(1) by (auto simp: translate_def leaf_def split: option.splits)
  moreover have "page_path va = ([page_index 39 va] @ [page_index 30 va]) @ [page_index 21 va]"
    by (simp add: page_path_def)
  ultimately have "table_at m root ([page_index 39 va] @ [page_index 30 va]) \<noteq> None"
    "table_at m root [page_index 39 va] \<noteq> None" "table_at m root (page_path va) \<noteq> None"
    by (auto simp only: table_at_snoc split: option.splits)
  then show ?thesis using assms(2) by (auto simp: upper_paths_def)
qed

lemma tables_readyI:
  "\<forall>k < n. translate (pmem s) root (word_of_nat (c + k * 4096)) \<noteq> None \<Longrightarrow> tables_ready root c n s"
  using translate_tables by (fastforce simp: tables_ready_def uppers_def frame_run_def)

subsection \<open>Properties\<close>

text \<open>
  C12.  Given a well-formed file, well-formed tables that reach all the pages concerned, and the
  next free frames in two contiguous runs, \<open>load_kef\<close> returns the address of the first code
  frame plus the entry offset and the address after the fourth stack frame; the code bytes of
  the file are in the code frames, every code and stack page is mapped to itself present,
  writable and user-accessible, the tables are well formed, exactly those frames are used, and
  memory outside the tables and the free frames is unchanged.
\<close>

theorem load_kef_correct:
  assumes "kef_ok file_data" and "memory_ok pml4 s"
    and "take (kef_pages file_data) (remaining (frames s)) = frame_run code (kef_pages file_data)"
    and "take 4 (drop (kef_pages file_data) (remaining (frames s))) = frame_run stack 4"
    and "\<forall>k < kef_pages file_data. page_ok (code + k * 4096)" and "\<forall>k < 4. page_ok (stack + k * 4096)"
    and "tables_ready pml4 code (kef_pages file_data) s" and "tables_ready pml4 stack 4 s"
  shows "runs_to (load_kef file_data pml4) s (\<lambda>r s'.
    r = Inr (code + unat (entry_offset (kef_header file_data)), stack + 16384) \<and>
    load_bytes (pmem s') code (length (kef_code file_data)) = kef_code file_data \<and>
    runs_mapped pml4 code (kef_pages file_data) s' \<and> runs_mapped pml4 stack 4 s' \<and> memory_ok pml4 s' \<and>
    remaining (frames s') = drop (kef_pages file_data + 4) (remaining (frames s)) \<and>
    same_outside (owned pml4 s) (pmem s) (pmem s'))"
  using assms by (rule runs_load_kef)

definition example_kef :: bytes where
  "example_kef = [75, 69, 70, 0, 1, 0, 0, 0, 16, 0, 0, 0, 3, 0, 0, 0, 0x90, 0xF4, 0xC3]"

lemma example_kef_facts:
  "kef_ok example_kef" "kef_pages example_kef = 1" "kef_code example_kef = [0x90, 0xF4, 0xC3]"
  "entry_offset (kef_header example_kef) = 1"
  by code_simp+

text \<open>A state as the start of the kernel leaves it: the tables of the example map, eight frames left.\<close>

lemma booted_state:
  "\<exists>root s. memory_ok root s \<and> remaining (frames s) = frame_run 0x7000 8 \<and>
     (\<forall>k < 8. translate (pmem s) root (word_of_nat (0x7000 + k * 4096)) \<noteq> None)"
proof -
  let ?pages = "identity_pages example_map 0x100000 0x2000"
  have pages: "\<forall>a \<in> set ?pages. page_ok a" using example_pages by (auto simp: page_ok_def)
  have "uppers ?pages = {[0], [0, 0], [0, 0, 0]}"
  proof
    show "uppers ?pages \<subseteq> {[0], [0, 0], [0, 0, 0]}" using example_pages by (intro uppers_low) simp
    have "0 \<in> set ?pages" by (simp add: identity_pages_def example_map_def desc_pages_def mapped_type_def page_range_def)
    then have "set (upper_paths (word_of_nat 0)) \<subseteq> uppers ?pages" unfolding uppers_def by blast
    then show "{[0], [0, 0], [0, 0, 0]} \<subseteq> uppers ?pages" by (simp add: upper_paths_def page_path_def page_index_def)
  qed
  then have card: "card (uppers ?pages) = 3" by simp
  have all: "concat (map desc_frames example_map) = frame_run 0x3000 12"
    by (simp add: example_map_def desc_frames_def frame_run_def EFI_CONVENTIONAL_MEMORY_def EFI_LOADER_DATA_def)
  have "frame_run 0x3000 12 = frame_run 0x3000 4 @ frame_run 0x7000 8" using frame_run_append [of "0x3000" 4 8] by simp
  then have rest: "drop (Suc 3) (frame_run 0x3000 12) = frame_run 0x7000 8" by simp
  have "0x7000 + k * 4096 \<in> set ?pages" if "k < 8" for k
  proof -
    have "0x7000 + k * 4096 \<in> (\<lambda>x. 0x3000 + x * 4096) ` {0..<12}" using that by (intro image_eqI [of _ _ "k + 4"]) auto
    then show ?thesis by (auto simp: identity_pages_def example_map_def desc_pages_def mapped_type_def page_range_def)
  qed
  moreover
  have "runs_to (init_paging 0x100000 0x2000) fresh_memory (\<lambda>r s'. \<exists>root. r = Inr root \<and> memory_ok root s' \<and>
      remaining (frames s') = frame_run 0x7000 8 \<and>
      (\<forall>a \<in> set ?pages. translate (pmem s') root (word_of_nat a) \<noteq> None))"
    unfolding fresh_memory_def
    by (rule runs_to_mono [OF runs_init_paging [OF example_map_ok _ pages]])
      (simp add: card all, simp add: card all, simp only: card all rest, blast)
  from runs_to_value [OF this] obtain root s where "memory_ok root s" "remaining (frames s) = frame_run 0x7000 8"
    "\<forall>a \<in> set ?pages. translate (pmem s) root (word_of_nat a) \<noteq> None" by blast
  ultimately show ?thesis by blast
qed

lemma page_ok_low: "k < 8 \<Longrightarrow> page_ok (0x7000 + k * 4096)"
  by (simp add: page_ok_def)

theorem load_kef_correct_witness:
  "kef_ok example_kef \<and> (\<exists>root s. memory_ok root s \<and> runs_to (load_kef example_kef root) s (\<lambda>r s'.
     r = Inr (0x7001, 0xC000) \<and> load_bytes (pmem s') 0x7000 3 = [0x90, 0xF4, 0xC3]))"
proof -
  obtain root s where s: "memory_ok root s" "remaining (frames s) = frame_run 0x7000 8"
    "\<forall>k < 8. translate (pmem s) root (word_of_nat (0x7000 + k * 4096)) \<noteq> None" using booted_state by blast
  have "frame_run 0x7000 8 = frame_run 0x7000 1 @ frame_run 0x8000 4 @ frame_run 0xC000 3"
    using frame_run_append [of "0x7000" 1 7] frame_run_append [of "0x8000" 4 3] by simp
  then have rem: "take 1 (remaining (frames s)) = frame_run 0x7000 1"
    "take 4 (drop 1 (remaining (frames s))) = frame_run 0x8000 4" by (simp_all add: s(2))
  have shift: "0x8000 + k * 4096 = 0x7000 + Suc k * 4096" for k :: nat by simp
  have ready: "tables_ready root 0x7000 1 s" "tables_ready root 0x8000 4 s"
    by (rule tables_readyI, intro allI impI, rule s(3) [rule_format], simp)
      (rule tables_readyI, intro allI impI, unfold shift, rule s(3) [rule_format], simp)
  note run = load_kef_correct [of example_kef root s "0x7000" "0x8000", unfolded example_kef_facts(2)]
  show ?thesis
    using run [OF example_kef_facts(1) s(1) rem _ _ ready] page_ok_low example_kef_facts s(1)
    by (auto simp: page_ok_def numeral_3_eq_3 elim!: runs_to_mono intro!: exI [of _ root] exI [of _ s])
qed

text \<open>
  C13.  \<open>load_kef\<close> never returns addresses for a malformed file.  A file shorter than the
  header, one without the magic number and one with an empty code segment give their error
  and leave memory and allocator as they were.
\<close>

theorem load_kef_rejects:
  "(length file_data < 16 \<longrightarrow> load_kef file_data pml4 s = Err ''File too small to contain KEF header'' s) \<and>
   (16 \<le> length file_data \<and> kef_magic (kef_header file_data) \<noteq> KEF_MAGIC \<longrightarrow>
      load_kef file_data pml4 s = Err ''Invalid KEF magic number'' s) \<and>
   (16 \<le> length file_data \<and> kef_magic (kef_header file_data) = KEF_MAGIC \<and> code_size (kef_header file_data) = 0 \<longrightarrow>
      load_kef file_data pml4 s = Err ''KEF code size is 0'' s) \<and>
   (\<not> kef_ok file_data \<longrightarrow> (\<forall>r s'. load_kef file_data pml4 s \<noteq> Ok r s'))"
proof -
  have zero: "(unat (code_size (kef_header file_data)) + 4095) div 4096 = 0 \<longleftrightarrow> code_size (kef_header file_data) = 0"
    by (simp add: unat_eq_zero div_eq_0_iff)
  have "load_kef file_data pml4 s \<noteq> Ok r s'" if "\<not> kef_ok file_data" for r s'
    using that by (auto simp: load_kef_def kef_ok_def Let_def throw_def zero seq_def bind_def not_le unat_gt_0 split: res.splits if_splits)
  then show ?thesis by (simp add: load_kef_def Let_def throw_def zero)
qed

theorem load_kef_rejects_witness:
  "load_kef [75, 69, 70] 0x2000 fresh_memory = Err ''File too small to contain KEF header'' fresh_memory"
  using load_kef_rejects [of "[75, 69, 70]" "0x2000" fresh_memory] by simp

end
