(* ===== verification/Cpu.thy ===== *)
theory Cpu
  imports Hw
begin

section \<open>Processor tables and per-processor data\<close>

text \<open>
  \<open>src/src/gdt.rs\<close> (descriptor tables and task state segments), the interrupt descriptor
  table of \<open>src/src/interrupts.rs\<close>, the model-specific registers and per-processor data of
  \<open>src/src/processor.rs\<close>, and the set-up of system calls of \<open>src/src/syscall.rs\<close>.  The kernel's
  statics are fields of one record; their link addresses and the addresses of its assembly
  entry points are the parameter \<open>image\<close>.  Processor \<open>c\<close> is the one that executes the code.
\<close>

subsection \<open>Data\<close>

definition KERNEL_CODE_SEL :: u16 where "KERNEL_CODE_SEL = 0x08"
definition KERNEL_DATA_SEL :: u16 where "KERNEL_DATA_SEL = 0x10"
definition USER_DATA_SEL :: u16 where "USER_DATA_SEL = 0x18 OR 3"
definition USER_CODE_SEL :: u16 where "USER_CODE_SEL = 0x20 OR 3"
definition TSS_SEL :: u16 where "TSS_SEL = 0x28"
definition DOUBLE_FAULT_IST_INDEX :: u16 where "DOUBLE_FAULT_IST_INDEX = 1"
abbreviation (input) MAX_CPUS :: nat where "MAX_CPUS \<equiv> 64"
abbreviation (input) MAX_AP_COUNT :: nat where "MAX_AP_COUNT \<equiv> 63"

record GdtEntry =
  limit_low :: u16
  base_low :: u16
  base_middle :: u8
  access :: u8
  granularity :: u8
  base_high :: u8

record TablePointer =
  tp_limit :: u16
  tp_base :: u64

record Tss =
  reserved1 :: u32
  rsp0 :: u64
  rsp1 :: u64
  rsp2 :: u64
  reserved2 :: u64
  ist1 :: u64
  ist2 :: u64
  ist3 :: u64
  ist4 :: u64
  ist5 :: u64
  ist6 :: u64
  ist7 :: u64
  reserved3 :: u64
  reserved4 :: u16
  iomap_base :: u16

text \<open>\<open>size_of\<close> of the packed \<open>Tss\<close>.\<close>

definition TSS_SIZE :: nat where
  "TSS_SIZE = 4 + 8 + 8 + 8 + 8 + 8 * 7 + 8 + 2 + 2"

definition tss_zero :: Tss where
  "tss_zero = \<lparr> reserved1 = 0, rsp0 = 0, rsp1 = 0, rsp2 = 0, reserved2 = 0, ist1 = 0, ist2 = 0, ist3 = 0, ist4 = 0,
     ist5 = 0, ist6 = 0, ist7 = 0, reserved3 = 0, reserved4 = 0, iomap_base = 0 \<rparr>"

definition gdt_zero :: GdtEntry where
  "gdt_zero = \<lparr> limit_low = 0, base_low = 0, base_middle = 0, access = 0, granularity = 0, base_high = 0 \<rparr>"

record IdtEntry =
  offset_low :: u16
  selector :: u16
  ist :: u8
  type_attr :: u8
  offset_mid :: u16
  offset_high :: u32
  zero :: u32

definition idt_zero :: IdtEntry where
  "idt_zero = \<lparr> offset_low = 0, selector = 0, ist = 0, type_attr = 0, offset_mid = 0, offset_high = 0, zero = 0 \<rparr>"

record PercpuData =
  kernel_stack :: u64
  user_stack :: u64
  scratch :: u64
  apic_id :: u8
  cpu_index :: u8
  current_task_index :: u64

definition USIZE_MAX :: u64 where "USIZE_MAX = 0xFFFFFFFFFFFFFFFF"

definition percpu_new :: PercpuData where
  "percpu_new = \<lparr> kernel_stack = 0, user_stack = 0, scratch = 0, apic_id = 0, cpu_index = 0, current_task_index = USIZE_MAX \<rparr>"

text \<open>What the linker decides, and the registers of one processor.\<close>

record image =
  GDT_ADDR :: "nat \<Rightarrow> u64"
  TSS_ADDR :: "nat \<Rightarrow> u64"
  IDT_ADDR :: u64
  PERCPU_ADDR :: u64
  DOUBLE_FAULT_STACK_ADDR :: u64
  SYSCALL_STACK_ADDR :: u64
  AP_STACKS_ADDR :: u64
  SYSCALL_HANDLER_ADDR :: u64
  AP_ENTRY_ADDR :: u64
  TRAMPOLINE_ADDR :: u64
  ISR :: "nat \<Rightarrow> u64"
  IRQ :: "nat \<Rightarrow> u64"

record cpu =
  msr :: "u32 \<Rightarrow> u64"
  seg_cs :: u16
  seg_ds :: u16
  seg_es :: u16
  seg_fs :: u16
  seg_gs :: u16
  seg_ss :: u16
  task_register :: u16
  gdtr :: TablePointer
  idtr :: TablePointer
  own_apic_id :: u8

datatype message =
    Smp_found u8 u64
  | Smp_cpus nat
  | Smp_single
  | Smp_too_many u8
  | Smp_starting nat u8 u64
  | Smp_timed_out u8
  | Smp_online u8
  | Smp_done u32

record machine =
  TSS_ARR :: "Tss list"
  GDT_ARR :: "GdtEntry list list"
  GDT_PTR_ARR :: "TablePointer list"
  IDT :: "IdtEntry list"
  IDT_PTR :: TablePointer
  PERCPU_DATA_SLOTS :: "PercpuData list"
  AP_ONLINE_COUNT :: u32
  cpus :: "cpu list"
  printed :: "message list"

type_synonym 'a mp = "(machine, string, 'a) prog"

text \<open>Statics are indexed with a check; an index out of range panics.\<close>

definition at_index :: "nat \<Rightarrow> 'a list \<Rightarrow> ('s, 'e, 'a) prog" where
  "at_index i xs = (if i < length xs then ret (xs ! i) else stop)"

lemma runs_at_index [simp]: "runs_to (at_index i xs) s P \<longleftrightarrow> i < length xs \<and> P (Inr (xs ! i)) s"
  by (simp add: at_index_def)

definition on_cpu :: "nat \<Rightarrow> (cpu \<Rightarrow> cpu) \<Rightarrow> unit mp" where
  "on_cpu c f = modify (\<lambda>m. m\<lparr>cpus := (cpus m)[c := f (cpus m ! c)]\<rparr>)"

subsection \<open>Model-specific registers\<close>

definition MSR_IA32_EFER :: u32 where "MSR_IA32_EFER = 0xC0000080"
definition MSR_STAR :: u32 where "MSR_STAR = 0xC0000081"
definition MSR_LSTAR :: u32 where "MSR_LSTAR = 0xC0000082"
definition MSR_SFMASK :: u32 where "MSR_SFMASK = 0xC0000084"
definition MSR_IA32_APIC_BASE :: u32 where "MSR_IA32_APIC_BASE = 0x1B"
definition MSR_IA32_FS_BASE :: u32 where "MSR_IA32_FS_BASE = 0xC0000100"
definition MSR_IA32_GS_BASE :: u32 where "MSR_IA32_GS_BASE = 0xC0000101"
definition MSR_IA32_KERNEL_GS_BASE :: u32 where "MSR_IA32_KERNEL_GS_BASE = 0xC0000102"
abbreviation (input) EFER_SCE :: u64 where "EFER_SCE \<equiv> 1"

lemmas msr_numbers = MSR_IA32_EFER_def MSR_STAR_def MSR_LSTAR_def MSR_SFMASK_def MSR_IA32_APIC_BASE_def
  MSR_IA32_FS_BASE_def MSR_IA32_GS_BASE_def MSR_IA32_KERNEL_GS_BASE_def

text \<open>The instruction returns the halves in \<open>edx\<close> and \<open>eax\<close>, and takes them there.\<close>

definition rdmsr :: "nat \<Rightarrow> u32 \<Rightarrow> u64 mp" where
  "rdmsr c r = gets (\<lambda>m. let v = msr (cpus m ! c) r; lo = ucast v :: u32; hi = ucast (drop_bit 32 v) :: u32
                     in push_bit 32 (ucast hi) OR ucast lo)"

definition wrmsr :: "nat \<Rightarrow> u32 \<Rightarrow> u64 \<Rightarrow> unit mp" where
  "wrmsr c r v = (let lo = ucast v :: u32; hi = ucast (drop_bit 32 v) :: u32 in
     on_cpu c (\<lambda>p. p\<lparr>msr := (msr p)(r := push_bit 32 (ucast hi) OR ucast lo)\<rparr>))"

definition lapic_base_from_msr :: "nat \<Rightarrow> u64 mp" where
  "lapic_base_from_msr c = bind (rdmsr c MSR_IA32_APIC_BASE) (\<lambda>v. ret (v AND 0x000FFFFFFFFFF000))"

definition set_percpu_data :: "nat \<Rightarrow> u64 \<Rightarrow> unit mp" where
  "set_percpu_data c ptr = wrmsr c MSR_IA32_GS_BASE ptr"

definition get_percpu_data :: "nat \<Rightarrow> u64 mp" where
  "get_percpu_data c = rdmsr c MSR_IA32_GS_BASE"

text \<open>\<open>size_of::<PercpuData>()\<close> is 40; a pointer to slot \<open>i\<close>, and the slot a pointer points to.\<close>

definition percpu_ptr :: "image \<Rightarrow> nat \<Rightarrow> u64" where
  "percpu_ptr im i = PERCPU_ADDR im + word_of_nat (40 * i)"

definition percpu_slot :: "image \<Rightarrow> u64 \<Rightarrow> nat option" where
  "percpu_slot im p = List.find (\<lambda>i. percpu_ptr im i = p) [0..<Suc MAX_AP_COUNT]"

definition current_apic_id :: "nat \<Rightarrow> u8 mp" where
  "current_apic_id c = gets (\<lambda>m. own_apic_id (cpus m ! c))"

subsection \<open>Segments and task state\<close>

definition gdt_entry :: "u32 \<Rightarrow> u32 \<Rightarrow> u8 \<Rightarrow> u8 \<Rightarrow> GdtEntry" where
  "gdt_entry base limit acc gran =
     \<lparr> limit_low = ucast (limit AND 0xFFFF), base_low = ucast (base AND 0xFFFF),
       base_middle = ucast (drop_bit 16 base AND 0xFF), access = acc,
       granularity = ucast (drop_bit 16 limit AND 0x0F) OR (gran AND 0xF0),
       base_high = ucast (drop_bit 24 base AND 0xFF) \<rparr>"

definition put_gdt :: "nat \<Rightarrow> nat \<Rightarrow> GdtEntry \<Rightarrow> unit mp" where
  "put_gdt cpu i e = bind (gets GDT_ARR) (\<lambda>arr. bind (at_index cpu arr) (\<lambda>row. bind (at_index i row) (\<lambda>_.
     modify (\<lambda>m. m\<lparr>GDT_ARR := (GDT_ARR m)[cpu := row[i := e]]\<rparr>))))"

definition set_gdt_entry_cpu :: "nat \<Rightarrow> nat \<Rightarrow> u32 \<Rightarrow> u32 \<Rightarrow> u8 \<Rightarrow> u8 \<Rightarrow> unit mp" where
  "set_gdt_entry_cpu cpu i base limit acc gran = put_gdt cpu i (gdt_entry base limit acc gran)"

text \<open>The upper half of a system descriptor: the next eight bytes are two \<open>u32\<close>.\<close>

definition high_half :: "u32 \<Rightarrow> GdtEntry" where
  "high_half upper = \<lparr> limit_low = ucast upper, base_low = ucast (drop_bit 16 upper), base_middle = 0, access = 0,
     granularity = 0, base_high = 0 \<rparr>"

definition set_gdt_system_entry_cpu :: "nat \<Rightarrow> nat \<Rightarrow> u64 \<Rightarrow> u32 \<Rightarrow> u8 \<Rightarrow> u8 \<Rightarrow> unit mp" where
  "set_gdt_system_entry_cpu cpu i base limit acc gran =
     seq (set_gdt_entry_cpu cpu i (ucast base) limit acc gran)
         (put_gdt cpu (i + 1) (high_half (ucast (drop_bit 32 base))))"

definition put_tss :: "nat \<Rightarrow> (Tss \<Rightarrow> Tss) \<Rightarrow> unit mp" where
  "put_tss cpu f = bind (gets TSS_ARR) (\<lambda>arr. bind (at_index cpu arr) (\<lambda>t.
     modify (\<lambda>m. m\<lparr>TSS_ARR := (TSS_ARR m)[cpu := f t]\<rparr>)))"

definition desc_base :: "GdtEntry \<Rightarrow> u32" where
  "desc_base e = ucast (base_low e) OR push_bit 16 (ucast (base_middle e)) OR push_bit 24 (ucast (base_high e))"

definition desc_limit :: "GdtEntry \<Rightarrow> u32" where
  "desc_limit e = ucast (limit_low e) OR push_bit 16 (ucast (granularity e AND 0x0F))"

text \<open>
  The reload of the segment registers: loading \<open>fs\<close> or \<open>gs\<close> also loads the base address of the
  descriptor into the corresponding base register.
\<close>

definition reload_segments :: "nat \<Rightarrow> GdtEntry list \<Rightarrow> unit mp" where
  "reload_segments c row = on_cpu c (\<lambda>p.
     let b = ucast (desc_base (row ! unat (drop_bit 3 KERNEL_DATA_SEL))) in
     p\<lparr>seg_cs := KERNEL_CODE_SEL, seg_ds := KERNEL_DATA_SEL, seg_es := KERNEL_DATA_SEL, seg_fs := KERNEL_DATA_SEL,
       seg_gs := KERNEL_DATA_SEL, seg_ss := KERNEL_DATA_SEL,
       msr := (msr p)(MSR_IA32_FS_BASE := b, MSR_IA32_GS_BASE := b)\<rparr>)"

definition gdt_init_cpu :: "image \<Rightarrow> nat \<Rightarrow> nat \<Rightarrow> unit mp" where
  "gdt_init_cpu im c cpu =
     seq (put_tss cpu (\<lambda>t. t\<lparr>iomap_base := word_of_nat TSS_SIZE\<rparr>))
     (seq (put_tss cpu (\<lambda>t. t\<lparr>ist1 := DOUBLE_FAULT_STACK_ADDR im + 4096\<rparr>))
     (seq (set_gdt_entry_cpu cpu 0 0 0 0 0)
     (seq (set_gdt_entry_cpu cpu 1 0 0xFFFFFFFF 0x9A 0xAF)
     (seq (set_gdt_entry_cpu cpu 2 0 0xFFFFFFFF 0x92 0xCF)
     (seq (set_gdt_entry_cpu cpu 3 0 0xFFFFFFFF 0xF2 0xCF)
     (seq (set_gdt_entry_cpu cpu 4 0 0xFFFFFFFF 0xFA 0xAF)
     (seq (set_gdt_system_entry_cpu cpu 5 (TSS_ADDR im cpu) (word_of_nat (TSS_SIZE - 1)) 0x89 0x00)
     (seq (modify (\<lambda>m. m\<lparr>GDT_PTR_ARR := (GDT_PTR_ARR m)[cpu := \<lparr> tp_limit = 7 * 8 - 1, tp_base = GDT_ADDR im cpu \<rparr>]\<rparr>))
     (bind (gets (\<lambda>m. (GDT_PTR_ARR m ! cpu, GDT_ARR m ! cpu))) (\<lambda>(ptr, row).
      seq (on_cpu c (\<lambda>p. p\<lparr>gdtr := ptr\<rparr>))
     (seq (reload_segments c row)
          (on_cpu c (\<lambda>p. p\<lparr>task_register := TSS_SEL\<rparr>)))))))))))))"

definition gdt_init :: "image \<Rightarrow> nat \<Rightarrow> unit mp" where
  "gdt_init im c = gdt_init_cpu im c 0"

definition set_tss_stack :: "u64 \<Rightarrow> unit mp" where
  "set_tss_stack stack = put_tss 0 (\<lambda>t. t\<lparr>rsp0 := stack\<rparr>)"

definition get_tss_stack :: "u64 mp" where
  "get_tss_stack = bind (gets TSS_ARR) (\<lambda>arr. bind (at_index 0 arr) (\<lambda>t. ret (rsp0 t)))"

definition set_tss_stack_cpu :: "nat \<Rightarrow> u64 \<Rightarrow> unit mp" where
  "set_tss_stack_cpu cpu stack = put_tss cpu (\<lambda>t. t\<lparr>rsp0 := stack\<rparr>)"

subsection \<open>Interrupt descriptors\<close>

definition gate :: "u64 \<Rightarrow> u16 \<Rightarrow> u8 \<Rightarrow> IdtEntry" where
  "gate addr sel attr =
     \<lparr> offset_low = ucast (addr AND 0xFFFF), selector = sel, ist = 0, type_attr = attr,
       offset_mid = ucast (drop_bit 16 addr AND 0xFFFF), offset_high = ucast (drop_bit 32 addr AND 0xFFFFFFFF), zero = 0 \<rparr>"

definition set_gate :: "nat \<Rightarrow> u64 \<Rightarrow> u16 \<Rightarrow> u8 \<Rightarrow> unit mp" where
  "set_gate vector addr sel attr = bind (gets IDT) (\<lambda>t. bind (at_index vector t) (\<lambda>_.
     modify (\<lambda>m. m\<lparr>IDT := (IDT m)[vector := gate addr sel attr]\<rparr>)))"

definition init_idt :: "image \<Rightarrow> nat \<Rightarrow> unit mp" where
  "init_idt im c =
     seq (for_each [0..<9] (\<lambda>v. set_gate v (ISR im v) KERNEL_CODE_SEL 0x8E))
     (seq (modify (\<lambda>m. m\<lparr>IDT := (IDT m)[8 := (IDT m ! 8)\<lparr>ist := ucast DOUBLE_FAULT_IST_INDEX\<rparr>]\<rparr>))
     (seq (for_each [9..<32] (\<lambda>v. set_gate v (ISR im v) KERNEL_CODE_SEL 0x8E))
     (seq (for_each [0..<16] (\<lambda>q. set_gate (32 + q) (IRQ im q) KERNEL_CODE_SEL 0x8E))
     (seq (modify (\<lambda>m. m\<lparr>IDT_PTR := \<lparr> tp_limit = 16 * 256 - 1, tp_base = IDT_ADDR im \<rparr>\<rparr>))
     (bind (gets IDT_PTR) (\<lambda>ptr. on_cpu c (\<lambda>p. p\<lparr>idtr := ptr\<rparr>)))))))"

definition gate_offset :: "IdtEntry \<Rightarrow> u64" where
  "gate_offset e = ucast (offset_low e) OR push_bit 16 (ucast (offset_mid e)) OR push_bit 32 (ucast (offset_high e))"

subsection \<open>System call set-up\<close>

definition syscall_init_cpu :: "image \<Rightarrow> nat \<Rightarrow> unit mp" where
  "syscall_init_cpu im c =
     bind (rdmsr c MSR_IA32_EFER) (\<lambda>efer.
     seq (wrmsr c MSR_IA32_EFER (efer OR EFER_SCE))
     (let star_val = push_bit 48 0x0010 OR push_bit 32 (ucast KERNEL_CODE_SEL) in
      seq (wrmsr c MSR_STAR star_val)
      (seq (wrmsr c MSR_LSTAR (SYSCALL_HANDLER_ADDR im))
           (wrmsr c MSR_SFMASK 0x200))))"

definition syscall_init :: "image \<Rightarrow> nat \<Rightarrow> unit mp" where
  "syscall_init im c =
     seq (syscall_init_cpu im c)
     (let stack_end = SYSCALL_STACK_ADDR im + 16384 in
      bind (current_apic_id c) (\<lambda>apic.
      seq (modify (\<lambda>m. m\<lparr>PERCPU_DATA_SLOTS := (PERCPU_DATA_SLOTS m)[0 := (PERCPU_DATA_SLOTS m ! 0)
             \<lparr>kernel_stack := stack_end, apic_id := apic, cpu_index := 0, current_task_index := 0\<rparr>]\<rparr>))
      (seq (set_percpu_data c (percpu_ptr im 0))
      (seq (wrmsr c MSR_IA32_KERNEL_GS_BASE (percpu_ptr im 0))
           (set_tss_stack_cpu 0 stack_end)))))"

end
