(* ===== verification/Cpu_Spec.thy ===== *)
theory Cpu_Spec
  imports Cpu
begin

section \<open>The processor tables are what the processor expects\<close>

text \<open>
  Lemmas on \<open>Cpu\<close>: encodings of descriptors decode to their fields, and the set-up of the
  segments, the interrupt gates and the system call registers of a processor is consistent.
\<close>

subsection \<open>Encodings\<close>

lemma word64_halves: "push_bit 32 (ucast (ucast (drop_bit 32 v) :: u32)) OR ucast (ucast v :: u32) = (v :: u64)"
  by (rule bit_word_eqI) (auto simp: bit_simps)

lemma runs_on_cpu [simp]: "runs_to (on_cpu c f) m P \<longleftrightarrow> P (Inr ()) (m\<lparr>cpus := (cpus m)[c := f (cpus m ! c)]\<rparr>)"
  by (simp add: on_cpu_def)

lemma runs_rdmsr [simp]: "runs_to (rdmsr c r) m P \<longleftrightarrow> P (Inr (msr (cpus m ! c) r)) m"
  by (simp add: rdmsr_def Let_def word64_halves)

lemma runs_wrmsr [simp]: "runs_to (wrmsr c r v) m P \<longleftrightarrow>
    P (Inr ()) (m\<lparr>cpus := (cpus m)[c := (cpus m ! c)\<lparr>msr := (msr (cpus m ! c))(r := v)\<rparr>]\<rparr>)"
  by (simp add: wrmsr_def Let_def word64_halves)

lemma runs_put_gdt [simp]: "runs_to (put_gdt cpu i e) m P \<longleftrightarrow> cpu < length (GDT_ARR m) \<and> i < length (GDT_ARR m ! cpu) \<and>
    P (Inr ()) (m\<lparr>GDT_ARR := (GDT_ARR m)[cpu := (GDT_ARR m ! cpu)[i := e]]\<rparr>)"
  by (simp add: put_gdt_def)

lemma runs_put_tss [simp]: "runs_to (put_tss cpu f) m P \<longleftrightarrow> cpu < length (TSS_ARR m) \<and>
    P (Inr ()) (m\<lparr>TSS_ARR := (TSS_ARR m)[cpu := f (TSS_ARR m ! cpu)]\<rparr>)"
  by (simp add: put_tss_def)


lemma and_masks:
  "w AND 0xF = take_bit 4 (w :: 'a::len word)" "w AND 0xFF = take_bit 8 w" "w AND 0xFFFF = take_bit 16 w"
  "w AND 0xFFFFF = take_bit 20 w" "w AND 0xFFFFFFFF = take_bit 32 w"
  by (simp_all add: take_bit_eq_mask mask_eq_exp_minus_1)

text \<open>A descriptor decodes to what was encoded; the limit keeps 20 bits.\<close>

lemma gdt_entry_decode:
  "desc_base (gdt_entry base limit acc gran) = base"
  "desc_limit (gdt_entry base limit acc gran) = limit AND 0xFFFFF"
  "access (gdt_entry base limit acc gran) = acc"
proof -
  show "desc_base (gdt_entry base limit acc gran) = base"
    apply (rule bit_word_eqI)
    apply (auto simp: desc_base_def gdt_entry_def bit_simps and_masks not_less)
    subgoal for n by (cases "24 \<le> n") auto
    done
  show "desc_limit (gdt_entry base limit acc gran) = limit AND 0xFFFFF"
    by (rule bit_word_eqI) (auto simp: desc_limit_def gdt_entry_def bit_simps and_masks not_less)
  show "access (gdt_entry base limit acc gran) = acc" by (simp add: gdt_entry_def)
qed

lemma high_half_decode:
  "push_bit 32 (ucast (ucast (limit_low (high_half u)) OR push_bit 16 (ucast (base_low (high_half u)) :: u32))) = (push_bit 32 (ucast u) :: u64)"
  by (rule bit_word_eqI) (auto simp: high_half_def bit_simps)

lemma gate_decode: "gate_offset (gate addr sel attr) = addr"
  apply (rule bit_word_eqI)
  apply (auto simp: gate_offset_def gate_def bit_simps and_masks)
  subgoal for n by (cases "32 \<le> n") auto
  done

subsection \<open>Well-formed statics\<close>

definition machine_ok :: "machine \<Rightarrow> bool" where
  "machine_ok m \<longleftrightarrow> length (TSS_ARR m) = MAX_CPUS \<and> length (GDT_ARR m) = MAX_CPUS \<and>
     (\<forall>r\<in>set (GDT_ARR m). length r = 7) \<and> length (GDT_PTR_ARR m) = MAX_CPUS \<and> length (IDT m) = 256 \<and>
     length (PERCPU_DATA_SLOTS m) = Suc MAX_AP_COUNT"

definition start_cpu :: "u8 \<Rightarrow> cpu" where
  "start_cpu a = \<lparr> msr = (\<lambda>_. 0), seg_cs = 0, seg_ds = 0, seg_es = 0, seg_fs = 0, seg_gs = 0, seg_ss = 0,
     task_register = 0, gdtr = \<lparr> tp_limit = 0, tp_base = 0 \<rparr>, idtr = \<lparr> tp_limit = 0, tp_base = 0 \<rparr>, own_apic_id = a \<rparr>"

definition start_machine :: "u8 list \<Rightarrow> machine" where
  "start_machine ids = \<lparr> TSS_ARR = replicate MAX_CPUS tss_zero, GDT_ARR = replicate MAX_CPUS (replicate 7 gdt_zero),
     GDT_PTR_ARR = replicate MAX_CPUS \<lparr> tp_limit = 0, tp_base = 0 \<rparr>, IDT = replicate 256 idt_zero,
     IDT_PTR = \<lparr> tp_limit = 0, tp_base = 0 \<rparr>, PERCPU_DATA_SLOTS = replicate (Suc MAX_AP_COUNT) percpu_new,
     AP_ONLINE_COUNT = 0, cpus = map start_cpu ids, printed = [] \<rparr>"

lemma start_machine_ok: "machine_ok (start_machine ids)"
  by (simp add: machine_ok_def start_machine_def)

text \<open>What \<open>syscall\<close> and \<open>sysret\<close> load from \<open>STAR\<close>: code and stack selectors.\<close>

definition syscall_selectors :: "u64 \<Rightarrow> u16 \<times> u16" where
  "syscall_selectors star = (ucast (drop_bit 32 star) AND 0xFFFC, ucast (drop_bit 32 star) + 8)"

definition sysret_selectors :: "u64 \<Rightarrow> u16 \<times> u16" where
  "sysret_selectors star = ((ucast (drop_bit 48 star) + 16) OR 3, (ucast (drop_bit 48 star) + 8) OR 3)"

definition dpl :: "GdtEntry \<Rightarrow> u8" where
  "dpl e = take_bit 2 (drop_bit 5 (access e))"

definition is_code :: "GdtEntry \<Rightarrow> bool" where
  "is_code e \<longleftrightarrow> bit (access e) 4 \<and> bit (access e) 3"

definition flat :: "GdtEntry \<Rightarrow> bool" where
  "flat e \<longleftrightarrow> desc_base e = 0 \<and> desc_limit e = 0xFFFFF \<and> bit (access e) 7"

definition at_selector :: "GdtEntry list \<Rightarrow> u16 \<Rightarrow> GdtEntry" where
  "at_selector row sel = row ! unat (drop_bit 3 sel)"

definition tss_base :: "GdtEntry list \<Rightarrow> u64" where
  "tss_base row = ucast (desc_base (at_selector row TSS_SEL)) OR
     push_bit 32 (ucast (limit_low (row ! 6)) OR push_bit 16 (ucast (base_low (row ! 6))))"

lemma tss_base_encode: "ucast (ucast w :: u32) OR push_bit 32 (ucast (limit_low (high_half (ucast (drop_bit 32 w))))) OR
    push_bit 48 (ucast (base_low (high_half (ucast (drop_bit 32 w))))) = (w :: u64)"
  apply (rule bit_word_eqI)
  apply (auto simp: high_half_def bit_simps)
  subgoal for n by (cases "48 \<le> n") auto
  done

text \<open>The seven descriptors \<open>gdt_init_cpu\<close> writes.\<close>

definition kernel_gdt :: "image \<Rightarrow> nat \<Rightarrow> GdtEntry list" where
  "kernel_gdt im cpu = [gdt_entry 0 0 0 0, gdt_entry 0 0xFFFFFFFF 0x9A 0xAF, gdt_entry 0 0xFFFFFFFF 0x92 0xCF,
     gdt_entry 0 0xFFFFFFFF 0xF2 0xCF, gdt_entry 0 0xFFFFFFFF 0xFA 0xAF,
     gdt_entry (ucast (TSS_ADDR im cpu)) 103 0x89 0, high_half (ucast (drop_bit 32 (TSS_ADDR im cpu)))]"

lemma fill_row: "length r = 7 \<Longrightarrow> r[0 := a, Suc 0 := b, 2 := c, 3 := d, 4 := e, 5 := f, 6 := g] = [a, b, c, d, e, f, g]"
  by (rule nth_equalityI) (auto simp: less_Suc_eq numeral_eq_Suc)

lemma runs_gdt_init_cpu:
  assumes ok: "machine_ok m" and cpu: "cpu < MAX_CPUS"
    and post: "\<And>m'. m' = m\<lparr>TSS_ARR := (TSS_ARR m)[cpu := (TSS_ARR m ! cpu)\<lparr>iomap_base := 104, ist1 := DOUBLE_FAULT_STACK_ADDR im + 4096\<rparr>],
        GDT_ARR := (GDT_ARR m)[cpu := kernel_gdt im cpu],
        GDT_PTR_ARR := (GDT_PTR_ARR m)[cpu := \<lparr> tp_limit = 55, tp_base = GDT_ADDR im cpu \<rparr>],
        cpus := (cpus m)[c := (cpus m ! c)\<lparr>gdtr := \<lparr> tp_limit = 55, tp_base = GDT_ADDR im cpu \<rparr>,
          seg_cs := KERNEL_CODE_SEL, seg_ds := KERNEL_DATA_SEL, seg_es := KERNEL_DATA_SEL, seg_fs := KERNEL_DATA_SEL,
          seg_gs := KERNEL_DATA_SEL, seg_ss := KERNEL_DATA_SEL,
          msr := (msr (cpus m ! c))(MSR_IA32_FS_BASE := 0, MSR_IA32_GS_BASE := 0), task_register := TSS_SEL\<rparr>]\<rparr> \<Longrightarrow> P (Inr ()) m'"
    and c: "c < length (cpus m)"
  shows "runs_to (gdt_init_cpu im c cpu) m P"
proof -
  have row: "length (GDT_ARR m ! cpu) = 7" "cpu < length (GDT_ARR m)" "cpu < length (TSS_ARR m)" "cpu < length (GDT_PTR_ARR m)"
    using ok cpu by (auto simp: machine_ok_def)
  note fill = fill_row [OF row(1)]
  have data: "unat (drop_bit 3 KERNEL_DATA_SEL) = 2" by (simp add: KERNEL_DATA_SEL_def)
  show ?thesis
    using row c
    by (simp add: gdt_init_cpu_def set_gdt_entry_cpu_def set_gdt_system_entry_cpu_def reload_segments_def Let_def fill
        gdt_entry_decode data TSS_SIZE_def)
      (intro conjI post, auto simp: kernel_gdt_def)
qed


lemma runs_syscall_init_cpu:
  assumes c: "c < length (cpus m)"
  shows "runs_to (syscall_init_cpu im c) m P \<longleftrightarrow>
    P (Inr ()) (m\<lparr>cpus := (cpus m)[c := (cpus m ! c)\<lparr>msr := (msr (cpus m ! c))
      (MSR_IA32_EFER := msr (cpus m ! c) MSR_IA32_EFER OR EFER_SCE, MSR_STAR := 0x0010000800000000,
       MSR_LSTAR := SYSCALL_HANDLER_ADDR im, MSR_SFMASK := 0x200)\<rparr>]\<rparr>)"
  using c by (simp add: syscall_init_cpu_def Let_def KERNEL_CODE_SEL_def)

text \<open>Gates written one after the other, for vectors inside the table.\<close>

lemma runs_gates:
  assumes "\<forall>v\<in>set vs. f v < length (IDT m)" and "distinct (map f vs)"
  shows "runs_to (for_each vs (\<lambda>v. set_gate (f v) (h v) KERNEL_CODE_SEL 0x8E)) m (\<lambda>r m'. r = Inr () \<and>
    (\<exists>t. m' = m\<lparr>IDT := t\<rparr> \<and> length t = length (IDT m) \<and> (\<forall>v\<in>set vs. t ! f v = gate (h v) KERNEL_CODE_SEL 0x8E) \<and>
      (\<forall>i. i \<notin> f ` set vs \<longrightarrow> t ! i = IDT m ! i)))"
proof -
  let ?I = "\<lambda>ws m'. \<exists>t. m' = m\<lparr>IDT := t\<rparr> \<and> length t = length (IDT m) \<and>
    (\<forall>v\<in>set ws. t ! f v = gate (h v) KERNEL_CODE_SEL 0x8E) \<and> (\<forall>i. i \<notin> f ` set ws \<longrightarrow> t ! i = IDT m ! i)"
  show ?thesis
  proof (rule for_each_invariant [where I = ?I])
    show "?I [] m" by (rule exI [of _ "IDT m"]) simp
  next
    fix ys x zs m' assume vs: "vs = ys @ x # zs" and "?I ys m'"
    then obtain t where t: "m' = m\<lparr>IDT := t\<rparr>" "length t = length (IDT m)"
      "\<forall>v\<in>set ys. t ! f v = gate (h v) KERNEL_CODE_SEL 0x8E" "\<forall>i. i \<notin> f ` set ys \<longrightarrow> t ! i = IDT m ! i" by blast
    have "f x < length (IDT m)" "f x \<notin> f ` set ys" using assms vs by auto
    then have "?I (ys @ [x]) (m'\<lparr>IDT := t[f x := gate (h x) KERNEL_CODE_SEL 0x8E]\<rparr>)"
      using t by (intro exI [of _ "t[f x := gate (h x) KERNEL_CODE_SEL 0x8E]"]) (auto simp: nth_list_update)
    then show "runs_to (set_gate (f x) (h x) KERNEL_CODE_SEL 0x8E) m' (\<lambda>r m'. r = Inr () \<and> ?I (ys @ [x]) m')"
      using t(1,2) \<open>f x < length (IDT m)\<close> by (simp add: set_gate_def)
  qed
qed

lemma runs_init_idt:
  assumes ok: "length (IDT m) = 256" and c: "c < length (cpus m)"
  shows "runs_to (init_idt im c) m (\<lambda>r m'. r = Inr () \<and> (\<exists>t. length t = 256 \<and>
    (\<forall>v<32. t ! v = (gate (ISR im v) KERNEL_CODE_SEL 0x8E)\<lparr>ist := (if v = 8 then 1 else 0)\<rparr>) \<and>
    (\<forall>q<16. t ! (32 + q) = gate (IRQ im q) KERNEL_CODE_SEL 0x8E) \<and> (\<forall>i\<ge>48. t ! i = IDT m ! i) \<and>
    m' = m\<lparr>IDT := t, IDT_PTR := \<lparr> tp_limit = 4095, tp_base = IDT_ADDR im \<rparr>,
      cpus := (cpus m)[c := (cpus m ! c)\<lparr>idtr := \<lparr> tp_limit = 4095, tp_base = IDT_ADDR im \<rparr>\<rparr>]\<rparr>))"
proof -
  have g: "(gate a s k)\<lparr>ist := 0\<rparr> = gate a s k" for a s k by (simp add: gate_def)
  show ?thesis
    unfolding init_idt_def runs_to_seq
  proof (rule runs_to_mono [OF runs_gates [of _ "\<lambda>v. v"]], use ok in simp, simp, goal_cases)
    case (1 r m1)
    then obtain t1 where t1: "r = Inr ()" "m1 = m\<lparr>IDT := t1\<rparr>" "length t1 = 256" "\<forall>v<9. t1 ! v = gate (ISR im v) KERNEL_CODE_SEL 0x8E"
      "\<forall>i\<ge>9. t1 ! i = IDT m ! i" using ok by auto
    let ?m2 = "m1\<lparr>IDT := t1[8 := (t1 ! 8)\<lparr>ist := 1\<rparr>]\<rparr>"
    show ?case unfolding t1(1) sum.case
    proof (simp add: t1(2) DOUBLE_FAULT_IST_INDEX_def, rule runs_to_mono [OF runs_gates [of _ "\<lambda>v. v"]], use t1(3) in simp, simp, goal_cases)
      case (1 r m3)
      then obtain t3 where t3: "r = Inr ()" "m3 = m\<lparr>IDT := t3\<rparr>" "length t3 = 256"
        "\<forall>v. 9 \<le> v \<and> v < 32 \<longrightarrow> t3 ! v = gate (ISR im v) KERNEL_CODE_SEL 0x8E"
        "\<forall>i. i < 9 \<or> 32 \<le> i \<longrightarrow> t3 ! i = t1[8 := (t1 ! 8)\<lparr>ist := 1\<rparr>] ! i" using t1(3) by auto
      show ?case unfolding t3(1) sum.case
      proof (rule runs_to_mono [OF runs_gates [of _ "\<lambda>q. 32 + q"]], use t3(2,3) in simp, simp add: distinct_map, goal_cases)
        case (1 r m4)
        then obtain t4 where t4: "r = Inr ()" "m4 = m\<lparr>IDT := t4\<rparr>" "length t4 = 256"
          "\<forall>q<16. t4 ! (32 + q) = gate (IRQ im q) KERNEL_CODE_SEL 0x8E"
          "\<forall>i. i \<notin> (+) 32 ` {0..<16} \<longrightarrow> t4 ! i = t3 ! i" using t3(2,3) by auto
        have out: "v < 32 \<or> 48 \<le> v \<Longrightarrow> t4 ! v = t3 ! v" for v using t4(5) by auto
        have "t4 ! v = (gate (ISR im v) KERNEL_CODE_SEL 0x8E)\<lparr>ist := (if v = 8 then 1 else 0)\<rparr>" if "v < 32" for v
          using that out [of v] t3(4,5) t1(3,4) by (cases "v < 9") (auto simp: nth_list_update g)
        moreover have "t4 ! i = IDT m ! i" if "48 \<le> i" for i using that out [of i] t3(5) t1(5) by simp
        ultimately show ?case using t4 by (auto intro: exI [of _ t4])
      qed
    qed
  qed
qed


lemma kernel_gdt_decode:
  "flat (at_selector (kernel_gdt im cpu) KERNEL_CODE_SEL)" "flat (at_selector (kernel_gdt im cpu) KERNEL_DATA_SEL)"
  "flat (at_selector (kernel_gdt im cpu) USER_CODE_SEL)" "flat (at_selector (kernel_gdt im cpu) USER_DATA_SEL)"
  "dpl (at_selector (kernel_gdt im cpu) KERNEL_CODE_SEL) = 0" "dpl (at_selector (kernel_gdt im cpu) KERNEL_DATA_SEL) = 0"
  "dpl (at_selector (kernel_gdt im cpu) USER_CODE_SEL) = 3" "dpl (at_selector (kernel_gdt im cpu) USER_DATA_SEL) = 3"
  "is_code (at_selector (kernel_gdt im cpu) KERNEL_CODE_SEL)" "\<not> is_code (at_selector (kernel_gdt im cpu) KERNEL_DATA_SEL)"
  "is_code (at_selector (kernel_gdt im cpu) USER_CODE_SEL)" "\<not> is_code (at_selector (kernel_gdt im cpu) USER_DATA_SEL)"
  "tss_base (kernel_gdt im cpu) = TSS_ADDR im cpu" "desc_limit (at_selector (kernel_gdt im cpu) TSS_SEL) = 103"
  "access (at_selector (kernel_gdt im cpu) TSS_SEL) = 0x89"
  by (simp_all add: at_selector_def KERNEL_CODE_SEL_def KERNEL_DATA_SEL_def USER_CODE_SEL_def USER_DATA_SEL_def TSS_SEL_def
      kernel_gdt_def flat_def dpl_def is_code_def tss_base_def gdt_entry_decode tss_base_encode)

lemma star_selectors:
  "syscall_selectors 0x0010000800000000 = (KERNEL_CODE_SEL, KERNEL_DATA_SEL)"
  "sysret_selectors 0x0010000800000000 = (USER_CODE_SEL, USER_DATA_SEL)"
  by (simp_all add: syscall_selectors_def sysret_selectors_def KERNEL_CODE_SEL_def KERNEL_DATA_SEL_def USER_CODE_SEL_def USER_DATA_SEL_def)

subsection \<open>Example\<close>

definition example_image :: image where
  "example_image = \<lparr> GDT_ADDR = (\<lambda>i. 0x2000 + word_of_nat (56 * i)), TSS_ADDR = (\<lambda>i. 0x4000 + word_of_nat (104 * i)), IDT_ADDR = 0x6000,
     PERCPU_ADDR = 0x8000, DOUBLE_FAULT_STACK_ADDR = 0x9000, SYSCALL_STACK_ADDR = 0xA000, AP_STACKS_ADDR = 0x100000,
     SYSCALL_HANDLER_ADDR = 0x200000, AP_ENTRY_ADDR = 0x200100, TRAMPOLINE_ADDR = 0x200200,
     ISR = (\<lambda>i. 0x210000 + word_of_nat i), IRQ = (\<lambda>i. 0x220000 + word_of_nat i) \<rparr>"

subsection \<open>Properties\<close>



text \<open>
  C23.  \<open>init_idt\<close> leaves a present kernel-mode interrupt gate at each of the vectors 0 to 47:
  the offset reassembled from its three parts is the entry point of that exception or
  interrupt, only the double fault uses the separate stack, the remaining vectors are
  unchanged, and the processor's table register covers all 256 gates.
\<close>

theorem init_idt_gates:
  assumes "machine_ok m" and "c < length (cpus m)"
  shows "runs_to (init_idt im c) m (\<lambda>r m'. r = Inr () \<and> machine_ok m' \<and>
    (\<forall>v<48. gate_offset (IDT m' ! v) = (if v < 32 then ISR im v else IRQ im (v - 32)) \<and>
       selector (IDT m' ! v) = KERNEL_CODE_SEL \<and> type_attr (IDT m' ! v) = 0x8E \<and> zero (IDT m' ! v) = 0 \<and>
       ist (IDT m' ! v) = (if v = 8 then 1 else 0)) \<and>
    (\<forall>v. 48 \<le> v \<longrightarrow> IDT m' ! v = IDT m ! v) \<and> tp_base (idtr (cpus m' ! c)) = IDT_ADDR im \<and>
    unat (tp_limit (idtr (cpus m' ! c))) + 1 = 16 * length (IDT m'))"
proof -
  have len: "length (IDT m) = 256" using assms(1) by (simp add: machine_ok_def)
  show ?thesis
  proof (rule runs_to_mono [OF runs_init_idt [OF len assms(2)]], goal_cases)
    case (1 r m')
    then obtain t where t: "r = Inr ()" "length t = 256"
      "\<forall>v<32. t ! v = (gate (ISR im v) KERNEL_CODE_SEL 0x8E)\<lparr>ist := (if v = 8 then 1 else 0)\<rparr>"
      "\<forall>q<16. t ! (32 + q) = gate (IRQ im q) KERNEL_CODE_SEL 0x8E" "\<forall>i\<ge>48. t ! i = IDT m ! i"
      and m': "m' = m\<lparr>IDT := t, IDT_PTR := \<lparr> tp_limit = 4095, tp_base = IDT_ADDR im \<rparr>,
        cpus := (cpus m)[c := (cpus m ! c)\<lparr>idtr := \<lparr> tp_limit = 4095, tp_base = IDT_ADDR im \<rparr>\<rparr>]\<rparr>" by blast
    have off: "gate_offset (e\<lparr>ist := k\<rparr>) = gate_offset e" for e k by (simp add: gate_offset_def)
    have "gate_offset (t ! v) = (if v < 32 then ISR im v else IRQ im (v - 32)) \<and> selector (t ! v) = KERNEL_CODE_SEL \<and>
        type_attr (t ! v) = 0x8E \<and> zero (t ! v) = 0 \<and> ist (t ! v) = (if v = 8 then 1 else 0)" if "v < 48" for v
      using that t(3) t(4) [rule_format, of "v - 32"]
      by (cases "v < 32") (auto simp: off gate_decode, auto simp: gate_def)
    then show ?case using t assms by (simp add: m' machine_ok_def)
  qed
qed

theorem init_idt_gates_witness:
  "runs_to (init_idt example_image 0) (start_machine [0]) (\<lambda>r m'. r = Inr () \<and> gate_offset (IDT m' ! 33) = IRQ example_image 1 \<and> ist (IDT m' ! 8) = 1)"
  by (rule runs_to_mono [OF init_idt_gates [OF start_machine_ok]]) (simp_all add: start_machine_def)

end
