(* ===== verification/Allocator.thy ===== *)
theory Allocator
  imports Phys
begin

section \<open>The heap allocator\<close>

text \<open>
  \<open>src/src/allocator.rs\<close>: the segregated allocator.  Blocks and their headers live in the byte
  memory; a pointer is an address and null is 0.  Additions that pass 64 bits, an index past
  the end of an array, a remainder by 0 and an underflow panic and are \<open>Stop\<close>.  The loop over
  the large blocks follows \<open>next\<close> pointers and need not end on a corrupt list.
\<close>

subsection \<open>Definitions\<close>

abbreviation (input) NUM_BUCKETS :: nat where "NUM_BUCKETS \<equiv> 10"
abbreviation (input) MAX_SMALL_SIZE :: nat where "MAX_SMALL_SIZE \<equiv> 4096"
definition LARGE_BLOCK_SENTINEL :: u64 where "LARGE_BLOCK_SENTINEL = 0xFFFFFFFFFFFFFFFF"
definition BUCKET_SIZES :: "nat list" where "BUCKET_SIZES = [8, 16, 32, 64, 128, 256, 512, 1024, 2048, 4096]"
abbreviation (input) SMALL_HEADER_SIZE :: nat where "SMALL_HEADER_SIZE \<equiv> 8"
abbreviation (input) LARGE_BLOCK_SIZE :: nat where "LARGE_BLOCK_SIZE \<equiv> 32"

record SegregatedAllocator =
  free_lists :: "nat list"
  large_head :: nat
  arena_ptr :: nat
  arena_end :: nat

definition SegregatedAllocator_new :: SegregatedAllocator where
  "SegregatedAllocator_new = \<lparr> free_lists = replicate NUM_BUCKETS 0, large_head = 0, arena_ptr = 0, arena_end = 0 \<rparr>"

record heap =
  hmem :: pmem
  seg :: SegregatedAllocator

type_synonym 'a hp = "(heap, string, 'a) prog"

text \<open>Checked 64-bit addition, and reads and writes of words, addresses and the free flag.\<close>

definition uadd :: "nat \<Rightarrow> nat \<Rightarrow> nat hp" where
  "uadd x y = (if x + y < 2 ^ 64 then ret (x + y) else stop)"

definition get_word :: "nat \<Rightarrow> nat hp" where
  "get_word a = (\<lambda>h. Ok (unat (load64 (hmem h) a)) h)"

definition put_word :: "nat \<Rightarrow> nat \<Rightarrow> unit hp" where
  "put_word a v = (\<lambda>h. Ok () (h\<lparr>hmem := store64 a (word_of_nat v) (hmem h)\<rparr>))"

definition get_seg :: "SegregatedAllocator hp" where
  "get_seg = (\<lambda>h. Ok (seg h) h)"

definition put_seg :: "(SegregatedAllocator \<Rightarrow> SegregatedAllocator) \<Rightarrow> unit hp" where
  "put_seg f = (\<lambda>h. Ok () (h\<lparr>seg := f (seg h)\<rparr>))"

text \<open>The fields of \<open>LargeBlock\<close>: \<open>size\<close>, \<open>next\<close>, \<open>prev\<close> and \<open>free\<close> at 0, 8, 16 and 24.\<close>

definition lb_size :: "pmem \<Rightarrow> nat \<Rightarrow> nat" where "lb_size m b = unat (load64 m b)"
definition lb_next :: "pmem \<Rightarrow> nat \<Rightarrow> nat" where "lb_next m b = unat (load64 m (b + 8))"
definition lb_prev :: "pmem \<Rightarrow> nat \<Rightarrow> nat" where "lb_prev m b = unat (load64 m (b + 16))"
definition lb_free :: "pmem \<Rightarrow> nat \<Rightarrow> bool" where "lb_free m b \<longleftrightarrow> m (b + 24) \<noteq> 0"

definition put_free :: "nat \<Rightarrow> bool \<Rightarrow> unit hp" where
  "put_free b f = (\<lambda>h. Ok () (h\<lparr>hmem := store_bytes (b + 24) [if f then 1 else 0] (hmem h)\<rparr>))"

definition mem_get :: "(pmem \<Rightarrow> 'a) \<Rightarrow> 'a hp" where
  "mem_get f = (\<lambda>h. Ok (f (hmem h)) h)"

definition align_up :: "nat \<Rightarrow> nat \<Rightarrow> nat hp" where
  "align_up addr align = bind (uadd addr align) (\<lambda>t. ret (unat (word_of_nat (t - 1) AND NOT (word_of_nat (align - 1) :: u64))))"

definition seg_init :: "nat \<Rightarrow> nat \<Rightarrow> unit hp" where
  "seg_init start sz =
     (let arena_bytes = sz div 4 * 3; rest = sz - arena_bytes in
      seq (put_seg (\<lambda>g. g\<lparr>arena_ptr := start\<rparr>))
      (bind (uadd start arena_bytes) (\<lambda>lb_start.
       seq (put_seg (\<lambda>g. g\<lparr>arena_end := lb_start\<rparr>))
       (if rest > LARGE_BLOCK_SIZE then
          seq (put_word lb_start (rest - LARGE_BLOCK_SIZE)) (seq (put_word (lb_start + 8) 0)
          (seq (put_word (lb_start + 16) 0) (seq (put_free lb_start True)
          (put_seg (\<lambda>g. g\<lparr>large_head := lb_start\<rparr>)))))
        else ret ()))))"

primrec bucket_from :: "nat \<Rightarrow> nat list \<Rightarrow> nat \<Rightarrow> nat option" where
  "bucket_from i [] sz = None"
| "bucket_from i (c # cs) sz = (if sz \<le> c then Some i else bucket_from (Suc i) cs sz)"

definition bucket_for :: "nat \<Rightarrow> nat option" where
  "bucket_for sz = bucket_from 0 BUCKET_SIZES sz"

text \<open>Taking the block that fits: split when a header and 16 bytes remain, then mark it used.\<close>

definition split_block :: "nat \<Rightarrow> nat \<Rightarrow> unit hp" where
  "split_block current sz =
     (let next = current + LARGE_BLOCK_SIZE + sz in
      bind (mem_get (\<lambda>m. lb_size m current)) (\<lambda>n.
      seq (put_word next (n - sz - LARGE_BLOCK_SIZE))
      (bind (mem_get (\<lambda>m. lb_next m current)) (\<lambda>nn.
       seq (put_word (next + 8) nn) (seq (put_word (next + 16) current) (seq (put_free next True)
       (seq (if nn \<noteq> 0 then put_word (nn + 16) next else ret ())
       (seq (put_word current sz) (put_word (current + 8) next)))))))))"

definition take_block :: "nat \<Rightarrow> nat \<Rightarrow> nat hp" where
  "take_block current sz =
     bind (mem_get (\<lambda>m. lb_size m current)) (\<lambda>n.
     bind (uadd sz (LARGE_BLOCK_SIZE + 16)) (\<lambda>need.
     seq (if n \<ge> need then bind (uadd current (LARGE_BLOCK_SIZE + sz)) (\<lambda>_. split_block current sz) else ret ())
     (seq (put_free current False) (ret (current + LARGE_BLOCK_SIZE)))))"

text \<open>One round of the scan: \<open>Inr\<close> is the value of the loop, \<open>Inl\<close> the next block.\<close>

definition large_scan :: "nat \<Rightarrow> nat \<Rightarrow> (nat + nat) hp" where
  "large_scan sz current =
     (if current = 0 then ret (Inr 0) else
      bind (mem_get (\<lambda>m. (lb_free m current, lb_size m current, lb_next m current))) (\<lambda>(free, n, next).
      if free \<and> n \<ge> sz then bind (take_block current sz) (\<lambda>p. ret (Inr p))
      else ret (Inl next)))"

definition alloc_large_raw :: "nat \<Rightarrow> nat hp" where
  "alloc_large_raw sz0 =
     bind (uadd sz0 7) (\<lambda>t. bind get_seg (\<lambda>g. prog_loop (large_scan (t div 8 * 8)) (large_head g)))"

text \<open>Merging block \<open>b\<close> with the block \<open>c\<close> after it.\<close>

definition absorb :: "nat \<Rightarrow> nat \<Rightarrow> unit hp" where
  "absorb b c =
     bind (mem_get (\<lambda>m. (lb_size m b, lb_size m c, lb_next m c))) (\<lambda>(nb, nc, next).
     bind (uadd nc LARGE_BLOCK_SIZE) (\<lambda>t. bind (uadd nb t) (\<lambda>n.
     seq (put_word b n) (seq (put_word (b + 8) next)
       (if next \<noteq> 0 then put_word (next + 16) b else ret ())))))"

definition join_next :: "nat \<Rightarrow> unit hp" where
  "join_next block = bind (mem_get (\<lambda>m. lb_next m block)) (\<lambda>next.
     bind (mem_get (\<lambda>m. next \<noteq> 0 \<and> lb_free m next)) (\<lambda>j. if j then absorb block next else ret ()))"

definition join_prev :: "nat \<Rightarrow> unit hp" where
  "join_prev block = bind (mem_get (\<lambda>m. lb_prev m block)) (\<lambda>prev.
     bind (mem_get (\<lambda>m. prev \<noteq> 0 \<and> lb_free m prev)) (\<lambda>j. if j then absorb prev block else ret ()))"

definition free_large_raw :: "nat \<Rightarrow> unit hp" where
  "free_large_raw ptr =
     (if ptr = 0 then ret () else if ptr < LARGE_BLOCK_SIZE then stop else
      let block = ptr - LARGE_BLOCK_SIZE in
      bind (mem_get (\<lambda>m. lb_free m block)) (\<lambda>free. if free then ret () else
      seq (put_free block True) (seq (join_next block) (join_prev block))))"

definition alloc_slab :: "nat \<Rightarrow> nat \<Rightarrow> nat hp" where
  "alloc_slab bucket tot =
     bind (alloc_large_raw (tot * 32)) (\<lambda>slab.
     if slab = 0 then ret 0 else
     seq (for_each [1..<32] (\<lambda>i.
            bind (uadd slab (i * tot)) (\<lambda>blk. bind get_seg (\<lambda>g.
            seq (put_word blk (free_lists g ! bucket))
              (put_seg (\<lambda>g. g\<lparr>free_lists := (free_lists g)[bucket := blk]\<rparr>))))))
     (seq (put_word slab bucket) (ret (slab + SMALL_HEADER_SIZE))))"

definition alloc_small :: "nat \<Rightarrow> nat hp" where
  "alloc_small bucket =
     (if bucket \<ge> NUM_BUCKETS then stop else
      let tot = SMALL_HEADER_SIZE + BUCKET_SIZES ! bucket in
      bind get_seg (\<lambda>g. let head = free_lists g ! bucket in
      if head \<noteq> 0 then
        bind (get_word head) (\<lambda>next.
        seq (put_seg (\<lambda>g. g\<lparr>free_lists := (free_lists g)[bucket := next]\<rparr>))
        (seq (put_word head bucket) (ret (head + SMALL_HEADER_SIZE))))
      else
        bind (align_up (arena_ptr g) 8) (\<lambda>aligned. bind (uadd aligned tot) (\<lambda>top.
        if top \<le> arena_end g then
          seq (put_seg (\<lambda>g. g\<lparr>arena_ptr := top\<rparr>))
          (seq (put_word aligned bucket) (ret (aligned + SMALL_HEADER_SIZE)))
        else alloc_slab bucket tot))))"

definition free_small :: "nat \<Rightarrow> unit hp" where
  "free_small payload =
     (let block = payload - SMALL_HEADER_SIZE in
      bind (get_word block) (\<lambda>bucket. bind get_seg (\<lambda>g.
      if bucket \<ge> NUM_BUCKETS then stop else
      seq (put_word block (free_lists g ! bucket))
        (put_seg (\<lambda>g. g\<lparr>free_lists := (free_lists g)[bucket := block]\<rparr>)))))"

definition alloc_large_aligned :: "nat \<Rightarrow> nat \<Rightarrow> nat hp" where
  "alloc_large_aligned sz align =
     bind (uadd align 16) (\<lambda>extra. bind (uadd sz extra) (\<lambda>tot. bind (alloc_large_raw tot) (\<lambda>raw.
     if raw = 0 then ret 0 else if align = 0 then stop else
     let block_addr = raw - LARGE_BLOCK_SIZE; candidate = raw + 16; remainder = candidate mod align;
         padding = (if remainder = 0 then 0 else align - remainder) in
     bind (uadd candidate padding) (\<lambda>aligned_addr.
     seq (put_word (aligned_addr - 16) (unat LARGE_BLOCK_SENTINEL))
     (seq (put_word (aligned_addr - 8) block_addr) (ret aligned_addr))))))"

definition seg_alloc_aligned :: "nat \<Rightarrow> nat \<Rightarrow> nat hp" where
  "seg_alloc_aligned sz align =
     (case (if align \<le> SMALL_HEADER_SIZE then bucket_for sz else None) of
        Some bucket \<Rightarrow> alloc_small bucket
      | None \<Rightarrow> alloc_large_aligned sz align)"

definition seg_dealloc_aligned :: "nat \<Rightarrow> unit hp" where
  "seg_dealloc_aligned ptr =
     (if ptr = 0 then ret () else if ptr < 16 then stop else
      bind (get_word (ptr - 16)) (\<lambda>header_val.
      if header_val = unat LARGE_BLOCK_SENTINEL then
        bind (get_word (ptr - 8)) (\<lambda>block_addr. bind (uadd block_addr LARGE_BLOCK_SIZE) free_large_raw)
      else free_small ptr))"

definition capacity_of :: "nat \<Rightarrow> nat hp" where
  "capacity_of ptr =
     (if ptr < 16 then stop else
      bind (get_word (ptr - 16)) (\<lambda>header_val.
      if header_val = unat LARGE_BLOCK_SENTINEL then
        bind (get_word (ptr - 8)) (\<lambda>block_addr.
        bind (mem_get (\<lambda>m. lb_size m block_addr)) (\<lambda>n.
        bind (uadd block_addr LARGE_BLOCK_SIZE) (\<lambda>t. bind (uadd t n) (\<lambda>block_end.
        if block_end < ptr then stop else ret (block_end - ptr)))))
      else if header_val \<ge> NUM_BUCKETS then stop else ret (BUCKET_SIZES ! header_val)))"

definition copy_bytes :: "nat \<Rightarrow> nat \<Rightarrow> nat \<Rightarrow> unit hp" where
  "copy_bytes src dst n = (\<lambda>h. Ok () (h\<lparr>hmem := store_bytes dst (load_bytes (hmem h) src n) (hmem h)\<rparr>))"

text \<open>\<open>realloc\<close> of the kernel heap, and the same code on the user heap.\<close>

definition seg_realloc :: "nat \<Rightarrow> nat \<Rightarrow> nat \<Rightarrow> nat hp" where
  "seg_realloc ptr align new_size =
     (if ptr = 0 then seg_alloc_aligned new_size align else
      bind (seg_alloc_aligned new_size align) (\<lambda>new_ptr.
      seq (if new_ptr \<noteq> 0 then
             bind (capacity_of ptr) (\<lambda>old_cap.
             seq (copy_bytes ptr new_ptr (min new_size old_cap)) (seg_dealloc_aligned ptr))
           else ret ())
      (ret new_ptr)))"

end
