(* ===== verification/Large_Blocks.thy ===== *)
theory Large_Blocks
  imports Allocator
begin

section \<open>The list of large blocks\<close>

text \<open>
  The boundary-tag list as a list of triples (address, size, free).  \<open>dll\<close> says that memory
  holds such a doubly linked list, \<open>contig\<close> that the blocks tile a region.  Allocation and
  release refine the functions \<open>fit\<close> and \<open>release\<close> on that list.
\<close>

subsection \<open>Definitions\<close>

type_synonym block = "nat \<times> nat \<times> bool"

primrec dll :: "pmem \<Rightarrow> nat \<Rightarrow> nat \<Rightarrow> block list \<Rightarrow> nat \<Rightarrow> nat \<Rightarrow> bool" where
  "dll m p a [] q e \<longleftrightarrow> a = e \<and> p = q"
| "dll m p a (x # xs) q e \<longleftrightarrow> a = fst x \<and> a \<noteq> 0 \<and> lb_size m a = fst (snd x) \<and> lb_free m a = snd (snd x) \<and>
     lb_prev m a = p \<and> dll m a (lb_next m a) xs q e"

primrec contig :: "nat \<Rightarrow> block list \<Rightarrow> nat \<Rightarrow> bool" where
  "contig lo [] hi \<longleftrightarrow> lo = hi"
| "contig lo (x # xs) hi \<longleftrightarrow> fst x = lo \<and> contig (lo + 32 + fst (snd x)) xs hi"

definition large_ok :: "heap \<Rightarrow> nat \<Rightarrow> nat \<Rightarrow> block list \<Rightarrow> bool" where
  "large_ok h lo hi bs \<longleftrightarrow> (\<exists>q. dll (hmem h) 0 (large_head (seg h)) bs q 0) \<and> contig lo bs hi \<and>
     0 < lo \<and> hi + 16 < 2 ^ 64"

text \<open>First fit: the address of the block found and the list after taking it.\<close>

fun fit :: "nat \<Rightarrow> block list \<Rightarrow> (nat \<times> block list) option" where
  "fit n [] = None"
| "fit n ((b, k, f) # bs) =
     (if f \<and> n \<le> k then
        Some (b, if n + 48 \<le> k then (b, n, False) # (b + 32 + n, k - n - 32, True) # bs else (b, k, False) # bs)
      else map_option (map_prod id ((#) (b, k, f))) (fit n bs))"

definition headers :: "block list \<Rightarrow> nat set" where
  "headers bs = (\<Union>b \<in> fst ` set bs. {b ..< b + 32})"

definition round8 :: "nat \<Rightarrow> nat" where
  "round8 n = (n + 7) div 8 * 8"

text \<open>Two headers are the same one or do not overlap.\<close>

definition apart :: "nat \<Rightarrow> nat \<Rightarrow> bool" where
  "apart b c \<longleftrightarrow> b = c \<or> b + 32 \<le> c \<or> c + 32 \<le> b"

definition set_size :: "nat \<Rightarrow> nat \<Rightarrow> pmem \<Rightarrow> pmem" where "set_size b v = store64 b (word_of_nat v)"
definition set_next :: "nat \<Rightarrow> nat \<Rightarrow> pmem \<Rightarrow> pmem" where "set_next b v = store64 (b + 8) (word_of_nat v)"
definition set_prev :: "nat \<Rightarrow> nat \<Rightarrow> pmem \<Rightarrow> pmem" where "set_prev b v = store64 (b + 16) (word_of_nat v)"
definition set_free :: "nat \<Rightarrow> bool \<Rightarrow> pmem \<Rightarrow> pmem" where "set_free b f = store_bytes (b + 24) [if f then 1 else 0]"

lemmas lb_defs = lb_size_def lb_next_def lb_prev_def lb_free_def
lemmas set_defs = set_size_def set_next_def set_prev_def set_free_def

subsection \<open>Fields after a store\<close>

lemma unat_word64: "v < 2 ^ 64 \<Longrightarrow> unat (word_of_nat v :: u64) = v"
  by (simp add: unat_of_nat)

lemma store64_other: "x < a \<or> a + 8 \<le> x \<Longrightarrow> store64 a v m x = m x"
  by (auto simp: store64_def store_bytes_def)

lemma fields_set_size [simp]:
  "apart b c \<Longrightarrow> v < 2 ^ 64 \<Longrightarrow> lb_size (set_size b v m) c = (if c = b then v else lb_size m c)"
  "apart b c \<Longrightarrow> lb_next (set_size b v m) c = lb_next m c"
  "apart b c \<Longrightarrow> lb_prev (set_size b v m) c = lb_prev m c"
  "apart b c \<Longrightarrow> lb_free (set_size b v m) c = lb_free m c"
  by (auto simp: lb_defs set_defs apart_def load64_store64_other unat_word64 store64_other)

lemma fields_set_next [simp]:
  "apart b c \<Longrightarrow> lb_size (set_next b v m) c = lb_size m c"
  "apart b c \<Longrightarrow> v < 2 ^ 64 \<Longrightarrow> lb_next (set_next b v m) c = (if c = b then v else lb_next m c)"
  "apart b c \<Longrightarrow> lb_prev (set_next b v m) c = lb_prev m c"
  "apart b c \<Longrightarrow> lb_free (set_next b v m) c = lb_free m c"
  by (auto simp: lb_defs set_defs apart_def load64_store64_other unat_word64 store64_other)

lemma fields_set_prev [simp]:
  "apart b c \<Longrightarrow> lb_size (set_prev b v m) c = lb_size m c"
  "apart b c \<Longrightarrow> lb_next (set_prev b v m) c = lb_next m c"
  "apart b c \<Longrightarrow> v < 2 ^ 64 \<Longrightarrow> lb_prev (set_prev b v m) c = (if c = b then v else lb_prev m c)"
  "apart b c \<Longrightarrow> lb_free (set_prev b v m) c = lb_free m c"
  by (auto simp: lb_defs set_defs apart_def load64_store64_other unat_word64 store64_other)

lemma fields_set_free [simp]:
  "apart b c \<Longrightarrow> lb_size (set_free b f m) c = lb_size m c"
  "apart b c \<Longrightarrow> lb_next (set_free b f m) c = lb_next m c"
  "apart b c \<Longrightarrow> lb_prev (set_free b f m) c = lb_prev m c"
  "apart b c \<Longrightarrow> lb_free (set_free b f m) c = (if c = b then f else lb_free m c)"
proof -
  have "a + 8 \<le> b + 24 \<or> b + 25 \<le> a \<Longrightarrow> load64 (set_free b f m) a = load64 m a" for a
    unfolding set_free_def by (rule load64_store_bytes_other) auto
  then show "apart b c \<Longrightarrow> lb_size (set_free b f m) c = lb_size m c"
    "apart b c \<Longrightarrow> lb_next (set_free b f m) c = lb_next m c"
    "apart b c \<Longrightarrow> lb_prev (set_free b f m) c = lb_prev m c"
    by (auto simp: lb_defs apart_def)
  show "apart b c \<Longrightarrow> lb_free (set_free b f m) c = (if c = b then f else lb_free m c)"
    by (auto simp: lb_defs set_defs apart_def store_bytes_def)
qed

lemma outside_set:
  "x \<notin> {b ..< b + 32} \<Longrightarrow> set_size b v m x = m x"
  "x \<notin> {b ..< b + 32} \<Longrightarrow> set_next b v m x = m x"
  "x \<notin> {b ..< b + 32} \<Longrightarrow> set_prev b v m x = m x"
  "x \<notin> {b ..< b + 32} \<Longrightarrow> set_free b f m x = m x"
  by (auto simp: set_defs store64_def store_bytes_def)

subsection \<open>Lists and regions\<close>

lemma dll_append:
  "dll m p a (xs @ ys) q e \<longleftrightarrow> (\<exists>r c. dll m p a xs r c \<and> dll m r c ys q e)"
  by (induction xs arbitrary: p a) auto

lemma contig_append: "contig lo (xs @ ys) hi \<longleftrightarrow> (\<exists>mid. contig lo xs mid \<and> contig mid ys hi)"
  by (induction xs arbitrary: lo) auto

lemma contig_le: "contig lo bs hi \<Longrightarrow> lo \<le> hi"
  by (induction bs arbitrary: lo) force+

lemma contig_bounds: "contig lo bs hi \<Longrightarrow> x \<in> set bs \<Longrightarrow> lo \<le> fst x \<and> fst x + 32 + fst (snd x) \<le> hi"
proof (induction bs arbitrary: lo)
  case (Cons y ys)
  then show ?case using contig_le [of "lo + 32 + fst (snd y)" ys hi] by fastforce
qed simp

lemma dll_cong:
  assumes "\<forall>x \<in> set xs. lb_size m' (fst x) = lb_size m (fst x) \<and> lb_next m' (fst x) = lb_next m (fst x) \<and>
    lb_prev m' (fst x) = lb_prev m (fst x) \<and> lb_free m' (fst x) = lb_free m (fst x)"
  shows "dll m' p a xs q e = dll m p a xs q e"
  using assms by (induction xs arbitrary: p a) auto

lemma dll_nonzero: "dll m p a xs q e \<Longrightarrow> x \<in> set xs \<Longrightarrow> fst x \<noteq> 0"
  by (induction xs arbitrary: p a) auto

text \<open>The last block of a list is the one before whatever follows; the first one is where it starts.\<close>

lemma dll_last: "dll m p a (xs @ [x]) q e \<Longrightarrow> q = fst x \<and> lb_next m (fst x) = e"
  by (auto simp: dll_append)

lemma dll_set_next_last:
  assumes "dll m p a (xs @ [x]) q e" and "\<forall>y \<in> set xs. apart (fst x) (fst y) \<and> fst y \<noteq> fst x" and "v < 2 ^ 64"
  shows "dll (set_next (fst x) v m) p a (xs @ [x]) q v"
proof -
  have "dll (set_next (fst x) v m) p a xs r c = dll m p a xs r c" for r c
    using assms(2,3) by (intro dll_cong) auto
  then show ?thesis using assms(1,3) by (auto simp: dll_append apart_def)
qed

lemma dll_set_prev_first:
  assumes "dll m p a (x # xs) q e" and "\<forall>y \<in> set xs. apart (fst x) (fst y) \<and> fst y \<noteq> fst x" and "v < 2 ^ 64"
  shows "dll (set_prev a v m) v a (x # xs) q e"
proof -
  have a: "a = fst x" using assms(1) by simp
  have "dll (set_prev a v m) a c xs q e = dll m a c xs q e" for c
    using assms(2,3) a by (intro dll_cong) auto
  then show ?thesis using assms(1,3) a by (simp add: apart_def)
qed

text \<open>Where the blocks around one block lie.\<close>

lemma contig_around:
  assumes "contig lo (pre @ x # suf) hi"
  shows "y \<in> set pre \<Longrightarrow> lo \<le> fst y \<and> fst y + 32 + fst (snd y) \<le> fst x"
    and "y \<in> set suf \<Longrightarrow> fst x + 32 + fst (snd x) \<le> fst y \<and> fst y + 32 + fst (snd y) \<le> hi"
    and "lo \<le> fst x \<and> fst x + 32 + fst (snd x) \<le> hi"
  using assms contig_bounds contig_le by (fastforce simp: contig_append)+

subsection \<open>Taking a block\<close>

definition split_mem :: "nat \<Rightarrow> nat \<Rightarrow> pmem \<Rightarrow> pmem" where
  "split_mem b n m = (let c = b + 32 + n; nn = lb_next m b;
     m1 = set_free c True (set_prev c b (set_next c nn (set_size c (lb_size m b - n - 32) m)));
     m2 = (if nn \<noteq> 0 then set_prev nn c m1 else m1) in
     set_next b c (set_size b n m2))"

definition take_mem :: "nat \<Rightarrow> nat \<Rightarrow> pmem \<Rightarrow> pmem" where
  "take_mem b n m = set_free b False (if n + 48 \<le> lb_size m b then split_mem b n m else m)"

lemma runs_put_word [simp]: "runs_to (put_word a v) h P \<longleftrightarrow> P (Inr ()) (h\<lparr>hmem := store64 a (word_of_nat v) (hmem h)\<rparr>)"
  by (simp add: put_word_def runs_to_def)

lemma runs_put_free [simp]: "runs_to (put_free b f) h P \<longleftrightarrow> P (Inr ()) (h\<lparr>hmem := set_free b f (hmem h)\<rparr>)"
  by (simp add: put_free_def runs_to_def set_free_def)

lemma runs_mem_get [simp]: "runs_to (mem_get f) h P \<longleftrightarrow> P (Inr (f (hmem h))) h"
  by (simp add: mem_get_def runs_to_def)

lemma runs_get_seg [simp]: "runs_to get_seg h P \<longleftrightarrow> P (Inr (seg h)) h"
  by (simp add: get_seg_def runs_to_def)

lemma runs_put_seg [simp]: "runs_to (put_seg f) h P \<longleftrightarrow> P (Inr ()) (h\<lparr>seg := f (seg h)\<rparr>)"
  by (simp add: put_seg_def runs_to_def)

lemma runs_get_word [simp]: "runs_to (get_word a) h P \<longleftrightarrow> P (Inr (unat (load64 (hmem h) a))) h"
  by (simp add: get_word_def runs_to_def)

lemma runs_uadd [simp]: "runs_to (uadd x y) h P \<longleftrightarrow> x + y < 2 ^ 64 \<and> P (Inr (x + y)) h"
  by (simp add: uadd_def)

lemma runs_split_block:
  assumes "P (Inr ()) (h\<lparr>hmem := split_mem b n (hmem h)\<rparr>)" and "apart b (b + 32 + n)"
  shows "runs_to (split_block b n) h P"
proof -
  have "lb_next (store64 (b + 32 + n) w (hmem h)) b = lb_next (hmem h) b" for w
    using assms(2) by (auto simp: lb_next_def apart_def load64_store64_other)
  then show ?thesis
    using assms(1) unfolding split_block_def split_mem_def set_size_def set_next_def set_prev_def
    by (simp add: Let_def split: if_splits)
qed

lemma runs_take_block:
  assumes "P (Inr (b + 32)) (h\<lparr>hmem := take_mem b n (hmem h)\<rparr>)"
    and "n + 48 < 2 ^ 64" and "n + 48 \<le> lb_size (hmem h) b \<Longrightarrow> b + 32 + n < 2 ^ 64"
  shows "runs_to (take_block b n) h P"
  using assms unfolding take_block_def take_mem_def
  by (auto simp: add.assoc intro!: runs_split_block split: if_splits) (auto simp: apart_def)

lemma split_fields:
  assumes "apart b y" and "apart (b + 32 + n) y" and "lb_next m b \<noteq> 0 \<Longrightarrow> apart (lb_next m b) y"
    and "b + 32 + n < 2 ^ 64" and "lb_size m b < 2 ^ 64" and "lb_next m b < 2 ^ 64"
  shows "lb_size (split_mem b n m) y = (if y = b then n else if y = b + 32 + n then lb_size m b - n - 32 else lb_size m y)"
    and "lb_next (split_mem b n m) y = (if y = b then b + 32 + n else if y = b + 32 + n then lb_next m b else lb_next m y)"
    and "lb_prev (split_mem b n m) y = (if lb_next m b \<noteq> 0 \<and> y = lb_next m b then b + 32 + n
      else if y = b + 32 + n then b else lb_prev m y)"
    and "lb_free (split_mem b n m) y = (if y = b + 32 + n then True else lb_free m y)"
  using assms by (auto simp: split_mem_def Let_def)

lemma lb_less [simp]: "lb_size m b < 2 ^ 64" "lb_next m b < 2 ^ 64" "lb_prev m b < 2 ^ 64"
  using unsigned_less [of "load64 m a" for a] by (simp_all add: lb_defs)

lemma dll_split:
  assumes l: "dll m 0 first (pre @ (b, k, f) # suf) q 0" and c: "contig lo (pre @ (b, k, f) # suf) hi"
    and hi: "hi < 2 ^ 64" and n: "n + 32 \<le> k"
  shows "\<exists>q. dll (split_mem b n m) 0 first (pre @ (b, n, f) # (b + 32 + n, k - n - 32, True) # suf) q 0"
proof -
  let ?c = "b + 32 + n" and ?m = "split_mem b n m" and ?nn = "lb_next m b"
  from l obtain r where pre: "dll m 0 first pre r b" and b: "b \<noteq> 0" "lb_size m b = k" "lb_free m b = f" "lb_prev m b = r"
    and suf: "dll m b ?nn suf q 0" by (auto simp: dll_append)
  note around = contig_around [OF c]
  have c64: "?c < 2 ^ 64" using around(3) n hi by simp
  have nn: "?nn = (case suf of [] \<Rightarrow> 0 | x # _ \<Rightarrow> fst x)" using suf by (cases suf) auto
  have apart_nn: "apart ?nn y" if "?nn \<noteq> 0" "apart b y" "y \<le> ?c" for y
  proof -
    have "\<exists>x \<in> set suf. ?nn = fst x" using nn that(1) by (cases suf) auto
    then show ?thesis using around(2) that(2,3) n by (fastforce simp: apart_def)
  qed
  note fields = split_fields [OF _ _ _ c64 lb_less(1,2)]
  have "dll ?m 0 first pre r b"
  proof -
    have "dll ?m 0 first pre r b = dll m 0 first pre r b"
    proof (intro dll_cong ballI, goal_cases)
      case (1 y)
      have y: "fst y + 32 \<le> b" using around(1) [OF 1] by simp
      then have a: "apart b (fst y)" "apart ?c (fst y)" by (auto simp: apart_def)
      moreover have "?nn \<noteq> 0 \<Longrightarrow> apart ?nn (fst y) \<and> ?nn \<noteq> fst y"
        using apart_nn [OF _ a(1)] y nn around(2) by (cases suf) (fastforce simp: apart_def)+
      ultimately show ?case using y fields [of "fst y"] by auto
    qed
    with pre show ?thesis by simp
  qed
  moreover have self: "apart b b" "apart ?c b" "apart b ?c" "apart ?c ?c" by (auto simp: apart_def)
  moreover have "?nn \<noteq> 0 \<Longrightarrow> apart ?nn b \<and> apart ?nn ?c \<and> ?nn \<noteq> b \<and> ?nn \<noteq> ?c"
    using nn around(2) n by (cases suf) (fastforce simp: apart_def)+
  moreover have "\<exists>q. dll ?m ?c ?nn suf q 0"
  proof (cases suf)
    case Nil
    then show ?thesis using nn by simp
  next
    case (Cons x xs)
    have x: "?nn = fst x" "?nn \<noteq> 0" using nn Cons suf by auto
    have after: "apart (fst x) (fst y) \<and> fst y \<noteq> fst x" if "y \<in> set xs" for y
    proof -
      have "contig lo ((pre @ [(b, k, f)]) @ x # xs) hi" using c Cons by simp
      from contig_around(2) [OF this that] show ?thesis by (auto simp: apart_def)
    qed
    have "dll (set_prev ?nn ?c m) ?c ?nn suf q 0"
      unfolding Cons using suf Cons x after c64 by (intro dll_set_prev_first) auto
    moreover have "dll ?m ?c ?nn suf q 0 = dll (set_prev ?nn ?c m) ?c ?nn suf q 0"
    proof (intro dll_cong ballI, goal_cases)
      case (1 y)
      have "apart b (fst y)" "apart ?c (fst y)" "fst y \<noteq> b" "fst y \<noteq> ?c"
        using around(2) [OF 1] n by (auto simp: apart_def)
      moreover have "apart ?nn (fst y)"
      proof (cases "y = x")
        case True
        then show ?thesis using x by (simp add: apart_def)
      qed (use after [of y] 1 x Cons in auto)
      ultimately show ?case using fields [of "fst y"] x c64 by auto
    qed
    ultimately show ?thesis by auto
  qed
  ultimately show ?thesis
    using b fields [of b] fields [of ?c] by (auto simp: dll_append)
qed

lemma dll_set_free:
  assumes l: "dll m 0 first (pre @ (b, k, f) # suf) q 0" and c: "contig lo (pre @ (b, k, f) # suf) hi"
  shows "dll (set_free b g m) 0 first (pre @ (b, k, g) # suf) q 0"
proof -
  note around = contig_around [OF c]
  have "dll (set_free b g m) p a pre r e = dll m p a pre r e" for p a r e
    using around(1) by (intro dll_cong) (fastforce simp: apart_def)
  moreover have "dll (set_free b g m) p a suf r e = dll m p a suf r e" for p a r e
    using around(2) by (intro dll_cong) (fastforce simp: apart_def)
  ultimately show ?thesis using l by (auto simp: dll_append apart_def)
qed

text \<open>The block after taking \<open>n\<close> bytes of a free block of \<open>k\<close>, and the rest of it.\<close>

definition taken :: "nat \<Rightarrow> nat \<Rightarrow> nat \<Rightarrow> block list" where
  "taken b k n = (if n + 48 \<le> k then [(b, n, False), (b + 32 + n, k - n - 32, True)] else [(b, k, False)])"

lemma dll_take:
  assumes l: "dll m 0 first (pre @ (b, k, True) # suf) q 0" and c: "contig lo (pre @ (b, k, True) # suf) hi"
    and hi: "hi < 2 ^ 64" and n: "n \<le> k"
  shows "\<exists>q. dll (take_mem b n m) 0 first (pre @ taken b k n @ suf) q 0"
proof -
  have k: "lb_size m b = k" using l by (auto simp: dll_append)
  show ?thesis
  proof (cases "n + 48 \<le> k")
    case True
    then obtain q' where l': "dll (split_mem b n m) 0 first (pre @ (b, n, True) # (b + 32 + n, k - n - 32, True) # suf) q' 0"
      using dll_split [OF l c hi, of n] by auto
    have "contig lo (pre @ (b, n, True) # (b + 32 + n, k - n - 32, True) # suf) hi"
      using c True by (auto simp: contig_append algebra_simps)
    from dll_set_free [OF l' this, of False] show ?thesis using True k by (auto simp: take_mem_def taken_def)
  next
    case False
    with dll_set_free [OF l c, of False] k show ?thesis by (auto simp: take_mem_def taken_def)
  qed
qed

lemma contig_take:
  "contig lo (pre @ (b, k, f) # suf) hi \<Longrightarrow> n \<le> k \<Longrightarrow> contig lo (pre @ taken b k n @ suf) hi"
  by (auto simp: contig_append taken_def algebra_simps)

lemma take_outside:
  assumes l: "dll m 0 first (pre @ (b, k, True) # suf) q 0" and x: "x \<notin> headers (pre @ taken b k n @ suf)"
  shows "take_mem b n m x = m x"
proof -
  have k: "lb_size m b = k" and suf: "dll m b (lb_next m b) suf q 0" using l by (auto simp: dll_append)
  have b: "x \<notin> {b ..< b + 32}" using x by (auto simp: headers_def taken_def split: if_splits)
  have c: "x \<notin> {b + 32 + n ..< b + 32 + n + 32}" if "n + 48 \<le> k" using x that by (auto simp: headers_def taken_def)
  have "x \<notin> {lb_next m b ..< lb_next m b + 32}" if "lb_next m b \<noteq> 0"
    using x suf that by (cases suf) (auto simp: headers_def)
  then show ?thesis using b c k by (auto simp: take_mem_def split_mem_def Let_def outside_set)
qed

lemma fit_taken: "fit n ((b, k, f) # bs) = (if f \<and> n \<le> k then Some (b, taken b k n @ bs)
    else map_option (map_prod id ((#) (b, k, f))) (fit n bs))"
  by (simp add: taken_def)

definition large_change :: "nat \<Rightarrow> nat \<Rightarrow> heap \<Rightarrow> block list \<Rightarrow> heap \<Rightarrow> bool" where
  "large_change lo hi h bs h' \<longleftrightarrow> seg h' = seg h \<and> large_ok h' lo hi bs \<and>
     (\<forall>x. x \<notin> headers bs \<longrightarrow> hmem h' x = hmem h x)"

lemma runs_large_loop:
  assumes "large_ok h lo hi (pre @ suf)" and "dll (hmem h) 0 (large_head (seg h)) pre r cur"
    and "dll (hmem h) r cur suf q 0"
  shows "runs_to (prog_loop (large_scan n) cur) h (\<lambda>res h'. case fit n suf of
      None \<Rightarrow> res = Inr 0 \<and> h' = h
    | Some (b, suf') \<Rightarrow> res = Inr (b + 32) \<and> large_change lo hi h (pre @ suf') h')"
  using assms
proof (induction suf arbitrary: pre r cur)
  case Nil
  then show ?case by (subst runs_to_prog_loop) (simp add: large_scan_def)
next
  case (Cons x suf)
  obtain b k f where x: "x = (b, k, f)" by (cases x)
  have cur: "cur = b" "b \<noteq> 0" "lb_size (hmem h) b = k" "lb_free (hmem h) b = f"
    and rest: "dll (hmem h) b (lb_next (hmem h) b) suf q 0" using Cons.prems(3) by (auto simp: x)
  have c: "contig lo (pre @ (b, k, f) # suf) hi" and hi: "0 < lo" "hi + 16 < 2 ^ 64"
    using Cons.prems(1) by (simp_all add: large_ok_def x)
  show ?case
  proof (cases "f \<and> n \<le> k")
    case True
    have l: "dll (hmem h) 0 (large_head (seg h)) (pre @ (b, k, True) # suf) q 0"
      using Cons.prems(2,3) True x by (auto simp: dll_append)
    have c: "contig lo (pre @ (b, k, True) # suf) hi" using c True by simp
    have b: "b + 32 + k \<le> hi" using contig_around(3) [OF c] by simp
    have "large_change lo hi h (pre @ taken b k n @ suf) (h\<lparr>hmem := take_mem b n (hmem h)\<rparr>)"
      using dll_take [OF l c _ conjunct2 [OF True]] contig_take [OF c conjunct2 [OF True]] take_outside [OF l] hi
      by (auto simp: large_change_def large_ok_def)
    then show ?thesis
      using cur True hi b unfolding x fit_taken
      by (subst runs_to_prog_loop) (auto simp: large_scan_def intro!: runs_take_block)
  next
    case False
    have "large_ok h lo hi ((pre @ [x]) @ suf)" using Cons.prems(1) by simp
    moreover have "dll (hmem h) 0 (large_head (seg h)) (pre @ [x]) b (lb_next (hmem h) b)"
      using Cons.prems(2,3) x by (auto simp: dll_append)
    ultimately have "runs_to (prog_loop (large_scan n) (lb_next (hmem h) b)) h (\<lambda>res h'. case fit n suf of
        None \<Rightarrow> res = Inr 0 \<and> h' = h
      | Some (b, suf') \<Rightarrow> res = Inr (b + 32) \<and> large_change lo hi h ((pre @ [x]) @ suf') h')"
      by (rule Cons.IH) (rule rest)
    then show ?thesis
      using cur False unfolding x fit_taken
      by (subst runs_to_prog_loop) (auto simp: large_scan_def elim!: runs_to_mono split: option.splits)
  qed
qed

lemma runs_alloc_large_raw:
  assumes "large_ok h lo hi bs" and "n + 7 < 2 ^ 64"
  shows "runs_to (alloc_large_raw n) h (\<lambda>r h'. case fit (round8 n) bs of
      None \<Rightarrow> r = Inr 0 \<and> h' = h
    | Some (b, bs') \<Rightarrow> r = Inr (b + 32) \<and> large_change lo hi h bs' h')"
proof -
  obtain q where "dll (hmem h) 0 (large_head (seg h)) bs q 0" using assms(1) by (auto simp: large_ok_def)
  with runs_large_loop [of h lo hi "[]" bs 0 "large_head (seg h)" q "round8 n", unfolded append_Nil] assms show ?thesis
    by (simp add: alloc_large_raw_def round8_def)
qed

subsection \<open>Releasing a block\<close>

text \<open>A free block swallows a free block after it.\<close>

fun coalesce :: "block \<Rightarrow> block list \<Rightarrow> block list" where
  "coalesce (b, k, f) ((c, n, g) # bs) = (if f \<and> g then (b, k + (n + 32), True) # bs else (b, k, f) # (c, n, g) # bs)"
| "coalesce x [] = [x]"

fun release :: "nat \<Rightarrow> block list \<Rightarrow> block list" where
  "release b [] = []"
| "release b ((a, k, f) # bs) =
     (if a = b then (if f then (a, k, f) # bs else coalesce (a, k, True) bs)
      else if bs \<noteq> [] \<and> fst (hd bs) = b \<and> \<not> snd (snd (hd bs)) then coalesce (a, k, f) (release b bs)
      else (a, k, f) # release b bs)"

definition absorb_mem :: "nat \<Rightarrow> nat \<Rightarrow> pmem \<Rightarrow> pmem" where
  "absorb_mem b c m = (let m1 = set_next b (lb_next m c) (set_size b (lb_size m b + (lb_size m c + 32)) m) in
     if lb_next m c \<noteq> 0 then set_prev (lb_next m c) b m1 else m1)"

lemma runs_absorb:
  assumes "P (Inr ()) (h\<lparr>hmem := absorb_mem b c (hmem h)\<rparr>)"
    and "lb_size (hmem h) b + (lb_size (hmem h) c + 32) < 2 ^ 64"
  shows "runs_to (absorb b c) h P"
  using assms unfolding absorb_def absorb_mem_def set_size_def set_next_def set_prev_def
  by (simp add: Let_def split: if_splits)

lemma absorb_fields:
  assumes "apart b y" and "lb_next m c \<noteq> 0 \<Longrightarrow> apart (lb_next m c) y" and "b < 2 ^ 64"
    and "lb_size m b + (lb_size m c + 32) < 2 ^ 64"
  shows "lb_size (absorb_mem b c m) y = (if y = b then lb_size m b + (lb_size m c + 32) else lb_size m y)"
    and "lb_next (absorb_mem b c m) y = (if y = b then lb_next m c else lb_next m y)"
    and "lb_prev (absorb_mem b c m) y = (if lb_next m c \<noteq> 0 \<and> y = lb_next m c then b else lb_prev m y)"
    and "lb_free (absorb_mem b c m) y = lb_free m y"
  using assms lb_less(2) [of m c] by (auto simp: absorb_mem_def Let_def)

lemma dll_absorb:
  assumes l: "dll m 0 first (pre @ (b, k, f) # (c, n, g) # suf) q 0"
    and ct: "contig lo (pre @ (b, k, f) # (c, n, g) # suf) hi" and hi: "hi < 2 ^ 64"
  shows "\<exists>q. dll (absorb_mem b c m) 0 first (pre @ (b, k + (n + 32), f) # suf) q 0"
proof -
  let ?m = "absorb_mem b c m" and ?nn = "lb_next m c"
  from l obtain r where pre: "dll m 0 first pre r b" and b: "b \<noteq> 0" "lb_size m b = k" "lb_free m b = f" "lb_prev m b = r"
    and cc: "lb_size m c = n" "lb_next m b = c" and suf: "dll m c ?nn suf q 0" by (auto simp: dll_append)
  note around = contig_around [OF ct]
  have "contig lo ((pre @ [(b, k, f)]) @ (c, n, g) # suf) hi" using ct by simp
  note around_c = contig_around [OF this]
  have c: "c = b + 32 + k" using ct by (auto simp: contig_append)
  have sum: "lb_size m b + (lb_size m c + 32) < 2 ^ 64" "b < 2 ^ 64" using around_c(3) b(2) cc hi c by auto
  have nn: "?nn = (case suf of [] \<Rightarrow> 0 | x # _ \<Rightarrow> fst x)" using suf by (cases suf) auto
  have nn_far: "b + 32 \<le> ?nn" if "?nn \<noteq> 0" using nn that around_c(2) c by (cases suf) fastforce+
  note fields = absorb_fields [OF _ _ sum(2,1)]
  have "dll ?m 0 first pre r b = dll m 0 first pre r b"
  proof (intro dll_cong ballI, goal_cases)
    case (1 y)
    have y: "fst y + 32 \<le> b" using around(1) [OF 1] by simp
    then have a: "apart b (fst y)" "fst y \<noteq> b" by (auto simp: apart_def)
    have nn: "?nn \<noteq> 0 \<Longrightarrow> apart ?nn (fst y) \<and> fst y \<noteq> ?nn" using y nn_far by (auto simp: apart_def)
    show ?case using fields [OF a(1)] nn a(2) by auto
  qed
  moreover have "\<exists>q. dll ?m b ?nn suf q 0"
  proof (cases suf)
    case Nil
    then show ?thesis using nn by simp
  next
    case (Cons x xs)
    have x: "?nn = fst x" "?nn \<noteq> 0" using nn Cons suf by auto
    have "contig lo ((pre @ [(b, k, f), (c, n, g)]) @ x # xs) hi" using ct Cons by simp
    note around_x = contig_around [OF this]
    have after: "apart (fst x) (fst y) \<and> fst y \<noteq> fst x" if "y \<in> set xs" for y
      using around_x(2) [OF that] by (auto simp: apart_def)
    have "dll (set_prev ?nn b m) b ?nn suf q 0"
      unfolding Cons using suf Cons x after sum by (intro dll_set_prev_first) auto
    moreover have "dll ?m b ?nn suf q 0 = dll (set_prev ?nn b m) b ?nn suf q 0"
    proof (intro dll_cong ballI, goal_cases)
      case (1 y)
      have "apart b (fst y)" "fst y \<noteq> b" using around(2) [of y] 1 by (auto simp: apart_def)
      moreover have "apart ?nn (fst y)"
        using after [of y] 1 x Cons by (cases "y = x") (auto simp: apart_def)
      ultimately show ?case using fields [of "fst y"] x sum by simp
    qed
    ultimately show ?thesis by auto
  qed
  moreover have "apart b b" "?nn \<noteq> 0 \<Longrightarrow> apart ?nn b \<and> ?nn \<noteq> b" using nn_far by (auto simp: apart_def)
  ultimately show ?thesis
    using pre b cc fields [of b] by (auto simp: dll_append)
qed

lemma absorb_outside:
  assumes "dll m 0 first (pre @ (b, k, f) # (c, n, g) # suf) q 0" and "x \<notin> headers (pre @ (b, k', f') # suf)"
  shows "absorb_mem b c m x = m x"
proof -
  have suf: "dll m c (lb_next m c) suf q 0" using assms(1) by (auto simp: dll_append)
  have "x \<notin> {b ..< b + 32}" using assms(2) by (auto simp: headers_def)
  moreover have "x \<notin> {lb_next m c ..< lb_next m c + 32}" if "lb_next m c \<noteq> 0"
    using assms(2) suf that by (cases suf) (auto simp: headers_def)
  ultimately show ?thesis by (auto simp: absorb_mem_def Let_def outside_set)
qed

lemma contig_absorb:
  "contig lo (pre @ (b, k, f) # (c, n, g) # suf) hi \<Longrightarrow> contig lo (pre @ (b, k + (n + 32), h) # suf) hi"
  by (auto simp: contig_append algebra_simps)

lemma headers_absorb: "headers (pre @ (b, k', f') # suf) \<subseteq> headers (pre @ (b, k, f) # (c, n, g) # suf)"
  by (auto simp: headers_def)

text \<open>Absorbing the next block, as a step on the heap.\<close>

lemma large_absorb:
  assumes "large_ok h lo hi (pre @ (b, k, f) # (c, n, g) # suf)"
    and "\<And>h'. seg h' = seg h \<Longrightarrow> large_ok h' lo hi (pre @ (b, k + (n + 32), f) # suf) \<Longrightarrow>
      (\<forall>x. x \<notin> headers (pre @ (b, k + (n + 32), f) # suf) \<longrightarrow> hmem h' x = hmem h x) \<Longrightarrow> P (Inr ()) h'"
  shows "runs_to (absorb b c) h P"
proof -
  obtain q where l: "dll (hmem h) 0 (large_head (seg h)) (pre @ (b, k, f) # (c, n, g) # suf) q 0"
    and ct: "contig lo (pre @ (b, k, f) # (c, n, g) # suf) hi" and hi: "0 < lo" "hi + 16 < 2 ^ 64"
    using assms(1) by (auto simp: large_ok_def)
  have size: "lb_size (hmem h) b = k" "lb_size (hmem h) c = n" using l by (auto simp: dll_append)
  have "contig lo ((pre @ [(b, k, f)]) @ (c, n, g) # suf) hi" using ct by simp
  from contig_around(3) [OF this] have "k + (n + 32) < 2 ^ 64" using ct hi by (auto simp: contig_append)
  moreover have "P (Inr ()) (h\<lparr>hmem := absorb_mem b c (hmem h)\<rparr>)"
    using dll_absorb [OF l ct] absorb_outside [OF l] contig_absorb [OF ct] hi
    by (intro assms(2)) (auto simp: large_ok_def)
  ultimately show ?thesis by (intro runs_absorb) (simp_all add: size)
qed

text \<open>The two merges of \<open>free_large_raw\<close> on the list around the block.\<close>

definition merge_next :: "block \<Rightarrow> block list \<Rightarrow> block \<times> block list" where
  "merge_next x suf = (case suf of (c, n, True) # suf' \<Rightarrow> ((fst x, fst (snd x) + (n + 32), snd (snd x)), suf')
     | _ \<Rightarrow> (x, suf))"

lemma runs_merge_next:
  assumes ok: "large_ok h lo hi (pre @ (b, k, f) # suf)"
    and post: "\<And>h'. seg h' = seg h \<Longrightarrow>
      large_ok h' lo hi (pre @ fst (merge_next (b, k, f) suf) # snd (merge_next (b, k, f) suf)) \<Longrightarrow>
      (\<forall>x. x \<notin> headers (pre @ (b, k, f) # suf) \<longrightarrow> hmem h' x = hmem h x) \<Longrightarrow> P (Inr ()) h'"
  shows "runs_to (join_next b) h P"
proof -
  obtain q where suf: "dll (hmem h) b (lb_next (hmem h) b) suf q 0" using ok by (auto simp: large_ok_def dll_append)
  show ?thesis
  proof (cases "\<exists>c n suf'. suf = (c, n, True) # suf'")
    case True
    then obtain c n suf' where s: "suf = (c, n, True) # suf'" by blast
    have "runs_to (absorb b c) h P"
    proof (rule large_absorb [OF ok [unfolded s]], goal_cases)
      case (1 h')
      show ?case
        by (rule post)
          (use 1 headers_absorb [of pre b "k + (n + 32)" f suf' k f c n True] in \<open>auto simp: s merge_next_def\<close>)
    qed
    then show ?thesis using suf s by (auto simp: join_next_def)
  next
    case False
    then have "merge_next (b, k, f) suf = ((b, k, f), suf)"
      by (auto simp: merge_next_def split: list.splits prod.splits bool.splits)
    moreover have "\<not> (lb_next (hmem h) b \<noteq> 0 \<and> lb_free (hmem h) (lb_next (hmem h) b))"
      using False suf by (cases suf) auto
    ultimately show ?thesis using post [of h] ok by (auto simp: join_next_def)
  qed
qed

definition merge_prev :: "block list \<Rightarrow> block \<Rightarrow> block list \<Rightarrow> block list" where
  "merge_prev pre x suf = (if pre \<noteq> [] \<and> snd (snd (last pre))
     then butlast pre @ (fst (last pre), fst (snd (last pre)) + (fst (snd x) + 32), True) # suf
     else pre @ x # suf)"

lemma runs_merge_prev:
  assumes ok: "large_ok h lo hi (pre @ (b, k, f) # suf)"
    and post: "\<And>h'. seg h' = seg h \<Longrightarrow> large_ok h' lo hi (merge_prev pre (b, k, f) suf) \<Longrightarrow>
      (\<forall>x. x \<notin> headers (pre @ (b, k, f) # suf) \<longrightarrow> hmem h' x = hmem h x) \<Longrightarrow> P (Inr ()) h'"
  shows "runs_to (join_prev b) h P"
proof (cases pre rule: rev_cases)
  case Nil
  then have "lb_prev (hmem h) b = 0" using ok by (auto simp: large_ok_def)
  then show ?thesis using post [of h] ok Nil by (simp add: join_prev_def merge_prev_def)
next
  case (snoc pre' y)
  obtain p j g where y: "y = (p, j, g)" by (cases y)
  have prev: "lb_prev (hmem h) b = p" "p \<noteq> 0" "lb_free (hmem h) p = g"
    using ok by (auto simp: large_ok_def snoc y dll_append)
  show ?thesis
  proof (cases g)
    case True
    have "large_ok h lo hi (pre' @ (p, j, True) # (b, k, f) # suf)" using ok by (simp add: snoc y True)
    then have "runs_to (absorb p b) h P"
    proof (rule large_absorb, goal_cases)
      case (1 h')
      show ?case
        by (rule post)
          (use 1 headers_absorb [of pre' p "j + (k + 32)" True suf j True b k f] in \<open>auto simp: snoc y True merge_prev_def\<close>)
    qed
    then show ?thesis using prev True by (simp add: join_prev_def)
  next
    case False
    then show ?thesis using post [of h] ok prev snoc y by (simp add: join_prev_def merge_prev_def)
  qed
qed

lemma release_eq:
  assumes "contig lo (pre @ (b, k, False) # suf) hi"
  shows "release b (pre @ (b, k, False) # suf) =
    merge_prev pre (fst (merge_next (b, k, True) suf)) (snd (merge_next (b, k, True) suf))"
  using assms
proof (induction pre arbitrary: lo)
  case Nil
  show ?case by (auto simp: merge_prev_def merge_next_def split: list.splits)
next
  case (Cons y pre)
  obtain a j f where y: "y = (a, j, f)" by (cases y)
  have "a \<noteq> b" using contig_around(1) [OF Cons.prems, of y] by (auto simp: y)
  have IH: "release b (pre @ (b, k, False) # suf) =
      merge_prev pre (fst (merge_next (b, k, True) suf)) (snd (merge_next (b, k, True) suf))"
    using Cons by auto
  show ?case
  proof (cases pre)
    case Nil
    then show ?thesis
      using \<open>a \<noteq> b\<close> by (auto simp: y merge_prev_def merge_next_def split: list.splits bool.splits)
  next
    case (Cons z zs)
    then have "fst z \<noteq> b" using contig_around(1) [OF Cons.prems, of z] by auto
    then show ?thesis using IH \<open>a \<noteq> b\<close> Cons by (simp add: y merge_prev_def)
  qed
qed

lemma headers_merge_next:
  "headers (pre @ fst (merge_next (b, k, f) suf) # snd (merge_next (b, k, f) suf)) \<subseteq> headers (pre @ (b, k, f) # suf)"
  by (auto simp: merge_next_def headers_def split: list.splits bool.splits)

lemma headers_flag: "headers (pre @ (b, k, f) # suf) = headers (pre @ (b, k, g) # suf)"
  by (auto simp: headers_def)

lemma fst_merge_next: "\<exists>k'. fst (merge_next (b, k, f) suf) = (b, k', f)"
  by (auto simp: merge_next_def split: list.splits bool.splits)

lemma runs_free_large_raw:
  assumes ok: "large_ok h lo hi bs" and live: "(b, k, False) \<in> set bs"
  shows "runs_to (free_large_raw (b + 32)) h (\<lambda>r h'. r = Inr () \<and> seg h' = seg h \<and>
    large_ok h' lo hi (release b bs) \<and> (\<forall>x. x \<notin> headers bs \<longrightarrow> hmem h' x = hmem h x))"
proof -
  obtain pre suf where bs: "bs = pre @ (b, k, False) # suf" using live by (auto simp: in_set_conv_decomp)
  obtain q where l: "dll (hmem h) 0 (large_head (seg h)) (pre @ (b, k, False) # suf) q 0"
    and c: "contig lo (pre @ (b, k, False) # suf) hi" and hi: "0 < lo" "hi + 16 < 2 ^ 64"
    using ok by (auto simp: large_ok_def bs)
  let ?h1 = "h\<lparr>hmem := set_free b True (hmem h)\<rparr>"
  have live: "\<not> lb_free (hmem h) b" using l by (auto simp: dll_append)
  have "contig lo (pre @ (b, k, True) # suf) hi" using c by (simp add: contig_append)
  then have ok1: "large_ok ?h1 lo hi (pre @ (b, k, True) # suf)"
    using dll_set_free [OF l c, of True] hi by (auto simp: large_ok_def)
  have same1: "hmem ?h1 x = hmem h x" if "x \<notin> headers bs" for x
    using that by (auto simp: bs headers_def outside_set)
  obtain k' where x: "fst (merge_next (b, k, True) suf) = (b, k', True)" using fst_merge_next by blast
  note sub = headers_merge_next [of pre b k True suf] and flag = headers_flag [of pre b k False suf True]
  have "runs_to (seq (join_next b) (join_prev b)) ?h1 (\<lambda>r h'. r = Inr () \<and> seg h' = seg h \<and>
      large_ok h' lo hi (release b bs) \<and> (\<forall>x. x \<notin> headers bs \<longrightarrow> hmem h' x = hmem h x))"
    unfolding runs_to_seq
  proof (rule runs_merge_next [OF ok1], goal_cases)
    case (1 h2)
    have ok2: "large_ok h2 lo hi (pre @ (b, k', True) # snd (merge_next (b, k, True) suf))" using 1(2) by (simp add: x)
    show ?case
      unfolding sum.case
      by (rule runs_merge_prev [OF ok2])
        (use 1 sub same1 flag release_eq [OF c] in \<open>auto simp: bs x\<close>)
  qed
  then show ?thesis using live by (simp add: free_large_raw_def)
qed

subsection \<open>The list stays merged\<close>

primrec merged :: "block list \<Rightarrow> bool" where
  "merged [] \<longleftrightarrow> True"
| "merged (x # xs) \<longleftrightarrow> merged xs \<and> \<not> (xs \<noteq> [] \<and> snd (snd x) \<and> snd (snd (hd xs)))"

lemma merged_append:
  "merged (xs @ ys) \<longleftrightarrow> merged xs \<and> merged ys \<and> \<not> (xs \<noteq> [] \<and> ys \<noteq> [] \<and> snd (snd (last xs)) \<and> snd (snd (hd ys)))"
  by (induction xs) auto

lemma fit_decomp:
  "fit n bs = Some (b, bs') \<Longrightarrow> \<exists>pre k suf. bs = pre @ (b, k, True) # suf \<and> n \<le> k \<and> bs' = pre @ taken b k n @ suf"
proof (induction bs arbitrary: bs')
  case (Cons x bs)
  obtain a k f where x: "x = (a, k, f)" by (cases x)
  show ?case
  proof (cases "f \<and> n \<le> k")
    case True
    then show ?thesis using Cons.prems unfolding x fit_taken by (intro exI [of _ "[]"]) auto
  next
    case False
    then obtain bs'' where b: "fit n bs = Some (b, bs'')" and bs': "bs' = (a, k, f) # bs''"
      using Cons.prems unfolding x fit_taken by auto
    from Cons.IH [OF b] obtain pre j suf where
      "bs = pre @ (b, j, True) # suf" "n \<le> j" "bs'' = pre @ taken b j n @ suf" by blast
    then show ?thesis using bs' x by (intro exI [of _ "x # pre"]) auto
  qed
qed simp

lemma fit_merged: "merged bs \<Longrightarrow> fit n bs = Some (b, bs') \<Longrightarrow> merged bs'"
  by (drule fit_decomp) (auto simp: merged_append taken_def)

lemma release_merged:
  assumes m: "merged bs" and c: "contig lo bs hi" and live: "(b, k, False) \<in> set bs"
  shows "merged (release b bs)" and "contig lo (release b bs) hi"
proof -
  obtain pre suf where bs: "bs = pre @ (b, k, False) # suf" using live by (auto simp: in_set_conv_decomp)
  have eq: "release b bs = merge_prev pre (fst (merge_next (b, k, True) suf)) (snd (merge_next (b, k, True) suf))"
    using c unfolding bs by (rule release_eq)
  show "merged (release b bs)"
    unfolding eq using m
    by (cases pre rule: rev_cases)
      (auto simp: bs merge_prev_def merge_next_def merged_append split: list.splits bool.splits)
  show "contig lo (release b bs) hi"
    unfolding eq using c
    by (cases pre rule: rev_cases)
      (auto simp: bs merge_prev_def merge_next_def contig_append algebra_simps split: list.splits bool.splits)
qed

lemma release_fit:
  assumes "merged bs" and "contig lo bs hi" and "fit n bs = Some (b, bs')"
  shows "release b bs' = bs"
proof -
  obtain pre k suf where bs: "bs = pre @ (b, k, True) # suf" "n \<le> k" "bs' = pre @ taken b k n @ suf"
    using fit_decomp [OF assms(3)] by blast
  have c: "contig lo (pre @ taken b k n @ suf) hi" using contig_take assms(2) bs by blast
  show ?thesis
  proof (cases "n + 48 \<le> k")
    case True
    with c have "contig lo (pre @ (b, n, False) # (b + 32 + n, k - n - 32, True) # suf) hi" by (simp add: taken_def)
    from release_eq [OF this] show ?thesis
      using assms(1) True bs by (auto simp: taken_def merge_next_def merge_prev_def merged_append)
  next
    case False
    with c have "contig lo (pre @ (b, k, False) # suf) hi" by (simp add: taken_def)
    from release_eq [OF this] show ?thesis
      using assms(1) False bs
      by (auto simp: taken_def merge_next_def merge_prev_def merged_append split: list.splits bool.splits)
  qed
qed

end
