(* ===== verification/Heap_Spec.thy ===== *)
theory Heap_Spec
  imports Large_Blocks
begin

section \<open>Properties of the heap allocator\<close>

text \<open>
  The large-block list under \<open>alloc_aligned\<close> and \<open>dealloc_aligned\<close>, the free lists of the small
  blocks, and the properties of \<open>src/src/allocator.rs\<close>.
\<close>

subsection \<open>Stores into payloads\<close>

lemma load64_cong: "(\<And>x. a \<le> x \<Longrightarrow> x < a + 8 \<Longrightarrow> m' x = m x) \<Longrightarrow> load64 m' a = load64 m a"
  unfolding load64_def load_bytes_def by (auto intro!: arg_cong [where f = from_le])

lemma dll_same_headers:
  assumes "\<And>x. x \<in> headers bs \<Longrightarrow> m' x = m x"
  shows "dll m' p a bs q e = dll m p a bs q e"
proof (intro dll_cong ballI)
  fix x assume "x \<in> set bs"
  then have "m' y = m y" if "fst x \<le> y" "y < fst x + 32" for y using assms that by (force simp: headers_def)
  then show "lb_size m' (fst x) = lb_size m (fst x) \<and> lb_next m' (fst x) = lb_next m (fst x) \<and>
      lb_prev m' (fst x) = lb_prev m (fst x) \<and> lb_free m' (fst x) = lb_free m (fst x)"
    by (auto simp: lb_defs intro!: arg_cong [where f = unat] load64_cong)
qed

lemma large_ok_cong:
  assumes "large_ok h lo hi bs" and "seg h' = seg h" and "\<And>x. x \<in> headers bs \<Longrightarrow> hmem h' x = hmem h x"
  shows "large_ok h' lo hi bs"
  using assms dll_same_headers [of bs "hmem h'" "hmem h"] by (simp add: large_ok_def)

text \<open>Headers and payloads do not meet.\<close>

lemma payload_not_header:
  assumes "contig lo bs hi" and "(b, k, f) \<in> set bs" and "b + 32 \<le> x" and "x < b + 32 + k"
  shows "x \<notin> headers bs"
proof -
  obtain pre suf where bs: "bs = pre @ (b, k, f) # suf" using assms(2) by (auto simp: in_set_conv_decomp)
  have "\<not> (fst y \<le> x \<and> x < fst y + 32)" if "y \<in> set bs" for y
    using that contig_around(1,2) [OF assms(1) [unfolded bs], of y] assms(3,4) by (auto simp: bs)
  then show ?thesis by (auto simp: headers_def)
qed

text \<open>The payloads of two blocks do not meet.\<close>

lemma payloads_apart:
  assumes "contig lo bs hi" and "(b, k, f) \<in> set bs" and "(c, n, g) \<in> set bs" and "b \<noteq> c"
  shows "b + 32 + k \<le> c \<or> c + 32 + n \<le> b"
proof -
  obtain pre suf where bs: "bs = pre @ (b, k, f) # suf" using assms(2) by (auto simp: in_set_conv_decomp)
  show ?thesis using assms(3,4) contig_around(1,2) [OF assms(1) [unfolded bs], of "(c, n, g)"] by (auto simp: bs)
qed

lemma fit_block:
  assumes "fit n bs = Some (b, bs')"
  shows "\<exists>k. n \<le> k \<and> (b, k, False) \<in> set bs'"
  using fit_decomp [OF assms] by (force simp: taken_def)

lemma fit_keeps:
  assumes "fit n bs = Some (b, bs')" and "(c, k, False) \<in> set bs"
  shows "(c, k, False) \<in> set bs'"
  using fit_decomp [OF assms(1)] assms(2) by (auto simp: taken_def)

lemma contig_fit: "contig lo bs hi \<Longrightarrow> fit n bs = Some (b, bs') \<Longrightarrow> contig lo bs' hi"
  using fit_decomp contig_take by blast

subsection \<open>Aligned large allocations\<close>

definition align_pad :: "nat \<Rightarrow> nat \<Rightarrow> nat" where
  "align_pad c align = c + (if c mod align = 0 then 0 else align - c mod align)"

lemma align_pad:
  assumes "0 < align"
  shows "align_pad c align mod align = 0" and "c \<le> align_pad c align" and "align_pad c align < c + align"
proof -
  show "align_pad c align mod align = 0"
  proof (cases "c mod align = 0")
    case False
    have "c + (align - c mod align) = (c div align + 1) * align"
      using mod_less_divisor [OF assms, of c] div_mult_mod_eq [of c align]
      by (simp only: add_mult_distrib mult_1)
    then show ?thesis using False by (simp add: align_pad_def)
  qed (simp add: align_pad_def)
qed (use assms in \<open>auto simp: align_pad_def\<close>)

text \<open>The two words in front of a large payload.\<close>

definition tagged :: "pmem \<Rightarrow> nat \<Rightarrow> nat \<Rightarrow> bool" where
  "tagged m addr b \<longleftrightarrow> load64 m (addr - 16) = LARGE_BLOCK_SENTINEL \<and> unat (load64 m (addr - 8)) = b"

text \<open>What a large allocation of \<open>sz\<close> bytes at \<open>addr\<close> in the block \<open>b\<close> leaves behind.\<close>

definition large_alloc :: "nat \<Rightarrow> nat \<Rightarrow> heap \<Rightarrow> block list \<Rightarrow> nat \<Rightarrow> nat \<Rightarrow> nat \<Rightarrow> nat \<Rightarrow> heap \<Rightarrow> bool" where
  "large_alloc lo hi h bs sz align b addr h' \<longleftrightarrow> seg h' = seg h \<and> large_ok h' lo hi bs \<and>
     (\<exists>k. (b, k, False) \<in> set bs \<and> b + 48 \<le> addr \<and> addr + sz \<le> b + 32 + k) \<and> addr mod align = 0 \<and>
     tagged (hmem h') addr b \<and> (\<forall>x. x \<notin> headers bs \<and> \<not> (b + 32 \<le> x \<and> x < addr) \<longrightarrow> hmem h' x = hmem h x)"

lemma round8_ge: "n \<le> round8 n"
  unfolding round8_def by presburger

lemma sentinel_nat: "unat LARGE_BLOCK_SENTINEL < 2 ^ 64"
  using unsigned_less [of LARGE_BLOCK_SENTINEL] by simp

lemma runs_alloc_large_aligned:
  assumes ok: "large_ok h lo hi bs" and align: "0 < align" and fits: "sz + align + 23 < 2 ^ 64"
  shows "runs_to (alloc_large_aligned sz align) h (\<lambda>r h'. case fit (round8 (sz + align + 16)) bs of
      None \<Rightarrow> r = Inr 0 \<and> h' = h
    | Some (b, bs') \<Rightarrow> large_alloc lo hi h bs' sz align b (align_pad (b + 48) align) h' \<and> r = Inr (align_pad (b + 48) align))"
proof -
  let ?n = "sz + (align + 16)"
  have run: "runs_to (alloc_large_raw ?n) h (\<lambda>r h'. case fit (round8 ?n) bs of
      None \<Rightarrow> r = Inr 0 \<and> h' = h | Some (b, bs') \<Rightarrow> r = Inr (b + 32) \<and> large_change lo hi h bs' h')"
    using fits by (intro runs_alloc_large_raw [OF ok]) simp
  have step: "large_alloc lo hi h bs' sz align b (align_pad (b + 48) align)
        (h'\<lparr>hmem := store64 (align_pad (b + 48) align - 8) (word_of_nat b)
          (store64 (align_pad (b + 48) align - 16) LARGE_BLOCK_SENTINEL (hmem h'))\<rparr>) \<and> align_pad (b + 48) align < 2 ^ 64"
    if f: "fit (round8 ?n) bs = Some (b, bs')" and ch: "large_change lo hi h bs' h'" for b bs' h'
  proof -
    let ?a = "align_pad (b + 48) align"
    let ?m = "store64 (?a - 8) (word_of_nat b) (store64 (?a - 16) LARGE_BLOCK_SENTINEL (hmem h'))"
    obtain k where k: "round8 ?n \<le> k" "(b, k, False) \<in> set bs'" using fit_block [OF f] by blast
    have large: "large_ok h' lo hi bs'" "seg h' = seg h" using ch by (auto simp: large_change_def)
    have c: "contig lo bs' hi" "hi + 16 < 2 ^ 64" using large by (auto simp: large_ok_def)
    have top: "b + 32 + k \<le> hi" using contig_bounds [OF c(1) k(2)] by simp
    have a: "?a mod align = 0" "b + 48 \<le> ?a" "?a < b + 48 + align" using align_pad [OF align] by auto
    have inside: "?a + sz \<le> b + 32 + k" using a(3) k(1) round8_ge [of ?n] by linarith
    have m: "?m x = hmem h' x" if "\<not> (b + 32 \<le> x \<and> x < ?a)" for x
    proof -
      have "x < ?a - 8 \<or> ?a - 8 + 8 \<le> x" "x < ?a - 16 \<or> ?a - 16 + 8 \<le> x" using that a(2) by linarith+
      then show ?thesis by (simp add: store64_other)
    qed
    have "large_ok (h'\<lparr>hmem := ?m\<rparr>) lo hi bs'"
    proof (rule large_ok_cong [OF large(1)])
      fix x assume x: "x \<in> headers bs'"
      have "\<not> (b + 32 \<le> x \<and> x < ?a)" using payload_not_header [OF c(1) k(2), of x] x inside by auto
      then show "hmem (h'\<lparr>hmem := ?m\<rparr>) x = hmem h' x" by (simp add: m)
    qed simp
    moreover have "tagged ?m ?a b"
      using top c(2) a(2) by (auto simp: tagged_def load64_store64_other unat_word64)
    moreover have "?m x = hmem h x" if "x \<notin> headers bs'" "\<not> (b + 32 \<le> x \<and> x < ?a)" for x
      using m that ch by (auto simp: large_change_def)
    ultimately have "large_alloc lo hi h bs' sz align b ?a (h'\<lparr>hmem := ?m\<rparr>)"
      using large(2) k(2) a inside by (auto simp: large_alloc_def)
    moreover have "?a < 2 ^ 64" using inside top c(2) by linarith
    ultimately show ?thesis by blast
  qed
  have n: "sz + align + 16 = ?n" by simp
  have "runs_to (bind (alloc_large_raw ?n) (\<lambda>raw. if raw = 0 then ret 0 else if align = 0 then stop else
      let block_addr = raw - LARGE_BLOCK_SIZE; candidate = raw + 16; remainder = candidate mod align;
          padding = (if remainder = 0 then 0 else align - remainder) in
      bind (uadd candidate padding) (\<lambda>aligned_addr.
      seq (put_word (aligned_addr - 16) (unat LARGE_BLOCK_SENTINEL))
      (seq (put_word (aligned_addr - 8) block_addr) (ret aligned_addr))))) h (\<lambda>r h'. case fit (round8 ?n) bs of
      None \<Rightarrow> r = Inr 0 \<and> h' = h
    | Some (b, bs') \<Rightarrow> large_alloc lo hi h bs' sz align b (align_pad (b + 48) align) h' \<and> r = Inr (align_pad (b + 48) align))"
    unfolding runs_to_bind [of "alloc_large_raw ?n"]
  proof (rule runs_to_mono [OF run], goal_cases)
    case (1 r h')
    show ?case
    proof (cases "fit (round8 ?n) bs")
      case None
      then show ?thesis using 1 by simp
    next
      case (Some p)
      obtain b bs' where p: "p = (b, bs')" by (cases p)
      define pad where pad: "pad = (if (b + 48) mod align = 0 then 0 else align - (b + 48) mod align)"
      have sum: "align_pad (b + 48) align = b + 48 + pad" by (simp add: align_pad_def pad)
      have st: "large_alloc lo hi h bs' sz align b (b + 48 + pad) (h'\<lparr>hmem := store64 (b + 48 + pad - 8) (word_of_nat b)
          (store64 (b + 48 + pad - 16) LARGE_BLOCK_SENTINEL (hmem h'))\<rparr>) \<and> b + 48 + pad < 2 ^ 64"
        using step [of b bs' h'] 1 Some by (simp only: p sum option.case prod.case)
      have r: "r = Inr (b + 32)" using 1 Some by (simp add: p)
      have "b + 48 = 48 + b" by simp
      note pad' = pad [unfolded this]
      show ?thesis using st align unfolding Some p r
        by (cases "(48 + b) mod align = 0") (simp_all add: Let_def pad' align_pad_def add.commute [of b 48] del: add_is_0)
    qed
  qed
  then show ?thesis using fits by (simp add: alloc_large_aligned_def n)
qed

text \<open>Whatever the owner stored in its payload, freeing gives the block back to the list.\<close>

lemma runs_dealloc_large:
  assumes al: "large_alloc lo hi h bs sz align b addr h'" and seg': "seg h'' = seg h'"
    and same: "\<forall>x. x \<notin> {addr ..< addr + sz} \<longrightarrow> hmem h'' x = hmem h' x"
  shows "runs_to (seg_dealloc_aligned addr) h'' (\<lambda>r h3. r = Inr () \<and> seg h3 = seg h'' \<and> large_ok h3 lo hi (release b bs) \<and>
    (\<forall>x. x \<notin> headers bs \<longrightarrow> hmem h3 x = hmem h'' x))"
proof -
  obtain k where k: "(b, k, False) \<in> set bs" "b + 48 \<le> addr" "addr + sz \<le> b + 32 + k"
    and ok: "large_ok h' lo hi bs" and tag: "tagged (hmem h') addr b" using al by (auto simp: large_alloc_def)
  have c: "contig lo bs hi" "hi + 16 < 2 ^ 64" using ok by (auto simp: large_ok_def)
  have top: "b + 32 + k \<le> hi" using contig_bounds [OF c(1) k(1)] by simp
  have ok'': "large_ok h'' lo hi bs"
  proof (rule large_ok_cong [OF ok seg'])
    fix x assume "x \<in> headers bs"
    then have "x \<notin> {addr ..< addr + sz}" using payload_not_header [OF c(1) k(1), of x] k(2,3) by auto
    then show "hmem h'' x = hmem h' x" using same by blast
  qed
  have below: "hmem h'' x = hmem h' x" if "x < addr" for x using same that by auto
  have "load64 (hmem h'') (addr - 16) = load64 (hmem h') (addr - 16)"
    "load64 (hmem h'') (addr - 8) = load64 (hmem h') (addr - 8)"
    by (intro load64_cong below; use k(2) in linarith)+
  then have "load64 (hmem h'') (addr - 16) = LARGE_BLOCK_SENTINEL" "unat (load64 (hmem h'') (addr - 8)) = b"
    using tag by (simp_all add: tagged_def)
  then show ?thesis
    using runs_free_large_raw [OF ok'' k(1)] k(2) top c(2) by (simp add: seg_dealloc_aligned_def)
qed

subsection \<open>Initialisation\<close>

lemma runs_seg_init:
  assumes "0 < start" and "start + sz + 16 < 2 ^ 64" and "32 < sz - sz div 4 * 3"
    and post: "\<And>h'. seg h' = (seg h)\<lparr>arena_ptr := start, arena_end := start + sz div 4 * 3, large_head := start + sz div 4 * 3\<rparr> \<Longrightarrow>
      large_ok h' (start + sz div 4 * 3) (start + sz) [(start + sz div 4 * 3, sz - sz div 4 * 3 - 32, True)] \<Longrightarrow>
      \<forall>x. x \<notin> {start + sz div 4 * 3 ..< start + sz div 4 * 3 + 32} \<longrightarrow> hmem h' x = hmem h x \<Longrightarrow> P (Inr ()) h'"
  shows "runs_to (seg_init start sz) h P"
proof -
  let ?lb = "start + sz div 4 * 3" and ?n = "sz - sz div 4 * 3 - 32"
  let ?m = "set_free ?lb True (set_prev ?lb 0 (set_next ?lb 0 (set_size ?lb ?n (hmem h))))"
  let ?g = "(seg h)\<lparr>arena_ptr := start, arena_end := ?lb, large_head := ?lb\<rparr>"
  have lb: "?lb \<le> start + sz" "?n < 2 ^ 64" using assms(2) by auto
  moreover have "apart ?lb ?lb" by (simp add: apart_def)
  ultimately have "large_ok (h\<lparr>hmem := ?m, seg := ?g\<rparr>) ?lb (start + sz) [(?lb, ?n, True)]"
    using assms(1,2,3) by (simp add: large_ok_def)
  moreover have "?m x = hmem h x" if "x \<notin> {?lb ..< ?lb + 32}" for x
    using that by (auto simp: set_free_def set_prev_def set_next_def set_size_def store64_def store_bytes_def)
  ultimately have "P (Inr ()) (h\<lparr>hmem := ?m, seg := ?g\<rparr>)" by (intro post) simp_all
  then show ?thesis
    using assms(1,2,3) lb unfolding seg_init_def set_size_def set_next_def set_prev_def by (simp add: Let_def)
qed

subsection \<open>Small blocks\<close>

lemma bucket_from_Some:
  "bucket_from k cs sz = Some i \<Longrightarrow> k \<le> i \<and> i < k + length cs \<and> sz \<le> cs ! (i - k) \<and> (\<forall>j < i - k. cs ! j < sz)"
proof (induction cs arbitrary: k)
  case (Cons c cs)
  show ?case
  proof (cases "sz \<le> c")
    case False
    then have IH: "Suc k \<le> i" "i < Suc k + length cs" "sz \<le> cs ! (i - Suc k)" "\<forall>j < i - Suc k. cs ! j < sz"
      using Cons.IH [of "Suc k"] Cons.prems by simp_all
    have "(c # cs) ! j < sz" if "j < i - k" for j using that IH False by (cases j) auto
    moreover have "(c # cs) ! (i - k) = cs ! (i - Suc k)" using IH(1) by (cases "i - k") (auto simp: Suc_diff_le diff_Suc)
    ultimately show ?thesis using IH by auto
  qed (use Cons.prems in auto)
qed simp

lemma bucket_for_Some:
  "bucket_for sz = Some i \<Longrightarrow> i < 10 \<and> sz \<le> BUCKET_SIZES ! i \<and> (\<forall>j < i. BUCKET_SIZES ! j < sz)"
  using bucket_from_Some [of 0 BUCKET_SIZES sz i] by (simp add: bucket_for_def BUCKET_SIZES_def)

lemma bucket_for_None: "bucket_for sz = None \<longleftrightarrow> 4096 < sz"
  by (auto simp: bucket_for_def BUCKET_SIZES_def)

text \<open>A free list: each block holds the address of the next one in its first word.\<close>

primrec flist :: "pmem \<Rightarrow> nat \<Rightarrow> nat list \<Rightarrow> bool" where
  "flist m a [] \<longleftrightarrow> a = 0"
| "flist m a (x # xs) \<longleftrightarrow> a = x \<and> x \<noteq> 0 \<and> x < 2 ^ 64 \<and> flist m (unat (load64 m x)) xs"

definition words_apart :: "nat \<Rightarrow> nat \<Rightarrow> bool" where
  "words_apart x y \<longleftrightarrow> x + 8 \<le> y \<or> y + 8 \<le> x"

lemma flist_store:
  assumes "flist m a xs" and "\<forall>y \<in> set xs. words_apart x y"
  shows "flist (store64 x v m) a xs"
  using assms by (induction xs arbitrary: a) (auto simp: words_apart_def load64_store64_other)

text \<open>\<open>small_ok h L\<close>: the ten lists are the lists \<open>L\<close>, and the link words of any two blocks are apart.\<close>

definition spread :: "(nat \<Rightarrow> nat list) \<Rightarrow> bool" where
  "spread L \<longleftrightarrow> (\<forall>i < 10. distinct (L i)) \<and>
     (\<forall>i < 10. \<forall>j < 10. \<forall>x \<in> set (L i). \<forall>y \<in> set (L j). x = y \<and> i = j \<or> words_apart x y)"

definition small_ok :: "heap \<Rightarrow> (nat \<Rightarrow> nat list) \<Rightarrow> bool" where
  "small_ok h L \<longleftrightarrow> length (free_lists (seg h)) = 10 \<and> spread L \<and>
     (\<forall>i < 10. flist (hmem h) (free_lists (seg h) ! i) (L i))"

lemma spread_pop:
  assumes "spread L" and "i < 10" and "L i = x # xs"
  shows "spread (L(i := xs))"
proof -
  have sub: "set ((L(i := xs)) j) \<subseteq> set (L j)" for j using assms(3) by auto
  have "distinct ((L(i := xs)) j)" if "j < 10" for j
    using assms that unfolding spread_def by (metis distinct.simps(2) fun_upd_apply)
  then show ?thesis using assms(1) sub unfolding spread_def by (meson subsetD)
qed

lemma spread_push:
  assumes "spread L" and "i < 10" and "\<And>j y. j < 10 \<Longrightarrow> y \<in> set (L j) \<Longrightarrow> words_apart x y"
  shows "spread (L(i := x # L i))"
proof -
  have "x \<notin> set (L i)" using assms(3) [OF assms(2), of x] by (auto simp: words_apart_def)
  moreover have "words_apart y x" if "j < 10" "y \<in> set (L j)" for j y
    using assms(3) [OF that] by (auto simp: words_apart_def)
  moreover have "(L(i := x # L i)) j = (if j = i then x # L i else L j)" for j by simp
  ultimately show ?thesis using assms unfolding spread_def by (simp del: fun_upd_apply) blast
qed

lemma flist_head: "flist m a xs \<Longrightarrow> a = (case xs of [] \<Rightarrow> 0 | x # _ \<Rightarrow> x)"
  by (cases xs) simp_all

lemma runs_alloc_small_pop:
  assumes ok: "small_ok h L" and i: "i < 10" and L: "L i = x # xs"
  shows "runs_to (alloc_small i) h (\<lambda>r h'. r = Inr (x + 8) \<and> small_ok h' (L(i := xs)) \<and>
    unat (load64 (hmem h') x) = i \<and> arena_ptr (seg h') = arena_ptr (seg h) \<and>
    (\<forall>y. \<not> (x \<le> y \<and> y < x + 8) \<longrightarrow> hmem h' y = hmem h y))"
proof -
  have fl: "length (free_lists (seg h)) = 10" "\<And>j. j < 10 \<Longrightarrow> flist (hmem h) (free_lists (seg h) ! j) (L j)"
    and sp: "spread L" using ok unfolding small_ok_def by auto
  have dist: "distinct (L i)" using sp i by (simp add: spread_def)
  have ap: "x = y \<and> i = j \<or> words_apart x y" if "j < 10" "y \<in> set (L j)" for j y
    using sp i that L unfolding spread_def by (metis list.set_intros(1))
  have head: "free_lists (seg h) ! i = x" "x \<noteq> 0" "flist (hmem h) (unat (load64 (hmem h) x)) xs"
    using fl(2) [OF i] by (auto simp: L)
  let ?m = "store64 x (word_of_nat i) (hmem h)"
  have others: "flist ?m (free_lists (seg h) ! j) (L j)" if "j < 10" "j \<noteq> i" for j
    using fl(2) [OF that(1)] ap [OF that(1)] that(2) by (intro flist_store) auto
  have rest: "flist ?m (unat (load64 (hmem h) x)) xs"
    using head(3) ap [OF i] dist by (intro flist_store) (auto simp: L)
  have "small_ok (h\<lparr>seg := (seg h)\<lparr>free_lists := (free_lists (seg h))[i := unat (load64 (hmem h) x)]\<rparr>, hmem := ?m\<rparr>) (L(i := xs))"
    using spread_pop [OF sp i L] others rest fl(1) unfolding small_ok_def by (simp add: nth_list_update)
  then show ?thesis using head i by (auto simp: alloc_small_def Let_def unat_word64 store64_other)
qed

lemma runs_free_small:
  assumes ok: "small_ok h L" and i: "unat (load64 (hmem h) x) = i" "i < 10" and x: "x \<noteq> 0" "x < 2 ^ 64"
    and ap: "\<And>j y. j < 10 \<Longrightarrow> y \<in> set (L j) \<Longrightarrow> words_apart x y"
  shows "runs_to (free_small (x + 8)) h (\<lambda>r h'. r = Inr () \<and> small_ok h' (L(i := x # L i)) \<and>
    (\<forall>y. \<not> (x \<le> y \<and> y < x + 8) \<longrightarrow> hmem h' y = hmem h y))"
proof -
  have fl: "length (free_lists (seg h)) = 10" "\<And>j. j < 10 \<Longrightarrow> flist (hmem h) (free_lists (seg h) ! j) (L j)"
    and sp: "spread L" using ok unfolding small_ok_def by auto
  have head: "free_lists (seg h) ! i < 2 ^ 64" using fl(2) [OF i(2)] by (cases "L i") auto
  let ?m = "store64 x (word_of_nat (free_lists (seg h) ! i)) (hmem h)"
  have lists: "flist ?m (free_lists (seg h) ! j) (L j)" if "j < 10" for j
    using fl(2) [OF that] ap [OF that] by (intro flist_store) auto
  have "small_ok (h\<lparr>hmem := ?m, seg := (seg h)\<lparr>free_lists := (free_lists (seg h))[i := x]\<rparr>\<rparr>) (L(i := x # L i))"
    using spread_push [OF sp i(2) ap] lists fl(1) x head i(2) unfolding small_ok_def
    by (simp add: nth_list_update unat_word64)
  then show ?thesis using i by (auto simp: free_small_def Let_def store64_other)
qed

subsection \<open>Properties\<close>

lemma large_request: "\<not> (align \<le> 8 \<and> sz \<le> 4096) \<Longrightarrow> seg_alloc_aligned sz align = alloc_large_aligned sz align"
  using bucket_for_None [of sz] by (auto simp: seg_alloc_aligned_def)

text \<open>
  C14.  A large or over-aligned request on a well-formed list of large blocks takes the first
  free block that fits, or returns null and changes nothing when there is none.  The address
  is aligned and the requested bytes lie inside the block; the list stays a doubly linked list
  that tiles the region with no two free neighbours; every block in use stays in use, keeps
  its contents and does not meet the new one.
\<close>

theorem alloc_large_correct:
  assumes "large_ok h lo hi bs" and "merged bs" and "0 < align" and "sz + align + 23 < 2 ^ 64"
    and "\<not> (align \<le> 8 \<and> sz \<le> 4096)"
  shows "runs_to (seg_alloc_aligned sz align) h (\<lambda>r h'. case fit (round8 (sz + align + 16)) bs of
      None \<Rightarrow> r = Inr 0 \<and> h' = h
    | Some (b, bs') \<Rightarrow> \<exists>addr. r = Inr addr \<and> large_alloc lo hi h bs' sz align b addr h' \<and> merged bs' \<and>
        (\<forall>c k. (c, k, False) \<in> set bs \<longrightarrow> (c, k, False) \<in> set bs' \<and> (c + 32 + k \<le> addr \<or> addr + sz \<le> c) \<and>
          (\<forall>x. c + 32 \<le> x \<and> x < c + 32 + k \<longrightarrow> hmem h' x = hmem h x)))"
  unfolding large_request [OF assms(5)]
proof (rule runs_to_mono [OF runs_alloc_large_aligned [OF assms(1,3,4)]], goal_cases)
  case (1 r h')
  show ?case
  proof (cases "fit (round8 (sz + align + 16)) bs")
    case None
    then show ?thesis using 1 by simp
  next
    case (Some p)
    obtain b bs' where p: "p = (b, bs')" by (cases p)
    let ?a = "align_pad (b + 48) align"
    have f: "fit (round8 (sz + align + 16)) bs = Some (b, bs')" using Some p by simp
    have al: "large_alloc lo hi h bs' sz align b ?a h'" "r = Inr ?a" using 1 Some p by auto
    obtain k0 where k0: "(b, k0, False) \<in> set bs'" "b + 48 \<le> ?a" "?a + sz \<le> b + 32 + k0"
      using al(1) by (auto simp: large_alloc_def)
    have c: "contig lo bs' hi" "contig lo bs hi" using al(1) assms(1) by (auto simp: large_alloc_def large_ok_def)
    obtain pre k1 suf where bs: "bs = pre @ (b, k1, True) # suf" using fit_decomp [OF f] by blast
    have "(n, k, False) \<in> set bs' \<and> (n + 32 + k \<le> ?a \<or> ?a + sz \<le> n) \<and>
        (\<forall>x. n + 32 \<le> x \<and> x < n + 32 + k \<longrightarrow> hmem h' x = hmem h x)" if live: "(n, k, False) \<in> set bs" for n k
    proof -
      have n: "(n, k, False) \<in> set bs'" by (rule fit_keeps [OF f live])
      have "n \<noteq> b" using live contig_around(1,2) [OF c(2) [unfolded bs], of "(n, k, False)"] by (auto simp: bs)
      then have ap: "n + 32 + k \<le> b \<or> b + 32 + k0 \<le> n" using payloads_apart [OF c(1) n k0(1)] by blast
      moreover have "hmem h' x = hmem h x" if "n + 32 \<le> x" "x < n + 32 + k" for x
        using al(1) payload_not_header [OF c(1) n that] ap that k0(2,3) by (auto simp: large_alloc_def)
      ultimately show ?thesis using n k0(2,3) by auto
    qed
    then show ?thesis using al fit_merged [OF assms(2) f] Some p by auto
  qed
qed

definition heap0 :: heap where
  "heap0 = \<lparr> hmem = (\<lambda>_. 0), seg = SegregatedAllocator_new \<rparr>"

lemma initial_heap: "\<exists>h. large_ok h 0x1C000 0x20000 [(0x1C000, 0x3FE0, True)]"
proof -
  have "runs_to (seg_init 0x10000 0x10000) heap0 (\<lambda>r h'. \<exists>x. r = Inr x \<and> large_ok h' 0x1C000 0x20000 [(0x1C000, 0x3FE0, True)])"
    by (rule runs_seg_init) simp_all
  from runs_to_value [OF this] show ?thesis by blast
qed

lemma first_fit_example:
  "fit (round8 (8192 + 4096 + 16)) [(0x1C000, 0x3FE0, True)] = Some (0x1C000, [(0x1C000, 12304, False), (0x1F030, 4016, True)])"
  by (simp add: round8_def)

theorem alloc_large_correct_witness:
  "\<exists>h. large_ok h 0x1C000 0x20000 [(0x1C000, 0x3FE0, True)] \<and>
     runs_to (seg_alloc_aligned 8192 4096) h (\<lambda>r h'. \<exists>addr. r = Inr addr \<and> addr mod 4096 = 0 \<and>
       0x1C030 \<le> addr \<and> addr + 8192 \<le> 0x1F030)"
proof -
  obtain h where h: "large_ok h 0x1C000 0x20000 [(0x1C000, 0x3FE0, True)]" using initial_heap by blast
  have "runs_to (seg_alloc_aligned 8192 4096) h (\<lambda>r h'. \<exists>addr. r = Inr addr \<and> addr mod 4096 = 0 \<and>
       0x1C030 \<le> addr \<and> addr + 8192 \<le> 0x1F030)"
    by (rule runs_to_mono [OF alloc_large_correct [OF h]])
      (auto simp: first_fit_example [simplified] large_alloc_def)
  with h show ?thesis by blast
qed

text \<open>
  C15.  Freeing undoes allocating: after a successful large request, whatever the owner has
  stored in its bytes, \<open>dealloc_aligned\<close> of the address returns the list of blocks to exactly
  what it was, merging the pieces the request had split, and leaves every byte outside the
  block headers alone.
\<close>

theorem dealloc_large_restores:
  assumes "large_ok h lo hi bs" and "merged bs" and "0 < align" and "sz + align + 23 < 2 ^ 64"
    and "\<not> (align \<le> 8 \<and> sz \<le> 4096)" and "fit (round8 (sz + align + 16)) bs = Some (b, bs')"
  shows "runs_to (seg_alloc_aligned sz align) h (\<lambda>r h'. \<exists>addr. r = Inr addr \<and>
    (\<forall>h''. seg h'' = seg h' \<longrightarrow> (\<forall>x. x \<notin> {addr ..< addr + sz} \<longrightarrow> hmem h'' x = hmem h' x) \<longrightarrow>
      runs_to (seg_dealloc_aligned addr) h'' (\<lambda>r h3. r = Inr () \<and> large_ok h3 lo hi bs \<and>
        (\<forall>x. x \<notin> headers bs' \<longrightarrow> hmem h3 x = hmem h'' x))))"
  unfolding large_request [OF assms(5)]
proof (rule runs_to_mono [OF runs_alloc_large_aligned [OF assms(1,3,4)]], goal_cases)
  case (1 r h')
  then have al: "large_alloc lo hi h bs' sz align b (align_pad (b + 48) align) h'" "r = Inr (align_pad (b + 48) align)"
    by (simp_all add: assms(6))
  have "release b bs' = bs" using assms(1,2,6) by (intro release_fit) (auto simp: large_ok_def)
  with runs_dealloc_large [OF al(1)] al(2) show ?case by (fastforce elim!: runs_to_mono)
qed

theorem dealloc_large_restores_witness:
  "\<exists>h. large_ok h 0x1C000 0x20000 [(0x1C000, 0x3FE0, True)] \<and>
     runs_to (bind (seg_alloc_aligned 8192 4096) seg_dealloc_aligned) h
       (\<lambda>r h'. r = Inr () \<and> large_ok h' 0x1C000 0x20000 [(0x1C000, 0x3FE0, True)])"
proof -
  obtain h where h: "large_ok h 0x1C000 0x20000 [(0x1C000, 0x3FE0, True)]" using initial_heap by blast
  have "runs_to (seg_alloc_aligned 8192 4096) h (\<lambda>r h'. \<exists>addr. r = Inr addr \<and>
      runs_to (seg_dealloc_aligned addr) h' (\<lambda>r h3. r = Inr () \<and> large_ok h3 0x1C000 0x20000 [(0x1C000, 0x3FE0, True)]))"
    by (rule runs_to_mono [OF dealloc_large_restores [OF h _ _ _ _ first_fit_example]])
      (fastforce elim!: runs_to_mono)+
  then have "runs_to (bind (seg_alloc_aligned 8192 4096) seg_dealloc_aligned) h
      (\<lambda>r h'. r = Inr () \<and> large_ok h' 0x1C000 0x20000 [(0x1C000, 0x3FE0, True)])"
    unfolding runs_to_bind by (rule runs_to_mono) auto
  with h show ?thesis by blast
qed

text \<open>
  C16.  The free lists of the small blocks are stacks.  A request whose list is not empty gets
  the payload of the block freed last, with the bucket index in front of it; freeing a payload
  whose header names its bucket puts the block in front of that list.  Every other list and
  every byte outside the one header word stay as they are.
\<close>

theorem small_lists_are_stacks:
  assumes "small_ok h L" and "i < 10"
  shows "(\<forall>x xs. L i = x # xs \<longrightarrow> runs_to (alloc_small i) h (\<lambda>r h'. r = Inr (x + 8) \<and> small_ok h' (L(i := xs)) \<and>
      unat (load64 (hmem h') x) = i \<and> (\<forall>y. \<not> (x \<le> y \<and> y < x + 8) \<longrightarrow> hmem h' y = hmem h y))) \<and>
    (\<forall>x. x \<noteq> 0 \<and> x < 2 ^ 64 \<and> unat (load64 (hmem h) x) = i \<and> (\<forall>j < 10. \<forall>y \<in> set (L j). words_apart x y) \<longrightarrow>
      runs_to (free_small (x + 8)) h (\<lambda>r h'. r = Inr () \<and> small_ok h' (L(i := x # L i)) \<and>
        (\<forall>y. \<not> (x \<le> y \<and> y < x + 8) \<longrightarrow> hmem h' y = hmem h y)))"
proof (intro conjI allI impI)
  fix x xs assume "L i = x # xs"
  from runs_alloc_small_pop [OF assms this] show "runs_to (alloc_small i) h (\<lambda>r h'. r = Inr (x + 8) \<and> small_ok h' (L(i := xs)) \<and>
      unat (load64 (hmem h') x) = i \<and> (\<forall>y. \<not> (x \<le> y \<and> y < x + 8) \<longrightarrow> hmem h' y = hmem h y))"
    by (rule runs_to_mono) auto
next
  fix x assume x: "x \<noteq> 0 \<and> x < 2 ^ 64 \<and> unat (load64 (hmem h) x) = i \<and> (\<forall>j < 10. \<forall>y \<in> set (L j). words_apart x y)"
  show "runs_to (free_small (x + 8)) h (\<lambda>r h'. r = Inr () \<and> small_ok h' (L(i := x # L i)) \<and>
      (\<forall>y. \<not> (x \<le> y \<and> y < x + 8) \<longrightarrow> hmem h' y = hmem h y))"
    by (rule runs_free_small [OF assms(1)]) (use x assms(2) in auto)
qed

lemma heap0_small_ok: "small_ok heap0 (\<lambda>_. [])"
  by (simp add: small_ok_def spread_def heap0_def SegregatedAllocator_new_def nth_replicate)

theorem small_lists_are_stacks_witness:
  "small_ok heap0 (\<lambda>_. []) \<and>
   runs_to (free_small 0x5008) heap0 (\<lambda>r h'. small_ok h' ((\<lambda>_. [])(0 := [0x5000])))"
proof -
  have zero: "unat (load64 (hmem heap0) 0x5000) = 0"
    by (simp add: heap0_def load64_def load_bytes_def map_replicate_const from_le_def nat_of_le_zeros)
  have "runs_to (free_small (0x5000 + 8)) heap0 (\<lambda>r h'. small_ok h' ((\<lambda>_. [])(0 := [0x5000])))"
    using small_lists_are_stacks [OF heap0_small_ok, of 0] zero
    by (auto elim!: runs_to_mono dest!: spec [of _ "0x5000"])
  then show ?thesis using heap0_small_ok by simp
qed

subsection \<open>Reallocation of small blocks\<close>

lemma unat_and_not_mask: "unat ((w :: u64) AND NOT (mask n)) = unat w div 2 ^ n * 2 ^ n"
proof -
  have "w AND NOT (mask n) = push_bit n (drop_bit n w)"
    by (rule bit_eqI) (auto simp: bit_simps)
  then have "unat (w AND NOT (mask n)) = take_bit 64 (push_bit n (drop_bit n (unat w)))"
    using take_bit_nat_eq_self [OF unsigned_less [of w]]
    by (simp add: unsigned_push_bit_eq unsigned_drop_bit_eq)
  also have "\<dots> = unat w div 2 ^ n * 2 ^ n"
    using order_le_less_trans [OF div_times_less_eq_dividend unsigned_less [of w]]
    by (simp add: push_bit_eq_mult drop_bit_eq_div take_bit_nat_eq_self)
  finally show ?thesis .
qed

lemma runs_align_up8:
  assumes "a mod 8 = 0" and "a + 8 < 2 ^ 64"
  shows "runs_to (align_up a 8) h P \<longleftrightarrow> P (Inr a) h"
proof -
  have "(word_of_nat (8 - 1) :: u64) = mask 3" by (simp add: mask_eq_exp_minus_1)
  moreover have "unat (word_of_nat (a + 8 - 1) :: u64) = a + 7"
    using unat_word64 [of "a + 8 - 1"] assms(2) by (simp del: of_nat_diff of_nat_add)
  moreover have "(a + 7) div 8 * 8 = a" using assms(1) by presburger
  ultimately have "unat (word_of_nat (a + 8 - 1) AND NOT (word_of_nat (8 - 1) :: u64)) = a"
    by (simp only: unat_and_not_mask) simp
  then show ?thesis using assms(2) unfolding align_up_def by (simp only: runs_to_bind runs_uadd) simp
qed

lemma runs_alloc_small_arena:
  assumes i: "i < 10" and empty: "free_lists (seg h) ! i = 0" and a: "arena_ptr (seg h) mod 8 = 0"
    and room: "arena_ptr (seg h) + (8 + BUCKET_SIZES ! i) \<le> arena_end (seg h)" "arena_end (seg h) < 2 ^ 64"
    and big: "8 \<le> BUCKET_SIZES ! i"
  shows "runs_to (alloc_small i) h P \<longleftrightarrow> P (Inr (arena_ptr (seg h) + 8))
    (h\<lparr>seg := (seg h)\<lparr>arena_ptr := arena_ptr (seg h) + (8 + BUCKET_SIZES ! i)\<rparr>,
       hmem := store64 (arena_ptr (seg h)) (word_of_nat i) (hmem h)\<rparr>)"
proof -
  have "arena_ptr (seg h) + 8 < 2 ^ 64" using room big by simp
  then show ?thesis using i empty room by (simp add: alloc_small_def Let_def runs_align_up8 [OF a])
qed

lemma runs_copy_bytes [simp]:
  "runs_to (copy_bytes src dst n) h P \<longleftrightarrow> P (Inr ()) (h\<lparr>hmem := store_bytes dst (load_bytes (hmem h) src n) (hmem h)\<rparr>)"
  by (simp add: copy_bytes_def runs_to_def)

lemma bucket_sizes_ge: "i < 10 \<Longrightarrow> 8 \<le> BUCKET_SIZES ! i"
  by (simp add: BUCKET_SIZES_def less_Suc_eq numeral_eq_Suc) auto

text \<open>
  C17.  Reallocating a small block reads its size class two words before the payload, where
  the block below it ends, and not from its own header.  When that word is 0 (fresh memory,
  for one) the class is taken to be 8 bytes: the new block is returned and the old one freed,
  but only the first 8 bytes have been copied and all others keep what the arena held before.
\<close>

theorem small_realloc_truncates:
  assumes "16 \<le> ptr" and "load64 (hmem h) (ptr - 16) = 0" and "unat (load64 (hmem h) (ptr - 8)) < 10"
    and "bucket_for new_size = Some j" and "8 \<le> new_size" and "free_lists (seg h) ! j = 0"
    and "ptr + 8 \<le> arena_ptr (seg h)" and "arena_ptr (seg h) mod 8 = 0"
    and "arena_ptr (seg h) + (8 + BUCKET_SIZES ! j) \<le> arena_end (seg h)" and "arena_end (seg h) < 2 ^ 64"
  shows "runs_to (seg_realloc ptr 8 new_size) h (\<lambda>r h'. r = Inr (arena_ptr (seg h) + 8) \<and>
    load_bytes (hmem h') (arena_ptr (seg h) + 8) 8 = load_bytes (hmem h) ptr 8 \<and>
    (\<forall>k. 8 \<le> k \<and> k < new_size \<longrightarrow> hmem h' (arena_ptr (seg h) + 8 + k) = hmem h (arena_ptr (seg h) + 8 + k)))"
proof -
  let ?a = "arena_ptr (seg h)"
  let ?m1 = "store64 ?a (word_of_nat j) (hmem h)"
  let ?m2 = "store_bytes (?a + 8) (load_bytes ?m1 ptr 8) ?m1"
  have j: "j < 10" using bucket_for_Some [OF assms(4)] by simp
  have small: "seg_alloc_aligned new_size 8 = alloc_small j" using assms(4) by (simp add: seg_alloc_aligned_def)
  have m1: "load_bytes ?m1 ptr 8 = load_bytes (hmem h) ptr 8" using assms(7) by (intro load_bytes_store64_other) simp
  have w1: "load64 ?m1 (ptr - 16) = 0" using assms(1,2,7) by (subst load64_store64_other) auto
  have w2: "load64 ?m2 x = load64 (hmem h) x" if "x + 8 \<le> ptr" for x
  proof -
    have "load64 ?m2 x = load64 ?m1 x" using that assms(7) by (intro load64_store_bytes_other) simp
    also have "\<dots> = load64 (hmem h) x" using that assms(7) by (intro load64_store64_other) simp
    finally show ?thesis .
  qed
  have "BUCKET_SIZES ! 0 = 8" by (simp add: BUCKET_SIZES_def)
  moreover have "(0 :: nat) \<noteq> unat LARGE_BLOCK_SENTINEL" by (simp add: LARGE_BLOCK_SENTINEL_def)
  moreover have "load64 ?m2 (ptr - 16) = 0" "load64 ?m2 (ptr - 8) = load64 (hmem h) (ptr - 8)"
    using w2 [of "ptr - 16"] w2 [of "ptr - 8"] assms(1,2) by simp_all
  moreover have "load_bytes (store64 (ptr - 8) v ?m2) (?a + 8) 8 = load_bytes (hmem h) ptr 8" for v
    using assms(1,7) load_store_bytes_same [of "?a + 8" "load_bytes ?m1 ptr 8" ?m1]
    by (subst load_bytes_store64_other) (simp_all add: m1)
  moreover have "store64 (ptr - 8) v ?m2 (?a + 8 + k) = hmem h (?a + 8 + k)" if "8 \<le> k" for v k
    using that assms(1,7) by (simp add: store64_other store_bytes_def)
  moreover have "min new_size 8 = 8" using assms(5) by simp
  ultimately show ?thesis
    using assms(1,3) w1 runs_alloc_small_arena [OF j assms(6,8,9,10) bucket_sizes_ge [OF j]]
    by (simp add: seg_realloc_def small capacity_of_def seg_dealloc_aligned_def free_small_def Let_def)
qed

text \<open>Fresh memory with one 64-byte block handed out at the start of the arena.\<close>

definition one_block :: heap where
  "one_block = \<lparr> hmem = store64 0x10000 3 (\<lambda>a. if 0x10008 \<le> a then 0xAA else 0),
     seg = SegregatedAllocator_new\<lparr>arena_ptr := 0x10048, arena_end := 0x1C000\<rparr> \<rparr>"

theorem small_realloc_truncates_witness:
  "runs_to (seg_realloc 0x10008 8 128) one_block (\<lambda>r h'. r = Inr 0x10050 \<and>
     load_bytes (hmem h') 0x10050 8 = load_bytes (hmem one_block) 0x10008 8)"
proof -
  have "bucket_for 128 = Some 4" by (simp add: bucket_for_def BUCKET_SIZES_def)
  moreover have "load64 (hmem one_block) (0x10008 - 16) = 0"
    by (simp add: one_block_def store64_other load64_def load_bytes_def upt_rec from_le_def)
  moreover have "unat (load64 (hmem one_block) (0x10008 - 8)) < 10" by (simp add: one_block_def)
  moreover have "free_lists (seg one_block) ! 4 = 0" "arena_ptr (seg one_block) = 0x10048" "arena_end (seg one_block) = 0x1C000"
    by (simp_all add: one_block_def SegregatedAllocator_new_def)
  moreover have "BUCKET_SIZES ! 4 = 128" by (simp add: BUCKET_SIZES_def)
  ultimately show ?thesis
    using small_realloc_truncates [of "0x10008" one_block 128 4] by (auto elim!: runs_to_mono)
qed

end
