(* ===== verification/Kernel_Heap.thy ===== *)
theory Kernel_Heap
  imports Heap_Spec
begin

section \<open>The two heaps\<close>

text \<open>
  The wrappers of \<open>src/src/allocator.rs\<close> around the segregated allocator and the system calls
  of \<open>src/src/syscall.rs\<close> that reach it.  The kernel heap and the user heap are two
  allocators in one memory.  \<open>GlobalAlloc\<close> looks at the privilege level of the caller: code in
  ring 3 allocates through a system call, which serves it from the user heap; every other
  caller is served from the kernel heap.
\<close>

subsection \<open>Definitions\<close>

record heaps =
  kmem :: pmem
  INNER_ALLOCATOR :: SegregatedAllocator
  USER_ALLOCATOR :: SegregatedAllocator

type_synonym 'a kp = "(heaps, string, 'a) prog"

definition inner_heap :: "heaps \<Rightarrow> heap" where
  "inner_heap s = \<lparr> hmem = kmem s, seg = INNER_ALLOCATOR s \<rparr>"

definition user_heap :: "heaps \<Rightarrow> heap" where
  "user_heap s = \<lparr> hmem = kmem s, seg = USER_ALLOCATOR s \<rparr>"

definition with_inner :: "'a hp \<Rightarrow> 'a kp" where
  "with_inner p = zoom inner_heap (\<lambda>h s. s\<lparr>kmem := hmem h, INNER_ALLOCATOR := seg h\<rparr>) p"

definition with_user :: "'a hp \<Rightarrow> 'a kp" where
  "with_user p = zoom user_heap (\<lambda>h s. s\<lparr>kmem := hmem h, USER_ALLOCATOR := seg h\<rparr>) p"

text \<open>\<open>core::alloc::Layout\<close>: the alignment is a power of two and the padded size fits \<open>isize\<close>.\<close>

record Layout =
  lsize :: nat
  lalign :: nat

definition power_of_two :: "nat \<Rightarrow> bool" where
  "power_of_two a \<longleftrightarrow> a \<in> set (map (\<lambda>k. 2 ^ k) [0..<64])"

definition from_size_align :: "nat \<Rightarrow> nat \<Rightarrow> Layout option" where
  "from_size_align sz a = (if power_of_two a \<and> sz \<le> 2 ^ 63 - a then Some \<lparr> lsize = sz, lalign = a \<rparr> else None)"

definition init_user_heap :: "nat \<Rightarrow> nat \<Rightarrow> unit kp" where
  "init_user_heap start sz = with_user (seg_init start sz)"

definition user_heap_alloc :: "Layout \<Rightarrow> nat kp" where
  "user_heap_alloc l = with_user (seg_alloc_aligned (lsize l) (lalign l))"

definition user_heap_free :: "nat \<Rightarrow> unit kp" where
  "user_heap_free ptr = (if ptr = 0 then ret () else with_user (seg_dealloc_aligned ptr))"

definition copy_nonoverlapping :: "nat \<Rightarrow> nat \<Rightarrow> nat \<Rightarrow> unit kp" where
  "copy_nonoverlapping src dst n = modify (\<lambda>s. s\<lparr>kmem := store_bytes dst (load_bytes (kmem s) src n) (kmem s)\<rparr>)"

definition user_heap_realloc :: "nat \<Rightarrow> Layout \<Rightarrow> nat \<Rightarrow> nat kp" where
  "user_heap_realloc ptr l new_size =
     (if ptr = 0 then user_heap_alloc \<lparr> lsize = new_size, lalign = lalign l \<rparr> else
      bind (user_heap_alloc \<lparr> lsize = new_size, lalign = lalign l \<rparr>) (\<lambda>new_ptr.
      seq (if new_ptr \<noteq> 0 then
             bind (with_user (capacity_of ptr)) (\<lambda>old_cap.
             seq (copy_nonoverlapping ptr new_ptr (min new_size old_cap)) (user_heap_free ptr))
           else ret ())
      (ret new_ptr)))"

text \<open>The system calls 1, 2 and 10.\<close>

definition sys_alloc :: "nat \<Rightarrow> nat \<Rightarrow> nat kp" where
  "sys_alloc sz align =
     (case from_size_align sz (if align = 0 then 8 else align) of
        Some layout \<Rightarrow> user_heap_alloc layout | None \<Rightarrow> ret 0)"

definition sys_realloc :: "nat \<Rightarrow> nat \<Rightarrow> nat \<Rightarrow> nat kp" where
  "sys_realloc ptr sz align =
     (case from_size_align sz (if align = 0 then 8 else align) of
        Some layout \<Rightarrow> user_heap_realloc ptr layout sz | None \<Rightarrow> ret 0)"

definition sys_free :: "nat \<Rightarrow> unit kp" where
  "sys_free ptr = user_heap_free ptr"

text \<open>\<open>get_cpl\<close> from the code segment, the stubs that trap into the kernel, and \<open>GlobalAlloc\<close>.\<close>

definition get_cpl :: "u16 \<Rightarrow> u16" where
  "get_cpl cs = cs AND 3"

definition user_alloc :: "Layout \<Rightarrow> nat kp" where
  "user_alloc l = sys_alloc (lsize l) (lalign l)"

definition user_free :: "nat \<Rightarrow> unit kp" where
  "user_free ptr = sys_free ptr"

definition user_realloc :: "nat \<Rightarrow> Layout \<Rightarrow> nat \<Rightarrow> nat kp" where
  "user_realloc ptr l new_size = sys_realloc ptr new_size (lalign l)"

definition global_alloc :: "u16 \<Rightarrow> Layout \<Rightarrow> nat kp" where
  "global_alloc cs l = (if get_cpl cs = 3 then user_alloc l else with_inner (seg_alloc_aligned (lsize l) (lalign l)))"

definition global_dealloc :: "u16 \<Rightarrow> nat \<Rightarrow> unit kp" where
  "global_dealloc cs ptr =
     (if ptr = 0 then ret () else if get_cpl cs = 3 then user_free ptr else with_inner (seg_dealloc_aligned ptr))"

definition global_realloc :: "u16 \<Rightarrow> nat \<Rightarrow> Layout \<Rightarrow> nat \<Rightarrow> nat kp" where
  "global_realloc cs ptr l new_size =
     (if get_cpl cs = 3 then user_realloc ptr l new_size
      else if ptr = 0 then global_alloc cs \<lparr> lsize = new_size, lalign = lalign l \<rparr> else
      bind (global_alloc cs \<lparr> lsize = new_size, lalign = lalign l \<rparr>) (\<lambda>new_ptr.
      seq (if new_ptr \<noteq> 0 then
             bind (with_inner (capacity_of ptr)) (\<lambda>old_cap.
             seq (copy_nonoverlapping ptr new_ptr (min new_size old_cap)) (global_dealloc cs ptr))
           else ret ())
      (ret new_ptr)))"

text \<open>The public functions of the module; \<open>unwrap\<close> of an invalid layout panics.\<close>

definition heap_init :: "nat \<Rightarrow> nat \<Rightarrow> unit kp" where
  "heap_init start sz = with_inner (seg_init start sz)"

definition kalloc :: "u16 \<Rightarrow> nat \<Rightarrow> nat kp" where
  "kalloc cs sz = bind (unwrap (from_size_align sz 8)) (global_alloc cs)"

definition kalloc_aligned :: "u16 \<Rightarrow> Layout \<Rightarrow> nat kp" where
  "kalloc_aligned cs l = global_alloc cs l"

definition kfree :: "u16 \<Rightarrow> nat \<Rightarrow> unit kp" where
  "kfree cs ptr = bind (unwrap (from_size_align 1 1)) (\<lambda>_. global_dealloc cs ptr)"

definition krealloc :: "u16 \<Rightarrow> nat \<Rightarrow> nat \<Rightarrow> nat kp" where
  "krealloc cs ptr sz = bind (unwrap (from_size_align 1 8)) (\<lambda>l. global_realloc cs ptr l sz)"

definition krealloc_aligned :: "u16 \<Rightarrow> nat \<Rightarrow> Layout \<Rightarrow> nat \<Rightarrow> nat kp" where
  "krealloc_aligned cs ptr l new_size = global_realloc cs ptr l new_size"

subsection \<open>The heaps do not meet\<close>

text \<open>Two regions with a list of large blocks each.\<close>

definition heaps_ok :: "heaps \<Rightarrow> nat \<Rightarrow> nat \<Rightarrow> block list \<Rightarrow> nat \<Rightarrow> nat \<Rightarrow> block list \<Rightarrow> bool" where
  "heaps_ok s klo khi ks ulo uhi us \<longleftrightarrow>
     large_ok (inner_heap s) klo khi ks \<and> large_ok (user_heap s) ulo uhi us \<and> (khi \<le> ulo \<or> uhi \<le> klo)"

lemma power_of_two_bound: "power_of_two a \<Longrightarrow> 0 < a \<and> a \<le> 2 ^ 63"
  by (auto simp: power_of_two_def intro!: power_increasing simp del: power_numeral)

lemma power_of_two_power: "k < 64 \<Longrightarrow> power_of_two (2 ^ k)"
  by (simp add: power_of_two_def)

lemma headers_bounds: "large_ok h lo hi bs \<Longrightarrow> x \<in> headers bs \<Longrightarrow> lo \<le> x \<and> x < hi"
  using contig_bounds [of lo bs hi] by (fastforce simp: large_ok_def headers_def)

lemma large_ok_other_heap:
  assumes "large_ok h lo hi bs" and "seg h' = seg h" and "\<And>x. lo \<le> x \<and> x < hi \<Longrightarrow> hmem h' x = hmem h x"
  shows "large_ok h' lo hi bs"
  by (rule large_ok_cong [OF assms(1,2)]) (use assms(3) headers_bounds [OF assms(1)] in blast)

text \<open>A large request changes memory inside its own region only.\<close>

lemma runs_alloc_inside:
  assumes ok: "large_ok h lo hi bs" and l: "from_size_align sz a = Some l" and big: "\<not> (a \<le> 8 \<and> sz \<le> 4096)"
  shows "runs_to (seg_alloc_aligned (lsize l) (lalign l)) h (\<lambda>r h'. seg h' = seg h \<and>
    (\<forall>x. \<not> (lo \<le> x \<and> x < hi) \<longrightarrow> hmem h' x = hmem h x) \<and>
    (case fit (round8 (sz + a + 16)) bs of None \<Rightarrow> r = Inr 0 \<and> h' = h
     | Some (b, bs') \<Rightarrow> large_ok h' lo hi bs' \<and> (\<exists>addr. r = Inr addr \<and> addr mod a = 0 \<and> lo < addr \<and> addr + sz \<le> hi)))"
proof -
  have p: "power_of_two a" "sz \<le> 2 ^ 63 - a" and lv: "l = \<lparr> lsize = sz, lalign = a \<rparr>"
    using l by (auto simp: from_size_align_def split: if_splits)
  have a: "0 < a" "sz + a + 23 < 2 ^ 64" using power_of_two_bound [OF p(1)] p(2) by auto
  show ?thesis unfolding lv Layout.simps large_request [OF big]
  proof (rule runs_to_mono [OF runs_alloc_large_aligned [OF ok a]], goal_cases)
    case (1 r h')
    show ?case
    proof (cases "fit (round8 (sz + a + 16)) bs")
      case None
      then show ?thesis using 1 by simp
    next
      case (Some f)
      obtain b bs' where f: "f = (b, bs')" by (cases f)
      let ?a = "align_pad (b + 48) a"
      have al: "large_alloc lo hi h bs' sz a b ?a h'" "r = Inr ?a" using 1 by (simp_all add: Some f)
      then obtain k where k: "(b, k, False) \<in> set bs'" "b + 48 \<le> ?a" "?a + sz \<le> b + 32 + k"
        and large: "large_ok h' lo hi bs'" by (auto simp: large_alloc_def)
      have bd: "lo \<le> b" "b + 32 + k \<le> hi" using contig_bounds [of lo bs' hi "(b, k, False)"] large k(1) by (auto simp: large_ok_def)
      have "hmem h' x = hmem h x" if x: "\<not> (lo \<le> x \<and> x < hi)" for x
      proof -
        have "x \<notin> headers bs'" using headers_bounds [OF large] x by blast
        moreover have "\<not> (b + 32 \<le> x \<and> x < ?a)" using x bd k by auto
        ultimately show ?thesis using al(1) by (auto simp: large_alloc_def)
      qed
      then show ?thesis using al large k bd by (auto simp: Some f large_alloc_def)
    qed
  qed
qed

lemma heap_eta: "\<lparr> hmem = hmem h, seg = seg h \<rparr> = (h :: heap)"
  by simp

lemma kernel_heap_simps [simp]:
  "seg (inner_heap s) = INNER_ALLOCATOR s" "hmem (inner_heap s) = kmem s"
  "seg (user_heap s) = USER_ALLOCATOR s" "hmem (user_heap s) = kmem s"
  by (simp_all add: inner_heap_def user_heap_def)

subsection \<open>Example\<close>

definition two_heaps :: heaps where
  "two_heaps = \<lparr> kmem = (\<lambda>_. 0), INNER_ALLOCATOR = SegregatedAllocator_new, USER_ALLOCATOR = SegregatedAllocator_new \<rparr>"

lemma initial_heaps:
  "\<exists>s. heaps_ok s 0x1C000 0x20000 [(0x1C000, 0x3FE0, True)] 0x2C000 0x30000 [(0x2C000, 0x3FE0, True)]"
proof -
  have user: "\<exists>t. heaps_ok t 0x1C000 0x20000 [(0x1C000, 0x3FE0, True)] 0x2C000 0x30000 [(0x2C000, 0x3FE0, True)]"
    if k: "large_ok (inner_heap s) 0x1C000 0x20000 [(0x1C000, 0x3FE0, True)]" for s
  proof -
    have "runs_to (seg_init 0x20000 0x10000) (user_heap s) (\<lambda>r h. r = Inr () \<and> large_ok h 0x2C000 0x30000 [(0x2C000, 0x3FE0, True)] \<and>
        (\<forall>x. x \<notin> {0x2C000 ..< 0x2C020} \<longrightarrow> hmem h x = kmem s x))"
      by (rule runs_seg_init) simp_all
    then have "runs_to (init_user_heap 0x20000 0x10000) s (\<lambda>r t. \<exists>x. r = Inr x \<and>
        heaps_ok t 0x1C000 0x20000 [(0x1C000, 0x3FE0, True)] 0x2C000 0x30000 [(0x2C000, 0x3FE0, True)])"
      unfolding init_user_heap_def with_user_def runs_to_zoom
      by (rule runs_to_mono) (auto simp: heaps_ok_def user_heap_def heap_eta intro!: large_ok_other_heap [OF k])
    from runs_to_value [OF this] show ?thesis by blast
  qed
  have "runs_to (seg_init 0x10000 0x10000) (inner_heap two_heaps) (\<lambda>r h. r = Inr () \<and> large_ok h 0x1C000 0x20000 [(0x1C000, 0x3FE0, True)])"
    by (rule runs_seg_init) simp_all
  then have "runs_to (heap_init 0x10000 0x10000) two_heaps (\<lambda>r t. \<exists>x. r = Inr x \<and>
      large_ok (inner_heap t) 0x1C000 0x20000 [(0x1C000, 0x3FE0, True)])"
    unfolding heap_init_def with_inner_def runs_to_zoom
    by (rule runs_to_mono) (auto simp: inner_heap_def heap_eta)
  from runs_to_value [OF this] show ?thesis using user by blast
qed

subsection \<open>Properties\<close>

text \<open>
  C18.  The heaps are isolated.  A valid large request through \<open>GlobalAlloc\<close> from ring 3 goes
  through the system call to the user heap: it gives null and changes nothing, or an aligned
  range inside the user heap, and neither the kernel allocator nor a single byte outside the
  user heap changes.  From any other ring the request is served in the same way inside the
  kernel heap and the user heap is untouched.  Both lists of blocks stay well formed.
\<close>

theorem heaps_isolated:
  assumes "heaps_ok s klo khi ks ulo uhi us" and "from_size_align sz a = Some l" and "\<not> (a \<le> 8 \<and> sz \<le> 4096)"
  shows "runs_to (global_alloc cs l) s (\<lambda>r t.
    if get_cpl cs = 3 then
      INNER_ALLOCATOR t = INNER_ALLOCATOR s \<and> (\<forall>x. \<not> (ulo \<le> x \<and> x < uhi) \<longrightarrow> kmem t x = kmem s x) \<and>
      (case fit (round8 (sz + a + 16)) us of None \<Rightarrow> r = Inr 0 \<and> t = s
       | Some (b, us') \<Rightarrow> heaps_ok t klo khi ks ulo uhi us' \<and>
           (\<exists>addr. r = Inr addr \<and> addr mod a = 0 \<and> ulo < addr \<and> addr + sz \<le> uhi))
    else
      USER_ALLOCATOR t = USER_ALLOCATOR s \<and> (\<forall>x. \<not> (klo \<le> x \<and> x < khi) \<longrightarrow> kmem t x = kmem s x) \<and>
      (case fit (round8 (sz + a + 16)) ks of None \<Rightarrow> r = Inr 0 \<and> t = s
       | Some (b, ks') \<Rightarrow> heaps_ok t klo khi ks' ulo uhi us \<and>
           (\<exists>addr. r = Inr addr \<and> addr mod a = 0 \<and> klo < addr \<and> addr + sz \<le> khi)))"
proof -
  have ok: "large_ok (inner_heap s) klo khi ks" "large_ok (user_heap s) ulo uhi us" "khi \<le> ulo \<or> uhi \<le> klo"
    using assms(1) by (simp_all add: heaps_ok_def)
  have "0 < a" and sys: "sys_alloc (lsize l) (lalign l) = user_heap_alloc l"
    using assms(2) power_of_two_bound [of a] by (auto simp: sys_alloc_def from_size_align_def split: if_splits)
  show ?thesis
  proof (cases "get_cpl cs = 3")
    case True
    show ?thesis unfolding global_alloc_def user_alloc_def sys user_heap_alloc_def with_user_def if_P [OF True] runs_to_zoom
    proof (rule runs_to_mono [OF runs_alloc_inside [OF ok(2) assms(2,3)]], goal_cases)
      case (1 r h)
      obtain t where t: "t = s\<lparr>kmem := hmem h, USER_ALLOCATOR := seg h\<rparr>" by blast
      have "user_heap t = h" "kmem t = hmem h" "INNER_ALLOCATOR t = INNER_ALLOCATOR s" "h = user_heap s \<Longrightarrow> t = s"
        by (simp_all add: t user_heap_def)
      moreover have "large_ok (inner_heap t) klo khi ks"
        by (rule large_ok_other_heap [OF ok(1)]) (use 1 ok(3) in \<open>auto simp: t\<close>)
      ultimately show ?case using 1 ok(3) unfolding t [symmetric] heaps_ok_def by (auto split: option.splits)
    qed
  next
    case False
    show ?thesis unfolding global_alloc_def with_inner_def if_not_P [OF False] runs_to_zoom
    proof (rule runs_to_mono [OF runs_alloc_inside [OF ok(1) assms(2,3)]], goal_cases)
      case (1 r h)
      obtain t where t: "t = s\<lparr>kmem := hmem h, INNER_ALLOCATOR := seg h\<rparr>" by blast
      have "inner_heap t = h" "kmem t = hmem h" "USER_ALLOCATOR t = USER_ALLOCATOR s" "h = inner_heap s \<Longrightarrow> t = s"
        by (simp_all add: t inner_heap_def)
      moreover have "large_ok (user_heap t) ulo uhi us"
        by (rule large_ok_other_heap [OF ok(2)]) (use 1 ok(3) in \<open>auto simp: t\<close>)
      ultimately show ?case using 1 ok(3) unfolding t [symmetric] heaps_ok_def by (auto split: option.splits)
    qed
  qed
qed

theorem heaps_isolated_witness:
  "\<exists>s. heaps_ok s 0x1C000 0x20000 [(0x1C000, 0x3FE0, True)] 0x2C000 0x30000 [(0x2C000, 0x3FE0, True)] \<and>
     runs_to (global_alloc 0x23 \<lparr> lsize = 8192, lalign = 4096 \<rparr>) s (\<lambda>r t. INNER_ALLOCATOR t = INNER_ALLOCATOR s \<and>
       (\<exists>addr. r = Inr addr \<and> 0x2C000 < addr \<and> addr + 8192 \<le> 0x30000))"
proof -
  obtain s where s: "heaps_ok s 0x1C000 0x20000 [(0x1C000, 0x3FE0, True)] 0x2C000 0x30000 [(0x2C000, 0x3FE0, True)]"
    using initial_heaps by blast
  have l: "from_size_align 8192 4096 = Some \<lparr> lsize = 8192, lalign = 4096 \<rparr>" 
    using power_of_two_power [of 12] by (simp add: from_size_align_def)
  have cpl: "get_cpl 0x23 = 3" by (simp add: get_cpl_def)
  have "runs_to (global_alloc 0x23 \<lparr> lsize = 8192, lalign = 4096 \<rparr>) s (\<lambda>r t. INNER_ALLOCATOR t = INNER_ALLOCATOR s \<and>
       (\<exists>addr. r = Inr addr \<and> 0x2C000 < addr \<and> addr + 8192 \<le> 0x30000))"
    by (rule runs_to_mono [OF heaps_isolated [OF s l, of "0x23"]]) (auto simp: cpl round8_def)
  with s show ?thesis by blast
qed

end
