(* ===== verification/Scheduler.thy ===== *)
theory Scheduler
  imports Cpu_Spec Kernel_Heap
begin

section \<open>The scheduler\<close>

text \<open>
  \<open>src/src/scheduler.rs\<close>: the task table shared by all processors, creation of tasks with their
  initial stacks, round-robin selection, termination, and the switch of stacks.  The part of
  \<open>switch_task\<close> under \<open>SCHEDULER_LOCK\<close> is \<open>switch_select\<close>; the lock is dropped before
  \<open>context_switch\<close>, which is a step of its own.  The tasks of the \<open>Vec\<close> are a list; their stacks
  are in the memory shared with the heaps.  Overflow, an index out of range and a remainder by
  0 panic.
\<close>

subsection \<open>Data\<close>

datatype TaskStatus = Ready | Running | Terminated

record Task =
  task_id :: u64
  stack_top :: u64
  stack_bottom :: u64
  status :: TaskStatus
  kernel_stack_bottom :: u64
  kernel_stack_top :: u64
  task_gs_base :: u64
  task_user_rsp :: u64
  exit_code :: u64

record regs =
  rsp :: u64
  rbp :: u64
  rbx :: u64
  r12 :: u64
  r13 :: u64
  r14 :: u64
  r15 :: u64
  rip :: u64

datatype notice = Halting | Task_terminated u64 u64

record kernel =
  mach :: machine
  memory :: heaps
  SCHEDULER :: "Task list option"
  NEXT_TASK_ID :: u64
  registers :: "regs list"
  notices :: "notice list"

type_synonym 'a kn = "(kernel, string, 'a) prog"

definition on_machine :: "'a mp \<Rightarrow> 'a kn" where
  "on_machine p = zoom mach (\<lambda>m k. k\<lparr>mach := m\<rparr>) p"

definition on_heaps :: "'a kp \<Rightarrow> 'a kn" where
  "on_heaps p = zoom memory (\<lambda>h k. k\<lparr>memory := h\<rparr>) p"

definition say :: "notice \<Rightarrow> unit kn" where
  "say x = modify (\<lambda>k. k\<lparr>notices := notices k @ [x]\<rparr>)"

text \<open>Checked addition and subtraction of \<open>u64\<close>.\<close>

definition add64 :: "u64 \<Rightarrow> u64 \<Rightarrow> ('s, 'e, u64) prog" where
  "add64 x y = (if unat x + unat y < 2 ^ 64 then ret (x + y) else stop)"

definition sub64 :: "u64 \<Rightarrow> u64 \<Rightarrow> ('s, 'e, u64) prog" where
  "sub64 x y = (if y \<le> x then ret (x - y) else stop)"

definition put_slot :: "nat \<Rightarrow> (PercpuData \<Rightarrow> PercpuData) \<Rightarrow> unit kn" where
  "put_slot i f = on_machine (modify (\<lambda>m. m\<lparr>PERCPU_DATA_SLOTS := (PERCPU_DATA_SLOTS m)[i := f (PERCPU_DATA_SLOTS m ! i)]\<rparr>))"

definition get_slot :: "nat \<Rightarrow> PercpuData kn" where
  "get_slot i = gets (\<lambda>k. PERCPU_DATA_SLOTS (mach k) ! i)"

definition tasks_of :: "kernel \<Rightarrow> Task list" where
  "tasks_of k = (case SCHEDULER k of None \<Rightarrow> [] | Some ts \<Rightarrow> ts)"

definition get_task :: "u64 \<Rightarrow> Task kn" where
  "get_task i = bind (gets tasks_of) (\<lambda>ts. at_index (unat i) ts)"

definition put_task :: "u64 \<Rightarrow> (Task \<Rightarrow> Task) \<Rightarrow> unit kn" where
  "put_task i f = bind (get_task i) (\<lambda>t. modify (\<lambda>k. k\<lparr>SCHEDULER := Some ((tasks_of k)[unat i := f t])\<rparr>))"

definition push_task :: "Task \<Rightarrow> unit kn" where
  "push_task t = modify (\<lambda>k. k\<lparr>SCHEDULER := Some (tasks_of k @ [t])\<rparr>)"

subsection \<open>Creating tasks\<close>

definition main_task :: Task where
  "main_task = \<lparr> task_id = 0, stack_top = 0, stack_bottom = 0, status = Running, kernel_stack_bottom = 0, kernel_stack_top = 0,
     task_gs_base = 0, task_user_rsp = 0, exit_code = 0 \<rparr>"

definition sched_init :: "unit kn" where
  "sched_init = seq (modify (\<lambda>k. k\<lparr>SCHEDULER := Some []\<rparr>)) (push_task main_task)"

definition fetch_add_id :: "u64 kn" where
  "fetch_add_id = bind (gets NEXT_TASK_ID) (\<lambda>i. seq (modify (\<lambda>k. k\<lparr>NEXT_TASK_ID := i + 1\<rparr>)) (ret i))"

text \<open>\<open>sp = sp.sub(1); *sp = v\<close> for each word in turn; the value is the final \<open>sp\<close>.\<close>

primrec push_words :: "u64 list \<Rightarrow> u64 \<Rightarrow> u64 kn" where
  "push_words [] sp = ret sp"
| "push_words (v # vs) sp =
     seq (on_heaps (modify (\<lambda>h. h\<lparr>kmem := store64 (unat (sp - 8)) v (kmem h)\<rparr>))) (push_words vs (sp - 8))"

definition user_frame :: "image \<Rightarrow> u64 \<Rightarrow> u64 \<Rightarrow> u64 list" where
  "user_frame im entry_point user_rsp =
     [ucast USER_DATA_SEL, user_rsp, 0x202, ucast USER_CODE_SEL, entry_point, TRAMPOLINE_ADDR im, 0, 0, 0, 0, 0, 0]"

definition add_new_user_task :: "image \<Rightarrow> u64 \<Rightarrow> u64 \<Rightarrow> u64 \<Rightarrow> u64 kn" where
  "add_new_user_task im entry_point user_rsp stack_size =
     bind (gets SCHEDULER) (\<lambda>sch. if sch = None then ret 0 else
     bind fetch_add_id (\<lambda>i.
     bind (on_heaps (kalloc KERNEL_CODE_SEL (unat stack_size))) (\<lambda>a. let bottom = word_of_nat a in
     bind (add64 bottom stack_size) (\<lambda>kernel_top.
     bind (push_words (user_frame im entry_point user_rsp) kernel_top) (\<lambda>sp.
     bind (sub64 user_rsp stack_size) (\<lambda>user_bottom.
     seq (push_task \<lparr> task_id = i, stack_top = sp, stack_bottom = user_bottom, status = Ready, kernel_stack_bottom = bottom,
            kernel_stack_top = kernel_top, task_gs_base = 0, task_user_rsp = user_rsp, exit_code = 0 \<rparr>)
     (ret i)))))))"

definition add_new_task :: "u64 \<Rightarrow> u64 \<Rightarrow> u64 \<Rightarrow> unit kn" where
  "add_new_task entry_point bottom stack_size =
     bind (gets SCHEDULER) (\<lambda>sch. if sch = None then ret () else
     bind fetch_add_id (\<lambda>i.
     bind (add64 bottom stack_size) (\<lambda>top.
     bind (sub64 top 8) (\<lambda>sp0.
     bind (push_words [entry_point, 0, 0, 0, 0, 0, 0] sp0) (\<lambda>sp.
     push_task \<lparr> task_id = i, stack_top = sp, stack_bottom = bottom, status = Ready, kernel_stack_bottom = bottom,
       kernel_stack_top = top, task_gs_base = 0, task_user_rsp = 0, exit_code = 0 \<rparr>)))))"

subsection \<open>Selecting a task\<close>

text \<open>\<open>for _ in 0..tasks.len()\<close>: the index of the first ready task from \<open>i\<close> on, cyclically.\<close>

primrec find_ready :: "TaskStatus list \<Rightarrow> nat \<Rightarrow> nat \<Rightarrow> nat option" where
  "find_ready sts 0 i = None"
| "find_ready sts (Suc n) i = (if sts ! i = Ready then Some i else find_ready sts n ((i + 1) mod length sts))"

text \<open>\<open>(start_index + 1) % tasks.len()\<close>.\<close>

definition scan_from :: "u64 \<Rightarrow> nat \<Rightarrow> nat" where
  "scan_from cur n = ((if cur = USIZE_MAX then 0 else unat cur) + 1) mod n"

datatype switch = Stay | Switch "u64 option" u64

text \<open>The part after a task has been chosen: statuses, stacks, user stack pointer and GS base.\<close>

definition switch_to :: "nat \<Rightarrow> nat \<Rightarrow> u64 \<Rightarrow> u64 \<Rightarrow> switch kn" where
  "switch_to c slot current next =
     (let has = (current \<noteq> USIZE_MAX) in
      seq (if has then bind (get_task current) (\<lambda>t. if status t = Running then put_task current (\<lambda>t. t\<lparr>status := Ready\<rparr>) else ret ()) else ret ())
      (seq (put_task next (\<lambda>t. t\<lparr>status := Running\<rparr>))
      (seq (put_slot slot (\<lambda>p. p\<lparr>current_task_index := next\<rparr>))
      (bind (get_task next) (\<lambda>t.
       let new_stack = stack_top t; new_kernel_stack_top = kernel_stack_top t in
       seq (if new_kernel_stack_top \<noteq> 0 then
              seq (put_slot slot (\<lambda>p. p\<lparr>kernel_stack := new_kernel_stack_top\<rparr>))
              (bind (get_slot slot) (\<lambda>p. on_machine (set_tss_stack_cpu (unat (cpu_index p)) new_kernel_stack_top)))
            else ret ())
       (seq (if has then bind (get_slot slot) (\<lambda>p. put_task current (\<lambda>t. t\<lparr>task_user_rsp := user_stack p\<rparr>)) else ret ())
       (bind (get_task next) (\<lambda>t.
        seq (put_slot slot (\<lambda>p. p\<lparr>user_stack := task_user_rsp t\<rparr>))
        (seq (if has then bind (on_machine (rdmsr c MSR_IA32_KERNEL_GS_BASE)) (\<lambda>g. put_task current (\<lambda>t. t\<lparr>task_gs_base := g\<rparr>)) else ret ())
        (bind (get_task next) (\<lambda>t.
         seq (on_machine (wrmsr c MSR_IA32_KERNEL_GS_BASE (task_gs_base t)))
         (ret (Switch (if has then Some current else None) new_stack))))))))))))) "

definition switch_select :: "image \<Rightarrow> nat \<Rightarrow> switch kn" where
  "switch_select im c =
     bind (gets SCHEDULER) (\<lambda>sch. case sch of None \<Rightarrow> ret Stay | Some tasks \<Rightarrow>
     bind (on_machine (get_percpu_data c)) (\<lambda>percpu. if percpu = 0 then ret Stay else
     bind (unwrap (percpu_slot im percpu)) (\<lambda>slot.
     bind (get_slot slot) (\<lambda>p.
     let current = current_task_index p; n = length tasks in
     if n = 0 then stop else
     (case find_ready (map status tasks) n (scan_from current n) of
        None \<Rightarrow>
          if current \<noteq> USIZE_MAX then
            bind (get_task current) (\<lambda>t. if status t = Terminated then seq (say Halting) stop else ret Stay)
          else ret Stay
      | Some next \<Rightarrow>
          if word_of_nat next = current then ret Stay else switch_to c slot current (word_of_nat next))))))"

subsection \<open>Switching stacks\<close>

definition push64 :: "u64 \<Rightarrow> regs \<times> pmem \<Rightarrow> regs \<times> pmem" where
  "push64 v = (\<lambda>(r, m). (r\<lparr>rsp := rsp r - 8\<rparr>, store64 (unat (rsp r - 8)) v m))"

definition pop64 :: "(u64 \<Rightarrow> regs \<Rightarrow> regs) \<Rightarrow> regs \<times> pmem \<Rightarrow> regs \<times> pmem" where
  "pop64 f = (\<lambda>(r, m). (f (load64 m (unat (rsp r))) (r\<lparr>rsp := rsp r + 8\<rparr>), m))"

definition save_regs :: "regs \<times> pmem \<Rightarrow> regs \<times> pmem" where
  "save_regs rm = (let r = fst rm in
     push64 (rbp r) (push64 (rbx r) (push64 (r12 r) (push64 (r13 r) (push64 (r14 r) (push64 (r15 r) rm))))))"

definition load_regs :: "regs \<times> pmem \<Rightarrow> regs \<times> pmem" where
  "load_regs rm =
     pop64 (\<lambda>v. rip_update (\<lambda>_. v)) (pop64 (\<lambda>v. r15_update (\<lambda>_. v)) (pop64 (\<lambda>v. r14_update (\<lambda>_. v))
     (pop64 (\<lambda>v. r13_update (\<lambda>_. v)) (pop64 (\<lambda>v. r12_update (\<lambda>_. v)) (pop64 (\<lambda>v. rbx_update (\<lambda>_. v))
     (pop64 (\<lambda>v. rbp_update (\<lambda>_. v)) rm))))))"

text \<open>The saved stack pointer, and the registers and memory after the switch.\<close>

definition switch_regs :: "u64 \<Rightarrow> regs \<times> pmem \<Rightarrow> u64 \<times> regs \<times> pmem" where
  "switch_regs new_stack rm = (case save_regs rm of (r, m) \<Rightarrow> (rsp r, load_regs (r\<lparr>rsp := new_stack\<rparr>, m)))"

definition context_switch :: "nat \<Rightarrow> u64 option \<Rightarrow> u64 \<Rightarrow> unit kn" where
  "context_switch c old new_stack =
     bind (gets (\<lambda>k. switch_regs new_stack (registers k ! c, kmem (memory k)))) (\<lambda>(saved, r, m).
     seq (case old of None \<Rightarrow> ret () | Some i \<Rightarrow> put_task i (\<lambda>t. t\<lparr>stack_top := saved\<rparr>))
         (modify (\<lambda>k. k\<lparr>registers := (registers k)[c := r], memory := (memory k)\<lparr>kmem := m\<rparr>\<rparr>)))"

definition switch_task :: "image \<Rightarrow> nat \<Rightarrow> unit kn" where
  "switch_task im c = bind (switch_select im c) (\<lambda>s. case s of Stay \<Rightarrow> ret () | Switch old new \<Rightarrow> context_switch c old new)"

definition mark_terminated :: "image \<Rightarrow> nat \<Rightarrow> u64 \<Rightarrow> unit kn" where
  "mark_terminated im c code =
     bind (on_machine (get_percpu_data c)) (\<lambda>percpu. if percpu = 0 then ret () else
     bind (unwrap (percpu_slot im percpu)) (\<lambda>slot.
     bind (get_slot slot) (\<lambda>p. let current = current_task_index p in
     if current = USIZE_MAX then ret () else
       seq (put_task current (\<lambda>t. t\<lparr>status := Terminated\<rparr>))
       (seq (put_task current (\<lambda>t. t\<lparr>exit_code := code\<rparr>))
       (bind (get_task current) (\<lambda>t. say (Task_terminated (task_id t) code)))))))"

definition terminate_task :: "image \<Rightarrow> nat \<Rightarrow> u64 \<Rightarrow> unit kn" where
  "terminate_task im c code =
     bind (gets SCHEDULER) (\<lambda>sch. if sch = None then ret () else seq (mark_terminated im c code) (switch_task im c))"

subsection \<open>Queries\<close>

definition current_task_id :: "image \<Rightarrow> nat \<Rightarrow> u64 kn" where
  "current_task_id im c =
     bind (gets SCHEDULER) (\<lambda>sch. if sch = None then ret 0 else
     bind (on_machine (get_percpu_data c)) (\<lambda>percpu. if percpu = 0 then ret 0 else
     bind (unwrap (percpu_slot im percpu)) (\<lambda>slot.
     bind (get_slot slot) (\<lambda>p. if current_task_index p = USIZE_MAX then ret 0
       else bind (get_task (current_task_index p)) (\<lambda>t. ret (task_id t))))))"

definition status_code :: "TaskStatus \<Rightarrow> u64" where
  "status_code s = (case s of Ready \<Rightarrow> 0 | Running \<Rightarrow> 1 | Terminated \<Rightarrow> 2)"

definition get_task_status :: "u64 \<Rightarrow> u64 kn" where
  "get_task_status i = gets (\<lambda>k. case List.find (\<lambda>t. task_id t = i) (tasks_of k) of Some t \<Rightarrow> status_code (status t) | None \<Rightarrow> 3)"

definition get_task_exit_code :: "u64 \<Rightarrow> u64 kn" where
  "get_task_exit_code i = gets (\<lambda>k. case List.find (\<lambda>t. task_id t = i) (tasks_of k) of Some t \<Rightarrow> exit_code t | None \<Rightarrow> 0)"

text \<open>\<open>run_ap_scheduler\<close> for \<open>n\<close> rounds of its endless loop.\<close>

primrec ap_rounds :: "image \<Rightarrow> nat \<Rightarrow> nat \<Rightarrow> unit kn" where
  "ap_rounds im c 0 = ret ()"
| "ap_rounds im c (Suc n) = seq (switch_task im c) (ap_rounds im c n)"

end
