(* ===== verification/Sched_Spec.thy ===== *)
theory Sched_Spec
  imports Scheduler
begin

section \<open>Correctness of the scheduler\<close>

text \<open>
  Lemmas on \<open>Scheduler\<close>: the effect of a selection, fairness of the round robin, exclusive
  ownership of running tasks on several processors, and the stack frames by which tasks start
  and resume.
\<close>

subsection \<open>Rules\<close>

lemma runs_on_machine [simp]: "runs_to (on_machine p) k P \<longleftrightarrow> runs_to p (mach k) (\<lambda>r m. P r (k\<lparr>mach := m\<rparr>))"
  by (simp add: on_machine_def)

lemma runs_on_heaps [simp]: "runs_to (on_heaps p) k P \<longleftrightarrow> runs_to p (memory k) (\<lambda>r h. P r (k\<lparr>memory := h\<rparr>))"
  by (simp add: on_heaps_def)

lemma runs_say [simp]: "runs_to (say x) k P \<longleftrightarrow> P (Inr ()) (k\<lparr>notices := notices k @ [x]\<rparr>)"
  by (simp add: say_def)

lemma runs_add64 [simp]: "runs_to (add64 x y) s P \<longleftrightarrow> unat x + unat y < 2 ^ 64 \<and> P (Inr (x + y)) s"
  by (simp add: add64_def)

lemma runs_sub64 [simp]: "runs_to (sub64 x y) s P \<longleftrightarrow> y \<le> x \<and> P (Inr (x - y)) s"
  by (simp add: sub64_def)

lemma runs_get_slot [simp]: "runs_to (get_slot i) k P \<longleftrightarrow> P (Inr (PERCPU_DATA_SLOTS (mach k) ! i)) k"
  by (simp add: get_slot_def)

lemma runs_put_slot [simp]: "runs_to (put_slot i f) k P \<longleftrightarrow> P (Inr ()) (k\<lparr>mach := (mach k)
    \<lparr>PERCPU_DATA_SLOTS := (PERCPU_DATA_SLOTS (mach k))[i := f (PERCPU_DATA_SLOTS (mach k) ! i)]\<rparr>\<rparr>)"
  by (simp add: put_slot_def)

lemma tasks_of_simps [simp]:
  "SCHEDULER k = Some ts \<Longrightarrow> tasks_of k = ts" "tasks_of (k\<lparr>SCHEDULER := Some ts\<rparr>) = ts"
  "tasks_of (k\<lparr>mach := m\<rparr>) = tasks_of k" "tasks_of (k\<lparr>memory := h\<rparr>) = tasks_of k"
  "tasks_of (k\<lparr>notices := ns\<rparr>) = tasks_of k" "tasks_of (k\<lparr>NEXT_TASK_ID := i\<rparr>) = tasks_of k"
  "tasks_of (k\<lparr>registers := rs\<rparr>) = tasks_of k"
  by (simp_all add: tasks_of_def)

lemma runs_get_task [simp]: "runs_to (get_task i) k P \<longleftrightarrow> unat i < length (tasks_of k) \<and> P (Inr (tasks_of k ! unat i)) k"
  by (simp add: get_task_def)

lemma runs_put_task [simp]: "runs_to (put_task i f) k P \<longleftrightarrow> unat i < length (tasks_of k) \<and>
    P (Inr ()) (k\<lparr>SCHEDULER := Some ((tasks_of k)[unat i := f (tasks_of k ! unat i)])\<rparr>)"
  by (simp add: put_task_def)

lemma runs_push_task [simp]: "runs_to (push_task t) k P \<longleftrightarrow> P (Inr ()) (k\<lparr>SCHEDULER := Some (tasks_of k @ [t])\<rparr>)"
  by (simp add: push_task_def)

lemma runs_get_percpu [simp]: "runs_to (get_percpu_data c) m P \<longleftrightarrow> P (Inr (msr (cpus m ! c) MSR_IA32_GS_BASE)) m"
  by (simp add: get_percpu_data_def)

lemma runs_set_tss_stack_cpu [simp]: "runs_to (set_tss_stack_cpu cpu v) m P \<longleftrightarrow> cpu < length (TSS_ARR m) \<and>
    P (Inr ()) (m\<lparr>TSS_ARR := (TSS_ARR m)[cpu := (TSS_ARR m ! cpu)\<lparr>rsp0 := v\<rparr>]\<rparr>)"
  by (simp add: set_tss_stack_cpu_def)

subsection \<open>The effect of a switch\<close>

text \<open>The task table after processor \<open>c\<close> leaves \<open>current\<close> and takes \<open>next\<close>.\<close>

definition left_task :: "PercpuData \<Rightarrow> u64 \<Rightarrow> Task \<Rightarrow> Task" where
  "left_task p g t = t\<lparr>status := (if status t = Running then Ready else status t), task_user_rsp := user_stack p, task_gs_base := g\<rparr>"

definition switched :: "PercpuData \<Rightarrow> u64 \<Rightarrow> u64 \<Rightarrow> u64 \<Rightarrow> Task list \<Rightarrow> Task list" where
  "switched p g current next ts =
     (let us = (if current = USIZE_MAX then ts else ts[unat current := left_task p g (ts ! unat current)])
      in us[unat next := (ts ! unat next)\<lparr>status := Running\<rparr>])"

definition slot_after :: "Task \<Rightarrow> u64 \<Rightarrow> PercpuData \<Rightarrow> PercpuData" where
  "slot_after t next p =
     (if kernel_stack_top t \<noteq> 0
      then p\<lparr>current_task_index := next, kernel_stack := kernel_stack_top t, user_stack := task_user_rsp t\<rparr>
      else p\<lparr>current_task_index := next, user_stack := task_user_rsp t\<rparr>)"

lemma runs_switch_to:
  assumes k: "SCHEDULER k = Some ts" and nx: "unat next < length ts"
    and cur: "current = USIZE_MAX \<or> unat current < length ts \<and> unat current \<noteq> unat next"
    and slot: "slot < length (PERCPU_DATA_SLOTS (mach k))" and p: "p = PERCPU_DATA_SLOTS (mach k) ! slot"
    and tss: "unat (cpu_index p) < length (TSS_ARR (mach k))"
  shows "runs_to (switch_to c slot current next) k (\<lambda>r k'.
    r = Inr (Switch (if current = USIZE_MAX then None else Some current) (stack_top (ts ! unat next))) \<and>
    SCHEDULER k' = Some (switched p (msr (cpus (mach k) ! c) MSR_IA32_KERNEL_GS_BASE) current next ts) \<and>
    PERCPU_DATA_SLOTS (mach k') = (PERCPU_DATA_SLOTS (mach k))[slot := slot_after (ts ! unat next) next p] \<and>
    length (TSS_ARR (mach k')) = length (TSS_ARR (mach k)) \<and>
    cpus (mach k') = (cpus (mach k))[c := (cpus (mach k) ! c)\<lparr>msr := (msr (cpus (mach k) ! c))
      (MSR_IA32_KERNEL_GS_BASE := task_gs_base (ts ! unat next))\<rparr>] \<and>
    memory k' = memory k \<and> registers k' = registers k)"
proof (cases "current = USIZE_MAX")
  case True
  then show ?thesis
    using assms by (cases "kernel_stack_top (ts ! unat next) = 0") (simp_all add: switch_to_def Let_def switched_def slot_after_def)
next
  case False
  then show ?thesis
    using assms
    by (cases "kernel_stack_top (ts ! unat next) = 0"; cases "status (ts ! unat current) = Running")
      (simp_all add: switch_to_def Let_def switched_def slot_after_def left_task_def list_update_swap [of "unat current" "unat next"])
qed


subsection \<open>The search for a ready task\<close>

lemma find_ready_None:
  "i < length sts \<Longrightarrow> find_ready sts n i = None \<Longrightarrow> d < n \<Longrightarrow> sts ! ((i + d) mod length sts) \<noteq> Ready"
proof (induction n arbitrary: i d)
  case (Suc n)
  show ?case
  proof (cases d)
    case 0
    then show ?thesis using Suc.prems by (auto split: if_splits)
  next
    case (Suc e)
    have "(i + 1) mod length sts < length sts" using Suc.prems(1) by (intro mod_less_divisor) linarith
    then have "sts ! (((i + 1) mod length sts + e) mod length sts) \<noteq> Ready"
      using Suc.IH [of "(i + 1) mod length sts" e] Suc.prems Suc by (simp split: if_splits)
    then show ?thesis using Suc by (simp add: mod_simps)
  qed
qed simp

lemma find_ready_Some:
  "i < length sts \<Longrightarrow> find_ready sts n i = Some j \<Longrightarrow>
   \<exists>d<n. j = (i + d) mod length sts \<and> sts ! j = Ready \<and> (\<forall>e<d. sts ! ((i + e) mod length sts) \<noteq> Ready)"
proof (induction n arbitrary: i)
  case (Suc n)
  show ?case
  proof (cases "sts ! i = Ready")
    case True
    then show ?thesis using Suc.prems by (intro exI [of _ 0]) simp
  next
    case False
    let ?i = "(i + 1) mod length sts"
    have "?i < length sts" using Suc.prems(1) by (intro mod_less_divisor) linarith
    then obtain d where d: "d < n" "j = (?i + d) mod length sts" "sts ! j = Ready" "\<forall>e<d. sts ! ((?i + e) mod length sts) \<noteq> Ready"
      using Suc.IH [of ?i] Suc.prems False by auto
    have "sts ! ((i + e) mod length sts) \<noteq> Ready" if "e < Suc d" for e
    proof (cases e)
      case 0
      then show ?thesis using False Suc.prems(1) by simp
    next
      case (Suc e')
      then show ?thesis using d(4) that by (auto simp: mod_simps)
    qed
    then show ?thesis using d(1-3) by (intro exI [of _ "Suc d"]) (simp add: mod_simps)
  qed
qed simp

lemma find_ready_finds:
  assumes "i < length sts" and "d < n" and "sts ! ((i + d) mod length sts) = Ready"
  obtains e where "e \<le> d" and "find_ready sts n i = Some ((i + e) mod length sts)"
    and "sts ! ((i + e) mod length sts) = Ready"
proof (cases "find_ready sts n i")
  case None
  then show thesis using find_ready_None [OF assms(1)] assms(2,3) by blast
next
  case (Some j)
  then obtain e where e: "j = (i + e) mod length sts" "sts ! j = Ready" "\<forall>e'<e. sts ! ((i + e') mod length sts) \<noteq> Ready"
    using find_ready_Some [OF assms(1)] by blast
  then have "e \<le> d" using assms(3) by (meson not_le_imp_less)
  then show thesis using that e Some by blast
qed

subsection \<open>Per-processor data of a processor\<close>

definition image_ok :: "image \<Rightarrow> bool" where
  "image_ok im \<longleftrightarrow> PERCPU_ADDR im \<noteq> 0 \<and> unat (PERCPU_ADDR im) + 40 * Suc MAX_AP_COUNT \<le> 2 ^ 64"

lemma unat_percpu_ptr: "image_ok im \<Longrightarrow> i < 64 \<Longrightarrow> unat (percpu_ptr im i) = unat (PERCPU_ADDR im) + 40 * i"
  by (simp add: image_ok_def percpu_ptr_def unat_word_ariths unat_of_nat)

lemma percpu_ptr_slot:
  assumes "image_ok im" "i < 64"
  shows "percpu_ptr im i \<noteq> 0" "percpu_slot im (percpu_ptr im i) = Some i"
proof -
  have "0 < unat (PERCPU_ADDR im)" using assms(1) by (simp add: image_ok_def unat_gt_0)
  then have "0 < unat (percpu_ptr im i)" using unat_percpu_ptr [OF assms] by simp
  then show "percpu_ptr im i \<noteq> 0" by auto
  have "percpu_ptr im j \<noteq> percpu_ptr im i" if "j < i" for j
    using unat_percpu_ptr [OF assms] unat_percpu_ptr [OF assms(1), of j] that assms(2) by auto
  then show "percpu_slot im (percpu_ptr im i) = Some i"
    using assms(2) by (auto simp: percpu_slot_def find_Some_iff intro!: exI [of _ i])
qed

text \<open>Processor \<open>c\<close> has slot \<open>slot\<close>, and the table has the statuses \<open>sts\<close>.\<close>

definition task_view :: "image \<Rightarrow> nat \<Rightarrow> nat \<Rightarrow> kernel \<Rightarrow> TaskStatus list \<Rightarrow> u64 \<Rightarrow> bool" where
  "task_view im c slot k sts cur \<longleftrightarrow> image_ok im \<and> slot < 64 \<and> c < length (cpus (mach k)) \<and>
     msr (cpus (mach k) ! c) MSR_IA32_GS_BASE = percpu_ptr im slot \<and> slot < length (PERCPU_DATA_SLOTS (mach k)) \<and>
     unat (cpu_index (PERCPU_DATA_SLOTS (mach k) ! slot)) < length (TSS_ARR (mach k)) \<and>
     (\<exists>ts. SCHEDULER k = Some ts \<and> map status ts = sts) \<and>
     current_task_index (PERCPU_DATA_SLOTS (mach k) ! slot) = cur \<and>
     (cur = USIZE_MAX \<or> unat cur < length sts \<and> sts ! unat cur \<noteq> Ready) \<and> length sts < 2 ^ 63"

definition sts_after :: "TaskStatus list \<Rightarrow> u64 \<Rightarrow> nat \<Rightarrow> TaskStatus list" where
  "sts_after sts cur j =
     (if cur = USIZE_MAX then sts else sts[unat cur := (if sts ! unat cur = Running then Ready else sts ! unat cur)])[j := Running]"

lemma sts_after_simps [simp]:
  "length (sts_after sts cur j) = length sts" "j < length sts \<Longrightarrow> sts_after sts cur j ! j = Running"
  by (simp_all add: sts_after_def)

lemma unat_small: "j < 2 ^ 63 \<Longrightarrow> unat (word_of_nat j :: u64) = j"
  by (simp add: unat_of_nat)

lemma small_not_MAX: "j < 2 ^ 63 \<Longrightarrow> word_of_nat j \<noteq> USIZE_MAX"
  using unat_small [of j] by (auto simp: USIZE_MAX_def)

lemma slot_after_simps [simp]:
  "current_task_index (slot_after t j p) = j" "cpu_index (slot_after t j p) = cpu_index p"
  by (simp_all add: slot_after_def)

lemma status_switched:
  "unat cur < length ts \<or> cur = USIZE_MAX \<Longrightarrow> map status (switched p g cur next ts) = sts_after (map status ts) cur (unat next)"
  by (cases "cur = USIZE_MAX") (auto simp: switched_def sts_after_def Let_def map_update left_task_def)

lemma runs_select:
  assumes v: "task_view im c slot k sts cur" and f: "find_ready sts (length sts) (scan_from cur (length sts)) = Some j"
    and post: "\<And>k' ts. SCHEDULER k = Some ts \<Longrightarrow>
      SCHEDULER k' = Some (switched (PERCPU_DATA_SLOTS (mach k) ! slot) (msr (cpus (mach k) ! c) MSR_IA32_KERNEL_GS_BASE) cur (word_of_nat j) ts) \<Longrightarrow>
      PERCPU_DATA_SLOTS (mach k') = (PERCPU_DATA_SLOTS (mach k))[slot := slot_after (ts ! j) (word_of_nat j) (PERCPU_DATA_SLOTS (mach k) ! slot)] \<Longrightarrow>
      cpus (mach k') = (cpus (mach k))[c := (cpus (mach k) ! c)\<lparr>msr := (msr (cpus (mach k) ! c))
        (MSR_IA32_KERNEL_GS_BASE := task_gs_base (ts ! j))\<rparr>] \<Longrightarrow>
      task_view im c slot k' (sts_after sts cur j) (word_of_nat j) \<Longrightarrow> memory k' = memory k \<Longrightarrow> registers k' = registers k \<Longrightarrow>
      length (TSS_ARR (mach k')) = length (TSS_ARR (mach k)) \<Longrightarrow>
      P (Inr (Switch (if cur = USIZE_MAX then None else Some cur) (stack_top (ts ! j)))) k'"
  shows "runs_to (switch_select im c) k P"
proof -
  obtain ts where ts: "SCHEDULER k = Some ts" "sts = map status ts" using v by (auto simp: task_view_def)
  have "sts \<noteq> []" using f by (cases sts) auto
  then have n: "0 < length sts" by simp
  have j: "j < length sts" "sts ! j = Ready" using find_ready_Some [OF _ f] n by (auto simp: scan_from_def)
  have w: "unat (word_of_nat j :: u64) = j" "word_of_nat j \<noteq> USIZE_MAX" using j v unat_small small_not_MAX by (auto simp: task_view_def)
  have ne: "word_of_nat j \<noteq> cur" using v j w by (auto simp: task_view_def)
  let ?nx = "word_of_nat j :: u64"
  have pre: "unat ?nx < length ts" "cur = USIZE_MAX \<or> unat cur < length ts \<and> unat cur \<noteq> unat ?nx"
    "slot < length (PERCPU_DATA_SLOTS (mach k))" "unat (cpu_index (PERCPU_DATA_SLOTS (mach k) ! slot)) < length (TSS_ARR (mach k))"
    using v w ne ts(2) j by (auto simp: task_view_def)
  have run: "runs_to (switch_to c slot cur ?nx) k P"
  proof (rule runs_to_mono [OF runs_switch_to [OF ts(1) pre(1-3) refl pre(4)]], goal_cases)
    case (1 r k')
    have view: "task_view im c slot k' (sts_after sts cur j) (word_of_nat j)"
      using v 1 w j by (auto simp: task_view_def ts(2) status_switched nth_list_update msr_numbers)
    show ?case using post [OF ts(1), of k'] 1 view by (simp add: w)
  qed
  have p: "msr (cpus (mach k) ! c) MSR_IA32_GS_BASE = percpu_ptr im slot" "current_task_index (PERCPU_DATA_SLOTS (mach k) ! slot) = cur"
    "image_ok im" "slot < 64" using v by (auto simp: task_view_def)
  have "ts \<noteq> []" using n ts(2) by auto
  then show ?thesis
    using run f ne percpu_ptr_slot [OF p(3,4)] by (simp add: switch_select_def ts p Let_def)
qed


lemma runs_context_switch:
  assumes "SCHEDULER k = Some ts" and "\<And>i. old = Some i \<Longrightarrow> unat i < length ts"
  shows "runs_to (context_switch c old new) k (\<lambda>r k'. r = Inr () \<and> mach k' = mach k \<and>
    (\<exists>ts'. SCHEDULER k' = Some ts' \<and> map status ts' = map status ts))"
proof -
  have same: "(map status ts)[i := status (ts ! i)] = map status ts" if "i < length ts" for i
    using that list_update_id [of "map status ts" i] by simp
  show ?thesis using assms by (cases old) (auto simp: context_switch_def map_update same split: prod.splits)
qed

lemma task_view_cong:
  assumes "task_view im c slot k sts cur" and "mach k' = mach k" and "SCHEDULER k' = Some ts" and "map status ts = sts"
  shows "task_view im c slot k' sts cur"
  using assms by (auto simp: task_view_def)

lemma runs_switch_task:
  assumes v: "task_view im c slot k sts cur" and f: "find_ready sts (length sts) (scan_from cur (length sts)) = Some j"
  shows "runs_to (switch_task im c) k (\<lambda>r k'. r = Inr () \<and> task_view im c slot k' (sts_after sts cur j) (word_of_nat j))"
  unfolding switch_task_def runs_to_bind
proof (rule runs_select [OF v f], unfold sum.case switch.case, goal_cases)
  case (1 k' ts)
  obtain ts' where ts': "SCHEDULER k' = Some ts'" "map status ts' = sts_after sts cur j" using 1 by (auto simp: task_view_def)
  have len: "length ts' = length sts" using arg_cong [OF ts'(2), of length] by simp
  show ?case
    by (rule runs_to_mono [OF runs_context_switch [OF ts'(1)]])
      (use v len 1 ts' in \<open>auto simp: task_view_def split: if_splits intro: task_view_cong\<close>)
qed

lemma round_robin_reaches:
  assumes "task_view im c slot k sts cur" and "j < length sts" and "sts ! j = Ready" and "d < length sts"
    and "j = (scan_from cur (length sts) + d) mod length sts"
  shows "\<exists>m \<le> Suc d. runs_to (ap_rounds im c m) k (\<lambda>r k'. r = Inr () \<and>
    (\<exists>sts'. task_view im c slot k' sts' (word_of_nat j) \<and> sts' ! j = Running))"
  using assms
proof (induction d arbitrary: k sts cur rule: less_induct)
  case (less d)
  let ?n = "length sts" and ?i = "scan_from cur (length sts)"
  have i: "?i < ?n" using less.prems(2) unfolding scan_from_def by (intro mod_less_divisor) linarith
  obtain e where e: "e \<le> d" "find_ready sts ?n ?i = Some ((?i + e) mod ?n)" "sts ! ((?i + e) mod ?n) = Ready"
    using find_ready_finds [OF i less.prems(4)] less.prems(3,5) by metis
  define j' where "j' = (?i + e) mod ?n"
  have j': "j' < ?n" using i unfolding j'_def by (intro mod_less_divisor) linarith
  let ?sts = "sts_after sts cur j'"
  have run: "runs_to (switch_task im c) k (\<lambda>r k'. r = Inr () \<and> task_view im c slot k' ?sts (word_of_nat j'))"
    using runs_switch_task [OF less.prems(1) e(2)] by (simp add: j'_def)
  show ?case
  proof (cases "j' = j")
    case True
    have "runs_to (ap_rounds im c 1) k (\<lambda>r k'. r = Inr () \<and> (\<exists>sts'. task_view im c slot k' sts' (word_of_nat j) \<and> sts' ! j = Running))"
      by (simp, rule runs_to_mono [OF run]) (use True less.prems(2) in auto)
    then show ?thesis by (intro exI [of _ 1]) simp
  next
    case False
    then have lt: "e < d" using e(1) less.prems(5) j'_def by (cases "e = d") auto
    have small: "j' < 2 ^ 63" using j' less.prems(1) by (simp add: task_view_def)
    have scan: "scan_from (word_of_nat j') ?n = (j' + 1) mod ?n"
      using unat_small [OF small] small_not_MAX [OF small] by (simp add: scan_from_def)
    have "(scan_from (word_of_nat j') ?n + (d - e - 1)) mod ?n = (?i + e + 1 + (d - e - 1)) mod ?n"
      unfolding scan by (simp add: j'_def mod_simps)
    also have "\<dots> = j" using lt less.prems(5) by simp
    finally have jn: "j = (scan_from (word_of_nat j') (length ?sts) + (d - e - 1)) mod length ?sts" by simp
    have "cur = USIZE_MAX \<or> unat cur \<noteq> j" using less.prems(1,3) by (auto simp: task_view_def)
    then have "?sts ! j = Ready" using less.prems(2,3) False by (auto simp: sts_after_def)
    moreover obtain x k' where k': "switch_task im c k = Ok x k'" "task_view im c slot k' ?sts (word_of_nat j')"
      using run by (auto simp: runs_to_def split: res.splits)
    moreover have "d - e - 1 < d" "j < length ?sts" "d - e - 1 < length ?sts" using lt less.prems(2,4) by auto
    ultimately obtain m where m: "m \<le> Suc (d - e - 1)" "runs_to (ap_rounds im c m) k' (\<lambda>r k'. r = Inr () \<and>
        (\<exists>sts'. task_view im c slot k' sts' (word_of_nat j) \<and> sts' ! j = Running))"
      using less.IH [OF _ k'(2) _ _ _ jn] by blast
    have "runs_to (ap_rounds im c (Suc m)) k (\<lambda>r k'. r = Inr () \<and>
        (\<exists>sts'. task_view im c slot k' sts' (word_of_nat j) \<and> sts' ! j = Running))"
      using m(2) by (simp add: runs_to_def [of "switch_task im c"] k'(1))
    moreover have "Suc m \<le> Suc d" using m(1) lt by simp
    ultimately show ?thesis by blast
  qed
qed


subsection \<open>Several processors\<close>

text \<open>
  Processor \<open>c\<close> of \<open>n\<close> has slot \<open>c\<close>.  Each step is one critical section of \<open>SCHEDULER_LOCK\<close> or a
  switch of stacks, of any processor, in any order.
\<close>

definition cur_of :: "kernel \<Rightarrow> nat \<Rightarrow> u64" where
  "cur_of k c = current_task_index (PERCPU_DATA_SLOTS (mach k) ! c)"

definition sched_inv :: "image \<Rightarrow> nat \<Rightarrow> kernel \<Rightarrow> bool" where
  "sched_inv im n k \<longleftrightarrow> 0 < n \<and> SCHEDULER k \<noteq> None \<and>
     (\<forall>c<n. task_view im c c k (map status (tasks_of k)) (cur_of k c)) \<and>
     (\<forall>c<n. \<forall>d<n. c \<noteq> d \<longrightarrow> cur_of k c = cur_of k d \<longrightarrow> cur_of k c = USIZE_MAX) \<and>
     (\<forall>i<length (tasks_of k). status (tasks_of k ! i) = Running \<longrightarrow> (\<exists>c<n. cur_of k c = word_of_nat i))"

inductive sched_step :: "image \<Rightarrow> nat \<Rightarrow> kernel \<Rightarrow> kernel \<Rightarrow> bool" for im n where
  select: "c < n \<Longrightarrow> switch_select im c k = Ok s k' \<Longrightarrow> sched_step im n k k'"
| stacks: "c < n \<Longrightarrow> context_switch c old new k = Ok () k' \<Longrightarrow> sched_step im n k k'"
| finish: "c < n \<Longrightarrow> mark_terminated im c code k = Ok () k' \<Longrightarrow> sched_step im n k k'"
| spawn: "length (tasks_of k) + 1 < 2 ^ 63 \<Longrightarrow> add_new_task entry bottom sz k = Ok () k' \<Longrightarrow> sched_step im n k k'"
| spawn_user: "length (tasks_of k) + 1 < 2 ^ 63 \<Longrightarrow> add_new_user_task im entry usp sz k = Ok i k' \<Longrightarrow> sched_step im n k k'"

lemma ok_runs: "p k = Ok x k' \<Longrightarrow> runs_to p k (\<lambda>r t. r = Inr x \<and> t = k')"
  by (simp add: runs_to_def)

lemma select_Ok:
  assumes v: "task_view im c slot k sts cur" and ok: "switch_select im c k = Ok s k'"
  shows "k' = k \<or> (\<exists>j. j < length sts \<and> sts ! j = Ready \<and> task_view im c slot k' (sts_after sts cur j) (word_of_nat j) \<and>
    (\<forall>d. d \<noteq> slot \<longrightarrow> PERCPU_DATA_SLOTS (mach k') ! d = PERCPU_DATA_SLOTS (mach k) ! d) \<and>
    (\<forall>d. d \<noteq> c \<longrightarrow> cpus (mach k') ! d = cpus (mach k) ! d) \<and> length (cpus (mach k')) = length (cpus (mach k)) \<and>
    length (PERCPU_DATA_SLOTS (mach k')) = length (PERCPU_DATA_SLOTS (mach k)) \<and>
    length (TSS_ARR (mach k')) = length (TSS_ARR (mach k)))"
proof (cases "find_ready sts (length sts) (scan_from cur (length sts))")
  case None
  obtain ts where ts: "SCHEDULER k = Some ts" "sts = map status ts" using v by (auto simp: task_view_def)
  have p: "msr (cpus (mach k) ! c) MSR_IA32_GS_BASE = percpu_ptr im slot" "current_task_index (PERCPU_DATA_SLOTS (mach k) ! slot) = cur"
    "image_ok im" "slot < 64" using v by (auto simp: task_view_def)
  have "runs_to (switch_select im c) k (\<lambda>r t. r = Inr s \<and> t = k')" using ok by (simp add: runs_to_def)
  then show ?thesis using None percpu_ptr_slot [OF p(3,4)] by (auto simp: switch_select_def ts p Let_def split: if_splits)
next
  case (Some j)
  have "sts \<noteq> []" using Some by (cases sts) auto
  then have j: "j < length sts" "sts ! j = Ready" using find_ready_Some [OF _ Some] by (auto simp: scan_from_def)
  have "runs_to (switch_select im c) k (\<lambda>_ k'. task_view im c slot k' (sts_after sts cur j) (word_of_nat j) \<and>
    (\<forall>d. d \<noteq> slot \<longrightarrow> PERCPU_DATA_SLOTS (mach k') ! d = PERCPU_DATA_SLOTS (mach k) ! d) \<and>
    (\<forall>d. d \<noteq> c \<longrightarrow> cpus (mach k') ! d = cpus (mach k) ! d) \<and> length (cpus (mach k')) = length (cpus (mach k)) \<and>
    length (PERCPU_DATA_SLOTS (mach k')) = length (PERCPU_DATA_SLOTS (mach k)) \<and>
    length (TSS_ARR (mach k')) = length (TSS_ARR (mach k)))"
    by (rule runs_select [OF v Some]) auto
  then show ?thesis using ok j by (auto simp: runs_to_def)
qed


lemma task_view_other:
  assumes "task_view im d d k sts cur" and "SCHEDULER k' = Some ts" and "length sts \<le> length ts" and "length ts < 2 ^ 63"
    and "PERCPU_DATA_SLOTS (mach k') ! d = PERCPU_DATA_SLOTS (mach k) ! d" and "cpus (mach k') ! d = cpus (mach k) ! d"
    and "length (cpus (mach k')) = length (cpus (mach k))"
    and "length (PERCPU_DATA_SLOTS (mach k')) = length (PERCPU_DATA_SLOTS (mach k))"
    and "length (TSS_ARR (mach k')) = length (TSS_ARR (mach k))"
    and "cur = USIZE_MAX \<or> status (ts ! unat cur) \<noteq> Ready"
  shows "task_view im d d k' (map status ts) cur"
  using assms by (auto simp: task_view_def)

lemma inv_current:
  assumes "sched_inv im n k" and "c < n" and "cur_of k c \<noteq> USIZE_MAX"
  shows "unat (cur_of k c) < length (tasks_of k)" "status (tasks_of k ! unat (cur_of k c)) \<noteq> Ready"
proof -
  have "task_view im c c k (map status (tasks_of k)) (cur_of k c)" using assms by (simp add: sched_inv_def)
  then show "unat (cur_of k c) < length (tasks_of k)" "status (tasks_of k ! unat (cur_of k c)) \<noteq> Ready"
    using assms(3) by (auto simp: task_view_def)
qed

lemma inv_distinct:
  assumes "sched_inv im n k" "c < n" "d < n" "c \<noteq> d" "cur_of k d \<noteq> USIZE_MAX"
  shows "unat (cur_of k d) \<noteq> unat (cur_of k c)"
  using assms by (metis sched_inv_def unsigned_word_eqI)

lemma status_nth: "i < length ts \<Longrightarrow> map status ts ! i = status (ts ! i)"
  by simp

lemma select_keeps_inv:
  assumes inv: "sched_inv im n k" and c: "c < n" and ok: "switch_select im c k = Ok s k'"
  shows "sched_inv im n k'"
proof -
  let ?sts = "map status (tasks_of k)"
  have v: "task_view im c c k ?sts (cur_of k c)" using inv c by (simp add: sched_inv_def)
  show ?thesis
  proof (cases "k' = k")
    case False
    then obtain j where j: "j < length ?sts" "?sts ! j = Ready"
      and v': "task_view im c c k' (sts_after ?sts (cur_of k c) j) (word_of_nat j)"
      and same: "\<forall>d. d \<noteq> c \<longrightarrow> PERCPU_DATA_SLOTS (mach k') ! d = PERCPU_DATA_SLOTS (mach k) ! d"
        "\<forall>d. d \<noteq> c \<longrightarrow> cpus (mach k') ! d = cpus (mach k) ! d" "length (cpus (mach k')) = length (cpus (mach k))"
        "length (PERCPU_DATA_SLOTS (mach k')) = length (PERCPU_DATA_SLOTS (mach k))"
        "length (TSS_ARR (mach k')) = length (TSS_ARR (mach k))"
      using select_Ok [OF v ok] by blast
    obtain ts' where ts': "SCHEDULER k' = Some ts'" "map status ts' = sts_after ?sts (cur_of k c) j" using v' by (auto simp: task_view_def)
    have len: "length ts' = length (tasks_of k)" using arg_cong [OF ts'(2), of length] by simp
    have small: "length ts' < 2 ^ 63" using v len by (simp add: task_view_def)
    have st: "status (ts' ! i) = sts_after ?sts (cur_of k c) j ! i" if "i < length ts'" for i using that ts'(2) status_nth by metis
    have cur: "cur_of k' d = (if d = c then word_of_nat j else cur_of k d)" for d using v' same by (simp add: cur_of_def task_view_def)
    have keep: "unat (cur_of k d) < length ts' \<and> unat (cur_of k d) \<noteq> j \<and> status (ts' ! unat (cur_of k d)) = status (tasks_of k ! unat (cur_of k d))"
      if d: "d < n" "d \<noteq> c" "cur_of k d \<noteq> USIZE_MAX" for d
    proof -
      have "unat (cur_of k d) < length (tasks_of k)" "unat (cur_of k d) \<noteq> j" using inv_current [OF inv d(1,3)] j by auto
      then show ?thesis using inv_distinct [OF inv c d(1)] d len st [of "unat (cur_of k d)"] by (simp add: sts_after_def)
    qed
    have "task_view im d d k' (map status ts') (cur_of k' d)" if d: "d < n" for d
    proof (cases "d = c")
      case True
      then show ?thesis using v' ts' cur by simp
    next
      case False
      have "task_view im d d k ?sts (cur_of k d)" using inv d by (simp add: sched_inv_def)
      then have "task_view im d d k' (map status ts') (cur_of k d)"
        by (rule task_view_other [OF _ ts'(1)]) (use False same len small keep [OF d] inv_current [OF inv d] in auto)
      then show ?thesis using False cur by simp
    qed
    moreover have "cur_of k' a = USIZE_MAX" if "a < n" "b < n" "a \<noteq> b" "cur_of k' a = cur_of k' b" for a b
    proof -
      have "unat (word_of_nat j :: u64) = j" using j small len by (intro unat_small) simp
      then show ?thesis using that keep [of a] keep [of b] inv by (auto simp: cur sched_inv_def split: if_splits)
    qed
    moreover have "\<exists>d<n. cur_of k' d = word_of_nat i" if i: "i < length ts'" "status (ts' ! i) = Running" for i
    proof (cases "i = j")
      case True
      then show ?thesis using c cur by auto
    next
      case False
      have r: "status (tasks_of k ! i) = Running" "cur_of k c = USIZE_MAX \<or> i \<noteq> unat (cur_of k c)"
        using i False len st [OF i(1)] by (cases "cur_of k c = USIZE_MAX"; cases "i = unat (cur_of k c)"; auto simp: sts_after_def split: if_splits)+
      then obtain d where d: "d < n" "cur_of k d = word_of_nat i" using inv i(1) len by (auto simp: sched_inv_def)
      have "unat (word_of_nat i :: u64) = i" "word_of_nat i \<noteq> USIZE_MAX"
        using i(1) small unat_small small_not_MAX by auto
      then have "d \<noteq> c" using r(2) d(2) by auto
      then show ?thesis using d cur by auto
    qed
    ultimately show ?thesis using ts'(1) c by (simp add: sched_inv_def)
  qed (use inv in simp)
qed


text \<open>The other steps leave the processors alone; creation adds a ready task.\<close>

lemma machine_keeps_inv:
  assumes inv: "sched_inv im n k" and m: "mach k' = mach k" and ts: "SCHEDULER k' = Some ts"
    and le: "length (tasks_of k) \<le> length ts" and len: "length ts < 2 ^ 63"
    and old: "\<And>i. i < length (tasks_of k) \<Longrightarrow> status (ts ! i) = status (tasks_of k ! i) \<or> status (ts ! i) = Terminated"
    and new: "\<And>i. length (tasks_of k) \<le> i \<Longrightarrow> i < length ts \<Longrightarrow> status (ts ! i) = Ready"
  shows "sched_inv im n k'"
proof -
  have cur: "cur_of k' d = cur_of k d" for d by (simp add: cur_of_def m)
  have "task_view im d d k' (map status ts) (cur_of k d)" if d: "d < n" for d
  proof (rule task_view_other [OF _ ts])
    show "task_view im d d k (map status (tasks_of k)) (cur_of k d)" using inv d by (simp add: sched_inv_def)
    show "cur_of k d = USIZE_MAX \<or> status (ts ! unat (cur_of k d)) \<noteq> Ready"
      using inv_current [OF inv d] old [of "unat (cur_of k d)"] by auto
  qed (use le len m in auto)
  moreover have "\<exists>c<n. cur_of k c = word_of_nat i" if "i < length ts" "status (ts ! i) = Running" for i
    using that inv new [of i] old [of i] by (cases "i < length (tasks_of k)") (auto simp: sched_inv_def)
  ultimately show ?thesis using inv ts by (simp add: sched_inv_def cur)
qed

lemma push_words_Ok: "\<exists>h. push_words vs sp k = Ok (sp - 8 * word_of_nat (length vs)) (k\<lparr>memory := h\<rparr>)"
proof (induction vs arbitrary: sp k)
  case (Cons v vs)
  let ?k = "k\<lparr>memory := (memory k)\<lparr>kmem := store64 (unat (sp - 8)) v (kmem (memory k))\<rparr>\<rparr>"
  obtain h where "push_words vs (sp - 8) ?k = Ok (sp - 8 - 8 * word_of_nat (length vs)) (?k\<lparr>memory := h\<rparr>)" using Cons.IH by blast
  then show ?case by (auto simp: prog_defs on_heaps_def zoom_def modify_def algebra_simps)
next
  case Nil
  show ?case by (rule exI [of _ "memory k"]) (simp add: prog_defs)
qed

lemma spawn_Ok:
  assumes "add_new_task entry bottom sz k = Ok () k'"
  shows "SCHEDULER k = None \<and> k' = k \<or> SCHEDULER k \<noteq> None \<and> mach k' = mach k \<and> (\<exists>t. SCHEDULER k' = Some (tasks_of k @ [t]) \<and> status t = Ready)"
proof -
  have "runs_to (add_new_task entry bottom sz) k (\<lambda>r t. r = Inr () \<and> t = k')" using assms by (rule ok_runs)
  then show ?thesis
    using push_words_Ok [of "[entry, 0, 0, 0, 0, 0, 0]" "bottom + sz - 8" "k\<lparr>NEXT_TASK_ID := NEXT_TASK_ID k + 1\<rparr>"]
    by (auto simp: add_new_task_def fetch_add_id_def runs_to_def [of "push_words vs sp" for vs sp] split: if_splits)
qed

lemma spawn_user_Ok:
  assumes "add_new_user_task im entry usp sz k = Ok i k'"
  shows "SCHEDULER k = None \<and> k' = k \<or> SCHEDULER k \<noteq> None \<and> mach k' = mach k \<and> (\<exists>t. SCHEDULER k' = Some (tasks_of k @ [t]) \<and> status t = Ready)"
proof (cases "SCHEDULER k = None")
  case True
  then show ?thesis using assms by (simp add: add_new_user_task_def prog_defs gets_def)
next
  case False
  let ?k = "k\<lparr>NEXT_TASK_ID := NEXT_TASK_ID k + 1\<rparr>"
  have r: "runs_to (add_new_user_task im entry usp sz) k (\<lambda>r t. r = Inr i \<and> t = k')" using assms by (rule ok_runs)
  obtain a h where a: "kalloc KERNEL_CODE_SEL (unat sz) (memory ?k) = Ok a h"
    using r False by (auto simp: add_new_user_task_def fetch_add_id_def runs_to_def [of "kalloc c x" for c x] split: res.splits)
  show ?thesis
    using r False push_words_Ok [of "user_frame im entry usp" "word_of_nat a + sz" "?k\<lparr>memory := h\<rparr>"] a
    by (auto simp: add_new_user_task_def fetch_add_id_def Let_def runs_to_def [of "kalloc c x" for c x]
        runs_to_def [of "push_words vs sp" for vs sp])
qed

lemma stacks_Ok:
  assumes "context_switch c old new k = Ok () k'" and "SCHEDULER k \<noteq> None"
  shows "mach k' = mach k \<and> (\<exists>ts. SCHEDULER k' = Some ts \<and> map status ts = map status (tasks_of k))"
proof -
  obtain ts where ts: "SCHEDULER k = Some ts" using assms(2) by auto
  have same: "(map status ts)[i := status (ts ! i)] = map status ts" if "i < length ts" for i
    using that list_update_id [of "map status ts" i] by simp
  have "runs_to (context_switch c old new) k (\<lambda>r t. r = Inr () \<and> t = k')" using assms(1) by (rule ok_runs)
  then show ?thesis using ts by (cases old) (auto simp: context_switch_def map_update same split: prod.splits)
qed


lemma finish_Ok:
  assumes v: "task_view im c slot k sts cur" and ok: "mark_terminated im c code k = Ok () k'"
  shows "k' = k \<or> mach k' = mach k \<and> (\<exists>ts. SCHEDULER k' = Some ts \<and> length ts = length (tasks_of k) \<and>
    (\<forall>i<length ts. status (ts ! i) = status (tasks_of k ! i) \<or> status (ts ! i) = Terminated))"
proof -
  have p: "msr (cpus (mach k) ! c) MSR_IA32_GS_BASE = percpu_ptr im slot" "image_ok im" "slot < 64" using v by (auto simp: task_view_def)
  have "runs_to (mark_terminated im c code) k (\<lambda>r t. r = Inr () \<and> t = k')" using ok by (rule ok_runs)
  then show ?thesis using percpu_ptr_slot [OF p(2,3)]
    by (auto simp: mark_terminated_def Let_def p nth_list_update split: if_splits)
qed

lemma inv_small: "sched_inv im n k \<Longrightarrow> length (tasks_of k) < 2 ^ 63"
  by (auto simp: sched_inv_def task_view_def)

lemma step_keeps_inv:
  assumes inv: "sched_inv im n k" and step: "sched_step im n k k'"
  shows "sched_inv im n k'"
  using step
proof cases
  case (select c s)
  then show ?thesis using select_keeps_inv [OF inv] by blast
next
  case (stacks c old new)
  have some: "SCHEDULER k \<noteq> None" using inv by (simp add: sched_inv_def)
  obtain ts where ts: "mach k' = mach k" "SCHEDULER k' = Some ts" "map status ts = map status (tasks_of k)"
    using stacks_Ok [OF stacks(2) some] by blast
  have "length ts = length (tasks_of k)" using arg_cong [OF ts(3), of length] by simp
  moreover have "status (ts ! i) = status (tasks_of k ! i)" if "i < length (tasks_of k)" for i
    using ts(3) that status_nth calculation by metis
  ultimately show ?thesis by (intro machine_keeps_inv [OF inv ts(1,2)]) (use inv_small [OF inv] in auto)
next
  case (finish c code)
  then have v: "task_view im c c k (map status (tasks_of k)) (cur_of k c)" using inv by (simp add: sched_inv_def)
  show ?thesis
  proof (cases "k' = k")
    case False
    then obtain ts where ts: "mach k' = mach k" "SCHEDULER k' = Some ts" "length ts = length (tasks_of k)"
      "\<forall>i<length ts. status (ts ! i) = status (tasks_of k ! i) \<or> status (ts ! i) = Terminated" using finish_Ok [OF v finish(2)] by blast
    show ?thesis by (rule machine_keeps_inv [OF inv ts(1,2)]) (use ts inv_small [OF inv] in auto)
  qed (use inv in simp)
next
  case (spawn entry bottom sz)
  then obtain t where t: "mach k' = mach k" "SCHEDULER k' = Some (tasks_of k @ [t])" "status t = Ready"
    using spawn_Ok [OF spawn(2)] inv by (auto simp: sched_inv_def)
  show ?thesis by (rule machine_keeps_inv [OF inv t(1,2)]) (use spawn t(3) in \<open>auto simp: nth_append\<close>)
next
  case (spawn_user entry usp sz i)
  then obtain t where t: "mach k' = mach k" "SCHEDULER k' = Some (tasks_of k @ [t])" "status t = Ready"
    using spawn_user_Ok [OF spawn_user(2)] inv by (auto simp: sched_inv_def)
  show ?thesis by (rule machine_keeps_inv [OF inv t(1,2)]) (use spawn_user t(3) in \<open>auto simp: nth_append\<close>)
qed


interpretation sched: preserved "sched_step im n" "sched_inv im n" for im n
  by unfold_locales (rule step_keeps_inv)

subsection \<open>Stack frames\<close>

lemma unat_minus: "unat y \<le> unat x \<Longrightarrow> unat (x - y :: 'a::len word) = unat x - unat y"
  by (simp add: unat_sub word_le_nat_alt)

lemma unat_plus: "unat x + unat y < 2 ^ LENGTH('a) \<Longrightarrow> unat (x + y :: 'a::len word) = unat x + unat y"
  by (simp add: unat_word_ariths)

text \<open>The words pushed, the first one on top, and nothing else changed.\<close>

lemma push_words_mem:
  assumes "8 * length vs \<le> unat sp"
  shows "\<exists>m. push_words vs sp k = Ok (sp - 8 * word_of_nat (length vs)) (k\<lparr>memory := (memory k)\<lparr>kmem := m\<rparr>\<rparr>) \<and>
    (\<forall>i<length vs. load64 m (unat sp - 8 * Suc i) = vs ! i) \<and>
    (\<forall>x. x < unat sp - 8 * length vs \<or> unat sp \<le> x \<longrightarrow> m x = kmem (memory k) x)"
  using assms
proof (induction vs arbitrary: sp k)
  case Nil
  show ?case by (rule exI [of _ "kmem (memory k)"]) (simp add: prog_defs)
next
  case (Cons v vs)
  have sp: "unat (sp - 8) = unat sp - 8" using Cons.prems by (subst unat_minus) auto
  let ?m = "store64 (unat sp - 8) v (kmem (memory k))"
  let ?k = "k\<lparr>memory := (memory k)\<lparr>kmem := ?m\<rparr>\<rparr>"
  have "8 * length vs \<le> unat (sp - 8)" using Cons.prems by (simp add: sp)
  then obtain m where m: "push_words vs (sp - 8) ?k = Ok (sp - 8 - 8 * word_of_nat (length vs)) (?k\<lparr>memory := (memory ?k)\<lparr>kmem := m\<rparr>\<rparr>)"
    "\<forall>i<length vs. load64 m (unat (sp - 8) - 8 * Suc i) = vs ! i"
    "\<forall>x. x < unat (sp - 8) - 8 * length vs \<or> unat (sp - 8) \<le> x \<longrightarrow> m x = kmem (memory ?k) x" using Cons.IH [of "sp - 8" ?k] by blast
  have "load64 m (unat sp - 8 * Suc i) = (v # vs) ! i" if "i < Suc (length vs)" for i
  proof (cases i)
    case 0
    have "load_bytes m (unat sp - 8) 8 = load_bytes ?m (unat sp - 8) 8"
      using m(3) Cons.prems by (auto simp: load_bytes_def sp)
    then have "load64 m (unat sp - 8) = load64 ?m (unat sp - 8)" by (simp add: load64_def)
    then show ?thesis using 0 by simp
  next
    case (Suc i')
    then show ?thesis using m(2) that by (auto simp: sp)
  qed
  moreover have "m x = kmem (memory k) x" if "x < unat sp - 8 * Suc (length vs) \<or> unat sp \<le> x" for x
  proof -
    have "m x = ?m x" using m(3) that by (auto simp: sp)
    also have "\<dots> = kmem (memory k) x" using that Cons.prems by (auto simp: store64_def store_bytes_def)
    finally show ?thesis .
  qed
  moreover have "push_words (v # vs) sp k = Ok (sp - 8 * word_of_nat (length (v # vs))) (k\<lparr>memory := (memory k)\<lparr>kmem := m\<rparr>\<rparr>)"
    using m(1) by (simp add: prog_defs on_heaps_def zoom_def modify_def sp algebra_simps)
  ultimately show ?case by (intro exI [of _ m]) simp
qed

lemma load_regs_eq: "load_regs (r, m) = (r\<lparr>rsp := rsp r + 56, rbp := load64 m (unat (rsp r)), rbx := load64 m (unat (rsp r + 8)),
    r12 := load64 m (unat (rsp r + 16)), r13 := load64 m (unat (rsp r + 24)), r14 := load64 m (unat (rsp r + 32)),
    r15 := load64 m (unat (rsp r + 40)), rip := load64 m (unat (rsp r + 48))\<rparr>, m)"
  by (simp add: load_regs_def pop64_def algebra_simps)


lemma push64_fst [simp]: "rsp (fst (push64 v rm)) = rsp (fst rm) - 8"
  by (simp add: push64_def split: prod.splits)

lemma save_regs_eq: "save_regs (r, m) = (r\<lparr>rsp := rsp r - 48\<rparr>,
    store64 (unat (rsp r - 48)) (rbp r) (store64 (unat (rsp r - 40)) (rbx r) (store64 (unat (rsp r - 32)) (r12 r)
    (store64 (unat (rsp r - 24)) (r13 r) (store64 (unat (rsp r - 16)) (r14 r) (store64 (unat (rsp r - 8)) (r15 r) m))))))"
  by (simp add: save_regs_def push64_def Let_def algebra_simps)

text \<open>The seven words a switched-out task leaves on its stack.\<close>

lemma save_regs_words:
  assumes b: "unat (rsp r) = b + 48" and m'_def: "m' = snd (save_regs (r, m))"
  shows "load64 m' b = rbp r" "load64 m' (b + 8) = rbx r" "load64 m' (b + 16) = r12 r" "load64 m' (b + 24) = r13 r"
    "load64 m' (b + 32) = r14 r" "load64 m' (b + 40) = r15 r" "\<And>x. x < b \<or> b + 48 \<le> x \<Longrightarrow> m' x = m x"
proof -
  have u: "unat (rsp r - 48) = b" "unat (rsp r - 40) = b + 8" "unat (rsp r - 32) = b + 16" "unat (rsp r - 24) = b + 24"
    "unat (rsp r - 16) = b + 32" "unat (rsp r - 8) = b + 40" using b by (simp_all add: unat_minus)
  note m = m'_def save_regs_eq u snd_conv
  show "load64 m' b = rbp r" unfolding m by simp
  show "load64 m' (b + 8) = rbx r" unfolding m by (simp add: load64_store64_other)
  show "load64 m' (b + 16) = r12 r" unfolding m by (simp add: load64_store64_other)
  show "load64 m' (b + 24) = r13 r" unfolding m by (simp add: load64_store64_other)
  show "load64 m' (b + 32) = r14 r" unfolding m by (simp add: load64_store64_other)
  show "load64 m' (b + 40) = r15 r" unfolding m by (simp add: load64_store64_other)
  show "m' x = m x" if "x < b \<or> b + 48 \<le> x" for x unfolding m using that by (auto simp: store64_def store_bytes_def)
qed

text \<open>Loading the frame at \<open>b\<close>.\<close>

lemma load_frame:
  assumes "unat w = b" and "b + 56 < 2 ^ 64"
  shows "load_regs (r\<lparr>rsp := w\<rparr>, m) = (r\<lparr>rsp := w + 56, rbp := load64 m b, rbx := load64 m (b + 8), r12 := load64 m (b + 16),
    r13 := load64 m (b + 24), r14 := load64 m (b + 32), r15 := load64 m (b + 40), rip := load64 m (b + 48)\<rparr>, m)"
  using assms by (simp add: load_regs_eq unat_plus)

text \<open>The frame \<open>iretq\<close> pops: instruction pointer, code segment, flags, stack pointer, stack segment.\<close>

definition iret_frame :: "pmem \<Rightarrow> nat \<Rightarrow> u64 list" where
  "iret_frame m a = [load64 m a, load64 m (a + 8), load64 m (a + 16), load64 m (a + 24), load64 m (a + 32)]"

definition enters_user :: "image \<Rightarrow> u64 \<Rightarrow> u64 \<Rightarrow> regs \<times> pmem \<Rightarrow> bool" where
  "enters_user im entry usp rm \<longleftrightarrow> rip (fst rm) = TRAMPOLINE_ADDR im \<and>
     iret_frame (snd rm) (unat (rsp (fst rm))) = [entry, ucast USER_CODE_SEL, 0x202, usp, ucast USER_DATA_SEL]"

lemma user_frame_starts:
  assumes t: "96 \<le> unat tp" and sp: "sp = tp - 96"
    and m: "\<forall>i<12. load64 m (unat tp - 8 * Suc i) = user_frame im entry usp ! i"
  shows "enters_user im entry usp (load_regs (r\<lparr>rsp := sp\<rparr>, m))"
proof -
  obtain b where b: "unat tp = b + 96" using t by (metis add.commute le_add_diff_inverse)
  have u: "unat sp = b" using b by (simp add: sp unat_minus)
  have small: "b + 96 < 2 ^ 64" using b unsigned_less [of tp, where ?'a = nat] by simp
  have w: "load64 m (b + 48) = TRAMPOLINE_ADDR im" "load64 m (b + 56) = entry" "load64 m (b + 64) = ucast USER_CODE_SEL"
    "load64 m (b + 72) = 0x202" "load64 m (b + 80) = usp" "load64 m (b + 88) = ucast USER_DATA_SEL"
    using m [rule_format, of 5] m [rule_format, of 4] m [rule_format, of 3] m [rule_format, of 2] m [rule_format, of 1] m [rule_format, of 0]
    by (simp_all add: b user_frame_def add.commute)
  have "unat (sp + 56) = b + 56" using u small by (subst unat_plus) auto
  then show ?thesis using small w
    by (simp add: enters_user_def load_frame [OF u] iret_frame_def add.commute [of b])
qed

lemma unat_alloc: "a < 2 ^ 64 \<Longrightarrow> unat (word_of_nat a :: u64) = a"
  by (simp add: unat_of_nat)

lemma runs_kalloc:
  assumes ok: "large_ok (inner_heap s) lo hi bs" and n: "4096 < n" "n \<le> 2 ^ 62" "hi \<le> 2 ^ 62"
  shows "runs_to (kalloc KERNEL_CODE_SEL n) s (\<lambda>r s'. \<exists>a. r = Inr a \<and> a \<le> 2 ^ 62 \<and> ((\<forall>x. \<not> (lo \<le> x \<and> x < hi) \<longrightarrow> kmem s' x = kmem s x) \<and>
    (case fit (round8 (n + 24)) bs of None \<Rightarrow> a = 0 | Some _ \<Rightarrow> lo < a \<and> a + n \<le> hi)))"
proof -
  have l: "from_size_align n 8 = Some \<lparr> lsize = n, lalign = 8 \<rparr>" using n(2) power_of_two_power [of 3] by (simp add: from_size_align_def)
  have cpl: "get_cpl KERNEL_CODE_SEL \<noteq> 3" by (simp add: get_cpl_def KERNEL_CODE_SEL_def)
  have "runs_to (seg_alloc_aligned n 8) (inner_heap s) (\<lambda>r h. \<exists>a. r = Inr a \<and> a \<le> 2 ^ 62 \<and> ((\<forall>x. \<not> (lo \<le> x \<and> x < hi) \<longrightarrow> hmem h x = kmem s x) \<and>
      (case fit (round8 (n + 24)) bs of None \<Rightarrow> a = 0 | Some _ \<Rightarrow> lo < a \<and> a + n \<le> hi)))"
  proof (rule runs_to_mono [OF runs_alloc_inside [OF ok l, unfolded Layout.simps]], use n in simp, goal_cases)
    case (1 r h)
    have "n + 8 + 16 = n + 24" by simp
    with 1 show ?case using n by (cases "fit (round8 (n + 24)) bs") auto
  qed
  then show ?thesis by (simp add: kalloc_def l global_alloc_def cpl with_inner_def)
qed

lemma runs_new_user_task:
  assumes k: "SCHEDULER k = Some ts"
    and al: "runs_to (kalloc KERNEL_CODE_SEL (unat sz)) (memory k) (\<lambda>r s'. \<exists>a. r = Inr a \<and> a \<le> 2 ^ 62 \<and> C a s')"
    and sz: "4096 < unat sz" "unat sz \<le> 2 ^ 62" "sz \<le> usp"
  shows "runs_to (add_new_user_task im entry usp sz) k (\<lambda>r k'. r = Inr (NEXT_TASK_ID k) \<and> (\<exists>t. SCHEDULER k' = Some (ts @ [t]) \<and>
    task_id t = NEXT_TASK_ID k \<and> status t = Ready \<and> kernel_stack_top t = kernel_stack_bottom t + sz \<and>
    (\<forall>r. enters_user im entry usp (load_regs (r\<lparr>rsp := stack_top t\<rparr>, kmem (memory k')))) \<and>
    (\<exists>a h. kernel_stack_bottom t = word_of_nat a \<and> a \<le> 2 ^ 62 \<and> C a h \<and>
      (\<forall>x. \<not> (a \<le> x \<and> x < a + unat sz) \<longrightarrow> kmem (memory k') x = kmem h x))))"
proof -
  let ?k = "k\<lparr>NEXT_TASK_ID := NEXT_TASK_ID k + 1\<rparr>"
  obtain a h where a: "kalloc KERNEL_CODE_SEL (unat sz) (memory k) = Ok a h" "a \<le> 2 ^ 62" "C a h"
    using al by (auto simp: runs_to_def split: res.splits)
  let ?top = "word_of_nat a + sz :: u64" and ?f = "user_frame im entry usp"
  have sum: "unat (word_of_nat a :: u64) + unat sz < 2 ^ 64" using a(2) sz(2) by (simp add: unat_alloc)
  then have top: "unat ?top = a + unat sz" using a(2) by (simp add: unat_plus unat_alloc)
  have len: "length ?f = 12" by (simp add: user_frame_def)
  obtain m where m: "push_words ?f ?top (?k\<lparr>memory := h\<rparr>) = Ok (?top - 8 * word_of_nat (length ?f)) (?k\<lparr>memory := h\<lparr>kmem := m\<rparr>\<rparr>)"
    "\<forall>i<12. load64 m (unat ?top - 8 * Suc i) = ?f ! i" "\<forall>x. x < unat ?top - 96 \<or> unat ?top \<le> x \<longrightarrow> m x = kmem h x"
    using push_words_mem [of ?f ?top "?k\<lparr>memory := h\<rparr>"] sz(1) by (auto simp: len top)
  have "enters_user im entry usp (load_regs (r\<lparr>rsp := ?top - 96\<rparr>, m))" for r
    by (rule user_frame_starts [OF _ refl m(2)]) (use top sz(1) in simp)
  moreover have "\<forall>x. \<not> (a \<le> x \<and> x < a + unat sz) \<longrightarrow> m x = kmem h x" using m(3) sz(1) unfolding top by auto
  ultimately show ?thesis
    using k a sum sz(3) m(1) len
    by (auto simp: add_new_user_task_def fetch_add_id_def Let_def runs_to_def [of "kalloc c x" for c x] runs_to_def [of "push_words vs sp" for vs sp])
qed

text \<open>With a block that fits, only memory of the kernel heap changes.\<close>

lemma runs_new_task_in_heap:
  assumes "SCHEDULER k = Some ts" and "large_ok (inner_heap (memory k)) lo hi bs"
    and "4096 < unat sz" and "unat sz \<le> 2 ^ 62" and "hi \<le> 2 ^ 62" and "sz \<le> usp"
  shows "runs_to (add_new_user_task im entry usp sz) k (\<lambda>r k'. r = Inr (NEXT_TASK_ID k) \<and> (\<exists>t. SCHEDULER k' = Some (ts @ [t]) \<and>
    task_id t = NEXT_TASK_ID k \<and> status t = Ready \<and> kernel_stack_top t = kernel_stack_bottom t + sz \<and>
    (\<forall>r. enters_user im entry usp (load_regs (r\<lparr>rsp := stack_top t\<rparr>, kmem (memory k')))) \<and>
    (case fit (round8 (unat sz + 24)) bs of None \<Rightarrow> kernel_stack_bottom t = 0
     | Some _ \<Rightarrow> lo < unat (kernel_stack_bottom t) \<and> unat (kernel_stack_bottom t) + unat sz \<le> hi \<and>
         (\<forall>x. x < lo \<or> hi \<le> x \<longrightarrow> kmem (memory k') x = kmem (memory k) x))))"
proof (rule runs_to_mono [OF runs_new_user_task [OF assms(1) runs_kalloc [OF assms(2-5)] assms(3,4,6)]], goal_cases)
  case (1 r k')
  then obtain t a and h :: heaps where t: "r = Inr (NEXT_TASK_ID k)" "SCHEDULER k' = Some (ts @ [t])" "task_id t = NEXT_TASK_ID k" "status t = Ready"
      "kernel_stack_top t = kernel_stack_bottom t + sz" "\<forall>r. enters_user im entry usp (load_regs (r\<lparr>rsp := stack_top t\<rparr>, kmem (memory k')))"
    and a: "kernel_stack_bottom t = word_of_nat a" "a \<le> 2 ^ 62"
      "\<forall>x. \<not> (lo \<le> x \<and> x < hi) \<longrightarrow> kmem h x = kmem (memory k) x"
      "case fit (round8 (unat sz + 24)) bs of None \<Rightarrow> a = 0 | Some _ \<Rightarrow> lo < a \<and> a + unat sz \<le> hi"
      "\<forall>x. \<not> (a \<le> x \<and> x < a + unat sz) \<longrightarrow> kmem (memory k') x = kmem h x"
    by blast
  have bottom: "unat (kernel_stack_bottom t) = a" using a(1,2) by (simp add: unat_alloc)
  show ?case
  proof (cases "fit (round8 (unat sz + 24)) bs")
    case None
    then show ?thesis using t a(1,4) by auto
  next
    case (Some b)
    then have in_heap: "lo < a" "a + unat sz \<le> hi" using a(4) by simp_all
    have "kmem (memory k') x = kmem (memory k) x" if "x < lo \<or> hi \<le> x" for x
      using a(3,5) in_heap that by (metis (mono_tags) add.commute le_trans less_imp_le not_le)
    then show ?thesis using t Some in_heap by (auto simp: bottom)
  qed
qed

subsection \<open>Example\<close>

definition example_machine :: machine where
  "example_machine = (start_machine [0])\<lparr>
     cpus := [(start_cpu 0)\<lparr>msr := (\<lambda>_. 0)(MSR_IA32_GS_BASE := percpu_ptr example_image 0)\<rparr>],
     PERCPU_DATA_SLOTS := percpu_new\<lparr>current_task_index := 0\<rparr> # replicate MAX_AP_COUNT percpu_new\<rparr>"

definition example_kernel :: "heaps \<Rightarrow> kernel" where
  "example_kernel h = \<lparr> mach = example_machine, memory = h, SCHEDULER = Some [main_task, main_task\<lparr>task_id := 1, status := Ready\<rparr>],
     NEXT_TASK_ID = 2, registers = [\<lparr> rsp = 0, rbp = 0, rbx = 0, r12 = 0, r13 = 0, r14 = 0, r15 = 0, rip = 0 \<rparr>], notices = [] \<rparr>"

lemma example_image_ok: "image_ok example_image"
  by (simp add: image_ok_def example_image_def)

lemma example_view: "task_view example_image 0 0 (example_kernel h) [Running, Ready] 0"
  by (simp add: task_view_def example_image_ok example_kernel_def example_machine_def start_machine_def percpu_new_def main_task_def USIZE_MAX_def)

lemma example_inv: "sched_inv example_image 1 (example_kernel h)"
proof -
  have "tasks_of (example_kernel h) = [main_task, main_task\<lparr>task_id := 1, status := Ready\<rparr>]" by (simp add: example_kernel_def tasks_of_def)
  moreover have "cur_of (example_kernel h) 0 = 0"
    by (simp add: cur_of_def example_kernel_def example_machine_def)
  ultimately show ?thesis using example_view [of h]
    by (auto simp: sched_inv_def main_task_def less_Suc_eq) (simp_all add: example_kernel_def)
qed

subsection \<open>Properties\<close>

text \<open>
  C25.  The round robin is fair: on a processor with its own data, whichever task is current,
  every ready task is running there after at most as many calls of \<open>switch_task\<close> as there are
  tasks, each of which returns, if only that processor schedules.
\<close>

theorem round_robin_fair:
  assumes "task_view im c slot k sts cur" and "j < length sts" and "sts ! j = Ready"
  shows "\<exists>m \<le> length sts. runs_to (ap_rounds im c m) k (\<lambda>r k'. r = Inr () \<and>
    (\<exists>sts'. task_view im c slot k' sts' (word_of_nat j) \<and> sts' ! j = Running))"
proof -
  let ?n = "length sts" and ?i = "scan_from cur (length sts)"
  let ?d = "(j + ?n - ?i) mod ?n"
  have i: "?i < ?n" using assms(2) unfolding scan_from_def by (intro mod_less_divisor) linarith
  have d: "?d < ?n" using assms(2) by (intro mod_less_divisor) linarith
  have "(?i + ?d) mod ?n = (?i + (j + ?n - ?i)) mod ?n" by (simp add: mod_simps)
  also have "\<dots> = j" using i assms(2) by simp
  finally have j: "j = (?i + ?d) mod ?n" by simp
  obtain m where "m \<le> Suc ?d" "runs_to (ap_rounds im c m) k (\<lambda>r k'. r = Inr () \<and>
      (\<exists>sts'. task_view im c slot k' sts' (word_of_nat j) \<and> sts' ! j = Running))"
    using round_robin_reaches [OF assms d j] by blast
  then show ?thesis using d by (intro exI [of _ m]) auto
qed

theorem round_robin_fair_witness:
  "\<exists>m \<le> 2. runs_to (ap_rounds example_image 0 m) (example_kernel two_heaps) (\<lambda>r k'. r = Inr () \<and>
    (\<exists>sts'. task_view example_image 0 0 k' sts' 1 \<and> sts' ! 1 = Running))"
  using round_robin_fair [OF example_view, of 1 two_heaps] by (simp add: numeral_2_eq_2)




text \<open>
  C26.  A switched-out task resumes where it was: after \<open>context_switch\<close> has saved a task's stack
  pointer, and as long as nobody writes to the words it left on its stack, switching back to
  that stack pointer from any other stack restores its callee-saved registers, returns to the
  return address of its call and leaves its stack pointer just above it.
\<close>

theorem context_switch_resumes:
  assumes "unat (rsp r) = b + 48" and "b + 56 < 2 ^ 64"
    and "switch_regs new (r, m) = (saved, r1, m1)"
    and "\<forall>x. b \<le> x \<and> x < b + 56 \<longrightarrow> m2 x = m1 x"
    and "48 \<le> unat (rsp r2)" and "unat (rsp r2) \<le> b \<or> b + 56 \<le> unat (rsp r2) - 48"
  shows "unat saved = b \<and> (\<exists>r3 m3 saved2. switch_regs saved (r2, m2) = (saved2, r3, m3) \<and>
    rip r3 = load64 m (b + 48) \<and> rsp r3 = rsp r + 8 \<and> rbp r3 = rbp r \<and> rbx r3 = rbx r \<and>
    r12 r3 = r12 r \<and> r13 r3 = r13 r \<and> r14 r3 = r14 r \<and> r15 r3 = r15 r)"
proof -
  have sv: "saved = rsp r - 48" "m1 = snd (save_regs (r, m))"
    using assms(3) by (auto simp: switch_regs_def save_regs_eq load_regs_eq)
  have u: "unat saved = b" using assms(1) by (simp add: sv unat_minus)
  note w = save_regs_words [OF assms(1) sv(2)]
  obtain b2 where b2: "unat (rsp r2) = b2 + 48" using assms(5) by (metis add.commute le_add_diff_inverse)
  let ?m3 = "snd (save_regs (r2, m2))"
  note w2 = save_regs_words(7) [OF b2 refl, of _ m2]
  have same: "load64 ?m3 (b + i) = load64 m1 (b + i)" if "i + 8 \<le> 56" for i
    by (rule load64_cong) (use that assms(4,6) b2 w2 in auto)
  have ret: "load64 m1 (b + 48) = load64 m (b + 48)" by (rule load64_cong) (use w(7) in auto)
  have up: "saved + 56 = rsp r + 8" by (simp add: sv)
  have "switch_regs saved (r2, m2) = (rsp r2 - 48, load_regs (r2\<lparr>rsp := saved\<rparr>, ?m3))"
    by (simp add: switch_regs_def save_regs_eq)
  then show ?thesis
    using u w ret up same [of 0] same [of 8] same [of 16] same [of 24] same [of 32] same [of 40] same [of 48]
    by (simp add: load_frame [OF u assms(2)])
qed

definition example_regs :: "u64 \<Rightarrow> u64 \<Rightarrow> regs" where
  "example_regs sp v = \<lparr> rsp = sp, rbp = v, rbx = v + 1, r12 = v + 2, r13 = v + 3, r14 = v + 4, r15 = v + 5, rip = 0 \<rparr>"

theorem context_switch_resumes_witness:
  "\<exists>saved r1 m1 saved2 r3 m3. switch_regs 0x7000 (example_regs 0x3000 9, \<lambda>_. 0) = (saved, r1, m1) \<and>
     switch_regs saved (example_regs 0x7038 1, m1) = (saved2, r3, m3) \<and> r15 r3 = 14 \<and> rsp r3 = 0x3008"
proof -
  obtain saved r1 m1 where s: "switch_regs 0x7000 (example_regs 0x3000 9, \<lambda>_. 0) = (saved, r1, m1)" by (metis prod_cases3)
  have "unat (rsp (example_regs 0x3000 9)) = 0x2FD0 + 48" by (simp add: example_regs_def)
  from context_switch_resumes [OF this _ s, of m1 "example_regs 0x7038 1"] s show ?thesis by (fastforce simp: example_regs_def)
qed

text \<open>
  C27.  A new user task starts in user mode at its entry point: \<open>add_new_user_task\<close> appends one
  ready task under the next identifier, with a kernel stack of the requested size; loading the
  registers from its saved stack pointer reaches the trampoline with exactly the frame that
  \<open>iretq\<close> needs, user selectors, interrupts enabled, user stack and entry point.  The kernel
  stack is memory of the kernel heap when a block fits, and no other memory changes; when none
  does, the null pointer of the failed allocation is used as its bottom all the same.
\<close>

theorem new_user_task_frame:
  assumes "SCHEDULER k = Some ts" and "large_ok (inner_heap (memory k)) lo hi bs"
    and "4096 < unat sz" and "unat sz \<le> 2 ^ 62" and "hi \<le> 2 ^ 62" and "sz \<le> usp"
  shows "runs_to (add_new_user_task im entry usp sz) k (\<lambda>r k'. r = Inr (NEXT_TASK_ID k) \<and> (\<exists>t. SCHEDULER k' = Some (ts @ [t]) \<and>
    task_id t = NEXT_TASK_ID k \<and> status t = Ready \<and> kernel_stack_top t = kernel_stack_bottom t + sz \<and>
    (\<forall>r. enters_user im entry usp (load_regs (r\<lparr>rsp := stack_top t\<rparr>, kmem (memory k')))) \<and>
    (case fit (round8 (unat sz + 24)) bs of None \<Rightarrow> kernel_stack_bottom t = 0
     | Some _ \<Rightarrow> lo < unat (kernel_stack_bottom t) \<and> unat (kernel_stack_bottom t) + unat sz \<le> hi \<and>
         (\<forall>x. x < lo \<or> hi \<le> x \<longrightarrow> kmem (memory k') x = kmem (memory k) x))))"
  using assms by (rule runs_new_task_in_heap)

theorem new_user_task_frame_witness:
  "\<exists>s. runs_to (add_new_user_task example_image 0x400000 0x800000 16384) (example_kernel s) (\<lambda>r k'. r = Inr 2 \<and>
     length (tasks_of k') = 3 \<and> status (tasks_of k' ! 2) = Ready)"
proof -
  obtain s where s: "heaps_ok s 0x1C000 0x20000 [(0x1C000, 0x3FE0, True)] 0x2C000 0x30000 [(0x2C000, 0x3FE0, True)]"
    using initial_heaps by blast
  have k: "SCHEDULER (example_kernel s) = Some [main_task, main_task\<lparr>task_id := 1, status := Ready\<rparr>]"
    "large_ok (inner_heap (memory (example_kernel s))) 0x1C000 0x20000 [(0x1C000, 0x3FE0, True)]" "NEXT_TASK_ID (example_kernel s) = 2"
    using s by (simp_all add: example_kernel_def heaps_ok_def)
  have "runs_to (add_new_user_task example_image 0x400000 0x800000 16384) (example_kernel s) (\<lambda>r k'. r = Inr 2 \<and>
     length (tasks_of k') = 3 \<and> status (tasks_of k' ! 2) = Ready)"
    by (rule runs_to_mono [OF new_user_task_frame [OF k(1,2)]]) (auto simp: k(3) tasks_of_def)
  then show ?thesis by blast
qed

end
