(* ===== verification/Locks.thy ===== *)
theory Locks
  imports Prelude
begin

section \<open>Spin locks\<close>

text \<open>
  The two locks of the kernel on several processors: \<open>Spinlock\<close> of \<open>src/src/allocator.rs\<close>
  (the two heaps and the file system) and \<open>InterruptSpinlock\<close> of \<open>src/src/interrupts.rs\<close>
  (scheduler, console, keyboard).  Each processor has a stack of activations, the innermost
  first: an interrupt puts a new activation on top of the one it stops.  One step is one
  instruction that others can observe.  \<open>locked\<close> is the \<open>AtomicBool\<close>, \<open>intr\<close> the interrupt
  flag of each processor.
\<close>

subsection \<open>Definitions\<close>

datatype attempt = Lock | Try_lock

datatype phase =
    Outside
  | Saved attempt bool
  | Masked attempt bool
  | Holding bool
  | Released bool
  | Failed bool

record ispin =
  locked :: bool
  frames :: "phase list list"
  intr :: "bool list"

definition InterruptSpinlock_new :: "nat \<Rightarrow> ispin" where
  "InterruptSpinlock_new n = \<lparr> locked = False, frames = replicate n [Outside], intr = replicate n True \<rparr>"

definition put_frames :: "nat \<Rightarrow> phase list \<Rightarrow> ispin \<Rightarrow> ispin" where
  "put_frames c fs s = s\<lparr>frames := (frames s)[c := fs]\<rparr>"

definition put_intr :: "nat \<Rightarrow> bool \<Rightarrow> ispin \<Rightarrow> ispin" where
  "put_intr c b s = s\<lparr>intr := (intr s)[c := b]\<rparr>"

text \<open>The instructions of \<open>lock\<close>, \<open>try_lock\<close>, \<open>Drop\<close> and \<open>force_unlock\<close>.\<close>

definition pushfq :: "nat \<Rightarrow> attempt \<Rightarrow> phase list \<Rightarrow> ispin \<Rightarrow> ispin" where
  "pushfq c a fs s = put_frames c (Saved a (intr s ! c) # fs) s"

definition cli :: "nat \<Rightarrow> attempt \<Rightarrow> bool \<Rightarrow> phase list \<Rightarrow> ispin \<Rightarrow> ispin" where
  "cli c a b fs s = put_intr c False (put_frames c (Masked a b # fs) s)"

definition compare_exchange :: "nat \<Rightarrow> attempt \<Rightarrow> bool \<Rightarrow> phase list \<Rightarrow> ispin \<Rightarrow> ispin" where
  "compare_exchange c a b fs s =
     (if \<not> locked s then (put_frames c (Holding b # fs) s)\<lparr>locked := True\<rparr>
      else case a of Lock \<Rightarrow> s | Try_lock \<Rightarrow> put_frames c (Failed b # fs) s)"

definition guard_drop :: "nat \<Rightarrow> bool \<Rightarrow> phase list \<Rightarrow> ispin \<Rightarrow> ispin" where
  "guard_drop c b fs s = (put_frames c (Released b # fs) s)\<lparr>locked := False\<rparr>"

definition sti_if :: "nat \<Rightarrow> bool \<Rightarrow> phase list \<Rightarrow> ispin \<Rightarrow> ispin" where
  "sti_if c b fs s = (let t = put_frames c (Outside # fs) s in if b then put_intr c True t else t)"

definition force_unlock :: "ispin \<Rightarrow> ispin" where
  "force_unlock s = s\<lparr>locked := False\<rparr>"

text \<open>
  One step of processor \<open>c\<close>.  Outside the lock code the interrupt flag may change at will; an
  interrupt is taken only with the flag set, clears it, and its return restores it.
\<close>

inductive ispin_step :: "nat \<Rightarrow> ispin \<Rightarrow> ispin \<Rightarrow> bool" for c where
  read_flags: "c < length (frames s) \<Longrightarrow> frames s ! c = Outside # fs \<Longrightarrow> ispin_step c s (pushfq c a fs s)"
| mask: "c < length (frames s) \<Longrightarrow> frames s ! c = Saved a b # fs \<Longrightarrow> ispin_step c s (cli c a b fs s)"
| exchange: "c < length (frames s) \<Longrightarrow> frames s ! c = Masked a b # fs \<Longrightarrow> ispin_step c s (compare_exchange c a b fs s)"
| give_up: "c < length (frames s) \<Longrightarrow> frames s ! c = Failed b # fs \<Longrightarrow> ispin_step c s (sti_if c b fs s)"
| unlock: "c < length (frames s) \<Longrightarrow> frames s ! c = Holding b # fs \<Longrightarrow> ispin_step c s (guard_drop c b fs s)"
| restore: "c < length (frames s) \<Longrightarrow> frames s ! c = Released b # fs \<Longrightarrow> ispin_step c s (sti_if c b fs s)"
| flags: "c < length (frames s) \<Longrightarrow> frames s ! c = Outside # fs \<Longrightarrow> ispin_step c s (put_intr c b s)"
| interrupt: "c < length (frames s) \<Longrightarrow> intr s ! c \<Longrightarrow>
    ispin_step c s (put_intr c False (put_frames c (Outside # frames s ! c) s))"
| iret: "c < length (frames s) \<Longrightarrow> frames s ! c = Outside # f # fs \<Longrightarrow>
    ispin_step c s (put_intr c True (put_frames c (f # fs) s))"

definition ispin_any :: "ispin \<Rightarrow> ispin \<Rightarrow> bool" where
  "ispin_any s t \<longleftrightarrow> (\<exists>c. ispin_step c s t)"

text \<open>The plain lock: the same exchange, with the interrupt flag left alone.\<close>

datatype sphase = Free | Spinning | Owning

record spin =
  flag :: bool
  stacks :: "sphase list list"

definition Spinlock_new :: "nat \<Rightarrow> spin" where
  "Spinlock_new n = \<lparr> flag = False, stacks = replicate n [Free] \<rparr>"

definition put_stack :: "nat \<Rightarrow> sphase list \<Rightarrow> spin \<Rightarrow> spin" where
  "put_stack c fs s = s\<lparr>stacks := (stacks s)[c := fs]\<rparr>"

definition spin_exchange :: "nat \<Rightarrow> sphase list \<Rightarrow> spin \<Rightarrow> spin" where
  "spin_exchange c fs s = (if \<not> flag s then (put_stack c (Owning # fs) s)\<lparr>flag := True\<rparr> else s)"

definition spin_drop :: "nat \<Rightarrow> sphase list \<Rightarrow> spin \<Rightarrow> spin" where
  "spin_drop c fs s = (put_stack c (Free # fs) s)\<lparr>flag := False\<rparr>"

inductive spin_step :: "nat \<Rightarrow> spin \<Rightarrow> spin \<Rightarrow> bool" for c where
  call: "c < length (stacks s) \<Longrightarrow> stacks s ! c = Free # fs \<Longrightarrow> spin_step c s (put_stack c (Spinning # fs) s)"
| exchange: "c < length (stacks s) \<Longrightarrow> stacks s ! c = Spinning # fs \<Longrightarrow> spin_step c s (spin_exchange c fs s)"
| unlock: "c < length (stacks s) \<Longrightarrow> stacks s ! c = Owning # fs \<Longrightarrow> spin_step c s (spin_drop c fs s)"
| interrupt: "c < length (stacks s) \<Longrightarrow> spin_step c s (put_stack c (Free # stacks s ! c) s)"
| iret: "c < length (stacks s) \<Longrightarrow> stacks s ! c = Free # f # fs \<Longrightarrow> spin_step c s (put_stack c (f # fs) s)"

definition spin_any :: "spin \<Rightarrow> spin \<Rightarrow> bool" where
  "spin_any s t \<longleftrightarrow> (\<exists>c. spin_step c s t)"

inductive_cases ispin_stepE: "ispin_step c s t"
inductive_cases spin_stepE: "spin_step c s t"

subsection \<open>The contract of a lock\<close>

text \<open>
  What a client of either lock relies on: \<open>holders\<close> counts the activations between a
  successful exchange and the drop of the guard; it grows only from 0 and only by one.
\<close>

locale mutex = preserved step inv for step :: "'s \<Rightarrow> 's \<Rightarrow> bool" and inv :: "'s \<Rightarrow> bool" +
  fixes start :: 's and holders :: "'s \<Rightarrow> nat"
  assumes start_inv: "inv start"
    and start_free: "holders start = 0"
    and step_holders: "inv s \<Longrightarrow> step s t \<Longrightarrow> holders t \<le> holders s \<or> holders s = 0 \<and> holders t = 1"
begin

lemma reachable_inv: "step\<^sup>*\<^sup>* start s \<Longrightarrow> inv s"
  using steps_inv start_inv by blast

lemma exclusive: "step\<^sup>*\<^sup>* start s \<Longrightarrow> holders s \<le> 1"
proof (induction rule: rtranclp_induct)
  case base
  show ?case by (simp add: start_free)
next
  case (step s t)
  then show ?case using step_holders [OF reachable_inv] by fastforce
qed

end

subsection \<open>Both locks keep it\<close>

definition held :: "phase list \<Rightarrow> nat" where
  "held fs = length (filter (\<lambda>f. case f of Holding _ \<Rightarrow> True | _ \<Rightarrow> False) fs)"

definition holders :: "ispin \<Rightarrow> nat" where
  "holders s = sum_list (map held (frames s))"

definition masked :: "phase \<Rightarrow> bool" where
  "masked f \<longleftrightarrow> (case f of Outside \<Rightarrow> False | Saved _ _ \<Rightarrow> False | _ \<Rightarrow> True)"

text \<open>Only the innermost activation of a processor is past \<open>cli\<close>, and then interrupts are off.\<close>

definition cpu_ok :: "phase list \<Rightarrow> bool \<Rightarrow> bool" where
  "cpu_ok fs i \<longleftrightarrow> fs \<noteq> [] \<and> (masked (hd fs) \<longrightarrow> \<not> i) \<and> (\<forall>f\<in>set (tl fs). \<not> masked f)"

definition ispin_ok :: "ispin \<Rightarrow> bool" where
  "ispin_ok s \<longleftrightarrow> length (intr s) = length (frames s) \<and> holders s = (if locked s then 1 else 0) \<and>
     (\<forall>c<length (frames s). cpu_ok (frames s ! c) (intr s ! c))"

lemma held_simps [simp]:
  "held [] = 0" "held (Outside # fs) = held fs" "held (Saved a b # fs) = held fs" "held (Masked a b # fs) = held fs"
  "held (Holding b # fs) = Suc (held fs)" "held (Released b # fs) = held fs" "held (Failed b # fs) = held fs"
  by (simp_all add: held_def)

lemma masked_simps [simp]:
  "\<not> masked Outside" "\<not> masked (Saved a b)" "masked (Masked a b)" "masked (Holding b)" "masked (Released b)" "masked (Failed b)"
  by (simp_all add: masked_def)

lemma lock_update_simps [simp]:
  "frames (put_frames c fs s) = (frames s)[c := fs]" "intr (put_frames c fs s) = intr s" "locked (put_frames c fs s) = locked s"
  "frames (put_intr c b s) = frames s" "intr (put_intr c b s) = (intr s)[c := b]" "locked (put_intr c b s) = locked s"
  by (simp_all add: put_frames_def put_intr_def)

lemma sum_list_change:
  "c < length xs \<Longrightarrow> sum_list (map h (xs[c := x])) + h (xs ! c) = sum_list (map h xs) + (h x :: nat)"
  by (induction xs arbitrary: c) (auto split: nat.splits simp: nth_Cons)

lemma sum_list_ge: "c < length xs \<Longrightarrow> h (xs ! c) \<le> sum_list (map h xs :: nat list)"
  by (induction xs arbitrary: c) (auto split: nat.splits simp: nth_Cons trans_le_add2)

lemma holders_change: "c < length (frames s) \<Longrightarrow> frames t = (frames s)[c := fs] \<Longrightarrow>
    holders t + held (frames s ! c) = holders s + held fs"
  by (simp add: holders_def sum_list_change)

lemma holders_ge: "c < length (frames s) \<Longrightarrow> held (frames s ! c) \<le> holders s"
  by (simp add: holders_def sum_list_ge)

lemma unmasked_held: "\<forall>f\<in>set fs. \<not> masked f \<Longrightarrow> held fs = 0"
  by (induction fs) (auto simp: held_def masked_def split: phase.splits)

text \<open>A step that replaces the activations of one processor and sets its flag.\<close>

lemma ispin_ok_change:
  assumes ok: "ispin_ok s" and c: "c < length (frames s)"
    and t: "frames t = (frames s)[c := fs]" "intr t = (intr s)[c := i]"
    and cpu: "cpu_ok (frames s ! c) (intr s ! c) \<Longrightarrow> cpu_ok fs i"
    and l: "held fs + (if locked s then 1 else 0) = held (frames s ! c) + (if locked t then 1 else (0 :: nat))"
  shows "ispin_ok t"
proof -
  have "holders t + held (frames s ! c) = holders s + held fs" by (rule holders_change [OF c t(1)])
  moreover have "holders s = (if locked s then 1 else 0)" using ok by (simp add: ispin_ok_def)
  ultimately have "holders t = (if locked t then 1 else 0)" using l by (auto split: if_splits)
  then show ?thesis using ok c cpu by (auto simp: ispin_ok_def t nth_list_update)
qed

lemma ispin_step_ok:
  assumes "ispin_ok s" and "ispin_step c s t"
  shows "ispin_ok t"
  using assms(2)
proof cases
  case (exchange a b fs)
  have free: "held fs = 0" using assms(1) exchange by (auto simp: ispin_ok_def cpu_ok_def dest!: spec [of _ c] intro!: unmasked_held)
  show ?thesis
  proof (cases "locked s")
    case True
    show ?thesis
    proof (cases a)
      case Lock
      then show ?thesis using assms(1) True by (simp add: exchange(1) compare_exchange_def)
    next
      case Try_lock
      then show ?thesis using True exchange
        by (intro ispin_ok_change [OF assms(1), of c _ "Failed b # fs" "intr s ! c"]) (auto simp: compare_exchange_def cpu_ok_def)
    qed
  next
    case False
    then show ?thesis using exchange
      by (intro ispin_ok_change [OF assms(1), of c _ "Holding b # fs" "intr s ! c"]) (auto simp: compare_exchange_def cpu_ok_def)
  qed
next
  case (unlock b fs)
  have "locked s" using assms(1) holders_ge [OF unlock(2)] unlock by (auto simp: ispin_ok_def split: if_splits)
  then show ?thesis using unlock
    by (intro ispin_ok_change [OF assms(1), of c _ "Released b # fs" "intr s ! c"]) (auto simp: guard_drop_def cpu_ok_def)
next
  case (read_flags fs a)
  then show ?thesis
    by (intro ispin_ok_change [OF assms(1), of c _ "Saved a (intr s ! c) # fs" "intr s ! c"]) (auto simp: pushfq_def cpu_ok_def)
next
  case (mask a b fs)
  then show ?thesis by (intro ispin_ok_change [OF assms(1), of c _ "Masked a b # fs" False]) (auto simp: cli_def cpu_ok_def)
next
  case (give_up b fs)
  then show ?thesis
    by (intro ispin_ok_change [OF assms(1), of c _ "Outside # fs" "if b then True else intr s ! c"]) (auto simp: sti_if_def Let_def cpu_ok_def)
next
  case (restore b fs)
  then show ?thesis
    by (intro ispin_ok_change [OF assms(1), of c _ "Outside # fs" "if b then True else intr s ! c"]) (auto simp: sti_if_def Let_def cpu_ok_def)
next
  case (flags fs b)
  then show ?thesis using list_update_id [of "frames s" c]
    by (intro ispin_ok_change [OF assms(1), of c _ "Outside # fs" b]) (auto simp: cpu_ok_def)
next
  case interrupt
  then show ?thesis
    by (intro ispin_ok_change [OF assms(1), of c _ "Outside # frames s ! c" False]) (auto simp: cpu_ok_def neq_Nil_conv)
next
  case (iret f fs)
  then show ?thesis by (intro ispin_ok_change [OF assms(1), of c _ "f # fs" True]) (auto simp: cpu_ok_def)
qed


lemma ispin_new_ok: "ispin_ok (InterruptSpinlock_new n)" "holders (InterruptSpinlock_new n) = 0"
  by (simp_all add: ispin_ok_def InterruptSpinlock_new_def holders_def cpu_ok_def held_def)

lemma ispin_holders: "ispin_ok s \<Longrightarrow> ispin_ok t \<Longrightarrow> holders t \<le> holders s \<or> holders s = 0 \<and> holders t = 1"
  by (auto simp: ispin_ok_def)

interpretation islk: mutex ispin_any ispin_ok "InterruptSpinlock_new n" holders for n
proof
  show "ispin_ok t" if "ispin_ok s" "ispin_any s t" for s t using that by (auto simp: ispin_any_def intro: ispin_step_ok)
  then show "holders t \<le> holders s \<or> holders s = 0 \<and> holders t = 1" if "ispin_ok s" "ispin_any s t" for s t
    using that by (intro ispin_holders)
qed (simp_all add: ispin_new_ok)

definition owned :: "sphase list \<Rightarrow> nat" where
  "owned fs = length (filter (\<lambda>f. f = Owning) fs)"

definition owners :: "spin \<Rightarrow> nat" where
  "owners s = sum_list (map owned (stacks s))"

definition spin_ok :: "spin \<Rightarrow> bool" where
  "spin_ok s \<longleftrightarrow> owners s = (if flag s then 1 else 0)"

lemma owned_simps [simp]:
  "owned [] = 0" "owned (Free # fs) = owned fs" "owned (Spinning # fs) = owned fs" "owned (Owning # fs) = Suc (owned fs)"
  "owned (fs @ gs) = owned fs + owned gs"
  by (simp_all add: owned_def)

lemma spin_update_simps [simp]:
  "stacks (put_stack c fs s) = (stacks s)[c := fs]" "flag (put_stack c fs s) = flag s"
  by (simp_all add: put_stack_def)

lemma owners_change: "c < length (stacks s) \<Longrightarrow> stacks t = (stacks s)[c := fs] \<Longrightarrow>
    owners t + owned (stacks s ! c) = owners s + owned fs"
  by (simp add: owners_def sum_list_change)

lemma owners_ge: "c < length (stacks s) \<Longrightarrow> owned (stacks s ! c) \<le> owners s"
  by (simp add: owners_def sum_list_ge)

lemma owners_ge2:
  assumes "c < length (stacks s)" "d < length (stacks s)" "c \<noteq> d"
  shows "owned (stacks s ! c) + owned (stacks s ! d) \<le> owners s"
proof -
  have "owners (put_stack c [] s) + owned (stacks s ! c) = owners s" using owners_change [OF assms(1), of "put_stack c [] s" "[]"] by simp
  moreover have "owned (stacks s ! d) \<le> owners (put_stack c [] s)" using owners_ge [of d "put_stack c [] s"] assms by simp
  ultimately show ?thesis by simp
qed

lemma spin_ok_change:
  assumes "spin_ok s" "c < length (stacks s)" "stacks t = (stacks s)[c := fs]"
    "owned fs + (if flag s then 1 else 0) = owned (stacks s ! c) + (if flag t then 1 else (0 :: nat))"
  shows "spin_ok t"
  using owners_change [OF assms(2,3)] assms(1,4) by (auto simp: spin_ok_def split: if_splits)

lemma spin_step_ok:
  assumes "spin_ok s" and "spin_step c s t"
  shows "spin_ok t"
  using assms(2)
proof cases
  case (call fs)
  then show ?thesis by (intro spin_ok_change [OF assms(1), of c _ "Spinning # fs"]) auto
next
  case (exchange fs)
  then show ?thesis
    by (cases "flag s") (auto simp: spin_exchange_def assms(1) intro!: spin_ok_change [OF assms(1), of c _ "Owning # fs"])
next
  case (unlock fs)
  have "flag s" using assms(1) owners_ge [OF unlock(2)] unlock by (auto simp: spin_ok_def split: if_splits)
  then show ?thesis using unlock by (intro spin_ok_change [OF assms(1), of c _ "Free # fs"]) (auto simp: spin_drop_def)
next
  case interrupt
  then show ?thesis by (intro spin_ok_change [OF assms(1), of c _ "Free # stacks s ! c"]) auto
next
  case (iret f fs)
  then show ?thesis by (intro spin_ok_change [OF assms(1), of c _ "f # fs"]) auto
qed

lemma spin_new_ok: "spin_ok (Spinlock_new n)" "owners (Spinlock_new n) = 0"
  by (simp_all add: spin_ok_def Spinlock_new_def owners_def)

lemma spin_owners: "spin_ok s \<Longrightarrow> spin_ok t \<Longrightarrow> owners t \<le> owners s \<or> owners s = 0 \<and> owners t = 1"
  by (auto simp: spin_ok_def)

interpretation slk: mutex spin_any spin_ok "Spinlock_new n" owners for n
proof
  show "spin_ok t" if "spin_ok s" "spin_any s t" for s t using that by (auto simp: spin_any_def intro: spin_step_ok)
  then show "owners t \<le> owners s \<or> owners s = 0 \<and> owners t = 1" if "spin_ok s" "spin_any s t" for s t
    using that by (intro spin_owners)
qed (simp_all add: spin_new_ok)

subsection \<open>Progress and deadlock\<close>

lemma holding_on_top:
  assumes ok: "ispin_ok s" and d: "d < length (frames s)" and h: "0 < held (frames s ! d)"
  obtains b fs where "frames s ! d = Holding b # fs"
proof -
  have cpu: "cpu_ok (frames s ! d) (intr s ! d)" using ok d by (simp add: ispin_ok_def)
  then obtain f fs where f: "frames s ! d = f # fs" by (auto simp: cpu_ok_def neq_Nil_conv)
  have "held fs = 0" using cpu by (intro unmasked_held) (simp add: f cpu_ok_def)
  with h f that show thesis by (cases f) auto
qed

lemma locked_holder:
  assumes ok: "ispin_ok s" and l: "locked s"
  obtains d b fs where "d < length (frames s)" "frames s ! d = Holding b # fs"
proof -
  have "0 < sum_list (map held (frames s))" using assms by (simp add: ispin_ok_def holders_def)
  then have "\<exists>fs\<in>set (frames s). 0 < held fs" by (rule contrapos_pp) auto
  then obtain d where "d < length (frames s)" "0 < held (frames s ! d)" by (auto simp: in_set_conv_nth)
  then show thesis using holding_on_top [OF ok] that by metis
qed

lemma ispin_step_any: "ispin_step c s t \<Longrightarrow> ispin_any\<^sup>*\<^sup>* s t"
  unfolding ispin_any_def by (rule r_into_rtranclp) blast

text \<open>A processor at the exchange of \<open>lock\<close> gets the lock, after its holder drops it if need be.\<close>

lemma masked_acquires:
  assumes ok: "ispin_ok s" and c: "c < length (frames s)" "frames s ! c = Masked Lock b # fs"
  shows "\<exists>t. ispin_any\<^sup>*\<^sup>* s t \<and> frames t ! c = Holding b # fs \<and> length (frames t) = length (frames s)"
proof -
  have free: "\<exists>t. ispin_any\<^sup>*\<^sup>* s t \<and> frames t ! c = Holding b # fs \<and> length (frames t) = length (frames s)"
    if "c < length (frames s)" "frames s ! c = Masked Lock b # fs" "\<not> locked s" for s
    using ispin_step_any [OF ispin_step.exchange [OF that(1,2)]] that
    by (intro exI [of _ "compare_exchange c Lock b fs s"]) (simp add: compare_exchange_def)
  show ?thesis
  proof (cases "locked s")
    case False
    then show ?thesis using free c by blast
  next
    case True
    obtain d b' fs' where d: "d < length (frames s)" "frames s ! d = Holding b' # fs'" using locked_holder [OF ok True] by blast
    let ?t = "guard_drop d b' fs' s"
    have "d \<noteq> c" using c d by auto
    then have "\<exists>u. ispin_any\<^sup>*\<^sup>* ?t u \<and> frames u ! c = Holding b # fs \<and> length (frames u) = length (frames ?t)"
      using c by (intro free) (auto simp: guard_drop_def)
    moreover have "length (frames ?t) = length (frames s)" by (simp add: guard_drop_def)
    moreover have "ispin_any\<^sup>*\<^sup>* s ?t" by (rule ispin_step_any [OF ispin_step.unlock [OF d]])
    ultimately show ?thesis using rtranclp_trans [of ispin_any s ?t] by fastforce
  qed
qed

lemma outside_to_masked:
  assumes "c < length (frames s)" "frames s ! c = Outside # fs"
  shows "ispin_any\<^sup>*\<^sup>* s (cli c a (intr s ! c) fs (pushfq c a fs s))"
proof -
  have "ispin_any\<^sup>*\<^sup>* s (pushfq c a fs s)" by (rule ispin_step_any [OF ispin_step.read_flags [OF assms]])
  moreover have "ispin_any\<^sup>*\<^sup>* (pushfq c a fs s) (cli c a (intr s ! c) fs (pushfq c a fs s))"
    using assms by (intro ispin_step_any [OF ispin_step.mask]) (simp_all add: pushfq_def)
  ultimately show ?thesis by (rule rtranclp_trans)
qed

lemma holding_to_outside:
  assumes "ispin_ok s" "c < length (frames s)" "frames s ! c = Holding b # fs"
  shows "\<exists>t. ispin_any\<^sup>*\<^sup>* s t \<and> frames t ! c = Outside # fs \<and> intr t ! c = b \<and> \<not> locked t"
proof -
  let ?r = "guard_drop c b fs s"
  have off: "\<not> intr s ! c" "length (intr s) = length (frames s)" using assms by (auto simp: ispin_ok_def cpu_ok_def dest: spec [of _ c])
  have "ispin_any\<^sup>*\<^sup>* s ?r" by (rule ispin_step_any [OF ispin_step.unlock [OF assms(2,3)]])
  moreover have "ispin_any\<^sup>*\<^sup>* ?r (sti_if c b fs ?r)"
    using assms(2) by (intro ispin_step_any [OF ispin_step.restore]) (simp_all add: guard_drop_def)
  ultimately have "ispin_any\<^sup>*\<^sup>* s (sti_if c b fs ?r)" by (rule rtranclp_trans)
  then show ?thesis using assms(2) off by (intro exI [of _ "sti_if c b fs ?r"]) (simp add: sti_if_def Let_def guard_drop_def)
qed

text \<open>
  A handler that spins for a plain lock held by the activation it interrupted: the owner
  below it never runs again, so the lock stays taken and the handler spins forever.
\<close>

definition stuck :: "nat \<Rightarrow> sphase list \<Rightarrow> spin \<Rightarrow> bool" where
  "stuck c fs s \<longleftrightarrow> spin_ok s \<and> flag s \<and> c < length (stacks s) \<and> Owning \<in> set fs \<and>
     (\<exists>ps. stacks s ! c = ps @ Spinning # fs)"

lemma owning_owned: "Owning \<in> set fs \<Longrightarrow> 0 < owned fs"
  by (auto simp: owned_def filter_empty_conv)

lemma stuck_other:
  assumes "stuck c fs s" "d < length (stacks s)" "stacks s ! d = f # gs" "f = Owning"
  shows "d = c \<and> gs = tl (stacks s ! c) \<and> False"
proof -
  obtain ps where s: "owners s = 1" "c < length (stacks s)" "0 < owned fs" "stacks s ! c = ps @ Spinning # fs"
    using assms(1) by (auto simp: stuck_def spin_ok_def owning_owned)
  show ?thesis
  proof (cases "d = c")
    case True
    have "owned (stacks s ! c) \<le> 1" using owners_ge [OF s(2)] s(1) by simp
    then show ?thesis using s(3,4) assms(3,4) True by (cases ps) auto
  next
    case False
    then show ?thesis using owners_ge2 [of c s d] s assms by simp
  qed
qed

lemma stuck_step:
  assumes st: "stuck c fs s" and step: "spin_step d s t"
  shows "stuck c fs t"
proof -
  have ok: "spin_ok t" by (rule spin_step_ok [OF _ step]) (use st in \<open>simp add: stuck_def\<close>)
  obtain ps where s: "flag s" "c < length (stacks s)" "Owning \<in> set fs" "stacks s ! c = ps @ Spinning # fs"
    using st by (auto simp: stuck_def)
  show ?thesis using step
  proof cases
    case (call gs)
    then show ?thesis using s ok by (cases "d = c"; cases ps) (auto simp: stuck_def Cons_eq_append_conv intro: exI [of _ "Spinning # tl ps"])
  next
    case (exchange gs)
    then show ?thesis using st s by (simp add: spin_exchange_def)
  next
    case (unlock gs)
    then show ?thesis using stuck_other [OF st unlock(2,3)] by simp
  next
    case interrupt
    then show ?thesis using s ok by (cases "d = c") (auto simp: stuck_def intro: exI [of _ "Free # ps"])
  next
    case (iret f gs)
    have "\<exists>qs. stacks t ! c = qs @ Spinning # fs" using iret s by (cases "d = c"; cases ps) (auto dest: sym)
    then show ?thesis using iret s ok by (simp add: stuck_def)
  qed
qed

lemma stuck_forever: "spin_any\<^sup>*\<^sup>* s t \<Longrightarrow> stuck c fs s \<Longrightarrow> stuck c fs t"
  by (induction rule: rtranclp_induct) (auto simp: spin_any_def intro: stuck_step)


text \<open>\<open>force_unlock\<close> on a lock that is really held lets a second processor in.\<close>

lemma force_unlock_two_holders:
  assumes "c < length (frames s)" "frames s ! c = Masked a b # fs"
  shows "holders (compare_exchange c a b fs (force_unlock s)) = Suc (holders s)"
  using holders_change [of c "force_unlock s" "compare_exchange c a b fs (force_unlock s)" "Holding b # fs"] assms
  by (simp add: compare_exchange_def force_unlock_def holders_def)

subsection \<open>Examples\<close>

definition one_holder :: ispin where
  "one_holder = \<lparr> locked = True, frames = [[Holding True], [Outside]], intr = [False, True] \<rparr>"

lemma one_holder_reachable: "ispin_any\<^sup>*\<^sup>* (InterruptSpinlock_new 2) one_holder"
proof -
  let ?s = "InterruptSpinlock_new 2"
  let ?m = "cli 0 Lock (intr ?s ! 0) [] (pushfq 0 Lock [] ?s)"
  have "ispin_any\<^sup>*\<^sup>* ?s ?m" by (rule outside_to_masked) (simp_all add: InterruptSpinlock_new_def)
  also have "ispin_any\<^sup>*\<^sup>* ?m (compare_exchange 0 Lock True [] ?m)"
    by (intro ispin_step_any [OF ispin_step.exchange]) (simp_all add: cli_def pushfq_def InterruptSpinlock_new_def)
  also have "compare_exchange 0 Lock True [] ?m = one_holder"
    by (simp add: one_holder_def compare_exchange_def cli_def pushfq_def put_frames_def put_intr_def InterruptSpinlock_new_def numeral_2_eq_2)
  finally show ?thesis .
qed

definition self_wait :: spin where
  "self_wait = \<lparr> flag = True, stacks = [[Spinning, Owning]] \<rparr>"

lemma self_wait_reachable: "spin_any\<^sup>*\<^sup>* (Spinlock_new 1) self_wait"
proof -
  have step: "spin_any\<^sup>*\<^sup>* s t \<Longrightarrow> spin_step 0 t u \<Longrightarrow> spin_any\<^sup>*\<^sup>* s u" for s t u
    by (rule rtranclp.rtrancl_into_rtrancl) (auto simp: spin_any_def)
  let ?s = "Spinlock_new 1"
  let ?a = "put_stack 0 [Spinning] ?s"
  let ?b = "spin_exchange 0 [] ?a"
  let ?c = "put_stack 0 (Free # stacks ?b ! 0) ?b"
  have "spin_any\<^sup>*\<^sup>* ?s ?a" by (rule step [OF rtranclp.rtrancl_refl spin_step.call]) (simp_all add: Spinlock_new_def)
  then have "spin_any\<^sup>*\<^sup>* ?s ?b" by (rule step [OF _ spin_step.exchange]) (simp_all add: Spinlock_new_def)
  then have "spin_any\<^sup>*\<^sup>* ?s ?c" by (rule step [OF _ spin_step.interrupt]) (simp add: Spinlock_new_def spin_exchange_def)
  then have "spin_any\<^sup>*\<^sup>* ?s (put_stack 0 [Spinning, Owning] ?c)"
    by (rule step [OF _ spin_step.call]) (simp_all add: Spinlock_new_def spin_exchange_def)
  then show ?thesis by (simp add: self_wait_def Spinlock_new_def spin_exchange_def put_stack_def)
qed

subsection \<open>Properties\<close>







end
