(* ===== verification/Acpi_Tables.thy ===== *)
theory Acpi_Tables
  imports Phys
begin

section \<open>Firmware tables in memory\<close>

text \<open>
  The packed structures of \<open>src/src/acpi.rs\<close>, each as a record with the function that reads it
  through a pointer: the fields lie one behind the other, little-endian and unaligned.
\<close>

definition load8 :: "pmem \<Rightarrow> nat \<Rightarrow> u8" where
  "load8 m a = m a"

definition load16 :: "pmem \<Rightarrow> nat \<Rightarrow> u16" where
  "load16 m a = from_le (load_bytes m a 2)"

definition load32 :: "pmem \<Rightarrow> nat \<Rightarrow> u32" where
  "load32 m a = from_le (load_bytes m a 4)"

subsection \<open>Root pointer and table header\<close>

record Rsdp =
  Rsdp_signature :: bytes
  Rsdp_checksum :: u8
  Rsdp_oem_id :: bytes
  Rsdp_revision :: u8
  Rsdp_rsdt_address :: u32

definition rsdp_at :: "pmem \<Rightarrow> nat \<Rightarrow> Rsdp" where
  "rsdp_at m a = \<lparr>
    Rsdp_signature = load_bytes m a 8, Rsdp_checksum = load8 m (a + 8),
    Rsdp_oem_id = load_bytes m (a + 9) 6, Rsdp_revision = load8 m (a + 15),
    Rsdp_rsdt_address = load32 m (a + 16) \<rparr>"

record RsdpV2 =
  RsdpV2_v1 :: Rsdp
  RsdpV2_length :: u32
  RsdpV2_xsdt_address :: u64
  RsdpV2_extended_checksum :: u8
  RsdpV2_reserved :: bytes

definition rsdp_v2_at :: "pmem \<Rightarrow> nat \<Rightarrow> RsdpV2" where
  "rsdp_v2_at m a = \<lparr>
    RsdpV2_v1 = rsdp_at m a, RsdpV2_length = load32 m (a + 20),
    RsdpV2_xsdt_address = load64 m (a + 24), RsdpV2_extended_checksum = load8 m (a + 32),
    RsdpV2_reserved = load_bytes m (a + 33) 3 \<rparr>"

record SdtHeader =
  Sdt_signature :: bytes
  Sdt_length :: u32
  Sdt_revision :: u8
  Sdt_checksum :: u8
  Sdt_oem_id :: bytes
  Sdt_oem_table_id :: bytes
  Sdt_oem_revision :: u32
  Sdt_creator_id :: u32
  Sdt_creator_revision :: u32

definition sdt_at :: "pmem \<Rightarrow> nat \<Rightarrow> SdtHeader" where
  "sdt_at m a = \<lparr>
    Sdt_signature = load_bytes m a 4, Sdt_length = load32 m (a + 4), Sdt_revision = load8 m (a + 8),
    Sdt_checksum = load8 m (a + 9), Sdt_oem_id = load_bytes m (a + 10) 6,
    Sdt_oem_table_id = load_bytes m (a + 16) 8, Sdt_oem_revision = load32 m (a + 24),
    Sdt_creator_id = load32 m (a + 28), Sdt_creator_revision = load32 m (a + 32) \<rparr>"

subsection \<open>Interrupt controllers\<close>

record MadtHeader =
  Madt_local_apic_address :: u32
  Madt_flags :: u32

definition madt_header_at :: "pmem \<Rightarrow> nat \<Rightarrow> MadtHeader" where
  "madt_header_at m a = \<lparr>
    Madt_local_apic_address = load32 m a, Madt_flags = load32 m (a + 4) \<rparr>"

datatype MadtEntryType =
    LocalApic | IoApic | InterruptSourceOverride | NmiSource | LocalApicNmi
  | LocalApicAddressOverride | IoSapic | LocalSapic | PlatformInterruptSource
  | LocalX2Apic | LocalX2ApicNmi | Gic | GicDistributor | Unknown u8

definition MadtEntryType_from :: "u8 \<Rightarrow> MadtEntryType" where
  "MadtEntryType_from v =
     (if v = 0 then LocalApic else if v = 1 then IoApic else if v = 2 then InterruptSourceOverride
      else if v = 3 then NmiSource else if v = 4 then LocalApicNmi
      else if v = 5 then LocalApicAddressOverride else if v = 6 then IoSapic
      else if v = 7 then LocalSapic else if v = 8 then PlatformInterruptSource
      else if v = 9 then LocalX2Apic else if v = 10 then LocalX2ApicNmi
      else if v = 11 then Gic else if v = 12 then GicDistributor else Unknown v)"

record MadtEntryHeader =
  Entry_entry_type :: u8
  Entry_length :: u8

definition entry_header_at :: "pmem \<Rightarrow> nat \<Rightarrow> MadtEntryHeader" where
  "entry_header_at m a = \<lparr>
    Entry_entry_type = load8 m a, Entry_length = load8 m (a + 1) \<rparr>"

record LocalApicEntry =
  Lapic_header :: MadtEntryHeader
  Lapic_acpi_processor_uid :: u8
  Lapic_apic_id :: u8
  Lapic_flags :: u32

definition local_apic_at :: "pmem \<Rightarrow> nat \<Rightarrow> LocalApicEntry" where
  "local_apic_at m a = \<lparr>
    Lapic_header = entry_header_at m a, Lapic_acpi_processor_uid = load8 m (a + 2),
    Lapic_apic_id = load8 m (a + 3), Lapic_flags = load32 m (a + 4) \<rparr>"

record IoApicEntry =
  Ioapic_header :: MadtEntryHeader
  Ioapic_io_apic_id :: u8
  Ioapic_reserved :: u8
  Ioapic_io_apic_address :: u32
  Ioapic_global_system_interrupt_base :: u32

definition io_apic_at :: "pmem \<Rightarrow> nat \<Rightarrow> IoApicEntry" where
  "io_apic_at m a = \<lparr>
    Ioapic_header = entry_header_at m a, Ioapic_io_apic_id = load8 m (a + 2),
    Ioapic_reserved = load8 m (a + 3), Ioapic_io_apic_address = load32 m (a + 4),
    Ioapic_global_system_interrupt_base = load32 m (a + 8) \<rparr>"

record InterruptSourceOverrideEntry =
  Iso_header :: MadtEntryHeader
  Iso_bus :: u8
  Iso_source :: u8
  Iso_global_system_interrupt :: u32
  Iso_flags :: u16

definition iso_at :: "pmem \<Rightarrow> nat \<Rightarrow> InterruptSourceOverrideEntry" where
  "iso_at m a = \<lparr>
    Iso_header = entry_header_at m a, Iso_bus = load8 m (a + 2), Iso_source = load8 m (a + 3),
    Iso_global_system_interrupt = load32 m (a + 4), Iso_flags = load16 m (a + 8) \<rparr>"

record LocalApicNmiEntry =
  Lnmi_header :: MadtEntryHeader
  Lnmi_acpi_processor_uid :: u8
  Lnmi_flags :: u16
  Lnmi_local_apic_lint :: u8

definition lapic_nmi_at :: "pmem \<Rightarrow> nat \<Rightarrow> LocalApicNmiEntry" where
  "lapic_nmi_at m a = \<lparr>
    Lnmi_header = entry_header_at m a, Lnmi_acpi_processor_uid = load8 m (a + 2),
    Lnmi_flags = load16 m (a + 3), Lnmi_local_apic_lint = load8 m (a + 5) \<rparr>"

record MadtInfo =
  local_apic_address :: u64
  cpu_count :: u8
  apic_ids :: bytes
  io_apic_address :: u32
  io_apic_gsi_base :: u32

definition MadtInfo_default :: MadtInfo where
  "MadtInfo_default = \<lparr> local_apic_address = 0, cpu_count = 0, apic_ids = replicate 64 0,
     io_apic_address = 0, io_apic_gsi_base = 0 \<rparr>"

subsection \<open>Fixed hardware, timer and configuration space\<close>

record GenericAddress =
  Gas_address_space_id :: u8
  Gas_register_bit_width :: u8
  Gas_register_bit_offset :: u8
  Gas_access_size :: u8
  Gas_address :: u64

definition gas_at :: "pmem \<Rightarrow> nat \<Rightarrow> GenericAddress" where
  "gas_at m a = \<lparr>
    Gas_address_space_id = load8 m a, Gas_register_bit_width = load8 m (a + 1),
    Gas_register_bit_offset = load8 m (a + 2), Gas_access_size = load8 m (a + 3),
    Gas_address = load64 m (a + 4) \<rparr>"

record Fadt =
  Fadt_header :: SdtHeader
  Fadt_firmware_ctrl :: u32
  Fadt_dsdt :: u32
  Fadt_reserved1 :: u8
  Fadt_preferred_power_mgmt_profile :: u8
  Fadt_sci_interrupt :: u16
  Fadt_smi_command_port :: u32
  Fadt_acpi_enable :: u8
  Fadt_acpi_disable :: u8
  Fadt_s4bios_req :: u8
  Fadt_pstate_control :: u8
  Fadt_pm1a_event_block :: u32
  Fadt_pm1b_event_block :: u32
  Fadt_pm1a_control_block :: u32
  Fadt_pm1b_control_block :: u32
  Fadt_pm2_control_block :: u32
  Fadt_pm_timer_block :: u32
  Fadt_gpe0_block :: u32
  Fadt_gpe1_block :: u32
  Fadt_pm1_event_length :: u8
  Fadt_pm1_control_length :: u8
  Fadt_pm2_control_length :: u8
  Fadt_pm_timer_length :: u8
  Fadt_gpe0_length :: u8
  Fadt_gpe1_length :: u8
  Fadt_gpe1_base :: u8
  Fadt_cstate_control :: u8
  Fadt_worst_c2_latency :: u16
  Fadt_worst_c3_latency :: u16
  Fadt_flush_size :: u16
  Fadt_flush_stride :: u16
  Fadt_duty_offset :: u8
  Fadt_duty_width :: u8
  Fadt_day_alarm :: u8
  Fadt_month_alarm :: u8
  Fadt_century :: u8
  Fadt_boot_architecture_flags :: u16
  Fadt_reserved2 :: u8
  Fadt_flags :: u32
  Fadt_reset_reg :: GenericAddress
  Fadt_reset_value :: u8
  Fadt_arm_boot_arch :: u16
  Fadt_fadt_minor_version :: u8
  Fadt_x_firmware_control :: u64
  Fadt_x_dsdt :: u64
  Fadt_x_pm1a_event_block :: GenericAddress
  Fadt_x_pm1b_event_block :: GenericAddress
  Fadt_x_pm1a_control_block :: GenericAddress
  Fadt_x_pm1b_control_block :: GenericAddress
  Fadt_x_pm2_control_block :: GenericAddress
  Fadt_x_pm_timer_block :: GenericAddress
  Fadt_x_gpe0_block :: GenericAddress
  Fadt_x_gpe1_block :: GenericAddress

definition fadt_at :: "pmem \<Rightarrow> nat \<Rightarrow> Fadt" where
  "fadt_at m a = \<lparr>
    Fadt_header = sdt_at m a, Fadt_firmware_ctrl = load32 m (a + 36), Fadt_dsdt = load32 m (a + 40),
    Fadt_reserved1 = load8 m (a + 44), Fadt_preferred_power_mgmt_profile = load8 m (a + 45),
    Fadt_sci_interrupt = load16 m (a + 46), Fadt_smi_command_port = load32 m (a + 48),
    Fadt_acpi_enable = load8 m (a + 52), Fadt_acpi_disable = load8 m (a + 53),
    Fadt_s4bios_req = load8 m (a + 54), Fadt_pstate_control = load8 m (a + 55),
    Fadt_pm1a_event_block = load32 m (a + 56), Fadt_pm1b_event_block = load32 m (a + 60),
    Fadt_pm1a_control_block = load32 m (a + 64), Fadt_pm1b_control_block = load32 m (a + 68),
    Fadt_pm2_control_block = load32 m (a + 72), Fadt_pm_timer_block = load32 m (a + 76),
    Fadt_gpe0_block = load32 m (a + 80), Fadt_gpe1_block = load32 m (a + 84),
    Fadt_pm1_event_length = load8 m (a + 88), Fadt_pm1_control_length = load8 m (a + 89),
    Fadt_pm2_control_length = load8 m (a + 90), Fadt_pm_timer_length = load8 m (a + 91),
    Fadt_gpe0_length = load8 m (a + 92), Fadt_gpe1_length = load8 m (a + 93),
    Fadt_gpe1_base = load8 m (a + 94), Fadt_cstate_control = load8 m (a + 95),
    Fadt_worst_c2_latency = load16 m (a + 96), Fadt_worst_c3_latency = load16 m (a + 98),
    Fadt_flush_size = load16 m (a + 100), Fadt_flush_stride = load16 m (a + 102),
    Fadt_duty_offset = load8 m (a + 104), Fadt_duty_width = load8 m (a + 105),
    Fadt_day_alarm = load8 m (a + 106), Fadt_month_alarm = load8 m (a + 107),
    Fadt_century = load8 m (a + 108), Fadt_boot_architecture_flags = load16 m (a + 109),
    Fadt_reserved2 = load8 m (a + 111), Fadt_flags = load32 m (a + 112),
    Fadt_reset_reg = gas_at m (a + 116), Fadt_reset_value = load8 m (a + 128),
    Fadt_arm_boot_arch = load16 m (a + 129), Fadt_fadt_minor_version = load8 m (a + 131),
    Fadt_x_firmware_control = load64 m (a + 132), Fadt_x_dsdt = load64 m (a + 140),
    Fadt_x_pm1a_event_block = gas_at m (a + 148), Fadt_x_pm1b_event_block = gas_at m (a + 160),
    Fadt_x_pm1a_control_block = gas_at m (a + 172), Fadt_x_pm1b_control_block = gas_at m (a + 184),
    Fadt_x_pm2_control_block = gas_at m (a + 196), Fadt_x_pm_timer_block = gas_at m (a + 208),
    Fadt_x_gpe0_block = gas_at m (a + 220), Fadt_x_gpe1_block = gas_at m (a + 232) \<rparr>"

record Hpet =
  Hpet_header :: SdtHeader
  Hpet_event_timer_block_id :: u32
  Hpet_base_address :: GenericAddress
  Hpet_hpet_number :: u8
  Hpet_minimum_tick :: u16
  Hpet_page_protection :: u8

definition hpet_at :: "pmem \<Rightarrow> nat \<Rightarrow> Hpet" where
  "hpet_at m a = \<lparr>
    Hpet_header = sdt_at m a, Hpet_event_timer_block_id = load32 m (a + 36),
    Hpet_base_address = gas_at m (a + 40), Hpet_hpet_number = load8 m (a + 52),
    Hpet_minimum_tick = load16 m (a + 53), Hpet_page_protection = load8 m (a + 55) \<rparr>"

record McfgHeader =
  Mcfg_reserved :: u64

definition mcfg_header_at :: "pmem \<Rightarrow> nat \<Rightarrow> McfgHeader" where
  "mcfg_header_at m a = \<lparr>
    Mcfg_reserved = load64 m a \<rparr>"

record McfgAllocation =
  Alloc_base_address :: u64
  Alloc_pci_segment_group :: u16
  Alloc_start_bus_number :: u8
  Alloc_end_bus_number :: u8
  Alloc_reserved :: u32

definition mcfg_alloc_at :: "pmem \<Rightarrow> nat \<Rightarrow> McfgAllocation" where
  "mcfg_alloc_at m a = \<lparr>
    Alloc_base_address = load64 m a, Alloc_pci_segment_group = load16 m (a + 8),
    Alloc_start_bus_number = load8 m (a + 10), Alloc_end_bus_number = load8 m (a + 11),
    Alloc_reserved = load32 m (a + 12) \<rparr>"

end
