(* ===== verification/Acpi.thy ===== *)
theory Acpi
  imports Acpi_Tables Memory Hw
begin

section \<open>Finding and reading the firmware tables\<close>

text \<open>
  The functions of \<open>src/src/acpi.rs\<close>, and the search of \<open>src/src/uefi.rs\<close> for the root pointer in
  the firmware's configuration table.  Pointers are addresses in physical memory.  A callback
  with captured variables is a program on those variables paired with the memory it reads.
  Arithmetic on \<open>usize\<close> that leaves its range panics, so it is \<open>Stop\<close>.
\<close>

subsection \<open>Arithmetic and captured variables\<close>

definition usize_add :: "nat \<Rightarrow> nat \<Rightarrow> ('s, 'e, nat) prog" where
  "usize_add a b = (if a + b < 2 ^ 64 then ret (a + b) else stop)"

definition usize_sub :: "nat \<Rightarrow> nat \<Rightarrow> ('s, 'e, nat) prog" where
  "usize_sub a b = (if b \<le> a then ret (a - b) else stop)"

text \<open>\<open>with_local c p\<close>: \<open>p\<close> with a local variable, started at \<open>c\<close>, whose last value is returned.\<close>

definition with_local :: "'c \<Rightarrow> ('c \<times> 's, 'e, unit) prog \<Rightarrow> ('s, 'e, 'c) prog" where
  "with_local c p = (\<lambda>s. case p (c, s) of Ok _ (c', s') \<Rightarrow> Ok c' s' | Err e (_, s') \<Rightarrow> Err e s' | Stop \<Rightarrow> Stop)"

definition get_local :: "('c \<times> 's, 'e, 'c) prog" where
  "get_local = gets fst"

definition set_local :: "('c \<Rightarrow> 'c) \<Rightarrow> ('c \<times> 's, 'e, unit) prog" where
  "set_local f = modify (apfst f)"

lemma runs_usize_add [simp]: "runs_to (usize_add a b) s P \<longleftrightarrow> a + b < 2 ^ 64 \<and> P (Inr (a + b)) s"
  by (simp add: usize_add_def)

lemma runs_usize_sub [simp]: "runs_to (usize_sub a b) s P \<longleftrightarrow> b \<le> a \<and> P (Inr (a - b)) s"
  by (simp add: usize_sub_def)

lemma runs_with_local [simp]:
  "runs_to (with_local c p) s P \<longleftrightarrow>
     runs_to p (c, s) (\<lambda>r t. case r of Inl e \<Rightarrow> P (Inl e) (snd t) | Inr _ \<Rightarrow> P (Inr (fst t)) (snd t))"
  by (cases "p (c, s)") (simp_all add: with_local_def runs_to_def split_beta)

lemma runs_get_local [simp]: "runs_to get_local s P \<longleftrightarrow> P (Inr (fst s)) s"
  by (simp add: get_local_def)

lemma runs_set_local [simp]: "runs_to (set_local f) s P \<longleftrightarrow> P (Inr ()) (f (fst s), snd s)"
  by (cases s) (simp add: set_local_def)

subsection \<open>Utility helpers\<close>

definition checksum :: "pmem \<Rightarrow> nat \<Rightarrow> nat \<Rightarrow> u8" where
  "checksum m ptr len = fold (\<lambda>i sum. sum + load8 m (ptr + i)) [0..<len] 0"

definition verify_checksum :: "pmem \<Rightarrow> nat \<Rightarrow> nat \<Rightarrow> bool" where
  "verify_checksum m ptr len \<longleftrightarrow> checksum m ptr len = 0"

definition read_signature :: "pmem \<Rightarrow> nat \<Rightarrow> bytes" where
  "read_signature m ptr = Sdt_signature (sdt_at m ptr)"

definition sdt_has_signature :: "pmem \<Rightarrow> nat \<Rightarrow> bytes \<Rightarrow> bool" where
  "sdt_has_signature m ptr sig \<longleftrightarrow> Sdt_signature (sdt_at m ptr) = sig"

definition sdt_length :: "pmem \<Rightarrow> nat \<Rightarrow> nat" where
  "sdt_length m ptr = unat (Sdt_length (sdt_at m ptr))"

text \<open>\<open>core::mem::size_of\<close> of the packed structures.\<close>

definition size_of_Rsdp :: nat where [simp]: "size_of_Rsdp = 20"
definition size_of_RsdpV2 :: nat where [simp]: "size_of_RsdpV2 = 36"
definition size_of_SdtHeader :: nat where [simp]: "size_of_SdtHeader = 36"
definition size_of_MadtHeader :: nat where [simp]: "size_of_MadtHeader = 8"
definition size_of_MadtEntryHeader :: nat where [simp]: "size_of_MadtEntryHeader = 2"
definition size_of_McfgHeader :: nat where [simp]: "size_of_McfgHeader = 8"
definition size_of_McfgAllocation :: nat where [simp]: "size_of_McfgAllocation = 16"

subsection \<open>The root pointer\<close>

definition RSDP_SIGNATURE :: bytes where
  "RSDP_SIGNATURE = [0x52, 0x53, 0x44, 0x20, 0x50, 0x54, 0x52, 0x20]"

definition find_rsdp_in_range :: "nat \<Rightarrow> nat \<Rightarrow> (pmem, 'e, nat option) prog" where
  "find_rsdp_in_range start len =
     prog_loop (\<lambda>addr.
       bind (usize_add addr size_of_Rsdp) (\<lambda>last.
       bind (usize_add start len) (\<lambda>limit.
         if last \<le> limit then
           bind (gets (\<lambda>m. load_bytes m addr 8 = RSDP_SIGNATURE \<and> verify_checksum m addr 20)) (\<lambda>found.
             if found then ret (Inr (Some addr))
             else bind (usize_add addr 16) (\<lambda>addr'. ret (Inl addr')))
         else ret (Inr None)))) start"

definition find_rsdp :: "(pmem, 'e, nat option) prog" where
  "find_rsdp =
     bind (gets (\<lambda>m. unat (load16 m 0x040E))) (\<lambda>ebda_segment.
     let ebda_base = push_bit 4 ebda_segment in
     bind (if ebda_base \<noteq> 0 then find_rsdp_in_range ebda_base 1024 else ret None) (\<lambda>p.
       case p of Some a \<Rightarrow> ret (Some a) | None \<Rightarrow> find_rsdp_in_range 0xE0000 0x20000))"

definition rsdp_from_address :: "pmem \<Rightarrow> u64 \<Rightarrow> nat option" where
  "rsdp_from_address m phys_addr = (if verify_checksum m (unat phys_addr) 20 then Some (unat phys_addr) else None)"

definition rsdp_is_v2 :: "pmem \<Rightarrow> nat \<Rightarrow> bool" where
  "rsdp_is_v2 m rsdp \<longleftrightarrow> 2 \<le> Rsdp_revision (rsdp_at m rsdp)"

definition rsdp_xsdt_address :: "pmem \<Rightarrow> nat \<Rightarrow> u64 option" where
  "rsdp_xsdt_address m rsdp =
     (if rsdp_is_v2 m rsdp then Some (RsdpV2_xsdt_address (rsdp_v2_at m rsdp)) else None)"

definition rsdp_rsdt_address :: "pmem \<Rightarrow> nat \<Rightarrow> u32" where
  "rsdp_rsdt_address m rsdp = Rsdp_rsdt_address (rsdp_at m rsdp)"

subsection \<open>The root tables\<close>

text \<open>\<open>mem\<close> selects the memory in the state the callback runs on; entries are read one by one.\<close>

definition iter_rsdt :: "('s \<Rightarrow> pmem) \<Rightarrow> nat \<Rightarrow> (nat \<Rightarrow> ('s, 'e, unit) prog) \<Rightarrow> ('s, 'e, unit) prog" where
  "iter_rsdt mem rsdt callback =
     bind (gets (\<lambda>s. sdt_length (mem s) rsdt)) (\<lambda>len.
     bind (usize_sub len size_of_SdtHeader) (\<lambda>n.
       for_each [0..<n div 4] (\<lambda>i.
         bind (gets (\<lambda>s. unat (load32 (mem s) (rsdt + size_of_SdtHeader + 4 * i)))) callback)))"

definition iter_xsdt :: "('s \<Rightarrow> pmem) \<Rightarrow> nat \<Rightarrow> (nat \<Rightarrow> ('s, 'e, unit) prog) \<Rightarrow> ('s, 'e, unit) prog" where
  "iter_xsdt mem xsdt callback =
     bind (gets (\<lambda>s. sdt_length (mem s) xsdt)) (\<lambda>len.
     bind (usize_sub len size_of_SdtHeader) (\<lambda>n.
       for_each [0..<n div 8] (\<lambda>i.
         bind (gets (\<lambda>s. unat (load64 (mem s) (xsdt + size_of_SdtHeader + 8 * i)))) callback)))"

text \<open>The callback of the two searches: keep the first table with the signature.\<close>

definition keep_first :: "bytes \<Rightarrow> nat \<Rightarrow> (nat option \<times> pmem, 'e, unit) prog" where
  "keep_first sig addr =
     bind get_local (\<lambda>found.
       if found \<noteq> None then ret ()
       else bind (gets (\<lambda>s. sdt_has_signature (snd s) addr sig)) (\<lambda>hit.
         if hit then set_local (\<lambda>_. Some addr) else ret ()))"

definition find_table_in_rsdt :: "nat \<Rightarrow> bytes \<Rightarrow> (pmem, 'e, nat option) prog" where
  "find_table_in_rsdt rsdt sig = with_local None (iter_rsdt snd rsdt (keep_first sig))"

definition find_table_in_xsdt :: "nat \<Rightarrow> bytes \<Rightarrow> (pmem, 'e, nat option) prog" where
  "find_table_in_xsdt xsdt sig = with_local None (iter_xsdt snd xsdt (keep_first sig))"

subsection \<open>The interrupt controller table\<close>

definition madt_round :: "('s \<Rightarrow> pmem) \<Rightarrow> (nat \<Rightarrow> ('s, 'e, unit) prog) \<Rightarrow> nat \<Rightarrow> nat \<Rightarrow> ('s, 'e, nat + unit) prog"
where
  "madt_round mem callback end cur =
     bind (usize_add cur size_of_MadtEntryHeader) (\<lambda>head_end.
       if head_end \<le> end then
         bind (gets (\<lambda>s. unat (Entry_length (entry_header_at (mem s) cur)))) (\<lambda>entry_len.
           if entry_len < 2 then ret (Inr ())
           else bind (usize_add cur entry_len) (\<lambda>entry_end.
             if entry_end > end then ret (Inr ())
             else seq (callback cur) (ret (Inl entry_end))))
       else ret (Inr ()))"

definition iter_madt_entries :: "('s \<Rightarrow> pmem) \<Rightarrow> nat \<Rightarrow> (nat \<Rightarrow> ('s, 'e, unit) prog) \<Rightarrow> ('s, 'e, unit) prog"
where
  "iter_madt_entries mem madt callback =
     bind (gets (\<lambda>s. sdt_length (mem s) madt)) (\<lambda>total_len.
     bind (usize_add madt (size_of_SdtHeader + size_of_MadtHeader)) (\<lambda>base.
     bind (usize_add madt total_len) (\<lambda>end.
       prog_loop (madt_round mem callback end) base)))"

text \<open>The callback of \<open>parse_madt\<close>; the array store is in bounds because of the test.\<close>

definition madt_entry :: "nat \<Rightarrow> (MadtInfo \<times> pmem, 'e, unit) prog" where
  "madt_entry entry =
     bind (gets snd) (\<lambda>m.
     bind get_local (\<lambda>info.
       case MadtEntryType_from (Entry_entry_type (entry_header_at m entry)) of
         LocalApic \<Rightarrow>
           let lapic = local_apic_at m entry in
           if Lapic_flags lapic AND 1 \<noteq> 0 then
             let idx = unat (cpu_count info) in
             if idx < 64 then
               set_local (\<lambda>info. info\<lparr>apic_ids := (apic_ids info)[idx := Lapic_apic_id lapic],
                                       cpu_count := cpu_count info + 1\<rparr>)
             else ret ()
           else ret ()
       | IoApic \<Rightarrow>
           if io_apic_address info = 0 then
             let ioapic = io_apic_at m entry in
             set_local (\<lambda>info. info\<lparr>io_apic_address := Ioapic_io_apic_address ioapic,
                                     io_apic_gsi_base := Ioapic_global_system_interrupt_base ioapic\<rparr>)
           else ret ()
       | LocalApicAddressOverride \<Rightarrow>
           set_local (\<lambda>info. info\<lparr>local_apic_address := load64 m (entry + 4)\<rparr>)
       | _ \<Rightarrow> ret ()))"

definition parse_madt :: "nat \<Rightarrow> (pmem, 'e, MadtInfo) prog" where
  "parse_madt madt =
     bind (gets (\<lambda>m. madt_header_at m (madt + size_of_SdtHeader))) (\<lambda>madt_hdr.
       with_local (MadtInfo_default\<lparr>local_apic_address := ucast (Madt_local_apic_address madt_hdr)\<rparr>)
         (iter_madt_entries snd madt madt_entry))"

subsection \<open>The fixed hardware table\<close>

definition fadt_dsdt_address :: "pmem \<Rightarrow> nat \<Rightarrow> u64" where
  "fadt_dsdt_address m fadt =
     (let x_dsdt = Fadt_x_dsdt (fadt_at m fadt) in
      if x_dsdt \<noteq> 0 then x_dsdt else ucast (Fadt_dsdt (fadt_at m fadt)))"

definition fadt_pm1a_control_port :: "pmem \<Rightarrow> nat \<Rightarrow> u16" where
  "fadt_pm1a_control_port m fadt =
     (let ext = Fadt_x_pm1a_control_block (fadt_at m fadt) in
      if Gas_address_space_id ext = 1 \<and> Gas_address ext \<noteq> 0 then ucast (Gas_address ext)
      else ucast (Fadt_pm1a_control_block (fadt_at m fadt)))"

definition fadt_pm_timer_port :: "pmem \<Rightarrow> nat \<Rightarrow> u32" where
  "fadt_pm_timer_port m fadt =
     (let ext = Fadt_x_pm_timer_block (fadt_at m fadt) in
      if Gas_address_space_id ext = 1 \<and> Gas_address ext \<noteq> 0 then ucast (Gas_address ext)
      else Fadt_pm_timer_block (fadt_at m fadt))"

definition read_pm_timer :: "'w bus \<Rightarrow> u32 \<Rightarrow> ('w, 'e, u32) prog" where
  "read_pm_timer b port = inl b (ucast port)"

definition TICKS_PER_US :: u32 where "TICKS_PER_US = 4"

definition saturating_mul32 :: "u32 \<Rightarrow> u32 \<Rightarrow> u32" where
  "saturating_mul32 x y = (if unat x * unat y < 2 ^ 32 then x * y else 0xFFFFFFFF)"

definition pm_timer_wait_us :: "'w bus \<Rightarrow> u32 \<Rightarrow> u32 \<Rightarrow> ('w, unit) io" where
  "pm_timer_wait_us b port microseconds =
     (let ticks_needed = saturating_mul32 microseconds TICKS_PER_US in
      bind (read_pm_timer b port) (\<lambda>first.
      let start = first AND 0x00FFFFFF in
      prog_loop (\<lambda>_.
        bind (read_pm_timer b port) (\<lambda>v.
          let now = v AND 0x00FFFFFF; elapsed = (now - start) AND 0x00FFFFFF in
          if ticks_needed \<le> elapsed then ret (Inr ()) else ret (Inl ()))) ()))"

subsection \<open>Timer table and configuration space\<close>

definition hpet_base_address :: "pmem \<Rightarrow> nat \<Rightarrow> u64" where
  "hpet_base_address m hpet = Gas_address (Hpet_base_address (hpet_at m hpet))"

definition hpet_number :: "pmem \<Rightarrow> nat \<Rightarrow> u8" where
  "hpet_number m hpet = Hpet_hpet_number (hpet_at m hpet)"

definition hpet_minimum_tick :: "pmem \<Rightarrow> nat \<Rightarrow> u16" where
  "hpet_minimum_tick m hpet = Hpet_minimum_tick (hpet_at m hpet)"

definition iter_mcfg_allocations :: "('s \<Rightarrow> pmem) \<Rightarrow> nat \<Rightarrow> (nat \<Rightarrow> ('s, 'e, unit) prog) \<Rightarrow> ('s, 'e, unit) prog"
where
  "iter_mcfg_allocations mem mcfg callback =
     bind (gets (\<lambda>s. sdt_length (mem s) mcfg)) (\<lambda>total_len.
     let header_size = size_of_SdtHeader + size_of_McfgHeader in
     if total_len \<le> header_size then ret ()
     else for_each [0..<(total_len - header_size) div size_of_McfgAllocation] (\<lambda>i.
       callback (mcfg + header_size + i * size_of_McfgAllocation)))"

text \<open>\<open>None\<close> for a bus outside the allocation; the sum may overflow and panic.\<close>

definition ecam_address :: "McfgAllocation \<Rightarrow> u8 \<Rightarrow> u8 \<Rightarrow> u8 \<Rightarrow> ('s, 'e, u64 option) prog" where
  "ecam_address alloc bus device function_no =
     (if bus < Alloc_start_bus_number alloc \<or> bus > Alloc_end_bus_number alloc then ret None
      else
        let offset = push_bit 20 (ucast bus - ucast (Alloc_start_bus_number alloc)) OR
              push_bit 15 (ucast device) OR push_bit 12 (ucast function_no :: u64) in
        bind (usize_add (unat (Alloc_base_address alloc)) (unat offset)) (\<lambda>a. ret (Some (word_of_nat a))))"

subsection \<open>All tables of a root pointer\<close>

record AcpiTables =
  at_rsdp :: nat
  at_rsdt :: "nat option"
  at_xsdt :: "nat option"
  at_madt :: "nat option"
  at_fadt :: "nat option"
  at_hpet :: "nat option"
  at_mcfg :: "nat option"

definition sig_APIC :: bytes where "sig_APIC = [0x41, 0x50, 0x49, 0x43]"
abbreviation (input) sig_FACP :: bytes where "sig_FACP \<equiv> [0x46, 0x41, 0x43, 0x50]"
abbreviation (input) sig_HPET :: bytes where "sig_HPET \<equiv> [0x48, 0x50, 0x45, 0x54]"
abbreviation (input) sig_MCFG :: bytes where "sig_MCFG \<equiv> [0x4D, 0x43, 0x46, 0x47]"

definition note_table :: "bytes \<Rightarrow> nat \<Rightarrow> AcpiTables \<Rightarrow> AcpiTables" where
  "note_table sig hdr t =
     (if sig = sig_APIC then t\<lparr>at_madt := Some hdr\<rparr>
      else if sig = sig_FACP then t\<lparr>at_fadt := Some hdr\<rparr>
      else if sig = sig_HPET then t\<lparr>at_hpet := Some hdr\<rparr>
      else if sig = sig_MCFG then t\<lparr>at_mcfg := Some hdr\<rparr>
      else t)"

definition locate_table :: "nat \<Rightarrow> (AcpiTables \<times> pmem, 'e, unit) prog" where
  "locate_table addr =
     bind (gets (\<lambda>s. Sdt_signature (sdt_at (snd s) addr))) (\<lambda>sig. set_local (note_table sig addr))"

definition locate_tables_in_xsdt :: "nat \<Rightarrow> (AcpiTables \<times> pmem, 'e, unit) prog" where
  "locate_tables_in_xsdt xsdt = iter_xsdt snd xsdt locate_table"

definition locate_tables_in_rsdt :: "nat \<Rightarrow> (AcpiTables \<times> pmem, 'e, unit) prog" where
  "locate_tables_in_rsdt rsdt = iter_rsdt snd rsdt locate_table"

definition no_tables :: "nat \<Rightarrow> AcpiTables" where
  "no_tables rsdp = \<lparr> at_rsdp = rsdp, at_rsdt = None, at_xsdt = None, at_madt = None,
     at_fadt = None, at_hpet = None, at_mcfg = None \<rparr>"

text \<open>The part of \<open>from_rsdp\<close> that falls back to the 32-bit table.\<close>

definition from_rsdt :: "nat \<Rightarrow> (pmem, 'e, AcpiTables) prog" where
  "from_rsdt rsdp =
     bind (gets (\<lambda>m. unat (rsdp_rsdt_address m rsdp))) (\<lambda>rsdt_addr.
       if rsdt_addr \<noteq> 0
       then with_local ((no_tables rsdp)\<lparr>at_rsdt := Some rsdt_addr\<rparr>) (locate_tables_in_rsdt rsdt_addr)
       else ret (no_tables rsdp))"

definition from_rsdp :: "nat \<Rightarrow> (pmem, 'e, AcpiTables) prog" where
  "from_rsdp rsdp =
     bind (gets (\<lambda>m. rsdp_xsdt_address m rsdp)) (\<lambda>x.
       case x of
         Some xsdt_addr \<Rightarrow> if xsdt_addr \<noteq> 0
           then with_local ((no_tables rsdp)\<lparr>at_xsdt := Some (unat xsdt_addr)\<rparr>)
                  (locate_tables_in_xsdt (unat xsdt_addr))
           else from_rsdt rsdp
       | None \<Rightarrow> from_rsdt rsdp)"

definition madt_info :: "AcpiTables \<Rightarrow> (pmem, 'e, MadtInfo option) prog" where
  "madt_info t = (case at_madt t of None \<Rightarrow> ret None | Some madt \<Rightarrow> bind (parse_madt madt) (\<lambda>i. ret (Some i)))"

definition hpet_address :: "pmem \<Rightarrow> AcpiTables \<Rightarrow> u64 option" where
  "hpet_address m t = map_option (hpet_base_address m) (at_hpet t)"

definition dsdt_address :: "pmem \<Rightarrow> AcpiTables \<Rightarrow> u64 option" where
  "dsdt_address m t = map_option (fadt_dsdt_address m) (at_fadt t)"

subsection \<open>The listing\<close>

datatype acpi_line =
    Line_rsdp nat | Line_xsdt nat | Line_rsdt nat | Line_madt nat | Line_local_apic u64 u8
  | Line_cpu nat u8 | Line_io_apic u32 u32 | Line_fadt nat | Line_dsdt u64 | Line_hpet nat u64
  | Line_mcfg nat | Line_segment u16 u8 u8 u64

type_synonym 'e listing = "(acpi_line list \<times> pmem, 'e, unit) prog"

definition acpi_println :: "acpi_line \<Rightarrow> 'e listing" where
  "acpi_println l = set_local (\<lambda>ls. ls @ [l])"

definition opt_do :: "'a option \<Rightarrow> ('a \<Rightarrow> ('s, 'e, unit) prog) \<Rightarrow> ('s, 'e, unit) prog" where
  "opt_do x f = (case x of None \<Rightarrow> ret () | Some a \<Rightarrow> f a)"

definition dump_madt :: "nat \<Rightarrow> 'e listing" where
  "dump_madt madt =
     seq (acpi_println (Line_madt madt))
     (bind (zoom snd (\<lambda>m s. (fst s, m)) (parse_madt madt)) (\<lambda>info.
      seq (acpi_println (Line_local_apic (local_apic_address info) (cpu_count info)))
      (seq (for_each [0..<unat (cpu_count info)] (\<lambda>i.
              if i < length (apic_ids info) then acpi_println (Line_cpu i (apic_ids info ! i)) else stop))
        (if io_apic_address info \<noteq> 0
         then acpi_println (Line_io_apic (io_apic_address info) (io_apic_gsi_base info)) else ret ()))))"

definition dump_mcfg :: "nat \<Rightarrow> 'e listing" where
  "dump_mcfg mcfg =
     seq (acpi_println (Line_mcfg mcfg))
       (iter_mcfg_allocations snd mcfg (\<lambda>alloc.
          bind (gets (\<lambda>s. mcfg_alloc_at (snd s) alloc)) (\<lambda>a.
            acpi_println (Line_segment (Alloc_pci_segment_group a) (Alloc_start_bus_number a)
              (Alloc_end_bus_number a) (Alloc_base_address a)))))"

definition dump_tables :: "AcpiTables \<Rightarrow> (pmem, 'e, acpi_line list) prog" where
  "dump_tables t = with_local []
     (seq (acpi_println (Line_rsdp (at_rsdp t)))
     (seq (case at_xsdt t of
             Some xsdt \<Rightarrow> acpi_println (Line_xsdt xsdt)
           | None \<Rightarrow> opt_do (at_rsdt t) (\<lambda>rsdt. acpi_println (Line_rsdt rsdt)))
     (seq (opt_do (at_madt t) dump_madt)
     (seq (opt_do (at_fadt t) (\<lambda>fadt. seq (acpi_println (Line_fadt fadt))
             (bind (gets (\<lambda>s. fadt_dsdt_address (snd s) fadt)) (\<lambda>dsdt. acpi_println (Line_dsdt dsdt)))))
     (seq (opt_do (at_hpet t) (\<lambda>hpet. bind (gets (\<lambda>s. hpet_base_address (snd s) hpet)) (\<lambda>base.
             acpi_println (Line_hpet hpet base))))
       (opt_do (at_mcfg t) dump_mcfg))))))"

subsection \<open>Mapping the tables\<close>

definition map_flags :: u64 where
  "map_flags = PAGE_PRESENT OR PAGE_WRITABLE"

definition map_rsdp_scan_regions :: "nat \<Rightarrow> unit mm" where
  "map_rsdp_scan_regions pml4 =
     seq (map_page pml4 0 0 map_flags)
     (bind (gets (\<lambda>s. ucast (load16 (pmem s) 0x040E) :: u64)) (\<lambda>ebda_segment.
      let ebda_base = push_bit 4 ebda_segment AND NOT 0xFFF in
      seq (if ebda_base \<noteq> 0 then
             seq (map_page pml4 ebda_base ebda_base map_flags)
                 (map_page pml4 (ebda_base + 4096) (ebda_base + 4096) map_flags)
           else ret ())
        (map_range pml4 map_flags (page_range 0xE0000 0x100000))))"

definition map_region :: "nat \<Rightarrow> nat \<Rightarrow> nat \<Rightarrow> u64 \<Rightarrow> unit mm" where
  "map_region pml4 base len flags =
     bind (usize_add base len) (\<lambda>e.
     bind (usize_add e 0xFFF) (\<lambda>e'.
       map_range pml4 flags (page_range (unat (word_of_nat base AND NOT 0xFFF :: u64))
                                        (unat (word_of_nat e' AND NOT 0xFFF :: u64)))))"

definition map_sdt :: "nat \<Rightarrow> nat \<Rightarrow> u64 \<Rightarrow> unit mm" where
  "map_sdt pml4 hdr flags =
     seq (map_region pml4 hdr size_of_SdtHeader flags)
     (bind (gets (\<lambda>s. sdt_length (pmem s) hdr)) (\<lambda>total_len.
        if total_len > size_of_SdtHeader then map_region pml4 hdr total_len flags else ret ()))"

definition map_acpi_tables :: "nat \<Rightarrow> AcpiTables \<Rightarrow> unit mm" where
  "map_acpi_tables pml4 t =
     bind (gets (\<lambda>s. if rsdp_is_v2 (pmem s) (at_rsdp t) then size_of_RsdpV2 else size_of_Rsdp)) (\<lambda>rsdp_len.
     seq (map_region pml4 (at_rsdp t) rsdp_len map_flags)
       (case at_xsdt t of
          Some xsdt \<Rightarrow> seq (map_sdt pml4 xsdt map_flags)
            (iter_xsdt pmem xsdt (\<lambda>child. map_sdt pml4 child map_flags))
        | None \<Rightarrow> opt_do (at_rsdt t) (\<lambda>rsdt. seq (map_sdt pml4 rsdt map_flags)
            (iter_rsdt pmem rsdt (\<lambda>child. map_sdt pml4 child map_flags)))))"

subsection \<open>The firmware's configuration table\<close>

record EFI_GUID =
  Data1 :: u32
  Data2 :: u16
  Data3 :: u16
  Data4 :: bytes

record EFI_CONFIGURATION_TABLE =
  VendorGuid :: EFI_GUID
  VendorTable :: u64

definition guid_at :: "pmem \<Rightarrow> nat \<Rightarrow> EFI_GUID" where
  "guid_at m a = \<lparr> Data1 = load32 m a, Data2 = load16 m (a + 4), Data3 = load16 m (a + 6),
     Data4 = load_bytes m (a + 8) 8 \<rparr>"

definition configuration_table_at :: "pmem \<Rightarrow> nat \<Rightarrow> EFI_CONFIGURATION_TABLE" where
  "configuration_table_at m a = \<lparr> VendorGuid = guid_at m a, VendorTable = load64 m (a + 16) \<rparr>"

definition EFI_ACPI_TABLE_GUID :: EFI_GUID where
  "EFI_ACPI_TABLE_GUID = \<lparr> Data1 = 0xEB9D2D30, Data2 = 0x2D88, Data3 = 0x11D3,
     Data4 = [0x9A, 0x16, 0x00, 0x90, 0x27, 0x3F, 0xC1, 0x4D] \<rparr>"

definition EFI_ACPI_20_TABLE_GUID :: EFI_GUID where
  "EFI_ACPI_20_TABLE_GUID = \<lparr> Data1 = 0x8868E871, Data2 = 0xE4F1, Data3 = 0x11D3,
     Data4 = [0xBC, 0x22, 0x00, 0x80, 0xC7, 0x3C, 0x88, 0x81] \<rparr>"

definition guid_eq :: "EFI_GUID \<Rightarrow> EFI_GUID \<Rightarrow> bool" where
  "guid_eq a b \<longleftrightarrow> Data1 a = Data1 b \<and> Data2 a = Data2 b \<and> Data3 a = Data3 b \<and> Data4 a = Data4 b"

text \<open>Fields of the system table, at their offsets in the C layout.\<close>

definition NumberOfTableEntries :: "pmem \<Rightarrow> nat \<Rightarrow> nat" where
  "NumberOfTableEntries m st = unat (load64 m (st + 104))"

definition ConfigurationTable :: "pmem \<Rightarrow> nat \<Rightarrow> nat" where
  "ConfigurationTable m st = unat (load64 m (st + 112))"

definition vendor_table :: "pmem \<Rightarrow> nat \<Rightarrow> EFI_GUID \<Rightarrow> u64 option" where
  "vendor_table m st g =
     (let entry = (\<lambda>i. configuration_table_at m (ConfigurationTable m st + 24 * i)) in
      map_option (\<lambda>i. VendorTable (entry i))
        (find (\<lambda>i. guid_eq (VendorGuid (entry i)) g) [0..<NumberOfTableEntries m st]))"

definition find_rsdp_in_system_table :: "pmem \<Rightarrow> nat \<Rightarrow> u64" where
  "find_rsdp_in_system_table m system_table =
     (case vendor_table m system_table EFI_ACPI_20_TABLE_GUID of
        Some a \<Rightarrow> a
      | None \<Rightarrow> (case vendor_table m system_table EFI_ACPI_TABLE_GUID of Some a \<Rightarrow> a | None \<Rightarrow> 0))"

end
