(* ===== verification/Acpi_Spec.thy ===== *)
theory Acpi_Spec
  imports Acpi Memory_Spec
begin

section \<open>What the firmware table code computes\<close>

text \<open>
  The interrupt controller table is parsed into the processors and controllers it lists, the
  tables are identity-mapped by \<open>map_acpi_tables\<close>, the configuration space addresses stay in
  their window, and the timer wait returns exactly when the 24-bit counter can reach its goal.
\<close>

subsection \<open>Rules\<close>

lemma load_bytes_append: "load_bytes m a (n + k) = load_bytes m a n @ load_bytes m (a + n) k"
  using upt_add_eq_append [of a "a + n" k] by (simp add: load_bytes_def add.assoc)

lemma load_bytes_part:
  "load_bytes m a n = bs \<Longrightarrow> i + k \<le> n \<Longrightarrow> load_bytes m (a + i) k = take k (drop i bs)"
  by (rule nth_equalityI) (auto simp: load_bytes_def add.assoc)

lemma load8_bytes: "load_bytes m a n = bs \<Longrightarrow> i < n \<Longrightarrow> load8 m (a + i) = bs ! i"
  by (auto simp: load_bytes_def load8_def)

lemmas load_parts = load8_bytes load_bytes_part

subsection \<open>The interrupt controller table\<close>

text \<open>The entries of a table, and their bytes.\<close>

datatype madt_item =
    Item_lapic u8 u8 u32
  | Item_ioapic u8 u8 u32 u32
  | Item_override u16 u64
  | Item_other u8 bytes

primrec item_bytes :: "madt_item \<Rightarrow> bytes" where
  "item_bytes (Item_lapic uid i f) = [0, 8, uid, i] @ to_le 4 f"
| "item_bytes (Item_ioapic i res addr gsi) = [1, 12, i, res] @ to_le 4 addr @ to_le 4 gsi"
| "item_bytes (Item_override res addr) = [5, 12] @ to_le 2 res @ to_le 8 addr"
| "item_bytes (Item_other ty bs) = [ty, word_of_nat (length bs + 2)] @ bs"

primrec item_ok :: "madt_item \<Rightarrow> bool" where
  "item_ok (Item_lapic uid i f) = True"
| "item_ok (Item_ioapic i res addr gsi) = (addr \<noteq> 0)"
| "item_ok (Item_override res addr) = True"
| "item_ok (Item_other ty bs) = (ty \<notin> {0, 1, 5} \<and> length bs \<le> 253)"

definition enabled_ids :: "madt_item list \<Rightarrow> u8 list" where
  "enabled_ids items = concat (map (\<lambda>it. case it of
     Item_lapic _ i f \<Rightarrow> if f AND 1 \<noteq> 0 then [i] else [] | _ \<Rightarrow> []) items)"

definition io_apics :: "madt_item list \<Rightarrow> (u32 \<times> u32) list" where
  "io_apics items = concat (map (\<lambda>it. case it of Item_ioapic _ _ a g \<Rightarrow> [(a, g)] | _ \<Rightarrow> []) items)"

definition overrides :: "madt_item list \<Rightarrow> u64 list" where
  "overrides items = concat (map (\<lambda>it. case it of Item_override _ a \<Rightarrow> [a] | _ \<Rightarrow> []) items)"

text \<open>The summary of a list of entries under a table header that gives \<open>base\<close>.\<close>

definition madt_summary :: "u64 \<Rightarrow> madt_item list \<Rightarrow> MadtInfo" where
  "madt_summary base items =
     (let ids = take 64 (enabled_ids items) in
      \<lparr> local_apic_address = last (base # overrides items),
        cpu_count = word_of_nat (length ids),
        apic_ids = ids @ replicate (64 - length ids) 0,
        io_apic_address = (case io_apics items of [] \<Rightarrow> 0 | x # _ \<Rightarrow> fst x),
        io_apic_gsi_base = (case io_apics items of [] \<Rightarrow> 0 | x # _ \<Rightarrow> snd x) \<rparr>)"

lemma summary_parts_snoc [simp]:
  "enabled_ids (xs @ [Item_lapic u i f]) = enabled_ids xs @ (if f AND 1 \<noteq> 0 then [i] else [])"
  "enabled_ids (xs @ [Item_ioapic a b c d]) = enabled_ids xs"
  "enabled_ids (xs @ [Item_override a' c']) = enabled_ids xs"
  "enabled_ids (xs @ [Item_other t bs]) = enabled_ids xs"
  "io_apics (xs @ [Item_lapic u i f]) = io_apics xs"
  "io_apics (xs @ [Item_ioapic a b c d]) = io_apics xs @ [(c, d)]"
  "io_apics (xs @ [Item_override a' c']) = io_apics xs"
  "io_apics (xs @ [Item_other t bs]) = io_apics xs"
  "overrides (xs @ [Item_lapic u i f]) = overrides xs"
  "overrides (xs @ [Item_ioapic a b c d]) = overrides xs"
  "overrides (xs @ [Item_override a' c']) = overrides xs @ [c']"
  "overrides (xs @ [Item_other t bs]) = overrides xs"
  by (simp_all add: enabled_ids_def io_apics_def overrides_def)

lemma io_apics_nonzero: "\<forall>it \<in> set items. item_ok it \<Longrightarrow> p \<in> set (io_apics items) \<Longrightarrow> fst p \<noteq> 0"
  by (auto simp: io_apics_def split: madt_item.splits)

lemma item_bytes_length: "item_ok it \<Longrightarrow> 2 \<le> length (item_bytes it) \<and> length (item_bytes it) < 256"
  by (cases it) simp_all

lemma item_length_byte: "item_ok it \<Longrightarrow> unat (item_bytes it ! 1) = length (item_bytes it)"
  by (cases it) (simp_all add: unat_of_nat del: of_nat_Suc of_nat_add)

lemma append_id:
  assumes "length ids < 64"
  shows "(ids @ replicate (64 - length ids) (0 :: u8))[length ids := i] = (ids @ [i]) @ replicate (64 - Suc (length ids)) 0"
proof -
  have "64 - length ids = Suc (64 - Suc (length ids))" using assms by simp
  then show ?thesis by (simp add: list_update_append)
qed

lemma lapic_fields:
  assumes "load_bytes m cur 8 = [0, 8, uid, i] @ to_le 4 (f :: u32)"
  shows "Entry_entry_type (entry_header_at m cur) = 0" "Lapic_flags (local_apic_at m cur) = f"
    "Lapic_apic_id (local_apic_at m cur) = i"
  using load8_bytes [OF assms, of 0] load8_bytes [OF assms, of 3] load_bytes_part [OF assms, of 4 4]
  by (simp_all add: entry_header_at_def local_apic_at_def load32_def)

lemma io_apic_fields:
  assumes "load_bytes m cur 12 = [1, 12, i, res] @ to_le 4 (addr :: u32) @ to_le 4 (gsi :: u32)"
  shows "Entry_entry_type (entry_header_at m cur) = 1" "Ioapic_io_apic_address (io_apic_at m cur) = addr"
    "Ioapic_global_system_interrupt_base (io_apic_at m cur) = gsi"
  using load8_bytes [OF assms, of 0] load_bytes_part [OF assms, of 4 4] load_bytes_part [OF assms, of 8 4]
  by (simp_all add: entry_header_at_def io_apic_at_def load32_def)

lemma override_fields:
  assumes "load_bytes m cur 12 = [5, 12] @ to_le 2 (res :: u16) @ to_le 8 (addr :: u64)"
  shows "Entry_entry_type (entry_header_at m cur) = 5" "load64 m (cur + 4) = addr"
  using load8_bytes [OF assms, of 0] load_bytes_part [OF assms, of 4 8]
  by (simp_all add: entry_header_at_def load64_def)

lemma entry_length_field:
  assumes "load_bytes m cur (length (item_bytes it)) = item_bytes it" and "item_ok it"
  shows "unat (Entry_length (entry_header_at m cur)) = length (item_bytes it)"
  using load8_bytes [OF assms(1), of 1] item_bytes_length [OF assms(2)] item_length_byte [OF assms(2)]
  by (simp add: entry_header_at_def)

lemma runs_madt_entry:
  assumes at: "load_bytes m cur (length (item_bytes it)) = item_bytes it" and "item_ok it"
    and "\<forall>x \<in> set xs. item_ok x"
  shows "runs_to (madt_entry cur) (madt_summary base xs, m)
    (\<lambda>r t. r = Inr () \<and> t = (madt_summary base (xs @ [it]), m))"
proof (cases it)
  case (Item_lapic uid i f)
  have "load_bytes m cur 8 = [0, 8, uid, i] @ to_le 4 f" using at Item_lapic by simp
  note f = lapic_fields [OF this]
  consider "f AND 1 = 0" | "f AND 1 \<noteq> 0" "length (enabled_ids xs) < 64"
    | "f AND 1 \<noteq> 0" "64 \<le> length (enabled_ids xs)" by linarith
  then show ?thesis
  proof cases
    case 2
    then show ?thesis using f append_id [of "enabled_ids xs" i] Item_lapic
      by (simp add: madt_entry_def MadtEntryType_from_def madt_summary_def Let_def unat_of_nat add.commute)
  qed (use f Item_lapic in \<open>simp_all add: madt_entry_def MadtEntryType_from_def madt_summary_def Let_def\<close>)
next
  case (Item_ioapic i res addr gsi)
  have "fst p \<noteq> 0" if "p \<in> set (io_apics xs)" for p using io_apics_nonzero assms(3) that by blast
  moreover have "load_bytes m cur 12 = [1, 12, i, res] @ to_le 4 addr @ to_le 4 gsi"
    using at Item_ioapic by simp
  note f = io_apic_fields [OF this]
  ultimately show ?thesis using f Item_ioapic assms(2)
    by (cases "io_apics xs") (auto simp: madt_entry_def MadtEntryType_from_def madt_summary_def Let_def)
next
  case (Item_override res a)
  have "load_bytes m cur 12 = [5, 12] @ to_le 2 res @ to_le 8 a" using at Item_override by simp
  from override_fields [OF this] Item_override show ?thesis
    by (simp add: madt_entry_def MadtEntryType_from_def madt_summary_def Let_def)
next
  case (Item_other ty bs)
  have "Entry_entry_type (entry_header_at m cur) = ty"
    using load8_bytes [OF at, of 0] Item_other by (simp add: entry_header_at_def)
  with assms(2) Item_other show ?thesis
    by (simp add: madt_entry_def MadtEntryType_from_def madt_summary_def Let_def)
qed

lemma runs_madt_loop:
  assumes "load_bytes m cur (length (concat (map item_bytes items))) = concat (map item_bytes items)"
    and "end = cur + length (concat (map item_bytes items))" and "end + 2 < 2 ^ 64"
    and "\<forall>x \<in> set (xs @ items). item_ok x"
  shows "runs_to (prog_loop (madt_round snd madt_entry end) cur) (madt_summary base xs, m)
    (\<lambda>r t. r = (Inr () :: 'e + unit) \<and> t = (madt_summary base (xs @ items), m))"
  using assms
proof (induction items arbitrary: cur xs)
  case Nil
  then show ?case by (subst runs_to_prog_loop) (simp add: madt_round_def)
next
  case (Cons it items)
  define n where "n = length (item_bytes it)"
  have ok: "item_ok it" using Cons.prems(4) by simp
  have n: "2 \<le> n" "n < 256" using item_bytes_length [OF ok] by (simp_all add: n_def)
  have at: "load_bytes m cur n = item_bytes it"
    and rest: "load_bytes m (cur + n) (length (concat (map item_bytes items))) = concat (map item_bytes items)"
    using Cons.prems(1) by (simp_all add: n_def load_bytes_append)
  have len: "unat (Entry_length (entry_header_at m cur)) = n"
    using entry_length_field [of m cur it] at ok by (simp add: n_def)
  have e: "end = cur + n + length (concat (map item_bytes items))" using Cons.prems(2) by (simp add: n_def)
  note step = runs_madt_entry [of m cur it xs base, folded n_def, OF at ok]
  have "runs_to (prog_loop (madt_round snd madt_entry end) (cur + n)) (madt_summary base (xs @ [it]), m)
      (\<lambda>r t. r = (Inr () :: 'e + unit) \<and> t = (madt_summary base ((xs @ [it]) @ items), m))"
    by (rule Cons.IH [OF rest e]) (use Cons.prems(3,4) in simp_all)
  then show ?case
    using n e len Cons.prems(3,4)
    by (subst runs_to_prog_loop) (auto simp: madt_round_def intro!: runs_to_mono [OF step])
qed

lemma madt_summary_Nil: "madt_summary base [] = MadtInfo_default\<lparr>local_apic_address := base\<rparr>"
  by (simp add: madt_summary_def MadtInfo_default_def enabled_ids_def io_apics_def overrides_def)

text \<open>
  C29.  A table whose length field covers exactly the bytes of a list of entries is parsed into the
  summary of that list: the local controller address is the last override, or the header's;
  the processors are the first 64 enabled ones, in table order, and their number; the I/O
  controller is the first one listed.  Disabled processors and unknown entries are passed
  over by their length, and the parser returns without changing memory.
\<close>

theorem parse_madt_correct:
  assumes "load_bytes m (madt + 44) (length (concat (map item_bytes items))) = concat (map item_bytes items)"
    and "sdt_length m madt = 44 + length (concat (map item_bytes items))"
    and "madt + sdt_length m madt + 2 < 2 ^ 64"
    and "\<forall>x \<in> set items. item_ok x"
  shows "runs_to (parse_madt madt) m (\<lambda>r m'. m' = m \<and>
    r = Inr (madt_summary (ucast (Madt_local_apic_address (madt_header_at m (madt + 36)))) items))"
proof -
  have e: "madt + (44 + length (concat (map item_bytes items))) = madt + 44 + length (concat (map item_bytes items))"
    by simp
  have "madt + (44 + length (concat (map item_bytes items))) + 2 < 2 ^ 64" using assms(2,3) by simp
  note loop = runs_madt_loop [OF assms(1) e this, where xs = "[]", simplified append_Nil, OF assms(4)]
  show ?thesis
    unfolding parse_madt_def iter_madt_entries_def
    using assms(2,3) by (simp add: madt_summary_Nil [symmetric]) (rule runs_to_mono [OF loop], simp)
qed

text \<open>A table with a disabled processor, an unknown entry and two enabled processors.\<close>

definition example_items :: "madt_item list" where
  "example_items = [Item_lapic 0 0 1, Item_lapic 1 7 0, Item_other 4 [0xFF, 0, 0, 1],
     Item_ioapic 2 0 0xFEC00000 0, Item_lapic 2 3 1]"

definition example_madt :: pmem where
  "example_madt = store_bytes 0x1000 (sig_APIC @ to_le 4 (86 :: u32) @ replicate 28 0 @
     to_le 4 (0xFEE00000 :: u32) @ to_le 4 (1 :: u32) @ concat (map item_bytes example_items)) (\<lambda>_. 0)"

theorem parse_madt_correct_witness:
  "runs_to (parse_madt 0x1000) example_madt (\<lambda>r m'. m' = example_madt \<and> (\<exists>info. r = Inr info \<and>
     cpu_count info = 2 \<and> take 2 (apic_ids info) = [0, 3] \<and> local_apic_address info = 0xFEE00000 \<and>
     io_apic_address info = 0xFEC00000))"
proof -
  define body where "body = concat (map item_bytes example_items)"
  have lb: "length body = 42" by (simp add: body_def example_items_def)
  have sig: "length sig_APIC = 4" by (simp add: sig_APIC_def)
  note img = load_store_bytes_inside [where bs = "sig_APIC @ to_le 4 (86 :: u32) @ replicate 28 0 @
     to_le 4 (0xFEE00000 :: u32) @ to_le 4 (1 :: u32) @ body"
     and a = "0x1000" and m = "\<lambda>_. 0", folded example_madt_def [folded body_def]]
  have len: "sdt_length example_madt 0x1000 = 44 + length body"
    using img [where k = 4 and n = 4] by (simp add: lb sig sdt_length_def sdt_at_def load32_def subslice_def)
  have at: "load_bytes example_madt (0x1000 + 44) (length body) = body"
    using img [where k = 44 and n = 42] by (simp add: lb sig subslice_def)
  have hdr: "Madt_local_apic_address (madt_header_at example_madt (0x1000 + 36)) = 0xFEE00000"
    using img [where k = 36 and n = 4] by (simp add: lb sig madt_header_at_def load32_def subslice_def)
  have ok: "\<forall>x \<in> set example_items. item_ok x" by (simp add: example_items_def)
  have ids: "enabled_ids example_items = [0, 3]" and io: "io_apics example_items = [(0xFEC00000, 0)]"
    and over: "overrides example_items = []"
    by (simp_all add: enabled_ids_def io_apics_def overrides_def example_items_def)
  have "(0x1000 :: nat) + sdt_length example_madt 0x1000 + 2 < 2 ^ 64" using len lb by simp
  note run = parse_madt_correct [OF at [unfolded body_def] len [unfolded body_def] this ok, unfolded hdr]
  show ?thesis
    by (rule runs_to_mono [OF run]) (simp add: madt_summary_def ids io over Let_def)
qed

subsection \<open>The timer wait\<close>

text \<open>The world after \<open>n\<close> reads of the timer, the 24-bit value of the next read, and the ticks since the first.\<close>

primrec timer_world :: "'w bus \<Rightarrow> u32 \<Rightarrow> nat \<Rightarrow> 'w \<Rightarrow> 'w" where
  "timer_world b port 0 w = w"
| "timer_world b port (Suc n) w = snd (port_in b (ucast port) 4 (timer_world b port n w))"

definition timer_value :: "'w bus \<Rightarrow> u32 \<Rightarrow> nat \<Rightarrow> 'w \<Rightarrow> u32" where
  "timer_value b port n w = from_le (fst (port_in b (ucast port) 4 (timer_world b port n w))) AND 0x00FFFFFF"

definition ticks_elapsed :: "'w bus \<Rightarrow> u32 \<Rightarrow> nat \<Rightarrow> 'w \<Rightarrow> u32" where
  "ticks_elapsed b port n w = (timer_value b port n w - timer_value b port 0 w) AND 0x00FFFFFF"

definition wait_over :: "'w bus \<Rightarrow> u32 \<Rightarrow> u32 \<Rightarrow> 'w \<Rightarrow> nat \<Rightarrow> bool" where
  "wait_over b port us w n \<longleftrightarrow> 0 < n \<and> saturating_mul32 us TICKS_PER_US \<le> ticks_elapsed b port n w"

lemma ticks_elapsed_bound: "ticks_elapsed b port n w \<le> 0x00FFFFFF"
  unfolding ticks_elapsed_def by (rule word_and_le1)

lemma long_wait_never_over:
  assumes "4194304 \<le> us"
  shows "\<not> wait_over b port us w n"
proof -
  have "(0x00FFFFFF :: u32) < saturating_mul32 us TICKS_PER_US"
  proof (cases "unat us * unat TICKS_PER_US < 2 ^ 32")
    case True
    then have "unat (us * TICKS_PER_US) = unat us * 4" by (simp add: unat_word_ariths TICKS_PER_US_def)
    moreover have "4194304 \<le> unat us" using assms by (simp add: word_le_nat_alt)
    ultimately show ?thesis using True by (simp add: saturating_mul32_def word_less_nat_alt)
  qed (simp add: saturating_mul32_def)
  then show ?thesis using ticks_elapsed_bound [of b port n w] by (auto simp: wait_over_def)
qed

definition wait_loop :: "'w bus \<Rightarrow> u32 \<Rightarrow> u32 \<Rightarrow> u32 \<Rightarrow> unit \<Rightarrow> ('w, unit + unit) io" where
  "wait_loop b port us start = (\<lambda>_. bind (read_pm_timer b port) (\<lambda>v.
     let now = v AND 0x00FFFFFF; elapsed = (now - start) AND 0x00FFFFFF in
     if saturating_mul32 us TICKS_PER_US \<le> elapsed then ret (Inr ()) else ret (Inl ())))"

lemma wait_as_loop:
  "pm_timer_wait_us b port us w =
     prog_loop (wait_loop b port us (timer_value b port 0 w)) () (timer_world b port 1 w)"
  by (simp add: pm_timer_wait_us_def wait_loop_def read_pm_timer_def inl_def bind_def timer_value_def
      Let_def split_beta)

lemma wait_loop_step:
  assumes "0 < n"
  shows "wait_loop b port us (timer_value b port 0 w) c (timer_world b port n w) =
     Ok (if wait_over b port us w n then Inr () else Inl ()) (timer_world b port (Suc n) w)"
  using assms by (simp add: wait_loop_def read_pm_timer_def inl_def bind_def ret_def timer_value_def
      ticks_elapsed_def wait_over_def Let_def split_beta)

lemma wait_loop_ends:
  assumes "0 < k" and "wait_over b port us w (k + d)" and "\<forall>j < d. \<not> wait_over b port us w (k + j)"
  shows "prog_loop (wait_loop b port us (timer_value b port 0 w)) () (timer_world b port k w) =
    Ok () (timer_world b port (Suc (k + d)) w)"
  using assms
proof (induction d arbitrary: k)
  case 0
  then show ?case by (subst prog_loop_unfold) (simp add: bind_def wait_loop_step ret_def)
next
  case (Suc d)
  have "\<not> wait_over b port us w k" using Suc.prems(3) by fastforce
  moreover have "prog_loop (wait_loop b port us (timer_value b port 0 w)) () (timer_world b port (Suc k) w) =
      Ok () (timer_world b port (Suc (Suc k + d)) w)"
    using Suc.prems by (intro Suc.IH) auto
  ultimately show ?case using Suc.prems(1)
    by (subst prog_loop_unfold) (simp add: bind_def wait_loop_step del: timer_world.simps)
qed

text \<open>
  C30.  Whatever the timer does, the wait returns exactly when some later read shows the wanted number
  of ticks on the 24-bit counter, and it returns at the first such read.  A wait of 4194304
  microseconds or more needs more ticks than the counter can show and never returns.
\<close>

theorem pm_timer_wait_us_returns:
  "pm_timer_wait_us b port us w =
     (if \<exists>n. wait_over b port us w n
      then Ok () (timer_world b port (Suc (LEAST n. wait_over b port us w n)) w) else Stop)
   \<and> (4194304 \<le> us \<longrightarrow> pm_timer_wait_us b port us w = Stop)"
proof -
  have never: "pm_timer_wait_us b port us w = Stop" if none: "\<nexists>n. wait_over b port us w n"
    unfolding wait_as_loop
  proof (rule prog_loop_forever [where I = "\<lambda>_ s. \<exists>n > 0. s = timer_world b port n w"])
    show "\<exists>n > 0. timer_world b port 1 w = timer_world b port n w" by blast
    fix c s
    assume "\<exists>n > 0. s = timer_world b port n w"
    then obtain n where "0 < n" "s = timer_world b port n w" by blast
    then have "wait_loop b port us (timer_value b port 0 w) c s = Ok (Inl ()) (timer_world b port (Suc n) w)"
      using none by (simp only: wait_loop_step if_False not_ex)
    then show "\<exists>c' s'. wait_loop b port us (timer_value b port 0 w) c s = Ok (Inl c') s' \<and> (\<exists>n > 0. s' = timer_world b port n w)"
      by blast
  qed
  moreover have "pm_timer_wait_us b port us w = Ok () (timer_world b port (Suc (LEAST n. wait_over b port us w n)) w)"
    if ex: "\<exists>n. wait_over b port us w n"
  proof -
    define l where "l = (LEAST n. wait_over b port us w n)"
    have l: "wait_over b port us w l" using LeastI_ex [OF ex] by (simp add: l_def)
    then have "l = 1 + (l - 1)" by (auto simp: wait_over_def)
    moreover have "\<not> wait_over b port us w (1 + j)" if "j < l - 1" for j
      using not_less_Least [of "1 + j" "wait_over b port us w"] that by (simp add: l_def)
    ultimately show ?thesis
      using wait_loop_ends [of 1 b port us w "l - 1"] l unfolding wait_as_loop l_def [symmetric] by simp
  qed
  ultimately show ?thesis using never long_wait_never_over [of us b port w] by simp
qed

text \<open>A timer that advances by one at every read.\<close>

definition counting_bus :: "nat bus" where
  "counting_bus = \<lparr> bus_read = (\<lambda>_ n w. (replicate n 0, w)), bus_write = (\<lambda>_ _ w. w),
     port_in = (\<lambda>_ n w. (le_of_nat n w, w + 1)), port_out = (\<lambda>_ _ w. w) \<rparr>"

theorem pm_timer_wait_us_returns_witness:
  "pm_timer_wait_us counting_bus 0x608 5000000 7 = Stop"
  using conjunct2 [OF pm_timer_wait_us_returns [of counting_bus "0x608" 5000000 7]] by simp

subsection \<open>Configuration space addresses\<close>

lemma bit_below:
  assumes "unat (w :: u64) < 2 ^ k" and "bit w n"
  shows "n < k"
proof (rule ccontr)
  assume "\<not> n < k"
  then have "unat w < 2 ^ n" using assms(1) by (meson not_less order_less_le_trans one_le_numeral power_increasing)
  then have "\<not> bit (unat w) n" by (simp add: bit_iff_odd)
  then show False using assms(2) by (simp add: bit_unsigned_iff)
qed

lemma or_shifted:
  assumes "unat (lo :: u64) < 2 ^ k" and "unat hi * 2 ^ k + unat lo < 2 ^ 64"
  shows "unat (push_bit k hi OR lo) = unat hi * 2 ^ k + unat lo"
proof -
  have "push_bit k hi AND lo = 0"
    by (intro bit_eqI) (auto simp: bit_simps dest!: bit_below [OF assms(1)])
  then have "push_bit k hi OR lo = push_bit k hi + lo" by (simp add: disjunctive_add_eq_or)
  moreover have "unat (push_bit k hi) = unat hi * 2 ^ k"
  proof -
    have "unat (push_bit k hi) = take_bit 64 (push_bit k (unat hi))" by (simp add: unsigned_push_bit_eq)
    also have "push_bit k (unat hi) = unat hi * 2 ^ k" by (simp add: push_bit_eq_mult)
    finally show ?thesis using assms(2) by (simp add: take_bit_nat_eq_self)
  qed
  ultimately show ?thesis using assms(2) by (simp add: unat_word_ariths)
qed

lemma ecam_offset:
  fixes x d f :: u64
  assumes "unat x < 256" and "unat d < 32" and "unat f < 8"
  shows "unat (push_bit 20 x OR push_bit 15 d OR push_bit 12 f) = unat x * 2 ^ 20 + unat d * 2 ^ 15 + unat f * 2 ^ 12"
proof -
  have f: "unat (push_bit 12 f) = unat f * 2 ^ 12" using or_shifted [of 0 12 f] assms(3) by simp
  have "unat (push_bit 15 d OR push_bit 12 f) = unat d * 2 ^ 15 + unat f * 2 ^ 12"
    using or_shifted [of "push_bit 12 f" 15 d] f assms(2,3) by simp
  then show ?thesis
    using or_shifted [of "push_bit 15 d OR push_bit 12 f" 20 x] assms by simp
qed

text \<open>
  The configuration space address of a function lies in its own page, inside the window of the
  allocation.
\<close>

lemma ecam_address_bounds:
  assumes "device < 32" and "function_no < 8" and "Alloc_start_bus_number alloc \<le> Alloc_end_bus_number alloc"
    and "window = 2 ^ 20 * (Suc (unat (Alloc_end_bus_number alloc)) - unat (Alloc_start_bus_number alloc))"
    and "unat (Alloc_base_address alloc) + window < 2 ^ 64"
  shows "runs_to (ecam_address alloc bus device function_no) s (\<lambda>r s'. s' = s \<and>
    (if bus < Alloc_start_bus_number alloc \<or> Alloc_end_bus_number alloc < bus then r = Inr None
     else \<exists>a. r = Inr (Some a) \<and>
       unat a = unat (Alloc_base_address alloc) + 4096 *
         ((unat bus - unat (Alloc_start_bus_number alloc)) * 256 + unat device * 8 + unat function_no) \<and>
       unat a + 4096 \<le> unat (Alloc_base_address alloc) + window))"
proof (cases "bus < Alloc_start_bus_number alloc \<or> Alloc_end_bus_number alloc < bus")
  case True
  then show ?thesis by (simp add: ecam_address_def)
next
  case False
  define base first where "base = unat (Alloc_base_address alloc)" and "first = Alloc_start_bus_number alloc"
  have le: "first \<le> bus" "bus \<le> Alloc_end_bus_number alloc" using False by (auto simp: first_def)
  then have nle: "unat first \<le> unat bus" "unat bus \<le> unat (Alloc_end_bus_number alloc)" by (simp_all add: word_le_nat_alt)
  have x: "unat (ucast bus - ucast first :: u64) = unat bus - unat first"
    using nle(1) by (simp add: unat_sub word_le_nat_alt unat_ucast_up)
  have small: "unat bus < 256" "unat device < 32" "unat function_no < 8"
    using assms(1,2) unsigned_less [of bus, where ?'a = nat] by (simp_all add: word_less_nat_alt)
  define k where "k = 4096 * ((unat bus - unat first) * 256 + unat device * 8 + unat function_no)"
  have off: "unat (push_bit 20 (ucast bus - ucast first) OR push_bit 15 (ucast device) OR push_bit 12 (ucast function_no :: u64)) = k"
    using ecam_offset [of "ucast bus - ucast first" "ucast device" "ucast function_no"] small x
    by (simp add: unat_ucast_up k_def)
  have "k + 4096 \<le> 2 ^ 20 * Suc (unat bus - unat first)" using small by (simp add: k_def)
  also have "\<dots> \<le> window" using nle by (simp add: assms(4) first_def)
  finally have w: "k + 4096 \<le> window" .
  with assms(5) have "base + k < 2 ^ 64" by (simp add: base_def)
  then have "unat (word_of_nat (base + k) :: u64) = base + k" by (simp only: unat_of_nat) simp
  then show ?thesis
    using False w off \<open>base + k < 2 ^ 64\<close>
    by (simp add: ecam_address_def Let_def first_def [symmetric] base_def [symmetric] del: of_nat_add)
      (simp add: k_def)
qed

definition example_alloc :: McfgAllocation where
  "example_alloc = \<lparr> Alloc_base_address = 0xB0000000, Alloc_pci_segment_group = 0,
     Alloc_start_bus_number = 0, Alloc_end_bus_number = 255, Alloc_reserved = 0 \<rparr>"

end
