(* ===== verification/Acpi_Map.thy ===== *)
theory Acpi_Map
  imports Acpi_Spec
begin

section \<open>Mapping the firmware tables\<close>

text \<open>
  \<open>map_acpi_tables\<close> on top of the page tables: it reads the lengths and entries of the tables
  while it changes the page tables, so the tables must lie outside the frames the page
  tables use.
\<close>

subsection \<open>Mapping in several steps\<close>

definition identity_step :: "nat \<Rightarrow> u64 \<Rightarrow> nat list \<Rightarrow> mem_state \<Rightarrow> mem_state \<Rightarrow> bool" where
  "identity_step root flags pages s s' \<longleftrightarrow> grown root (uppers pages) s s' \<and>
     (\<forall>a \<in> set pages. translate (pmem s') root (word_of_nat a) = Some (word_of_nat a OR flags OR PAGE_PRESENT)) \<and>
     (\<forall>vb. (\<forall>a \<in> set pages. \<not> same_page (word_of_nat a) vb) \<longrightarrow>
        translate (pmem s') root vb = translate (pmem s) root vb)"

text \<open>Pages that can all be mapped from \<open>s\<close>.\<close>

definition mappable :: "nat \<Rightarrow> nat list \<Rightarrow> mem_state \<Rightarrow> bool" where
  "mappable root all s \<longleftrightarrow> memory_ok root s \<and> (\<forall>a \<in> set all. page_ok a) \<and>
     card (absent root (uppers all) s) \<le> length (remaining (frames s))"

lemma identity_step_refl: "mappable root all s \<Longrightarrow> identity_step root flags [] s s"
  by (simp add: identity_step_def mappable_def grown_refl)

lemma uppers_mono: "set xs \<subseteq> set ys \<Longrightarrow> uppers xs \<subseteq> uppers ys"
  by (auto simp: uppers_def)

lemma runs_map_more:
  assumes all: "mappable root all s0" "set (xs @ pages) \<subseteq> set all" and step: "identity_step root flags xs s0 s"
  shows "runs_to (map_range root flags pages) s (\<lambda>r s'. r = Inr () \<and> identity_step root flags (xs @ pages) s0 s')"
proof -
  have g: "grown root (uppers xs) s0 s" using step by (simp add: identity_step_def)
  have ok: "memory_ok root s" using g by (simp add: grown_def)
  have pages: "\<forall>a \<in> set pages. page_ok a" "\<forall>a \<in> set xs. page_ok a" using all by (auto simp: mappable_def)
  have "card (absent root (uppers xs \<union> uppers pages) s0) \<le> card (absent root (uppers all) s0)"
    using uppers_mono [OF all(2)] by (intro absent_mono) simp_all
  then have "card (absent root (uppers xs \<union> uppers pages) s0) \<le> length (remaining (frames s0))"
    using all(1) by (simp add: mappable_def)
  then have "card (absent root (uppers pages) s) \<le> length (remaining (frames s))"
    by (rule grown_enough [OF g]) (use uppers_paths in auto)
  note run = runs_map_range [OF ok pages(1) this, of flags]
  have inj: "a = b" if "a \<in> set pages" "b \<in> set xs" "same_page (word_of_nat a) (word_of_nat b)" for a b
    using same_page_ok [of a b] pages that by blast
  show ?thesis
  proof (rule runs_to_mono [OF run], elim conjE, intro conjI)
    fix r s'
    assume g': "grown root (uppers pages) s s'"
      and at: "\<forall>a \<in> set pages. translate (pmem s') root (word_of_nat a) = Some (word_of_nat a OR flags OR PAGE_PRESENT)"
      and keep: "\<forall>vb. (\<forall>a \<in> set pages. \<not> same_page (word_of_nat a) vb) \<longrightarrow> translate (pmem s') root vb = translate (pmem s) root vb"
    have "grown root (uppers (xs @ pages)) s0 s'"
      using uppers_paths by (simp add: grown_trans [OF g g'])
    moreover have "translate (pmem s') root (word_of_nat a) = Some (word_of_nat a OR flags OR PAGE_PRESENT)"
      if a: "a \<in> set (xs @ pages)" for a
    proof (cases "a \<in> set pages")
      case True
      then show ?thesis using at by blast
    next
      case False
      then have "a \<in> set xs" using a by simp
      then have "translate (pmem s') root (word_of_nat a) = translate (pmem s) root (word_of_nat a)"
        using keep inj False by metis
      then show ?thesis using step \<open>a \<in> set xs\<close> by (simp add: identity_step_def)
    qed
    ultimately show "identity_step root flags (xs @ pages) s0 s'"
      using keep step by (simp add: identity_step_def)
  qed simp
qed

subsection \<open>Areas\<close>

definition region_pages :: "nat \<Rightarrow> nat \<Rightarrow> nat list" where
  "region_pages base len = page_range (unat (word_of_nat base AND NOT 0xFFF :: u64))
     (unat (word_of_nat (base + len + 0xFFF) AND NOT 0xFFF :: u64))"

lemma and_not_minus: "w AND NOT m = w - (w AND m)" for w m :: u64
proof -
  have "(w AND NOT m) AND (w AND m) = 0" by (rule bit_eqI) (auto simp: bit_simps)
  then have "(w AND NOT m) + (w AND m) = (w AND NOT m) OR (w AND m)" by (rule disjunctive_add_eq_or)
  also have "\<dots> = w" by (rule bit_eqI) (auto simp: bit_simps)
  finally show ?thesis by (simp add: eq_diff_eq)
qed

lemma unat_round_down: "unat (w AND NOT 0xFFF :: u64) = page_base (unat w)"
proof -
  note and_not_minus [of w "0xFFF"]
  moreover have "unat (w AND 0xFFF) = unat w mod 4096"
    by (simp add: low_masks(2) take_bit_eq_mask [symmetric] take_bit_eq_mod unat_mod)
  moreover have "w AND 0xFFF \<le> w" by (rule word_and_le2)
  ultimately show ?thesis by (simp only: unat_sub page_base_minus)
qed

lemma region_covers:
  assumes "base + len + 0xFFF < 2 ^ 64" and "base \<le> a" and "a < base + len"
  shows "page_base a \<in> set (region_pages base len)"
proof -
  have nat: "unat (word_of_nat c :: u64) = c" if "c < 2 ^ 64" for c using that by (simp add: unat_of_nat)
  have "page_base (base + len + 0xFFF) \<ge> base + len" by (simp add: page_base_def)
  then have "a < page_base (base + len + 0xFFF)" using assms(3) by simp
  moreover have "page_base base mod 4096 = 0" "page_base base \<le> a"
    using page_base_le [of base] assms(2) by (simp_all add: page_base_def)
  ultimately show ?thesis
    using page_of_range [of "page_base base" a "page_base (base + len + 0xFFF)"] assms(1)
    unfolding region_pages_def unat_round_down page_base_minus [of a]
    by (simp add: nat del: of_nat_add)
qed

lemma region_pages_one:
  assumes "base mod 4096 = 0" and "0 < len" and "len \<le> 4096" and "base + len + 0xFFF < 2 ^ 64"
  shows "region_pages base len = [base]"
proof -
  obtain k where k: "base = 4096 * k" using assms(1) by (auto simp: mod_eq_0_iff_dvd)
  have "unat (word_of_nat c :: u64) = c" if "c < 2 ^ 64" for c using that by (simp add: unat_of_nat)
  moreover have "(4096 * k + len + 0xFFF) div 4096 = k + 1"
    using assms(2,3) by (simp add: div_nat_eqI)
  ultimately show ?thesis
    using assms(4) unfolding region_pages_def unat_round_down
    by (simp add: page_base_def k page_range_def del: of_nat_add of_nat_mult)
qed

text \<open>An area that ends well inside the address space and shares no page with the page tables.\<close>

definition area_ok :: "nat \<Rightarrow> mem_state \<Rightarrow> nat \<Rightarrow> nat \<Rightarrow> bool" where
  "area_ok root s base len \<longleftrightarrow> base + len + 0xFFF < 2 ^ 64 \<and>
     (\<forall>a. base \<le> a \<and> a < base + len \<longrightarrow> page_base a \<notin> owned root s)"

lemma area_same:
  assumes "identity_step root flags xs s0 s" and "area_ok root s0 base len"
    and "base \<le> a" and "a + n \<le> base + len"
  shows "load_bytes (pmem s) a n = load_bytes (pmem s0) a n"
proof -
  have "same_outside (owned root s0) (pmem s0) (pmem s)"
    using assms(1) by (simp add: identity_step_def grown_def)
  then show ?thesis
    using assms(2-4) by (auto simp: load_bytes_def same_outside_def area_ok_def page_base_minus)
qed

lemma runs_map_region:
  assumes "mappable root all s0" and "set (xs @ region_pages base len) \<subseteq> set all"
    and "identity_step root flags xs s0 s" and "base + len + 0xFFF < 2 ^ 64"
  shows "runs_to (map_region root base len flags) s
    (\<lambda>r s'. r = Inr () \<and> identity_step root flags (xs @ region_pages base len) s0 s')"
  using runs_map_more [OF assms(1-3)] assms(4)
  unfolding map_region_def region_pages_def by (simp add: add.assoc)

subsection \<open>Tables\<close>

definition sdt_pages :: "pmem \<Rightarrow> nat \<Rightarrow> nat list" where
  "sdt_pages m hdr = region_pages hdr 36 @ (if sdt_length m hdr > 36 then region_pages hdr (sdt_length m hdr) else [])"

lemma sdt_length_same:
  assumes "identity_step root flags xs s0 s" and "area_ok root s0 hdr len" and "36 \<le> len"
  shows "sdt_length (pmem s) hdr = sdt_length (pmem s0) hdr"
  using area_same [OF assms(1,2), of "hdr + 4" 4] assms(3) by (simp add: sdt_length_def sdt_at_def load32_def)

lemma runs_map_sdt:
  assumes all: "mappable root all s0" "set (xs @ sdt_pages (pmem s0) hdr) \<subseteq> set all"
    and step: "identity_step root flags xs s0 s"
    and area: "area_ok root s0 hdr (max 36 (sdt_length (pmem s0) hdr))"
  shows "runs_to (map_sdt root hdr flags) s
    (\<lambda>r s'. r = Inr () \<and> identity_step root flags (xs @ sdt_pages (pmem s0) hdr) s0 s')"
proof -
  have "set (xs @ region_pages hdr 36) \<subseteq> set all" "hdr + 36 + 0xFFF < 2 ^ 64"
    using all(2) area by (auto simp: sdt_pages_def area_ok_def)
  note head = runs_map_region [OF all(1) this(1) step this(2)]
  show ?thesis
    unfolding map_sdt_def runs_to_seq size_of_SdtHeader_def
  proof (rule runs_to_mono [OF head], elim conjE, simp, intro conjI impI)
    fix s1
    assume s1: "identity_step root flags (xs @ region_pages hdr 36) s0 s1"
    note len = sdt_length_same [OF s1 area]
    show "runs_to (map_region root hdr (sdt_length (pmem s1) hdr) flags) s1
        (\<lambda>r s'. r = Inr () \<and> identity_step root flags (xs @ sdt_pages (pmem s0) hdr) s0 s')"
      if more: "36 < sdt_length (pmem s1) hdr"
    proof -
      have "set ((xs @ region_pages hdr 36) @ region_pages hdr (sdt_length (pmem s1) hdr)) \<subseteq> set all"
        "hdr + sdt_length (pmem s1) hdr + 0xFFF < 2 ^ 64"
        using all(2) area more len by (auto simp: sdt_pages_def area_ok_def)
      from runs_map_region [OF all(1) this(1) s1 this(2)] show ?thesis
        using more len by (simp add: sdt_pages_def)
    qed
    show "identity_step root flags (xs @ sdt_pages (pmem s0) hdr) s0 s1" if "\<not> 36 < sdt_length (pmem s1) hdr"
      using that s1 len by (simp add: sdt_pages_def)
  qed
qed

text \<open>The tables a root table lists, as the two iterations read them.\<close>

definition xsdt_entries :: "pmem \<Rightarrow> nat \<Rightarrow> nat list" where
  "xsdt_entries m xsdt = map (\<lambda>i. unat (load64 m (xsdt + 36 + 8 * i))) [0..<(sdt_length m xsdt - 36) div 8]"

definition rsdt_entries :: "pmem \<Rightarrow> nat \<Rightarrow> nat list" where
  "rsdt_entries m rsdt = map (\<lambda>i. unat (load32 m (rsdt + 36 + 4 * i))) [0..<(sdt_length m rsdt - 36) div 4]"

definition listed_tables :: "pmem \<Rightarrow> AcpiTables \<Rightarrow> nat list" where
  "listed_tables m t = (case at_xsdt t of Some x \<Rightarrow> x # xsdt_entries m x
     | None \<Rightarrow> (case at_rsdt t of Some r \<Rightarrow> r # rsdt_entries m r | None \<Rightarrow> []))"

definition rsdp_size :: "pmem \<Rightarrow> AcpiTables \<Rightarrow> nat" where
  "rsdp_size m t = (if rsdp_is_v2 m (at_rsdp t) then 36 else 20)"

definition acpi_pages :: "pmem \<Rightarrow> AcpiTables \<Rightarrow> nat list" where
  "acpi_pages m t = region_pages (at_rsdp t) (rsdp_size m t) @ concat (map (sdt_pages m) (listed_tables m t))"

lemma runs_map_children:
  assumes all: "mappable root all s0"
    and sub: "set (xs @ concat (map (\<lambda>i. sdt_pages (pmem s0) (entry (pmem s0) i)) js)) \<subseteq> set all"
    and step: "identity_step root flags xs s0 s"
    and areas: "\<forall>i \<in> set js. area_ok root s0 (entry (pmem s0) i) (max 36 (sdt_length (pmem s0) (entry (pmem s0) i)))"
    and same: "\<And>ys s. identity_step root flags ys s0 s \<Longrightarrow> \<forall>i \<in> set js. entry (pmem s) i = entry (pmem s0) i"
  shows "runs_to (for_each js (\<lambda>i. bind (gets (\<lambda>s. entry (pmem s) i)) (\<lambda>child. map_sdt root child flags))) s
    (\<lambda>r s'. r = Inr () \<and>
      identity_step root flags (xs @ concat (map (\<lambda>i. sdt_pages (pmem s0) (entry (pmem s0) i)) js)) s0 s')"
proof (rule for_each_invariant [where I = "\<lambda>ys s'.
    identity_step root flags (xs @ concat (map (\<lambda>i. sdt_pages (pmem s0) (entry (pmem s0) i)) ys)) s0 s'"])
  show "identity_step root flags (xs @ concat (map (\<lambda>i. sdt_pages (pmem s0) (entry (pmem s0) i)) [])) s0 s"
    using step by simp
  fix ys i zs s1
  assume js: "js = ys @ i # zs"
    and s1: "identity_step root flags (xs @ concat (map (\<lambda>i. sdt_pages (pmem s0) (entry (pmem s0) i)) ys)) s0 s1"
  have "area_ok root s0 (entry (pmem s0) i) (max 36 (sdt_length (pmem s0) (entry (pmem s0) i)))"
    "entry (pmem s1) i = entry (pmem s0) i"
    "set ((xs @ concat (map (\<lambda>i. sdt_pages (pmem s0) (entry (pmem s0) i)) ys)) @ sdt_pages (pmem s0) (entry (pmem s0) i)) \<subseteq> set all"
    using areas same [OF s1] sub by (auto simp: js)
  with runs_map_sdt [OF all this(3) s1 this(1)]
  show "runs_to (bind (gets (\<lambda>s. entry (pmem s) i)) (\<lambda>child. map_sdt root child flags)) s1 (\<lambda>r s'. r = Inr () \<and>
      identity_step root flags (xs @ concat (map (\<lambda>i. sdt_pages (pmem s0) (entry (pmem s0) i)) (ys @ [i]))) s0 s')"
    by simp
qed

text \<open>Entries of a root table stay as they were, because they are outside the page tables.\<close>

lemma entries_same:
  assumes "area_ok root s0 hdr (max 36 (sdt_length (pmem s0) hdr))" and "identity_step root flags ys s0 s"
  shows "\<forall>i \<in> set [0..<(sdt_length (pmem s0) hdr - 36) div 8].
      unat (load64 (pmem s) (hdr + 36 + 8 * i)) = unat (load64 (pmem s0) (hdr + 36 + 8 * i))"
    and "\<forall>i \<in> set [0..<(sdt_length (pmem s0) hdr - 36) div 4].
      unat (load32 (pmem s) (hdr + 36 + 4 * i)) = unat (load32 (pmem s0) (hdr + 36 + 4 * i))"
proof -
  have inside: "hdr + 36 + k * i + k \<le> hdr + max 36 (sdt_length (pmem s0) hdr)"
    if "i < (sdt_length (pmem s0) hdr - 36) div k" "0 < k" for i k
  proof -
    have "Suc i \<le> (sdt_length (pmem s0) hdr - 36) div k" using that(1) by simp
    then have "k * Suc i \<le> sdt_length (pmem s0) hdr - 36"
      using that(2) by (metis less_eq_div_iff_mult_less_eq mult.commute)
    then show ?thesis using that by (cases "36 \<le> sdt_length (pmem s0) hdr") auto
  qed
  show "\<forall>i \<in> set [0..<(sdt_length (pmem s0) hdr - 36) div 8].
      unat (load64 (pmem s) (hdr + 36 + 8 * i)) = unat (load64 (pmem s0) (hdr + 36 + 8 * i))"
    using area_same [OF assms(2,1), of "hdr + 36 + 8 * _" 8] inside [of _ 8] by (simp add: load64_def)
  show "\<forall>i \<in> set [0..<(sdt_length (pmem s0) hdr - 36) div 4].
      unat (load32 (pmem s) (hdr + 36 + 4 * i)) = unat (load32 (pmem s0) (hdr + 36 + 4 * i))"
    using area_same [OF assms(2,1), of "hdr + 36 + 4 * _" 4] inside [of _ 4] by (simp add: load32_def)
qed

lemma runs_map_root:
  fixes entry :: "pmem \<Rightarrow> nat \<Rightarrow> nat"
  assumes all: "mappable root all s0" and step: "identity_step root flags xs s0 s"
    and len: "36 \<le> sdt_length (pmem s0) hdr"
    and children: "children = map (entry (pmem s0)) [0..<(sdt_length (pmem s0) hdr - 36) div k]"
    and sub: "set (xs @ concat (map (sdt_pages (pmem s0)) (hdr # children))) \<subseteq> set all"
    and ok: "\<forall>h \<in> set (hdr # children). area_ok root s0 h (max 36 (sdt_length (pmem s0) h))"
    and same: "\<And>ys s. identity_step root flags ys s0 s \<Longrightarrow>
      \<forall>i \<in> set [0..<(sdt_length (pmem s0) hdr - 36) div k]. entry (pmem s) i = entry (pmem s0) i"
  shows "runs_to (seq (map_sdt root hdr flags)
      (bind (gets (\<lambda>s. sdt_length (pmem s) hdr)) (\<lambda>len.
       bind (usize_sub len 36) (\<lambda>n.
         for_each [0..<n div k] (\<lambda>i. bind (gets (\<lambda>s. entry (pmem s) i)) (\<lambda>child. map_sdt root child flags)))))) s
    (\<lambda>r s'. r = Inr () \<and>
      identity_step root flags (xs @ concat (map (sdt_pages (pmem s0)) (hdr # children))) s0 s')"
proof -
  have root: "area_ok root s0 hdr (max 36 (sdt_length (pmem s0) hdr))" using ok by simp
  have "set (xs @ sdt_pages (pmem s0) hdr) \<subseteq> set all" using sub by simp
  note head = runs_map_sdt [OF all this step root]
  show ?thesis
    unfolding runs_to_seq
  proof (rule runs_to_mono [OF head], elim conjE, simp, intro conjI)
    fix s1
    assume s1: "identity_step root flags (xs @ sdt_pages (pmem s0) hdr) s0 s1"
    have eq: "sdt_length (pmem s1) hdr = sdt_length (pmem s0) hdr" using sdt_length_same [OF s1 root] by simp
    show "36 \<le> sdt_length (pmem s1) hdr" using eq len by simp
    show "runs_to (for_each [0..<(sdt_length (pmem s1) hdr - 36) div k]
        (\<lambda>i. bind (gets (\<lambda>s. entry (pmem s) i)) (\<lambda>child. map_sdt root child flags))) s1
      (\<lambda>r s'. r = Inr () \<and> identity_step root flags
        (xs @ sdt_pages (pmem s0) hdr @ concat (map (sdt_pages (pmem s0)) children)) s0 s')"
      unfolding eq
      using runs_map_children [OF all _ s1, of entry "[0..<(sdt_length (pmem s0) hdr - 36) div k]"] sub ok same
      by (simp add: children comp_def)
  qed
qed

subsection \<open>All tables\<close>

definition acpi_area :: "pmem \<Rightarrow> AcpiTables \<Rightarrow> nat set" where
  "acpi_area m t = {at_rsdp t..<at_rsdp t + rsdp_size m t} \<union>
     (\<Union>h \<in> set (listed_tables m t). {h..<h + max 36 (sdt_length m h)})"

definition tables_readable :: "nat \<Rightarrow> mem_state \<Rightarrow> AcpiTables \<Rightarrow> bool" where
  "tables_readable root s t \<longleftrightarrow> area_ok root s (at_rsdp t) (rsdp_size (pmem s) t) \<and>
     (\<forall>h \<in> set (listed_tables (pmem s) t). area_ok root s h (max 36 (sdt_length (pmem s) h))) \<and>
     (case listed_tables (pmem s) t of [] \<Rightarrow> True | h # _ \<Rightarrow> 36 \<le> sdt_length (pmem s) h)"

lemma runs_map_acpi_tables:
  assumes all: "mappable root (acpi_pages (pmem s) t) s" and ok: "tables_readable root s t"
  shows "runs_to (map_acpi_tables root t) s (\<lambda>r s'. r = Inr () \<and> identity_step root map_flags (acpi_pages (pmem s) t) s s')"
proof -
  let ?first = "region_pages (at_rsdp t) (rsdp_size (pmem s) t)"
  have "at_rsdp t + rsdp_size (pmem s) t + 0xFFF < 2 ^ 64" "set ([] @ ?first) \<subseteq> set (acpi_pages (pmem s) t)"
    using ok by (simp_all add: tables_readable_def area_ok_def acpi_pages_def)
  note first = runs_map_region [OF all this(2) identity_step_refl [OF all] this(1), of map_flags, unfolded append_Nil]
  have "runs_to (case at_xsdt t of
          Some xsdt \<Rightarrow> seq (map_sdt root xsdt map_flags) (iter_xsdt pmem xsdt (\<lambda>child. map_sdt root child map_flags))
        | None \<Rightarrow> opt_do (at_rsdt t) (\<lambda>rsdt. seq (map_sdt root rsdt map_flags)
            (iter_rsdt pmem rsdt (\<lambda>child. map_sdt root child map_flags)))) s1
      (\<lambda>r s'. r = Inr () \<and> identity_step root map_flags (acpi_pages (pmem s) t) s s')"
    if s1: "identity_step root map_flags ?first s s1" for s1
  proof (cases "at_xsdt t")
    case (Some x)
    then have l: "listed_tables (pmem s) t = x # xsdt_entries (pmem s) x" by (simp add: listed_tables_def)
    have x: "area_ok root s x (max 36 (sdt_length (pmem s) x))" 
      using ok unfolding tables_readable_def l by (meson list.set_intros(1))
    have "runs_to (seq (map_sdt root x map_flags) (iter_xsdt pmem x (\<lambda>child. map_sdt root child map_flags))) s1
      (\<lambda>r s'. r = Inr () \<and> identity_step root map_flags
        (?first @ concat (map (sdt_pages (pmem s)) (x # xsdt_entries (pmem s) x))) s s')"
      unfolding iter_xsdt_def size_of_SdtHeader_def
      by (rule runs_map_root [where entry = "\<lambda>m i. unat (load64 m (x + 36 + 8 * i))",
            OF all s1 _ xsdt_entries_def])
        (use ok l entries_same(1) [OF x] in \<open>auto simp: tables_readable_def acpi_pages_def\<close>)
    then show ?thesis using Some by (simp add: l acpi_pages_def)
  next
    case None
    note no_x = this
    show ?thesis
    proof (cases "at_rsdt t")
      case None
      then show ?thesis using s1 no_x by (simp add: opt_do_def acpi_pages_def listed_tables_def)
    next
      case (Some x)
      then have l: "listed_tables (pmem s) t = x # rsdt_entries (pmem s) x" using no_x by (simp add: listed_tables_def)
      have x: "area_ok root s x (max 36 (sdt_length (pmem s) x))" 
      using ok unfolding tables_readable_def l by (meson list.set_intros(1))
      have "runs_to (seq (map_sdt root x map_flags) (iter_rsdt pmem x (\<lambda>child. map_sdt root child map_flags))) s1
        (\<lambda>r s'. r = Inr () \<and> identity_step root map_flags
          (?first @ concat (map (sdt_pages (pmem s)) (x # rsdt_entries (pmem s) x))) s s')"
        unfolding iter_rsdt_def size_of_SdtHeader_def
        by (rule runs_map_root [where entry = "\<lambda>m i. unat (load32 m (x + 36 + 4 * i))",
              OF all s1 _ rsdt_entries_def])
          (use ok l entries_same(2) [OF x] in \<open>auto simp: tables_readable_def acpi_pages_def\<close>)
      then show ?thesis using Some no_x by (simp add: l acpi_pages_def opt_do_def)
    qed
  qed
  then show ?thesis
    using first by (auto simp: map_acpi_tables_def rsdp_size_def elim!: runs_to_mono split: if_splits)
qed

lemma acpi_area_page:
  assumes "tables_readable root s t" and "a \<in> acpi_area (pmem s) t"
  shows "page_base a \<in> set (acpi_pages (pmem s) t) \<and> a < 2 ^ 64 \<and> page_base a \<notin> owned root s"
  using assms(2) unfolding acpi_area_def
proof (elim UnE UN_E)
  assume "a \<in> {at_rsdp t..<at_rsdp t + rsdp_size (pmem s) t}"
  then show ?thesis
    using assms(1) region_covers [of "at_rsdp t" "rsdp_size (pmem s) t" a]
    by (simp add: tables_readable_def area_ok_def acpi_pages_def)
next
  fix h
  assume h: "h \<in> set (listed_tables (pmem s) t)" and a: "a \<in> {h..<h + max 36 (sdt_length (pmem s) h)}"
  have ok: "area_ok root s h (max 36 (sdt_length (pmem s) h))" using assms(1) h by (simp add: tables_readable_def)
  have "page_base a \<in> set (region_pages h (max 36 (sdt_length (pmem s) h)))"
    using ok a by (intro region_covers) (auto simp: area_ok_def)
  then have "page_base a \<in> set (sdt_pages (pmem s) h)" by (auto simp: sdt_pages_def max_def split: if_splits)
  then show ?thesis using h a ok by (auto simp: acpi_pages_def area_ok_def)
qed

text \<open>
  C28.  With tables that lie outside the page tables and the free frames, a root table of at least a
  header, and enough free frames for the page tables that are missing, \<open>map_acpi_tables\<close>
  returns; every byte of the root pointer, of the root table and of every table it lists is
  then mapped to itself, present and writable, and still has the contents it had; the page
  tables stay well formed.
\<close>

theorem map_acpi_tables_identity:
  assumes "mappable pml4 (acpi_pages (pmem s) t) s" and "tables_readable pml4 s t"
  shows "runs_to (map_acpi_tables pml4 t) s (\<lambda>r s'. r = Inr () \<and> memory_ok pml4 s' \<and>
    (\<forall>a \<in> acpi_area (pmem s) t. pmem s' a = pmem s a \<and>
       translate (pmem s') pml4 (word_of_nat a) = Some (word_of_nat (page_base a) OR map_flags OR PAGE_PRESENT)))"
proof (rule runs_to_mono [OF runs_map_acpi_tables [OF assms]], elim conjE, intro conjI ballI)
  fix r s' a
  assume step: "identity_step pml4 map_flags (acpi_pages (pmem s) t) s s'"
  then show "memory_ok pml4 s'" by (simp add: identity_step_def grown_def)
  assume "a \<in> acpi_area (pmem s) t"
  note a = acpi_area_page [OF assms(2) this]
  have "same_outside (owned pml4 s) (pmem s) (pmem s')" using step by (simp add: identity_step_def grown_def)
  then show "pmem s' a = pmem s a" using a by (simp add: same_outside_def page_base_minus)
  show "translate (pmem s') pml4 (word_of_nat a) = Some (word_of_nat (page_base a) OR map_flags OR PAGE_PRESENT)"
    using step a translate_base [of a] by (simp add: identity_step_def)
qed

text \<open>A root pointer with a 32-bit root table that lists one table.\<close>

definition example_tables :: AcpiTables where
  "example_tables = (no_tables 0x180000)\<lparr>at_rsdt := Some 0x181000\<rparr>"

definition acpi_memory :: mem_state where
  "acpi_memory = \<lparr> pmem = store_bytes 0x181004 (to_le 4 (40 :: u32)) (store_bytes 0x181024 (to_le 4 (0x182000 :: u32)) (\<lambda>_. 0)),
     frames = FrameAllocator_new example_map \<rparr>"

lemma acpi_memory_low: "a < 0x181004 \<Longrightarrow> pmem acpi_memory a = 0"
  by (simp add: acpi_memory_def store_bytes_def)

lemma acpi_memory_zeros: "a + n \<le> 0x181004 \<Longrightarrow> load_bytes (pmem acpi_memory) a n = replicate n 0"
  by (rule nth_equalityI) (simp_all add: load_bytes_def acpi_memory_low)

lemma acpi_memory_reads:
  "load_bytes (pmem acpi_memory) 0x181004 4 = to_le 4 (40 :: u32)"
  "load_bytes (pmem acpi_memory) 0x181024 4 = to_le 4 (0x182000 :: u32)"
  "load_bytes (pmem acpi_memory) 0x182004 4 = replicate 4 0"
proof -
  note same = load_store_bytes_same [of _ "to_le 4 v" for v :: u32, unfolded length_to_le]
  show "load_bytes (pmem acpi_memory) 0x181004 4 = to_le 4 (40 :: u32)"
    by (simp add: acpi_memory_def same)
  show "load_bytes (pmem acpi_memory) 0x181024 4 = to_le 4 (0x182000 :: u32)"
    by (simp add: acpi_memory_def load_store_bytes_other same)
  show "load_bytes (pmem acpi_memory) 0x182004 4 = replicate 4 0"
    by (simp add: acpi_memory_def load_store_bytes_other) (simp add: load_bytes_def map_replicate_const)
qed

lemma acpi_memory_lengths:
  "sdt_length (pmem acpi_memory) 0x181000 = 40" "sdt_length (pmem acpi_memory) 0x182000 = 0"
proof -
  show "sdt_length (pmem acpi_memory) 0x181000 = 40"
    using acpi_memory_reads(1) by (simp add: sdt_length_def sdt_at_def load32_def)
  show "sdt_length (pmem acpi_memory) 0x182000 = 0"
    using acpi_memory_reads(3) by (simp add: sdt_length_def sdt_at_def load32_def from_le_def nat_of_le_zeros)
qed

lemma acpi_memory_tables:
  "listed_tables (pmem acpi_memory) example_tables = [0x181000, 0x182000]"
  "rsdp_size (pmem acpi_memory) example_tables = 20" "at_rsdp example_tables = 0x180000"
  using acpi_memory_reads(2)
  by (simp_all add: listed_tables_def rsdt_entries_def acpi_memory_lengths example_tables_def no_tables_def load32_def
      rsdp_size_def rsdp_is_v2_def rsdp_at_def load8_def acpi_memory_low)

lemma acpi_memory_ok: "memory_ok 0x2000 acpi_memory"
proof -
  have "table_entry (pmem acpi_memory) 0x2000 i = 0" if "i < 512" for i
    using that by (simp add: table_entry_def load64_def acpi_memory_zeros from_le_def nat_of_le_zeros)
  moreover have "0x2000 \<notin> set (concat (map desc_frames example_map))"
    by (auto simp: example_map_def desc_frames_def EFI_CONVENTIONAL_MEMORY_def EFI_LOADER_DATA_def)
  ultimately have "pt_ok (pmem acpi_memory) 0x2000 (concat (map desc_frames example_map))"
    using frames_of_map [OF example_map_ok] by (intro pt_ok_fresh) (simp_all add: frame_ok_def)
  then show ?thesis
    using example_map_ok by (simp add: memory_ok_def acpi_memory_def fa_ok_start remaining_start map_ok_def)
qed

lemma acpi_memory_owned: "owned 0x2000 acpi_memory \<subseteq> {..<0x180000}"
proof -
  have "table_at (pmem acpi_memory) 0x2000 q = (if q = [] then Some 0x2000 else None)" if "q \<in> paths" for q
  proof (rule pt_ok_fresh(2) [where free = "[]", OF _ _ _ _ _ that])
    show "\<forall>i < 512. table_entry (pmem acpi_memory) 0x2000 i = 0"
      by (simp add: table_entry_def load64_def acpi_memory_zeros from_le_def nat_of_le_zeros)
  qed (simp_all add: frame_ok_def)
  then have "tables (pmem acpi_memory) 0x2000 \<subseteq> {0x2000}" by (auto simp: tables_def split: if_splits)
  moreover have "set (remaining (frames acpi_memory)) \<subseteq> {..<0x180000}"
    by (auto simp: acpi_memory_def remaining_start example_map_def desc_frames_def)
  ultimately show ?thesis by (auto simp: owned_def)
qed

lemma acpi_memory_readable: "tables_readable 0x2000 acpi_memory example_tables"
proof -
  have "area_ok 0x2000 acpi_memory base len" if "0x180000 \<le> base" "base + len < 2 ^ 32" for base len
  proof -
    have "0x180000 \<le> page_base a" if "base \<le> a" for a
      using that \<open>0x180000 \<le> base\<close> div_le_mono [of "0x180000" a 4096] by (simp add: page_base_def)
    then show ?thesis using that acpi_memory_owned by (fastforce simp: area_ok_def)
  qed
  then show ?thesis by (simp add: tables_readable_def acpi_memory_tables acpi_memory_lengths)
qed

theorem map_acpi_tables_identity_witness:
  "runs_to (map_acpi_tables 0x2000 example_tables) acpi_memory (\<lambda>r s'. r = Inr () \<and>
     translate (pmem s') 0x2000 0x181027 = Some 0x181003 \<and> translate (pmem s') 0x2000 0x182000 = Some 0x182003)"
proof -
  have pages: "set (acpi_pages (pmem acpi_memory) example_tables) = {0x180000, 0x181000, 0x182000}"
    by (simp add: acpi_pages_def acpi_memory_tables sdt_pages_def acpi_memory_lengths region_pages_one)
  have "card (absent 0x2000 (uppers (acpi_pages (pmem acpi_memory) example_tables)) acpi_memory) \<le> card {[0 :: nat], [0, 0], [0, 0, 0]}"
    using uppers_low [of "acpi_pages (pmem acpi_memory) example_tables"] pages
    by (intro card_mono) (auto simp: absent_def)
  also have "\<dots> \<le> length (remaining (frames acpi_memory))"
    by (simp add: acpi_memory_def remaining_start length_example_frames)
  finally have all: "mappable 0x2000 (acpi_pages (pmem acpi_memory) example_tables) acpi_memory"
    using pages by (simp add: mappable_def acpi_memory_ok page_ok_def)
  have "0x181027 \<in> acpi_area (pmem acpi_memory) example_tables" "0x182000 \<in> acpi_area (pmem acpi_memory) example_tables"
    by (simp_all add: acpi_area_def acpi_memory_tables acpi_memory_lengths)
  then show ?thesis
    by (intro runs_to_mono [OF map_acpi_tables_identity [OF all acpi_memory_readable]])
      (force simp: page_base_def map_flags_def PAGE_WRITABLE_def PAGE_PRESENT_def)
qed

end
