(* ===== verification/Smp.thy ===== *)
theory Smp
  imports Sched_Spec Acpi
begin

section \<open>Starting the application processors\<close>

text \<open>
  \<open>src/src/processor.rs\<close>: the local APIC, the trampoline page, the INIT-SIPI-SIPI sequence, the
  entry of an application processor and the bring-up of all of them.  The state is the kernel
  with its statics and the world behind the bus: the APIC registers and the trampoline page,
  which the started processors read and write while the first one waits.  \<open>c\<close> is the executing
  processor.
\<close>

type_synonym ('w, 'a) sp = "(kernel \<times> 'w, string, 'a) prog"

definition on_kernel :: "'a kn \<Rightarrow> ('w, 'a) sp" where
  "on_kernel p = zoom fst (\<lambda>k s. (k, snd s)) p"

definition on_bus :: "('w, string, 'a) prog \<Rightarrow> ('w, 'a) sp" where
  "on_bus p = zoom snd (\<lambda>w s. (fst s, w)) p"

definition smp_println :: "message \<Rightarrow> ('w, unit) sp" where
  "smp_println x = on_kernel (on_machine (modify (\<lambda>m. m\<lparr>printed := printed m @ [x]\<rparr>)))"

subsection \<open>The local APIC\<close>

datatype lapic_register =
    LAPIC_TPR | LAPIC_EOI | LAPIC_SVR | LAPIC_ICR_LOW | LAPIC_ICR_HIGH | LAPIC_LVT_TIMER
  | LAPIC_TIMER_INIT | LAPIC_TIMER_CUR | LAPIC_TIMER_DIV

primrec lapic_offset :: "lapic_register \<Rightarrow> u32" where
  "lapic_offset LAPIC_TPR = 0x080"
| "lapic_offset LAPIC_EOI = 0x0B0"
| "lapic_offset LAPIC_SVR = 0x0F0"
| "lapic_offset LAPIC_ICR_LOW = 0x300"
| "lapic_offset LAPIC_ICR_HIGH = 0x310"
| "lapic_offset LAPIC_LVT_TIMER = 0x320"
| "lapic_offset LAPIC_TIMER_INIT = 0x380"
| "lapic_offset LAPIC_TIMER_CUR = 0x390"
| "lapic_offset LAPIC_TIMER_DIV = 0x3E0"

abbreviation ICR_DELIVERY_INIT :: u32 where "ICR_DELIVERY_INIT \<equiv> push_bit 8 5"
abbreviation ICR_DELIVERY_STARTUP :: u32 where "ICR_DELIVERY_STARTUP \<equiv> push_bit 8 6"
abbreviation ICR_LEVEL_ASSERT :: u32 where "ICR_LEVEL_ASSERT \<equiv> push_bit 14 1"
abbreviation ICR_LEVEL_DEASSERT :: u32 where "ICR_LEVEL_DEASSERT \<equiv> push_bit 14 0"
abbreviation ICR_TRIGGER_LEVEL :: u32 where "ICR_TRIGGER_LEVEL \<equiv> push_bit 15 1"
abbreviation LAPIC_SVR_ENABLE :: u32 where "LAPIC_SVR_ENABLE \<equiv> push_bit 8 1"
abbreviation LAPIC_SPURIOUS_VEC :: u32 where "LAPIC_SPURIOUS_VEC \<equiv> 0xFF"

definition lapic_write :: "'w bus \<Rightarrow> u64 \<Rightarrow> lapic_register \<Rightarrow> u32 \<Rightarrow> ('w, string, unit) prog" where
  "lapic_write b base r value =
     bind (usize_add (unat base) (unat (lapic_offset r))) (\<lambda>a. write32 b a value)"

definition lapic_read :: "'w bus \<Rightarrow> u64 \<Rightarrow> lapic_register \<Rightarrow> ('w, string, u32) prog" where
  "lapic_read b base r = bind (usize_add (unat base) (unat (lapic_offset r))) (\<lambda>a. read32 b a)"

definition lapic_enable :: "'w bus \<Rightarrow> u64 \<Rightarrow> ('w, string, unit) prog" where
  "lapic_enable b lapic_base =
     seq (lapic_write b lapic_base LAPIC_SVR (LAPIC_SVR_ENABLE OR LAPIC_SPURIOUS_VEC))
         (lapic_write b lapic_base LAPIC_TPR 0)"

definition lapic_eoi :: "'w bus \<Rightarrow> u64 \<Rightarrow> ('w, string, unit) prog" where
  "lapic_eoi b lapic_base = lapic_write b lapic_base LAPIC_EOI 0"

definition icr_wait_idle :: "'w bus \<Rightarrow> u64 \<Rightarrow> ('w, string, unit) prog" where
  "icr_wait_idle b lapic_base =
     prog_loop (\<lambda>_. bind (lapic_read b lapic_base LAPIC_ICR_LOW) (\<lambda>low.
       if low AND push_bit 12 1 = 0 then ret (Inr ()) else ret (Inl ()))) ()"

definition icr_send :: "'w bus \<Rightarrow> u64 \<Rightarrow> u8 \<Rightarrow> u32 \<Rightarrow> ('w, string, unit) prog" where
  "icr_send b lapic_base dest_apic_id icr_low =
     (let icr_high = push_bit 24 (ucast dest_apic_id) in
      seq (icr_wait_idle b lapic_base)
      (seq (lapic_write b lapic_base LAPIC_ICR_HIGH icr_high)
           (lapic_write b lapic_base LAPIC_ICR_LOW icr_low)))"

definition lapic_timer_start :: "'w bus \<Rightarrow> u64 \<Rightarrow> u8 \<Rightarrow> u32 \<Rightarrow> u32 \<Rightarrow> bool \<Rightarrow> ('w, string, unit) prog" where
  "lapic_timer_start b lapic_base vector initial_count divisor_cfg periodic =
     (let mode = if periodic then push_bit 17 1 else 0 in
      seq (lapic_write b lapic_base LAPIC_TIMER_DIV divisor_cfg)
      (seq (lapic_write b lapic_base LAPIC_LVT_TIMER (ucast vector OR mode))
           (lapic_write b lapic_base LAPIC_TIMER_INIT initial_count)))"

definition lapic_timer_stop :: "'w bus \<Rightarrow> u64 \<Rightarrow> ('w, string, unit) prog" where
  "lapic_timer_stop b lapic_base =
     seq (lapic_write b lapic_base LAPIC_LVT_TIMER (push_bit 16 1)) (lapic_write b lapic_base LAPIC_TIMER_INIT 0)"

definition lapic_timer_current :: "'w bus \<Rightarrow> u64 \<Rightarrow> ('w, string, u32) prog" where
  "lapic_timer_current b lapic_base = lapic_read b lapic_base LAPIC_TIMER_CUR"

subsection \<open>The trampoline\<close>

abbreviation (input) TRAMPOLINE_PHYS :: nat where "TRAMPOLINE_PHYS \<equiv> 0x8000"
abbreviation SIPI_VECTOR :: u32 where "SIPI_VECTOR \<equiv> word_of_nat (drop_bit 12 TRAMPOLINE_PHYS)"
abbreviation TRAMP_OFF_RIP :: nat where "TRAMP_OFF_RIP \<equiv> 0xF00"
abbreviation TRAMP_OFF_CR3 :: nat where "TRAMP_OFF_CR3 \<equiv> 0xF08"
abbreviation TRAMP_OFF_RSP :: nat where "TRAMP_OFF_RSP \<equiv> 0xF10"
abbreviation TRAMP_OFF_ONLINE :: nat where "TRAMP_OFF_ONLINE \<equiv> 0xF18"

definition TRAMPOLINE_CODE :: bytes where
  "TRAMPOLINE_CODE =
    [0xFA, 0xFC, 0x31, 0xC0, 0x8E, 0xD8, 0x0F, 0x01, 0x16, 0x00, 0x81, 0x0F, 0x20, 0xC0, 0x66, 0x83,
     0xC8, 0x01, 0x0F, 0x22, 0xC0, 0x66, 0xEA, 0x20, 0x80, 0x00, 0x00, 0x08, 0x00, 0x90, 0x90, 0x90,
     0x66, 0xB8, 0x10, 0x00, 0x8E, 0xD8, 0x8E, 0xC0, 0x8E, 0xD0, 0x0F, 0x20, 0xE0, 0x83, 0xC8, 0x20,
     0x0F, 0x22, 0xE0, 0xA1, 0x08, 0x8F, 0x00, 0x00, 0x0F, 0x22, 0xD8, 0xB9, 0x80, 0x00, 0x00, 0xC0,
     0x0F, 0x32, 0x0D, 0x00, 0x01, 0x00, 0x00, 0x0F, 0x30, 0x0F, 0x20, 0xC0, 0x0D, 0x00, 0x00, 0x00,
     0x80, 0x0F, 0x22, 0xC0, 0xEA, 0x80, 0x80, 0x00, 0x00, 0x18, 0x00, 0x90, 0x90, 0x90, 0x90, 0x90,
     0x90, 0x90, 0x90, 0x90, 0x90, 0x90, 0x90, 0x90, 0x90, 0x90, 0x90, 0x90, 0x90, 0x90, 0x90, 0x90,
     0x90, 0x90, 0x90, 0x90, 0x90, 0x90, 0x90, 0x90, 0x90, 0x90, 0x90, 0x90, 0x90, 0x90, 0x90, 0x90,
     0x66, 0xB8, 0x10, 0x00, 0x66, 0x8E, 0xD8, 0x66, 0x8E, 0xC0, 0x66, 0x8E, 0xD0, 0x66, 0x31, 0xC0,
     0x66, 0x8E, 0xE0, 0x66, 0x8E, 0xE8, 0x48, 0x8B, 0x24, 0x25, 0x10, 0x8F, 0x00, 0x00, 0x48, 0x8B,
     0x04, 0x25, 0x00, 0x8F, 0x00, 0x00, 0xFF, 0xE0, 0x90, 0x90, 0x90, 0x90, 0x90, 0x90, 0x90, 0x90,
     0x90, 0x90, 0x90, 0x90, 0x90, 0x90, 0x90, 0x90, 0x90, 0x90, 0x90, 0x90, 0x90, 0x90, 0x90, 0x90,
     0x90, 0x90, 0x90, 0x90, 0x90, 0x90, 0x90, 0x90, 0x90, 0x90, 0x90, 0x90, 0x90, 0x90, 0x90, 0x90,
     0x90, 0x90, 0x90, 0x90, 0x90, 0x90, 0x90, 0x90, 0x90, 0x90, 0x90, 0x90, 0x90, 0x90, 0x90, 0x90,
     0x90, 0x90, 0x90, 0x90, 0x90, 0x90, 0x90, 0x90, 0x90, 0x90, 0x90, 0x90, 0x90, 0x90, 0x90, 0x90,
     0x90, 0x90, 0x90, 0x90, 0x90, 0x90, 0x90, 0x90, 0x90, 0x90, 0x90, 0x90, 0x90, 0x90, 0x90, 0x90,
     0x1F, 0x00, 0x10, 0x81, 0x00, 0x00, 0x00, 0x00, 0x00, 0x00, 0x00, 0x00, 0x00, 0x00, 0x00, 0x00,
     0x00, 0x00, 0x00, 0x00, 0x00, 0x00, 0x00, 0x00, 0xFF, 0xFF, 0x00, 0x00, 0x00, 0x9A, 0xCF, 0x00,
     0xFF, 0xFF, 0x00, 0x00, 0x00, 0x92, 0xCF, 0x00, 0xFF, 0xFF, 0x00, 0x00, 0x00, 0x9A, 0xAF, 0x00]"

definition write_trampoline_params :: "'w bus \<Rightarrow> u64 \<Rightarrow> u64 \<Rightarrow> u64 \<Rightarrow> ('w, string, unit) prog" where
  "write_trampoline_params b target_rip target_cr3 stack_addr =
     (let base = TRAMPOLINE_PHYS in
      seq (write32 b (base + TRAMP_OFF_ONLINE) 0)
      (seq (write64 b (base + TRAMP_OFF_RIP) target_rip)
      (seq (write64 b (base + TRAMP_OFF_CR3) target_cr3)
           (write64 b (base + TRAMP_OFF_RSP) stack_addr))))"

definition install_trampoline :: "'w bus \<Rightarrow> ('w, string, unit) prog" where
  "install_trampoline b = put_bytes b TRAMPOLINE_PHYS TRAMPOLINE_CODE"

subsection \<open>One application processor\<close>

definition io_waits :: "'w bus \<Rightarrow> nat \<Rightarrow> ('w, string, unit) prog" where
  "io_waits b n = for_each [0..<n] (\<lambda>_. io_wait b)"

text \<open>The wait for the online flag: \<open>True\<close> when it was seen, \<open>False\<close> after the time limit.\<close>

definition wait_online :: "'w bus \<Rightarrow> ('w, string, bool) prog" where
  "wait_online b =
     prog_loop (\<lambda>timeout :: u32.
       bind (read32 b (TRAMPOLINE_PHYS + TRAMP_OFF_ONLINE)) (\<lambda>flag.
         if flag \<noteq> 0 then ret (Inr True)
         else if timeout = 0 then ret (Inr False)
         else ret (Inl (timeout - 1)))) 1000000"

definition start_ap :: "'w bus \<Rightarrow> u64 \<Rightarrow> u8 \<Rightarrow> ('w, unit) sp" where
  "start_ap b lapic_base dest_id =
     bind (on_bus
       (seq (write32 b (TRAMPOLINE_PHYS + TRAMP_OFF_ONLINE) 0)
       (seq (icr_send b lapic_base dest_id (ICR_DELIVERY_INIT OR ICR_LEVEL_ASSERT OR ICR_TRIGGER_LEVEL))
       (seq (io_waits b 10000)
       (seq (icr_send b lapic_base dest_id (ICR_DELIVERY_INIT OR ICR_LEVEL_DEASSERT OR ICR_TRIGGER_LEVEL))
       (seq (io_waits b 10000)
       (seq (for_each [0..<2] (\<lambda>_.
               seq (icr_send b lapic_base dest_id (ICR_DELIVERY_STARTUP OR ICR_LEVEL_ASSERT OR SIPI_VECTOR))
                   (io_waits b 200)))
            (wait_online b))))))))
       (\<lambda>online. smp_println (if online then Smp_online dest_id else Smp_timed_out dest_id))"

text \<open>
  \<open>ap_entry\<close> up to its endless loop; the value says whether it found its slot and goes on to
  \<open>run_ap_scheduler\<close>, or only enables interrupts and halts.
\<close>

definition signal_online :: "'w bus \<Rightarrow> ('w, unit) sp" where
  "signal_online b =
     seq (on_bus (write32 b (TRAMPOLINE_PHYS + TRAMP_OFF_ONLINE) 1))
         (on_kernel (on_machine (modify (\<lambda>m. m\<lparr>AP_ONLINE_COUNT := AP_ONLINE_COUNT m + 1\<rparr>))))"

definition ap_setup :: "image \<Rightarrow> 'w bus \<Rightarrow> nat \<Rightarrow> ('w, bool) sp" where
  "ap_setup im b c =
     bind (on_kernel (on_machine (current_apic_id c))) (\<lambda>my_apic_id.
     bind (on_kernel (on_machine (gets (\<lambda>m.
             List.find (\<lambda>i. apic_id (PERCPU_DATA_SLOTS m ! i) = my_apic_id) [0..<Suc MAX_AP_COUNT])))) (\<lambda>found.
       case found of
         Some i \<Rightarrow>
           bind (on_kernel (get_slot i)) (\<lambda>slot.
           seq (on_kernel (on_machine
             (seq (set_percpu_data c (percpu_ptr im i))
             (seq (wrmsr c MSR_IA32_KERNEL_GS_BASE (percpu_ptr im i))
             (seq (gdt_init_cpu im c (unat (cpu_index slot)))
                  (init_idt im c))))))
           (bind (on_kernel (on_machine (lapic_base_from_msr c))) (\<lambda>lapic_base.
            seq (on_bus (lapic_enable b lapic_base))
            (seq (on_kernel (on_machine (syscall_init_cpu im c)))
            (seq (signal_online b) (ret True))))))
       | None \<Rightarrow>
           seq (on_kernel (on_machine (seq (gdt_init im c) (init_idt im c))))
           (bind (on_kernel (on_machine (lapic_base_from_msr c))) (\<lambda>lapic_base.
            seq (on_bus (lapic_enable b lapic_base))
            (seq (signal_online b) (ret False))))))"

text \<open>\<open>ap_entry\<close> with the first \<open>n\<close> rounds of the scheduler loop.\<close>

definition ap_entry :: "image \<Rightarrow> 'w bus \<Rightarrow> nat \<Rightarrow> nat \<Rightarrow> ('w, unit) sp" where
  "ap_entry im b c n = bind (ap_setup im b c) (\<lambda>found. if found then on_kernel (ap_rounds im c n) else stop)"

subsection \<open>All application processors\<close>

definition AP_STACK_SIZE :: nat where [simp]: "AP_STACK_SIZE = 16 * 1024"

definition ap_stack_top :: "image \<Rightarrow> nat \<Rightarrow> u64" where
  "ap_stack_top im ap_index = AP_STACKS_ADDR im + word_of_nat (AP_STACK_SIZE * ap_index) + word_of_nat AP_STACK_SIZE"

text \<open>The body of the loop for one processor; the value is the next \<open>ap_index\<close>.\<close>

definition start_one :: "image \<Rightarrow> 'w bus \<Rightarrow> u64 \<Rightarrow> u64 \<Rightarrow> u8 \<Rightarrow> u8 \<Rightarrow> nat \<Rightarrow> ('w, nat) sp" where
  "start_one im b lapic_base cr3 bsp_apic_id aid ap_index =
     (if aid = bsp_apic_id then ret ap_index
      else if ap_index \<ge> MAX_AP_COUNT then seq (smp_println (Smp_too_many aid)) (ret ap_index)
      else
        let stack_end = ap_stack_top im ap_index in
        seq (smp_println (Smp_starting ap_index aid stack_end))
        (seq (on_kernel (put_slot (ap_index + 1) (\<lambda>p. p\<lparr>apic_id := aid, cpu_index := word_of_nat (ap_index + 1),
                kernel_stack := stack_end, current_task_index := USIZE_MAX\<rparr>)))
        (seq (on_bus (write_trampoline_params b (AP_ENTRY_ADDR im) cr3 stack_end))
        (seq (start_ap b lapic_base aid)
             (ret (ap_index + 1))))))"

primrec start_list :: "image \<Rightarrow> 'w bus \<Rightarrow> u64 \<Rightarrow> u64 \<Rightarrow> u8 \<Rightarrow> u8 list \<Rightarrow> nat \<Rightarrow> ('w, nat) sp" where
  "start_list im b lapic_base cr3 bsp [] ap_index = ret ap_index"
| "start_list im b lapic_base cr3 bsp (aid # aids) ap_index =
     bind (start_one im b lapic_base cr3 bsp aid ap_index) (\<lambda>n. start_list im b lapic_base cr3 bsp aids n)"

definition start_all_aps :: "image \<Rightarrow> 'w bus \<Rightarrow> u64 \<Rightarrow> MadtInfo \<Rightarrow> u8 \<Rightarrow> ('w, unit) sp" where
  "start_all_aps im b cr3 madt bsp_apic_id =
     (let lapic_base = local_apic_address madt; n = unat (cpu_count madt) in
      seq (smp_println (Smp_found bsp_apic_id lapic_base))
      (seq (smp_println (Smp_cpus n))
      (if n \<le> 1 then smp_println Smp_single
       else
         seq (on_bus (lapic_enable b lapic_base))
         (seq (on_bus (install_trampoline b))
         (if n > length (apic_ids madt) then stop else
          bind (start_list im b lapic_base cr3 bsp_apic_id (take n (apic_ids madt)) 0) (\<lambda>_.
          bind (on_kernel (gets (\<lambda>k. AP_ONLINE_COUNT (mach k)))) (\<lambda>online.
            smp_println (Smp_done online))))))))"

definition online_ap_count :: "u32 kn" where
  "online_ap_count = gets (\<lambda>k. AP_ONLINE_COUNT (mach k))"

end
