(* ===== verification/Smp_Spec.thy ===== *)
theory Smp_Spec
  imports Smp
begin

section \<open>What the application processors do\<close>

text \<open>
  The bring-up of the processors returns whatever they do, gives every one of them a slot and a
  stack of its own, and each of them finds its own slot.  The entry code then loads the
  segment registers after it has set the per-processor pointer, which clears that pointer.
\<close>

subsection \<open>Rules\<close>

lemma runs_on_kernel [simp]: "runs_to (on_kernel p) s P \<longleftrightarrow> runs_to p (fst s) (\<lambda>r k. P r (k, snd s))"
  by (simp add: on_kernel_def)

lemma runs_on_bus [simp]: "runs_to (on_bus p) s P \<longleftrightarrow> runs_to p (snd s) (\<lambda>r w. P r (fst s, w))"
  by (simp add: on_bus_def)

lemma runs_on_machine_smp [simp]: "runs_to (on_machine p) k P \<longleftrightarrow> runs_to p (mach k) (\<lambda>r m. P r (k\<lparr>mach := m\<rparr>))"
  by (simp add: on_machine_def)

definition say_smp :: "message \<Rightarrow> kernel \<Rightarrow> kernel" where
  "say_smp x k = k\<lparr>mach := (mach k)\<lparr>printed := printed (mach k) @ [x]\<rparr>\<rparr>"

lemma runs_smp_println [simp]: "runs_to (smp_println x) s P \<longleftrightarrow> P (Inr ()) (say_smp x (fst s), snd s)"
  by (simp add: smp_println_def say_smp_def)

text \<open>The register block is inside the address space.\<close>

definition lapic_ok :: "u64 \<Rightarrow> bool" where
  "lapic_ok base \<longleftrightarrow> unat base + 0x400 \<le> 2 ^ 64"

lemma lapic_offset_small: "unat (lapic_offset r) < 0x400"
  by (cases r) simp_all

lemma runs_lapic_write [simp]:
  "lapic_ok base \<Longrightarrow> runs_to (lapic_write b base r v) w P \<longleftrightarrow>
     P (Inr ()) (bus_write b (unat base + unat (lapic_offset r)) (to_le 4 v) w)"
  using lapic_offset_small [of r] by (simp add: lapic_write_def lapic_ok_def)

lemma runs_lapic_enable: "lapic_ok base \<Longrightarrow> (\<And>w'. P (Inr ()) w') \<Longrightarrow> runs_to (lapic_enable b base) w P"
  by (simp add: lapic_enable_def)

text \<open>An interrupt command register that is idle whenever it is read.\<close>

definition icr_idle :: "'w bus \<Rightarrow> u64 \<Rightarrow> bool" where
  "icr_idle b base \<longleftrightarrow> (\<forall>w. from_le (fst (bus_read b (unat base + 0x300) 4 w)) AND push_bit 12 1 = (0 :: u32))"

lemma runs_icr_send:
  assumes "lapic_ok base" and "icr_idle b base" and "\<And>w'. P (Inr ()) w'"
  shows "runs_to (icr_send b base dest low) w P"
  using assms unfolding icr_send_def icr_wait_idle_def
  by (simp, subst runs_to_prog_loop) (simp add: lapic_read_def lapic_ok_def icr_idle_def split_beta)

lemma runs_io_waits: "(\<And>w'. P (Inr ()) w') \<Longrightarrow> runs_to (io_waits b n) w P"
proof -
  assume P: "\<And>w'. P (Inr ()) w'"
  have "runs_to (for_each [0..<n] (\<lambda>_. io_wait b)) w (\<lambda>r w'. r = Inr () \<and> True)"
    by (rule for_each_invariant) (simp_all add: io_wait_def outb_def runs_to_def)
  then show ?thesis unfolding io_waits_def by (rule runs_to_mono) (use P in simp)
qed

lemma runs_wait_online: "(\<And>x w'. P (Inr x) w') \<Longrightarrow> runs_to (wait_online b) w P"
  unfolding wait_online_def
  by (rule prog_loop_rule [where I = "\<lambda>_ _. True" and m = "\<lambda>t _. unat t"])
    (auto simp: split_beta unat_minus_one unat_gt_0)

lemma runs_start_ap:
  assumes "lapic_ok base" and "icr_idle b base"
    and "\<And>x w'. x \<in> {Smp_online dest, Smp_timed_out dest} \<Longrightarrow> P (Inr ()) (say_smp x (fst s), w')"
  shows "runs_to (start_ap b base dest) s P"
  unfolding start_ap_def
  using assms(3)
  by (auto intro!: runs_icr_send [OF assms(1,2)] runs_io_waits runs_wait_online simp: numeral_2_eq_2 split: if_splits)

subsection \<open>Slots and stacks\<close>

definition ap_slot :: "image \<Rightarrow> nat \<Rightarrow> u8 \<Rightarrow> PercpuData \<Rightarrow> PercpuData" where
  "ap_slot im j aid p = p\<lparr>apic_id := aid, cpu_index := word_of_nat (j + 1), kernel_stack := ap_stack_top im j,
     current_task_index := USIZE_MAX\<rparr>"

text \<open>The processors that are started, and the slots after the first of them got number \<open>n\<close>.\<close>

definition started :: "u8 \<Rightarrow> nat \<Rightarrow> u8 list \<Rightarrow> u8 list" where
  "started bsp n aids = take (MAX_AP_COUNT - n) (filter (\<lambda>a. a \<noteq> bsp) aids)"

primrec fill_slots :: "image \<Rightarrow> u8 list \<Rightarrow> nat \<Rightarrow> PercpuData list \<Rightarrow> PercpuData list" where
  "fill_slots im [] n S = S"
| "fill_slots im (a # as) n S = fill_slots im as (Suc n) (S[Suc n := ap_slot im n a (S ! Suc n)])"

lemma fill_slots_nth:
  "n + length as < length S \<Longrightarrow> j < length S \<Longrightarrow> fill_slots im as n S ! j =
     (if n < j \<and> j \<le> n + length as then ap_slot im (j - 1) (as ! (j - 1 - n)) (S ! j) else S ! j)"
proof (induction as arbitrary: n S)
  case (Cons a as)
  then show ?case
    by (cases "j = Suc n") (auto simp: nth_list_update nth_Cons' not_less Suc_diff_Suc)
qed auto

lemma length_fill_slots [simp]: "length (fill_slots im as n S) = length S"
  by (induction as arbitrary: n S) simp_all

text \<open>What the bring-up changes of the kernel: slots and messages.\<close>

definition slots_changed :: "PercpuData list \<Rightarrow> kernel \<Rightarrow> kernel \<Rightarrow> bool" where
  "slots_changed S k k' \<longleftrightarrow> (\<exists>pr. k' = k\<lparr>mach := (mach k)\<lparr>PERCPU_DATA_SLOTS := S, printed := pr\<rparr>\<rparr>)"

lemma slots_changed_say: "slots_changed S k k' \<Longrightarrow> slots_changed S k (say_smp x k')"
  by (auto simp: slots_changed_def say_smp_def)

lemma slots_changed_refl: "slots_changed (PERCPU_DATA_SLOTS (mach k)) k k"
  unfolding slots_changed_def by (rule exI [of _ "printed (mach k)"]) simp

lemma runs_start_list:
  assumes base: "lapic_ok base" "icr_idle b base"
    and "slots_changed S k (fst s)" and "n + length (started bsp n aids) < length S"
  shows "runs_to (start_list im b base cr3 bsp aids n) s (\<lambda>r s'. (\<exists>m. r = Inr m) \<and>
    slots_changed (fill_slots im (started bsp n aids) n S) k (fst s'))"
  using assms(3,4)
proof (induction aids arbitrary: n S s)
  case Nil
  then show ?case by (simp add: started_def)
next
  case (Cons a aids)
  consider "a = bsp" | "a \<noteq> bsp" "MAX_AP_COUNT \<le> n" | "a \<noteq> bsp" "n < MAX_AP_COUNT" by linarith
  then show ?case
  proof cases
    case 1
    then show ?thesis using Cons.IH [OF Cons.prems(1)] Cons.prems(2) by (simp add: start_one_def started_def)
  next
    case 2
    then show ?thesis
      using Cons.IH [of S "(say_smp (Smp_too_many a) (fst s), snd s)" n] Cons.prems
      by (simp add: start_one_def started_def slots_changed_say)
  next
    case 3
    then have "MAX_AP_COUNT - n = Suc (MAX_AP_COUNT - Suc n)" by simp
    then have st: "started bsp n (a # aids) = a # started bsp (Suc n) aids"
      using 3 by (simp only: started_def filter.simps take_Suc_Cons if_True not_False_eq_True)
    let ?S = "S[Suc n := ap_slot im n a (S ! Suc n)]"
    have "slots_changed ?S k (k'\<lparr>mach := (mach k')\<lparr>PERCPU_DATA_SLOTS := (PERCPU_DATA_SLOTS (mach k'))
        [Suc n := ap_slot im n a (PERCPU_DATA_SLOTS (mach k') ! Suc n)]\<rparr>\<rparr>)" if ch: "slots_changed S k k'" for k'
    proof -
      obtain pr where "k' = k\<lparr>mach := (mach k)\<lparr>PERCPU_DATA_SLOTS := S, printed := pr\<rparr>\<rparr>"
        using ch by (auto simp: slots_changed_def)
      then show ?thesis unfolding slots_changed_def by (intro exI [of _ pr]) (cases "mach k", simp)
    qed
    then have slot: "slots_changed ?S k (k'\<lparr>mach := (mach k')\<lparr>PERCPU_DATA_SLOTS := (PERCPU_DATA_SLOTS (mach k'))
        [Suc n := (PERCPU_DATA_SLOTS (mach k') ! Suc n)\<lparr>apic_id := a, cpu_index := word_of_nat (n + 1),
          kernel_stack := ap_stack_top im n, current_task_index := USIZE_MAX\<rparr>]\<rparr>\<rparr>)" if "slots_changed S k k'" for k'
      using that by (simp add: ap_slot_def)
    have "n + length (started bsp n (a # aids)) < length ?S" using Cons.prems(2) by simp
    then have rest: "runs_to (start_list im b base cr3 bsp aids (Suc n)) s' (\<lambda>r s'. (\<exists>m. r = Inr m) \<and>
        slots_changed (fill_slots im (started bsp n (a # aids)) n S) k (fst s'))" if "slots_changed ?S k (fst s')" for s'
      using Cons.IH [OF that, of "Suc n"] by (simp add: st)
    show ?thesis
      using 3 Cons.prems(1)
      by (auto simp: start_one_def put_slot_def write_trampoline_params_def Let_def
          intro!: runs_start_ap [OF base] rest slots_changed_say slot [simplified])
  qed
qed


text \<open>A bus on which every read gives zeros: no processor ever answers.\<close>

definition silent_bus :: "unit bus" where
  "silent_bus = \<lparr> bus_read = (\<lambda>_ n w. (replicate n 0, w)), bus_write = (\<lambda>_ _ w. w),
     port_in = (\<lambda>_ n w. (replicate n 0, w)), port_out = (\<lambda>_ _ w. w) \<rparr>"

definition example_info :: MadtInfo where
  "example_info = MadtInfo_default\<lparr>local_apic_address := 0xFEE00000, cpu_count := 3, apic_ids := [0, 4, 6] @ replicate 61 0\<rparr>"

lemma silent_idle: "icr_idle silent_bus base"
  by (simp add: icr_idle_def silent_bus_def from_le_def nat_of_le_zeros)

lemma example_info_ok: "lapic_ok (local_apic_address example_info)"
  by (simp add: example_info_def lapic_ok_def)


subsection \<open>The entry of an application processor\<close>

lemma idle_rounds:
  assumes "msr (cpus (mach k) ! c) MSR_IA32_GS_BASE = 0"
  shows "runs_to (ap_rounds im c n) k P \<longleftrightarrow> P (Inr ()) k"
proof (induction n)
  case (Suc n)
  have "runs_to (switch_task im c) k Q \<longleftrightarrow> Q (Inr ()) k" for Q
    using assms by (simp add: switch_task_def switch_select_def get_percpu_data_def split: option.split)
  with Suc show ?case by simp
qed simp

lemma gdt_keeps_ok:
  assumes "machine_ok m" and "cpu < MAX_CPUS" and "c < length (cpus m)"
    and "\<And>m'. machine_ok m' \<Longrightarrow> length (cpus m') = length (cpus m) \<Longrightarrow>
      PERCPU_DATA_SLOTS m' = PERCPU_DATA_SLOTS m \<Longrightarrow>
      msr (cpus m' ! c) = (msr (cpus m ! c))(MSR_IA32_FS_BASE := 0, MSR_IA32_GS_BASE := 0) \<Longrightarrow> P (Inr ()) m'"
  shows "runs_to (gdt_init_cpu im c cpu) m P"
proof (rule runs_gdt_init_cpu [OF assms(1,2) _ assms(3)])
  fix m'
  assume m': "m' = m\<lparr>TSS_ARR := (TSS_ARR m)[cpu := (TSS_ARR m ! cpu)\<lparr>iomap_base := 104, ist1 := DOUBLE_FAULT_STACK_ADDR im + 4096\<rparr>],
        GDT_ARR := (GDT_ARR m)[cpu := kernel_gdt im cpu],
        GDT_PTR_ARR := (GDT_PTR_ARR m)[cpu := \<lparr> tp_limit = 55, tp_base = GDT_ADDR im cpu \<rparr>],
        cpus := (cpus m)[c := (cpus m ! c)\<lparr>gdtr := \<lparr> tp_limit = 55, tp_base = GDT_ADDR im cpu \<rparr>,
          seg_cs := KERNEL_CODE_SEL, seg_ds := KERNEL_DATA_SEL, seg_es := KERNEL_DATA_SEL, seg_fs := KERNEL_DATA_SEL,
          seg_gs := KERNEL_DATA_SEL, seg_ss := KERNEL_DATA_SEL,
          msr := (msr (cpus m ! c))(MSR_IA32_FS_BASE := 0, MSR_IA32_GS_BASE := 0), task_register := TSS_SEL\<rparr>]\<rparr>"
  show "P (Inr ()) m'"
    by (rule assms(4)) (use assms(1-3) in \<open>auto simp: m' machine_ok_def kernel_gdt_def dest!: set_update_subset_insert [THEN subsetD]\<close>)
qed

lemma idt_keeps_ok:
  assumes "machine_ok m" and "c < length (cpus m)"
    and "\<And>m'. machine_ok m' \<Longrightarrow> length (cpus m') = length (cpus m) \<Longrightarrow>
      PERCPU_DATA_SLOTS m' = PERCPU_DATA_SLOTS m \<Longrightarrow> msr (cpus m' ! c) = msr (cpus m ! c) \<Longrightarrow> P (Inr ()) m'"
  shows "runs_to (init_idt im c) m P"
proof -
  have "length (IDT m) = 256" using assms(1) by (simp add: machine_ok_def)
  from runs_init_idt [OF this assms(2), of im] show ?thesis
    by (rule runs_to_mono) (use assms in \<open>force simp: machine_ok_def intro!: assms(3)\<close>)
qed

lemma runs_ap_tables:
  assumes "machine_ok m" and "c < length (cpus m)" and "cpu < MAX_CPUS"
    and "\<And>m'. machine_ok m' \<Longrightarrow> length (cpus m') = length (cpus m) \<Longrightarrow>
      PERCPU_DATA_SLOTS m' = PERCPU_DATA_SLOTS m \<Longrightarrow>
      msr (cpus m' ! c) = (msr (cpus m ! c))(MSR_IA32_KERNEL_GS_BASE := p, MSR_IA32_FS_BASE := 0, MSR_IA32_GS_BASE := 0) \<Longrightarrow>
      P (Inr ()) m'"
  shows "runs_to (seq (set_percpu_data c p) (seq (wrmsr c MSR_IA32_KERNEL_GS_BASE p)
    (seq (gdt_init_cpu im c cpu) (init_idt im c)))) m P"
  using assms(1,2) unfolding set_percpu_data_def
  apply simp
  apply (rule gdt_keeps_ok [OF _ assms(3)])
    apply (simp add: machine_ok_def)
   apply simp
  apply (simp, rule idt_keeps_ok)
    apply simp_all
  apply (rule assms(4))
     apply (simp_all add: fun_eq_iff msr_numbers)
  done

text \<open>
  C31.  An application processor that finds its slot sets the per-processor pointer and then loads
  the segment registers, which sets the base of \<open>gs\<close> to that of the data segment, 0.  However
  long it then runs the scheduler loop and whatever tasks are ready, it never takes one: the
  tasks, the slots, the registers and the memory stay as they were.
\<close>

theorem ap_never_schedules:
  assumes "machine_ok (mach k)" and "c < length (cpus (mach k))"
    and "List.find (\<lambda>i. apic_id (PERCPU_DATA_SLOTS (mach k) ! i) = own_apic_id (cpus (mach k) ! c)) [0..<Suc MAX_AP_COUNT] = Some i"
    and "unat (cpu_index (PERCPU_DATA_SLOTS (mach k) ! i)) < MAX_CPUS"
    and "lapic_ok (msr (cpus (mach k) ! c) MSR_IA32_APIC_BASE AND 0x000FFFFFFFFFF000)"
  shows "runs_to (ap_entry im b c n) (k, w) (\<lambda>r s'. r = Inr () \<and> (\<exists>m'. fst s' = k\<lparr>mach := m'\<rparr> \<and>
    msr (cpus m' ! c) MSR_IA32_GS_BASE = 0 \<and> PERCPU_DATA_SLOTS m' = PERCPU_DATA_SLOTS (mach k)))"
proof -
  have same: "k\<lparr>mach := mach k\<rparr> = k" by simp
  show ?thesis
    unfolding ap_entry_def ap_setup_def
    apply (simp only: runs_to_bind runs_on_kernel runs_on_machine_smp current_apic_id_def runs_to_gets fst_conv snd_conv
        sum.case same assms(3) option.case get_slot_def)
    apply (subst runs_to_seq)
    apply (simp only: runs_on_kernel runs_on_machine_smp fst_conv snd_conv)
    apply (rule runs_ap_tables [OF assms(1,2,4)])
    using assms(5)
    apply (simp add: lapic_base_from_msr_def msr_numbers)
    apply (rule runs_lapic_enable, assumption)
    using assms(2)
    apply (simp add: runs_syscall_init_cpu signal_online_def idle_rounds msr_numbers)
    apply (rule exI, rule conjI, rule refl, simp)
    done
qed

text \<open>Two ready tasks, and a second processor whose slot is filled.\<close>

definition two_cpu_kernel :: kernel where
  "two_cpu_kernel = (example_kernel two_heaps)\<lparr>mach := (start_machine [0, 4])\<lparr>PERCPU_DATA_SLOTS :=
     (replicate (Suc MAX_AP_COUNT) percpu_new)[1 := ap_slot example_image 0 4 percpu_new]\<rparr>\<rparr>"

theorem ap_never_schedules_witness:
  "(\<exists>t \<in> set (tasks_of two_cpu_kernel). status t = Ready) \<and>
   runs_to (ap_entry example_image silent_bus 1 1000) (two_cpu_kernel, ()) (\<lambda>r s'. r = Inr () \<and>
     SCHEDULER (fst s') = SCHEDULER two_cpu_kernel)"
proof
  show "\<exists>t \<in> set (tasks_of two_cpu_kernel). status t = Ready"
    by (simp add: two_cpu_kernel_def example_kernel_def tasks_of_def)
  have ok: "machine_ok (mach two_cpu_kernel)" by (simp add: two_cpu_kernel_def machine_ok_def start_machine_def)
  have two: "1 < length (cpus (mach two_cpu_kernel))" by (simp add: two_cpu_kernel_def start_machine_def)
  have found: "List.find (\<lambda>i. apic_id (PERCPU_DATA_SLOTS (mach two_cpu_kernel) ! i) = own_apic_id (cpus (mach two_cpu_kernel) ! 1))
      [0..<Suc MAX_AP_COUNT] = Some 1"
    by (simp add: two_cpu_kernel_def start_machine_def start_cpu_def percpu_new_def ap_slot_def
        upt_rec [of 0] upt_rec [of "Suc 0"] del: upt_Suc)
  have rest: "unat (cpu_index (PERCPU_DATA_SLOTS (mach two_cpu_kernel) ! 1)) < MAX_CPUS"
    "lapic_ok (msr (cpus (mach two_cpu_kernel) ! 1) MSR_IA32_APIC_BASE AND 0x000FFFFFFFFFF000)"
    by (simp_all add: two_cpu_kernel_def start_machine_def start_cpu_def ap_slot_def lapic_ok_def)
  show "runs_to (ap_entry example_image silent_bus 1 1000) (two_cpu_kernel, ()) (\<lambda>r s'. r = Inr () \<and>
     SCHEDULER (fst s') = SCHEDULER two_cpu_kernel)"
    by (rule runs_to_mono [OF ap_never_schedules [OF ok two found rest]]) auto
qed

end
