(* ===== verification/Display.thy ===== *)
theory Display
  imports Acpi
begin

section \<open>The screen\<close>

text \<open>
  \<open>src/src/writer.rs\<close> and \<open>src/src/term.rs\<close>: text output to the framebuffer and to the serial port,
  and the cell renderer of the terminal.  The framebuffer is memory; a pixel is a 32-bit word.
  The glyphs come from an external font: \<open>font c\<close> is the bitmap of a character, a row of eight
  bits per byte.  Characters are code points.  The locks around the two globals are those of
  theory Locks; here an operation has the global to itself.
\<close>

type_synonym font = "nat \<Rightarrow> bytes option"

record BootInfo =
  framebuffer_base :: u64
  framebuffer_size :: nat
  horizontal_resolution :: u32
  vertical_resolution :: u32
  pixels_per_scanline :: u32
  pixel_format :: u32
  bi_memory_map :: nat
  memory_map_size :: nat
  descriptor_size :: nat
  descriptor_version :: u32
  runtime_services :: u64
  acpi_rsdp_phys :: u64

record Writer =
  framebuffer :: nat
  info :: BootInfo
  x_pos :: nat
  y_pos :: nat

record FramebufferInfo =
  fi_base :: nat
  fi_stride :: nat
  fi_width :: nat
  fi_height :: nat

record CellRenderer =
  cr_framebuffer :: nat
  cr_stride :: nat
  cr_cols :: nat
  cr_rows :: nat

record screen =
  vram :: pmem
  GLOBAL_WRITER :: "Writer option"
  GLOBAL_CELL_RENDERER :: "CellRenderer option"
  serial :: bytes

type_synonym 'a sc = "(screen, string, 'a) prog"
type_synonym 'a wr = "(Writer \<times> screen, string, 'a) prog"

abbreviation hres :: "Writer \<Rightarrow> nat" where "hres w \<equiv> unat (horizontal_resolution (info w))"
abbreviation vres :: "Writer \<Rightarrow> nat" where "vres w \<equiv> unat (vertical_resolution (info w))"
abbreviation scanline :: "Writer \<Rightarrow> nat" where "scanline w \<equiv> unat (pixels_per_scanline (info w))"

subsection \<open>The writer\<close>

definition Writer_new :: "BootInfo \<Rightarrow> Writer" where
  "Writer_new i = \<lparr> framebuffer = unat (framebuffer_base i), info = i, x_pos = 0, y_pos = 0 \<rparr>"

definition init_global_writer :: "BootInfo \<Rightarrow> unit sc" where
  "init_global_writer i = modify (\<lambda>s. s\<lparr>GLOBAL_WRITER := Some (Writer_new i)\<rparr>)"

definition get_framebuffer_info :: "FramebufferInfo option sc" where
  "get_framebuffer_info = gets (\<lambda>s. map_option (\<lambda>w.
     \<lparr> fi_base = framebuffer w, fi_stride = scanline w, fi_width = hres w, fi_height = vres w \<rparr>) (GLOBAL_WRITER s))"

definition serial_out :: "u8 \<Rightarrow> unit wr" where
  "serial_out v = modify (\<lambda>(w, s). (w, s\<lparr>serial := serial s @ [v]\<rparr>))"

definition store_pixel :: "nat \<Rightarrow> nat \<Rightarrow> u32 \<Rightarrow> screen \<Rightarrow> screen" where
  "store_pixel fb offset color s = s\<lparr>vram := store_bytes (fb + 4 * offset) (to_le 4 color) (vram s)\<rparr>"

definition new_line :: "unit wr" where
  "new_line = seq (set_local (\<lambda>w. w\<lparr>x_pos := 0\<rparr>))
     (bind get_local (\<lambda>w. bind (usize_add (y_pos w) 16) (\<lambda>y. set_local (\<lambda>w. w\<lparr>y_pos := y\<rparr>))))"

definition clear_screen :: "unit wr" where
  "clear_screen =
     seq (modify (\<lambda>(w, s). (w, s\<lparr>vram := store_bytes (framebuffer w) (replicate (framebuffer_size (info w)) 0) (vram s)\<rparr>)))
         (set_local (\<lambda>w. w\<lparr>x_pos := 0, y_pos := 0\<rparr>))"

definition write_pixel :: "nat \<Rightarrow> nat \<Rightarrow> u32 \<Rightarrow> unit wr" where
  "write_pixel x y color = bind get_local (\<lambda>w.
     if x \<ge> hres w \<or> y \<ge> vres w then ret ()
     else bind (usize_add (y * scanline w) x) (\<lambda>pixel_offset.
       modify (\<lambda>(w, s). (w, store_pixel (framebuffer w) pixel_offset color s))))"

definition write_rendered_char :: "bytes \<Rightarrow> unit wr" where
  "write_rendered_char bitmap =
     for_each (List.enumerate 0 bitmap) (\<lambda>(y, row).
       for_each [0..<8] (\<lambda>x.
         bind get_local (\<lambda>w.
         bind (usize_add (x_pos w) x) (\<lambda>px.
         bind (usize_add (y_pos w) y) (\<lambda>py.
           write_pixel px py (if bit row x then 0xFFFFFFFF else 0))))))"

definition write_char :: "font \<Rightarrow> nat \<Rightarrow> unit wr" where
  "write_char font c =
     seq (serial_out (word_of_nat c))
     (seq (if c = 10 then serial_out 13 else ret ())
     (if c = 10 then new_line
      else if c = 8 then set_local (\<lambda>w. if x_pos w \<ge> 8 then w\<lparr>x_pos := x_pos w - 8\<rparr> else w)
      else
        seq (bind get_local (\<lambda>w. if x_pos w \<ge> hres w then new_line else ret ()))
        (seq (bind get_local (\<lambda>w. if y_pos w \<ge> vres w
                then seq clear_screen (set_local (\<lambda>w. w\<lparr>y_pos := 0\<rparr>)) else ret ()))
        (case font c of
           None \<Rightarrow> ret ()
         | Some bitmap \<Rightarrow> seq (write_rendered_char bitmap)
             (bind get_local (\<lambda>w. bind (usize_add (x_pos w) 8) (\<lambda>x. set_local (\<lambda>w. w\<lparr>x_pos := x\<rparr>))))))))"

definition write_str :: "font \<Rightarrow> nat list \<Rightarrow> unit wr" where
  "write_str font s = for_each s (write_char font)"

text \<open>The global writer, if there is one, taken for one operation.\<close>

definition with_writer :: "unit wr \<Rightarrow> unit sc" where
  "with_writer p = bind (gets GLOBAL_WRITER) (\<lambda>g. case g of
     None \<Rightarrow> ret () | Some w \<Rightarrow> bind (with_local w p) (\<lambda>w'. modify (\<lambda>s. s\<lparr>GLOBAL_WRITER := Some w'\<rparr>)))"

definition writer_clear :: "unit sc" where
  "writer_clear = with_writer clear_screen"

definition print :: "font \<Rightarrow> nat list \<Rightarrow> unit sc" where
  "print font s = with_writer (write_str font s)"

subsection \<open>The cell renderer\<close>

abbreviation CELL_W :: nat where "CELL_W \<equiv> 8"
abbreviation CELL_H :: nat where "CELL_H \<equiv> 16"

definition term_init :: "unit sc" where
  "term_init = bind get_framebuffer_info (\<lambda>i. bind (unwrap i) (\<lambda>i.
     modify (\<lambda>s. s\<lparr>GLOBAL_CELL_RENDERER := Some \<lparr> cr_framebuffer = fi_base i, cr_stride = fi_stride i,
       cr_cols = fi_width i div CELL_W, cr_rows = fi_height i div CELL_H \<rparr>\<rparr>)))"

definition write_cell :: "font \<Rightarrow> CellRenderer \<Rightarrow> nat \<Rightarrow> nat \<Rightarrow> nat \<Rightarrow> u32 \<Rightarrow> u32 \<Rightarrow> unit sc" where
  "write_cell font r row col ch fg bg =
     (if row \<ge> cr_rows r \<or> col \<ge> cr_cols r then ret ()
      else case font ch of
        None \<Rightarrow> ret ()
      | Some bitmap \<Rightarrow>
          let x_base = col * CELL_W; y_base = row * CELL_H in
          for_each (List.enumerate 0 bitmap) (\<lambda>(dy, byte).
            for_each [0..<CELL_W] (\<lambda>dx.
              let color = (if bit byte dx then fg else bg) in
              bind (usize_add ((y_base + dy) * cr_stride r) (x_base + dx)) (\<lambda>offset.
                modify (store_pixel (cr_framebuffer r) offset color)))))"

definition write_region :: "font \<Rightarrow> CellRenderer \<Rightarrow> nat \<Rightarrow> nat \<Rightarrow> (nat \<times> u32 \<times> u32) list \<Rightarrow> nat \<Rightarrow> unit sc" where
  "write_region font r row col cells width =
     for_each (List.enumerate 0 cells) (\<lambda>(i, ch, fg, bg).
       if width = 0 then stop
       else bind (usize_add row (i div width)) (\<lambda>y. bind (usize_add col (i mod width)) (\<lambda>x.
         write_cell font r y x ch fg bg)))"

end
