(* ===== verification/Display_Spec.thy ===== *)
theory Display_Spec
  imports Display
begin

section \<open>Output stays on the screen\<close>

text \<open>
  Painting a list of pixels, the glyph of a cell, and the bounds of text output: whatever is
  printed, no byte outside the framebuffer changes and the writer's position stays valid.
\<close>

subsection \<open>Pixels\<close>

definition pixel :: "pmem \<Rightarrow> nat \<Rightarrow> nat \<Rightarrow> u32" where
  "pixel m fb o' = from_le (load_bytes m (fb + 4 * o') 4)"

primrec paint :: "nat \<Rightarrow> (nat \<times> u32) list \<Rightarrow> pmem \<Rightarrow> pmem" where
  "paint fb [] m = m"
| "paint fb (p # ps) m = paint fb ps (store_bytes (fb + 4 * fst p) (to_le 4 (snd p)) m)"

lemma paint_append: "paint fb (ps @ qs) m = paint fb qs (paint fb ps m)"
  by (induction ps arbitrary: m) simp_all

lemma pixel_store:
  "pixel (store_bytes (fb + 4 * a) (to_le 4 v) m) fb b = (if a = b then v else pixel m fb b)"
proof (cases "a = b")
  case True
  then show ?thesis using load_store_bytes_same [of "fb + 4 * b" "to_le 4 v" m] by (simp add: pixel_def)
next
  case False
  then have "fb + 4 * b + 4 \<le> fb + 4 * a \<or> fb + 4 * a + 4 \<le> fb + 4 * b" by linarith
  then show ?thesis using False by (simp add: pixel_def load_store_bytes_other)
qed

lemma pixel_paint_other: "b \<notin> fst ` set ps \<Longrightarrow> pixel (paint fb ps m) fb b = pixel m fb b"
  by (induction ps arbitrary: m) (auto simp: pixel_store)

lemma pixel_paint: "distinct (map fst ps) \<Longrightarrow> (b, v) \<in> set ps \<Longrightarrow> pixel (paint fb ps m) fb b = v"
proof (induction ps arbitrary: m)
  case (Cons p ps)
  show ?case
  proof (cases "(b, v) = p")
    case True
    then have "b \<notin> fst ` set ps" using Cons.prems(1) True [symmetric] by simp
    then show ?thesis using True [symmetric] by (simp add: pixel_paint_other pixel_store)
  next
    case False
    then show ?thesis using Cons by auto
  qed
qed simp

lemma paint_outside:
  assumes "\<forall>p \<in> set ps. 4 * fst p + 4 \<le> n" and "a \<notin> {fb..<fb + n}"
  shows "paint fb ps m a = m a"
  using assms
proof (induction ps arbitrary: m)
  case (Cons p ps)
  then have "store_bytes (fb + 4 * fst p) (to_le 4 (snd p)) m a = m a" by (auto simp: store_bytes_def)
  then show ?case using Cons by simp
qed simp

definition painted :: "nat \<Rightarrow> (nat \<times> u32) list \<Rightarrow> screen \<Rightarrow> screen" where
  "painted fb ps s = s\<lparr>vram := paint fb ps (vram s)\<rparr>"

lemma painted_simps [simp]:
  "painted fb [] s = s" "painted fb qs (painted fb ps s) = painted fb (ps @ qs) s"
  "store_pixel fb a v s = painted fb [(a, v)] s" "vram (painted fb ps s) = paint fb ps (vram s)"
  "serial (painted fb ps s) = serial s" "GLOBAL_WRITER (painted fb ps s) = GLOBAL_WRITER s"
  by (simp_all add: painted_def store_pixel_def paint_append)

text \<open>A loop whose rounds paint paints everything.\<close>

lemma runs_paint_each:
  assumes "\<And>x s P. x \<in> set xs \<Longrightarrow> runs_to (body x) s P \<longleftrightarrow> P (Inr ()) (painted fb (f x) s)"
  shows "runs_to (for_each xs body) s P \<longleftrightarrow> P (Inr ()) (painted fb (concat (map f xs)) s)"
  using assms by (induction xs arbitrary: s) simp_all

text \<open>Grids of values.\<close>

definition grid :: "(nat \<Rightarrow> nat \<Rightarrow> 'a) \<Rightarrow> nat \<Rightarrow> nat \<Rightarrow> 'a list" where
  "grid f k n = concat (map (\<lambda>i. map (f i) [0..<n]) [0..<k])"

lemma set_grid: "p \<in> set (grid f k n) \<longleftrightarrow> (\<exists>i < k. \<exists>j < n. p = f i j)"
  unfolding grid_def set_concat set_map set_upt by force

lemma map_grid: "map g (grid f k n) = grid (\<lambda>i j. g (f i j)) k n"
  by (simp add: grid_def map_concat comp_def)

lemma distinct_grid:
  "(\<And>i j i' j'. i < k \<Longrightarrow> i' < k \<Longrightarrow> j < n \<Longrightarrow> j' < n \<Longrightarrow> f i j = f i' j' \<Longrightarrow> i = i' \<and> j = j') \<Longrightarrow> distinct (grid f k n)"
proof (induction k)
  case (Suc k)
  have "f k j' \<noteq> f i j" if "i < k" "j < n" "j' < n" for i j j'
    using Suc.prems [of k i j' j] that by auto
  moreover have "inj_on (f k) {0..<n}" using Suc.prems [of k k] by (auto simp: inj_on_def)
  moreover have "distinct (grid f k n)" using Suc.prems by (intro Suc.IH) (meson less_Suc_eq)
  ultimately show ?case by (force simp: grid_def distinct_map)
qed (simp add: grid_def)

subsection \<open>Cells\<close>

definition cell_pixels :: "CellRenderer \<Rightarrow> nat \<Rightarrow> nat \<Rightarrow> bytes \<Rightarrow> u32 \<Rightarrow> u32 \<Rightarrow> (nat \<times> u32) list" where
  "cell_pixels r row col bitmap fg bg = grid (\<lambda>dy dx.
     ((row * CELL_H + dy) * cr_stride r + (col * CELL_W + dx), if bit (bitmap ! dy) dx then fg else bg)) (length bitmap) CELL_W"

lemma enumerate_indices: "List.enumerate 0 xs = map (\<lambda>i. (i, xs ! i)) [0..<length xs]"
  by (rule nth_equalityI) (simp_all add: nth_enumerate_eq)

lemma for_each_map: "for_each (map f xs) body = for_each xs (body \<circ> f)"
  by (induction xs) simp_all

definition renderer_ok :: "CellRenderer \<Rightarrow> nat \<Rightarrow> bool" where
  "renderer_ok r n \<longleftrightarrow> cr_cols r * CELL_W \<le> cr_stride r \<and> 4 * (cr_rows r * CELL_H * cr_stride r) \<le> n \<and> n < 2 ^ 64"

lemma cell_offset_bound:
  assumes "renderer_ok r n" and "row < cr_rows r" and "col < cr_cols r" and "dy < 16" and "dx < 8"
  shows "4 * ((row * CELL_H + dy) * cr_stride r + (col * CELL_W + dx)) + 4 \<le> n"
proof -
  have "col * CELL_W + dx < cr_stride r"
    using assms(1,3,5) mult_le_mono1 [of "Suc col" "cr_cols r" 8] by (simp add: renderer_ok_def)
  then have "(row * CELL_H + dy) * cr_stride r + (col * CELL_W + dx) < Suc (row * CELL_H + dy) * cr_stride r" by simp
  also have "\<dots> \<le> cr_rows r * CELL_H * cr_stride r"
    using assms(2,4) by (intro mult_le_mono1) linarith
  finally show ?thesis using assms(1) by (simp add: renderer_ok_def)
qed

lemma runs_write_cell:
  assumes "renderer_ok r n" and "row < cr_rows r" and "col < cr_cols r" and "font ch = Some bitmap" and "length bitmap = 8"
  shows "runs_to (write_cell font r row col ch fg bg) s P \<longleftrightarrow>
    P (Inr ()) (painted (cr_framebuffer r) (cell_pixels r row col bitmap fg bg) s)"
proof -
  have bound: "(row * CELL_H + dy) * cr_stride r + (col * CELL_W + dx) < 2 ^ 64" if "dy < 8" "dx < 8" for dy dx
    using cell_offset_bound [OF assms(1-3), of dy dx] that assms(1) by (simp add: renderer_ok_def)
  have inner: "runs_to (for_each [0..<CELL_W] (\<lambda>dx. bind (usize_add ((row * CELL_H + dy) * cr_stride r) (col * CELL_W + dx))
        (\<lambda>offset. modify (store_pixel (cr_framebuffer r) offset (if bit byte dx then fg else bg))))) s P \<longleftrightarrow>
      P (Inr ()) (painted (cr_framebuffer r) (map (\<lambda>dx. ((row * CELL_H + dy) * cr_stride r + (col * CELL_W + dx),
        if bit byte dx then fg else bg)) [0..<CELL_W]) s)" if "dy < 8" for dy byte s P
    by (rule trans [OF runs_paint_each [where f = "\<lambda>dx. [((row * CELL_H + dy) * cr_stride r + (col * CELL_W + dx),
        if bit byte dx then fg else bg)]" and fb = "cr_framebuffer r"]])
      (use bound [OF that] in \<open>simp_all add: concat_map_singleton\<close>)
  show ?thesis
    using assms(2-4) unfolding write_cell_def cell_pixels_def grid_def enumerate_indices for_each_map
    by (simp add: Let_def) (rule runs_paint_each, simp add: inner assms(5))
qed

lemma cell_pixels_set:
  assumes "length bitmap = 8"
  shows "p \<in> set (cell_pixels r row col bitmap fg bg) \<longleftrightarrow> (\<exists>dy < 8. \<exists>dx < 8.
    p = ((row * CELL_H + dy) * cr_stride r + (col * CELL_W + dx), if bit (bitmap ! dy) dx then fg else bg))"
  by (simp only: cell_pixels_def set_grid assms)

lemma offset_inject:
  fixes y y' x x' stride :: nat
  assumes "x < stride" and "x' < stride"
  shows "y * stride + x = y' * stride + x' \<longleftrightarrow> y = y' \<and> x = x'"
proof
  assume e: "y * stride + x = y' * stride + x'"
  then have "(y * stride + x) div stride = (y' * stride + x') div stride" by simp
  then have "y = y'" using assms by simp
  then show "y = y' \<and> x = x'" using e by simp
qed simp

lemma cell_pixels_distinct:
  assumes "(col + 1) * CELL_W \<le> cr_stride r"
  shows "distinct (map fst (cell_pixels r row col bitmap fg bg))"
proof -
  have x: "col * CELL_W + dx < cr_stride r" if "dx < 8" for dx using assms that by simp
  show ?thesis
    unfolding cell_pixels_def map_grid
    by (rule distinct_grid) (use x in \<open>auto simp: offset_inject\<close>)
qed

text \<open>
  C34.  A cell inside the terminal is drawn by \<open>write_cell\<close> without leaving the framebuffer: the
  eight rows of its glyph get the foreground colour where the font has a bit and the
  background colour elsewhere, every other pixel and every byte outside the framebuffer stays
  as it was.
\<close>

theorem write_cell_draws:
  assumes "renderer_ok r n" and "row < cr_rows r" and "col < cr_cols r" and "font ch = Some bitmap" and "length bitmap = 8"
  shows "runs_to (write_cell font r row col ch fg bg) s (\<lambda>res s'. res = Inr () \<and>
    (\<forall>y x. x < cr_stride r \<longrightarrow> pixel (vram s') (cr_framebuffer r) (y * cr_stride r + x) =
       (if row * CELL_H \<le> y \<and> y < row * CELL_H + 8 \<and> col * CELL_W \<le> x \<and> x < (col + 1) * CELL_W
        then if bit (bitmap ! (y - row * CELL_H)) (x - col * CELL_W) then fg else bg
        else pixel (vram s) (cr_framebuffer r) (y * cr_stride r + x))) \<and>
    (\<forall>a. a \<notin> {cr_framebuffer r..<cr_framebuffer r + n} \<longrightarrow> vram s' a = vram s a))"
proof -
  have "(col + 1) * CELL_W \<le> cr_cols r * CELL_W" using assms(3) by (intro mult_le_mono1) simp
  then have width: "(col + 1) * CELL_W \<le> cr_stride r" using assms(1) by (simp add: renderer_ok_def)
  note cell = cell_pixels_set [OF assms(5), of _ r row col fg bg]
  have inside: "((row * CELL_H + dy) * cr_stride r + (col * CELL_W + dx), if bit (bitmap ! dy) dx then fg else bg)
      \<in> set (cell_pixels r row col bitmap fg bg)" if "dy < 8" "dx < 8" for dy dx
    using that unfolding cell by blast
  have outside: "y * cr_stride r + x \<notin> fst ` set (cell_pixels r row col bitmap fg bg)"
    if "x < cr_stride r" "\<not> (row * CELL_H \<le> y \<and> y < row * CELL_H + 8 \<and> col * CELL_W \<le> x \<and> x < (col + 1) * CELL_W)" for y x
  proof
    assume "y * cr_stride r + x \<in> fst ` set (cell_pixels r row col bitmap fg bg)"
    then obtain dy dx where "dy < 8" "dx < 8" "y * cr_stride r + x = (row * CELL_H + dy) * cr_stride r + (col * CELL_W + dx)"
      by (auto simp: cell)
    then have "y = row * CELL_H + dy \<and> x = col * CELL_W + dx"
      using offset_inject [OF that(1), of "col * CELL_W + dx" y "row * CELL_H + dy"] width by simp
    then show False using that(2) \<open>dy < 8\<close> \<open>dx < 8\<close> by simp
  qed
  have bytes: "\<forall>p \<in> set (cell_pixels r row col bitmap fg bg). 4 * fst p + 4 \<le> n"
    using cell_offset_bound [OF assms(1-3)] by (auto simp: cell)
  have "pixel (paint (cr_framebuffer r) (cell_pixels r row col bitmap fg bg) m) (cr_framebuffer r) (y * cr_stride r + x) =
      (if bit (bitmap ! (y - row * CELL_H)) (x - col * CELL_W) then fg else bg)"
    if "row * CELL_H \<le> y" "y < row * CELL_H + 8" "col * CELL_W \<le> x" "x < (col + 1) * CELL_W" for y x m
    using pixel_paint [OF cell_pixels_distinct [OF width] inside [of "y - row * CELL_H" "x - col * CELL_W"]] that by simp
  then show ?thesis
    unfolding runs_write_cell [where font = font and ch = ch and bitmap = bitmap, OF assms]
    using pixel_paint_other [OF outside] paint_outside [OF bytes] by (auto simp: not_le not_less)
qed

definition example_renderer :: CellRenderer where
  "example_renderer = \<lparr> cr_framebuffer = 0x1000, cr_stride = 32, cr_cols = 4, cr_rows = 2 \<rparr>"

definition example_font :: font where
  "example_font c = (if 32 \<le> c \<and> c < 127 then Some [0x18, 0x3C, 0x66, 0x66, 0x7E, 0x66, 0x66, 0] else None)"

definition blank_screen :: screen where
  "blank_screen = \<lparr> vram = (\<lambda>_. 0), GLOBAL_WRITER = None, GLOBAL_CELL_RENDERER = None, serial = [] \<rparr>"

theorem write_cell_draws_witness:
  "runs_to (write_cell example_font example_renderer 1 2 65 0xFFFF00 0x000080) blank_screen (\<lambda>res s'. res = Inr () \<and>
     pixel (vram s') 0x1000 (16 * 32 + 19) = 0xFFFF00 \<and> pixel (vram s') 0x1000 (16 * 32 + 16) = 0x000080)"
proof -
  have ok: "renderer_ok example_renderer 4096" "1 < cr_rows example_renderer" "2 < cr_cols example_renderer"
    by (simp_all add: renderer_ok_def example_renderer_def)
  have glyph: "example_font 65 = Some [0x18, 0x3C, 0x66, 0x66, 0x7E, 0x66, 0x66, 0]" by (simp add: example_font_def)
  have len: "length [0x18, 0x3C, 0x66, 0x66, 0x7E, 0x66, 0x66, 0 :: u8] = 8" by simp
  note run = write_cell_draws [where font = example_font and ch = 65, OF ok glyph len, of "0xFFFF00" "0x000080" blank_screen]
  show ?thesis
  proof (rule runs_to_mono [OF run], goal_cases)
    case (1 r s')
    then have "\<forall>y x. x < cr_stride example_renderer \<longrightarrow>
        pixel (vram s') (cr_framebuffer example_renderer) (y * cr_stride example_renderer + x) =
        (if 1 * CELL_H \<le> y \<and> y < 1 * CELL_H + 8 \<and> 2 * CELL_W \<le> x \<and> x < (2 + 1) * CELL_W
         then if bit ([0x18, 0x3C, 0x66, 0x66, 0x7E, 0x66, 0x66, 0] ! (y - 1 * CELL_H) :: u8) (x - 2 * CELL_W) then 0xFFFF00 else 0x80
         else pixel (vram blank_screen) (cr_framebuffer example_renderer) (y * cr_stride example_renderer + x))"
      by blast
    from this [rule_format, of 19 16] this [rule_format, of 16 16] 1 show ?case
      by (simp add: example_renderer_def)
  qed
qed

subsection \<open>Text\<close>

text \<open>The visible area lies in the framebuffer, and the column is at most one glyph past the right edge.\<close>

definition writer_ok :: "Writer \<Rightarrow> bool" where
  "writer_ok w \<longleftrightarrow> hres w \<le> scanline w \<and> 4 * (vres w * scanline w) \<le> framebuffer_size (info w) \<and>
     framebuffer_size (info w) < 2 ^ 64 \<and> x_pos w \<le> hres w + 8"

definition font_ok :: "font \<Rightarrow> bool" where
  "font_ok font \<longleftrightarrow> (\<forall>c bitmap. font c = Some bitmap \<longrightarrow> length bitmap = 8)"

definition frame :: "Writer \<Rightarrow> nat set" where
  "frame w = {framebuffer w..<framebuffer w + framebuffer_size (info w)}"

text \<open>What one output step may change.\<close>

definition output_step :: "nat \<Rightarrow> bytes \<Rightarrow> Writer \<times> screen \<Rightarrow> Writer \<times> screen \<Rightarrow> bool" where
  "output_step dy echo ws ws' \<longleftrightarrow> (case (ws, ws') of ((w, s), (w', s')) \<Rightarrow>
     writer_ok w' \<and> info w' = info w \<and> framebuffer w' = framebuffer w \<and> y_pos w' \<le> y_pos w + dy \<and>
     serial s' = serial s @ echo \<and> GLOBAL_WRITER s' = GLOBAL_WRITER s \<and>
     GLOBAL_CELL_RENDERER s' = GLOBAL_CELL_RENDERER s \<and> (\<forall>a. a \<notin> frame w \<longrightarrow> vram s' a = vram s a))"

lemma frame_same: "info w' = info w \<Longrightarrow> framebuffer w' = framebuffer w \<Longrightarrow> frame w' = frame w"
  by (simp add: frame_def)

lemma output_step_trans:
  "output_step a xs ws ws1 \<Longrightarrow> output_step b ys ws1 ws2 \<Longrightarrow> output_step (a + b) (xs @ ys) ws ws2"
  unfolding output_step_def split_beta frame_def by force

lemma output_step_refl: "writer_ok (fst ws) \<Longrightarrow> output_step 0 [] ws ws"
  by (cases ws) (simp add: output_step_def)

lemma pixel_in_frame:
  assumes "writer_ok w" and "x < hres w" and "y < vres w"
  shows "4 * (y * scanline w + x) + 4 \<le> framebuffer_size (info w)"
proof -
  have "y * scanline w + x < Suc y * scanline w" using assms(1,2) by (simp add: writer_ok_def)
  also have "\<dots> \<le> vres w * scanline w" using assms(3) by (intro mult_le_mono1) simp
  finally show ?thesis using assms(1) by (simp add: writer_ok_def)
qed

lemma runs_write_pixel:
  assumes "writer_ok (fst ws)" and "\<And>ws'. fst ws' = fst ws \<Longrightarrow> output_step 0 [] ws ws' \<Longrightarrow> P (Inr ()) ws'"
  shows "runs_to (write_pixel x y v) ws P"
proof -
  obtain w s where ws: "ws = (w, s)" by (cases ws)
  show ?thesis
  proof (cases "x < hres w \<and> y < vres w")
    case True
    note pixel = pixel_in_frame [of w x y] paint_outside [of "[(y * scanline w + x, v)]" "framebuffer_size (info w)" _ "framebuffer w"]
    have "P (Inr ()) (w, painted (framebuffer w) [(y * scanline w + x, v)] s)"
      using assms(1) True pixel
      by (intro assms(2)) (auto simp: ws output_step_def frame_def painted_def)
    then show ?thesis using True pixel(1) assms(1) by (simp add: write_pixel_def ws not_le writer_ok_def)
  next
    case False
    then show ?thesis using assms output_step_refl by (auto simp: write_pixel_def ws not_le)
  qed
qed

lemma runs_steps_each:
  assumes "writer_ok (fst ws)"
    and "\<And>x ws1. x \<in> set xs \<Longrightarrow> fst ws1 = fst ws \<Longrightarrow> runs_to (body x) ws1 (\<lambda>r ws2. r = Inr () \<and> fst ws2 = fst ws1 \<and> output_step 0 [] ws1 ws2)"
  shows "runs_to (for_each xs body) ws (\<lambda>r ws'. r = Inr () \<and> fst ws' = fst ws \<and> output_step 0 [] ws ws')"
proof (rule for_each_invariant [where I = "\<lambda>_ ws'. fst ws' = fst ws \<and> output_step 0 [] ws ws'"])
  show "fst ws = fst ws \<and> output_step 0 [] ws ws" using assms(1) by (simp add: output_step_refl)
  fix ys x zs ws1
  assume xs: "xs = ys @ x # zs" and ws1: "fst ws1 = fst ws \<and> output_step 0 [] ws ws1"
  show "runs_to (body x) ws1 (\<lambda>r ws'. r = Inr () \<and> fst ws' = fst ws \<and> output_step 0 [] ws ws')"
  proof (rule runs_to_mono [OF assms(2)])
    show "x \<in> set xs" "fst ws1 = fst ws" using xs ws1 by simp_all
    fix r ws2
    assume "r = Inr () \<and> fst ws2 = fst ws1 \<and> output_step 0 [] ws1 ws2"
    then show "r = Inr () \<and> fst ws2 = fst ws \<and> output_step 0 [] ws ws2"
      using output_step_trans [of 0 "[]" ws ws1 0 "[]" ws2] ws1 by simp
  qed
qed

lemma runs_glyph:
  assumes "writer_ok (fst ws)" and "length bitmap = 8" and "y_pos (fst ws) + 8 < 2 ^ 64"
  shows "runs_to (write_rendered_char bitmap) ws (\<lambda>r ws'. r = Inr () \<and> fst ws' = fst ws \<and> output_step 0 [] ws ws')"
  unfolding write_rendered_char_def
proof (rule runs_steps_each [OF assms(1)], clarify)
  fix y :: nat and row :: u8 and w :: Writer and s :: screen
  assume y: "(y, row) \<in> set (List.enumerate 0 bitmap)" and "fst (w, s) = fst ws"
  then have w: "w = fst ws" "y < 8" using assms(2) by (auto simp: in_set_enumerate_eq)
  have "unat (horizontal_resolution (info w)) < 2 ^ 32" using unsigned_less [of "horizontal_resolution (info w)", where ?'a = nat] by simp
  then have x: "x_pos w + 8 < 2 ^ 64" using assms(1) w by (simp add: writer_ok_def)
  show "runs_to (for_each [0..<8] (\<lambda>x. bind get_local (\<lambda>w. bind (usize_add (x_pos w) x) (\<lambda>px.
      bind (usize_add (y_pos w) y) (\<lambda>py. write_pixel px py (if bit row x then 0xFFFFFFFF else 0)))))) (w, s)
      (\<lambda>r ws2. r = Inr () \<and> fst ws2 = fst (w, s) \<and> output_step 0 [] (w, s) ws2)"
    by (rule runs_steps_each)
      (use assms x w in \<open>auto intro!: runs_write_pixel\<close>)
qed

definition echo :: "nat \<Rightarrow> bytes" where
  "echo c = word_of_nat c # (if c = 10 then [13] else [])"

lemma runs_serial_out [simp]:
  "runs_to (serial_out v) ws P \<longleftrightarrow> P (Inr ()) (fst ws, (snd ws)\<lparr>serial := serial (snd ws) @ [v]\<rparr>)"
  by (cases ws) (simp add: serial_out_def)

lemma runs_new_line [simp]:
  "runs_to new_line ws P \<longleftrightarrow> y_pos (fst ws) + 16 < 2 ^ 64 \<and>
     P (Inr ()) ((fst ws)\<lparr>x_pos := 0, y_pos := y_pos (fst ws) + 16\<rparr>, snd ws)"
  by (cases ws) (simp add: new_line_def)

lemma runs_clear_screen [simp]:
  "runs_to clear_screen ws P \<longleftrightarrow> P (Inr ()) ((fst ws)\<lparr>x_pos := 0, y_pos := 0\<rparr>,
     (snd ws)\<lparr>vram := store_bytes (framebuffer (fst ws)) (replicate (framebuffer_size (info (fst ws))) 0) (vram (snd ws))\<rparr>)"
  by (cases ws) (simp add: clear_screen_def)

text \<open>The position a glyph is drawn at: after a wrap and after a clear.\<close>

lemma runs_place:
  assumes "writer_ok (fst ws)" and "y_pos (fst ws) + 24 < 2 ^ 64"
  shows "runs_to (seq (bind get_local (\<lambda>w. if x_pos w \<ge> hres w then new_line else ret ()))
      (bind get_local (\<lambda>w. if y_pos w \<ge> vres w then seq clear_screen (set_local (\<lambda>w. w\<lparr>y_pos := 0\<rparr>)) else ret ()))) ws
    (\<lambda>r ws'. r = Inr () \<and> x_pos (fst ws') \<le> hres (fst ws') \<and> output_step 16 [] ws ws')"
  using assms by (cases ws) (auto simp: output_step_def writer_ok_def frame_def store_bytes_def)

lemma runs_advance:
  assumes "writer_ok (fst ws)" and "x_pos (fst ws) \<le> hres (fst ws)"
  shows "runs_to (bind get_local (\<lambda>w. bind (usize_add (x_pos w) 8) (\<lambda>x. set_local (\<lambda>w. w\<lparr>x_pos := x\<rparr>)))) ws
    (\<lambda>r ws'. r = Inr () \<and> output_step 0 [] ws ws')"
proof -
  have "hres (fst ws) < 2 ^ 32" using unsigned_less [of "horizontal_resolution (info (fst ws))", where ?'a = nat] by simp
  then show ?thesis using assms by (cases ws) (auto simp: output_step_def writer_ok_def)
qed

lemma runs_write_char:
  assumes ok: "writer_ok (fst ws)" and font: "font_ok font" and y: "y_pos (fst ws) + 24 < 2 ^ 64"
  shows "runs_to (write_char font c) ws (\<lambda>r ws'. r = Inr () \<and> output_step 16 (echo c) ws ws')"
proof -
  consider "c = 10" | "c = 8" | "c \<noteq> 10" "c \<noteq> 8" by blast
  then show ?thesis
  proof cases
    case 1
    then show ?thesis using ok y by (cases ws) (auto simp: write_char_def echo_def output_step_def writer_ok_def)
  next
    case 2
    then show ?thesis using ok by (cases ws) (auto simp: write_char_def echo_def output_step_def writer_ok_def)
  next
    case 3
    define ws0 where "ws0 = (fst ws, (snd ws)\<lparr>serial := serial (snd ws) @ [word_of_nat c]\<rparr>)"
    have start: "output_step 0 (echo c) ws ws0"
      using ok 3 by (cases ws) (auto simp: output_step_def ws0_def echo_def)
    have ok0: "writer_ok (fst ws0)" "y_pos (fst ws0) + 24 < 2 ^ 64" using ok y by (simp_all add: ws0_def)
    note place = runs_place [OF ok0]
    have "runs_to (case font c of None \<Rightarrow> ret () | Some bitmap \<Rightarrow> seq (write_rendered_char bitmap)
          (bind get_local (\<lambda>w. bind (usize_add (x_pos w) 8) (\<lambda>x. set_local (\<lambda>w. w\<lparr>x_pos := x\<rparr>))))) ws1
        (\<lambda>r ws'. r = Inr () \<and> output_step 16 (echo c) ws ws')"
      if at: "x_pos (fst ws1) \<le> hres (fst ws1)" "output_step 16 [] ws0 ws1" for ws1
    proof (cases "font c")
      case None
      then show ?thesis using output_step_trans [OF start at(2)] by simp
    next
      case (Some bitmap)
      have w1: "writer_ok (fst ws1)" "y_pos (fst ws1) + 8 < 2 ^ 64"
        using at(2) ok0(2) by (auto simp: output_step_def split_beta)
      have "length bitmap = 8" using font Some by (simp add: font_ok_def)
      note glyph = runs_glyph [OF w1(1) this w1(2)]
      show ?thesis
        unfolding Some option.case runs_to_seq
      proof (rule runs_to_mono [OF glyph], elim conjE, simp only: sum.case)
        fix r ws2
        assume ws2: "fst ws2 = fst ws1" "output_step 0 [] ws1 ws2"
        have "writer_ok (fst ws2)" "x_pos (fst ws2) \<le> hres (fst ws2)" using ws2 w1 at(1) by simp_all
        note adv = runs_advance [OF this]
        show "runs_to (bind get_local (\<lambda>w. bind (usize_add (x_pos w) 8) (\<lambda>x. set_local (\<lambda>w. w\<lparr>x_pos := x\<rparr>)))) ws2
            (\<lambda>r ws'. r = Inr () \<and> output_step 16 (echo c) ws ws')"
          by (rule runs_to_mono [OF adv])
            (use output_step_trans [OF output_step_trans [OF output_step_trans [OF start at(2)] ws2(2)]] in fastforce)
      qed
    qed
    then have "runs_to (seq (seq (bind get_local (\<lambda>w. if x_pos w \<ge> hres w then new_line else ret ()))
        (bind get_local (\<lambda>w. if y_pos w \<ge> vres w then seq clear_screen (set_local (\<lambda>w. w\<lparr>y_pos := 0\<rparr>)) else ret ())))
        (case font c of None \<Rightarrow> ret () | Some bitmap \<Rightarrow> seq (write_rendered_char bitmap)
          (bind get_local (\<lambda>w. bind (usize_add (x_pos w) 8) (\<lambda>x. set_local (\<lambda>w. w\<lparr>x_pos := x\<rparr>)))))) ws0
        (\<lambda>r ws'. r = Inr () \<and> output_step 16 (echo c) ws ws')"
      unfolding runs_to_seq [of "seq _ _"] by (intro runs_to_mono [OF place]) (elim conjE, simp only: sum.case)
    then show ?thesis
      using 3 by (simp only: write_char_def seq_assoc [of "bind get_local _", symmetric] if_False runs_to_seq [of "serial_out _"] runs_to_seq [of "ret ()"]
          runs_serial_out runs_to_ret sum.case ws0_def)
  qed
qed

lemma runs_write_str:
  assumes "writer_ok (fst ws)" and "font_ok font" and "y_pos (fst ws) + 16 * length str + 24 < 2 ^ 64"
  shows "runs_to (write_str font str) ws
    (\<lambda>r ws'. r = Inr () \<and> output_step (16 * length str) (concat (map echo str)) ws ws')"
  unfolding write_str_def
proof (rule for_each_invariant [where I = "\<lambda>cs. output_step (16 * length cs) (concat (map echo cs)) ws"], goal_cases)
  case 1
  show ?case using output_step_refl [OF assms(1)] by simp
next
  case (2 cs c cs' ws1)
  have ok: "writer_ok (fst ws1)" "y_pos (fst ws1) + 24 < 2 ^ 64"
    using 2 assms(3) by (auto simp: output_step_def split_beta)
  show ?case
  proof (rule runs_to_mono [OF runs_write_char [OF ok(1) assms(2) ok(2)]], elim conjE, intro conjI)
    fix r ws2
    assume "output_step 16 (echo c) ws1 ws2"
    with output_step_trans [OF 2(2) this] show "output_step (16 * length (cs @ [c])) (concat (map echo (cs @ [c]))) ws ws2"
      by (simp add: ac_simps)
  qed
qed

lemma runs_print:
  assumes "GLOBAL_WRITER s = Some w" and "writer_ok w" and "font_ok font"
    and "y_pos w + 16 * length str + 24 < 2 ^ 64"
  shows "runs_to (print font str) s (\<lambda>r s'. r = Inr () \<and>
    (\<exists>w'. GLOBAL_WRITER s' = Some w' \<and> writer_ok w' \<and> info w' = info w \<and> framebuffer w' = framebuffer w) \<and>
    (\<forall>a. a \<notin> frame w \<longrightarrow> vram s' a = vram s a) \<and> serial s' = serial s @ concat (map echo str))"
proof -
  have "runs_to (write_str font str) (w, s)
      (\<lambda>r ws'. r = Inr () \<and> output_step (16 * length str) (concat (map echo str)) (w, s) ws')"
    using assms by (intro runs_write_str) simp_all
  then show ?thesis
    unfolding print_def with_writer_def
    by (simp add: assms(1)) (erule runs_to_mono, auto simp: output_step_def)
qed

text \<open>
  C33. \<open>print\<close> always returns, and it never writes outside the framebuffer: for a writer whose
  visible area lies in the framebuffer, printing any text (line breaks, backspaces, characters
  with no glyph and text longer than the screen included) changes no byte of memory outside it,
  keeps the writer's geometry, and sends exactly the text, with a carriage return after every
  line break, to the serial port.
\<close>
theorem print_in_bounds:
  assumes "GLOBAL_WRITER s = Some w" and "writer_ok w" and "font_ok font"
    and "y_pos w + 16 * length str + 24 < 2 ^ 64"
  shows "runs_to (print font str) s (\<lambda>r s'. r = Inr () \<and>
    (\<exists>w'. GLOBAL_WRITER s' = Some w' \<and> writer_ok w' \<and> info w' = info w \<and> framebuffer w' = framebuffer w) \<and>
    (\<forall>a. a \<notin> frame w \<longrightarrow> vram s' a = vram s a) \<and> serial s' = serial s @ concat (map echo str))"
  using assms by (rule runs_print)

definition example_writer :: Writer where
  "example_writer = \<lparr> framebuffer = 0x1000, info = \<lparr> framebuffer_base = 0x1000, framebuffer_size = 4096, horizontal_resolution = 32,
     vertical_resolution = 32, pixels_per_scanline = 32,
     pixel_format = 0, bi_memory_map = 0, memory_map_size = 0, descriptor_size = 0, descriptor_version = 0, runtime_services = 0, acpi_rsdp_phys = 0 \<rparr>, x_pos = 30, y_pos = 16 \<rparr>"

theorem print_in_bounds_witness:
  "runs_to (print example_font [72, 105, 10, 8, 200]) (blank_screen\<lparr>GLOBAL_WRITER := Some example_writer\<rparr>)
     (\<lambda>r s'. r = Inr () \<and> vram s' 0xFFF = 0 \<and> vram s' 0x2000 = 0 \<and> serial s' = [72, 105, 10, 13, 8, 200])"
proof -
  have "writer_ok example_writer" "font_ok example_font" "y_pos example_writer + 16 * length [72, 105, 10, 8, 200 :: nat] + 24 < 2 ^ 64"
    by (auto simp: writer_ok_def example_writer_def font_ok_def example_font_def split: if_splits)
  note run = print_in_bounds [where s = "blank_screen\<lparr>GLOBAL_WRITER := Some example_writer\<rparr>", OF _ this]
  show ?thesis
    by (rule runs_to_mono [OF run]) (auto simp: echo_def blank_screen_def frame_def example_writer_def)
qed

end
