(* ===== verification/Xhci.thy ===== *)
theory Xhci
  imports Pci Acpi Cpu
begin

section \<open>The USB host controller and the keyboard\<close>

text \<open>
  \<open>src/src/xhci.rs\<close>: transfer request blocks and the rings that carry them, the event loop,
  device enumeration up to the interrupt endpoint of a keyboard, the decoding of keyboard
  reports and the buffer of typed keys.  Everything the controller also reads or writes (its
  registers, the rings, the contexts, the report buffers) is reached through the bus; the other
  statics are fields of the state.  The addresses of the static buffers are parameters.
  Console output is not modelled.
\<close>

subsection \<open>Structures\<close>

abbreviation read8 :: "'w bus \<Rightarrow> nat \<Rightarrow> ('w, 'e, u8) prog" where
  "read8 b a \<equiv> bind (get_bytes b a 1) (\<lambda>bs. ret (from_le bs))"

abbreviation read16 :: "'w bus \<Rightarrow> nat \<Rightarrow> ('w, 'e, u16) prog" where
  "read16 b a \<equiv> bind (get_bytes b a 2) (\<lambda>bs. ret (from_le bs))"

abbreviation read64 :: "'w bus \<Rightarrow> nat \<Rightarrow> ('w, 'e, u64) prog" where
  "read64 b a \<equiv> bind (get_bytes b a 8) (\<lambda>bs. ret (from_le bs))"

text \<open>Offsets in \<open>XhciCapabilityRegisters\<close>, \<open>XhciOperationalRegisters\<close> and, from the runtime registers, in \<open>ir[0]\<close>.\<close>

abbreviation (input) caplength :: nat where "caplength \<equiv> 0x00"
abbreviation (input) hcsparams1 :: nat where "hcsparams1 \<equiv> 0x04"
abbreviation (input) hccparams1 :: nat where "hccparams1 \<equiv> 0x10"
abbreviation (input) dboff :: nat where "dboff \<equiv> 0x14"
abbreviation (input) rtsoff :: nat where "rtsoff \<equiv> 0x18"
abbreviation (input) usbcmd :: nat where "usbcmd \<equiv> 0x00"
abbreviation (input) usbsts :: nat where "usbsts \<equiv> 0x04"
abbreviation (input) crcr :: nat where "crcr \<equiv> 0x18"
abbreviation (input) dcbaap :: nat where "dcbaap \<equiv> 0x30"
abbreviation (input) config :: nat where "config \<equiv> 0x38"
abbreviation (input) ir0_erstsz :: nat where "ir0_erstsz \<equiv> 0x28"
abbreviation (input) ir0_erstba :: nat where "ir0_erstba \<equiv> 0x30"
abbreviation (input) ir0_erdp :: nat where "ir0_erdp \<equiv> 0x38"

abbreviation (input) TRB_NORMAL :: u8 where "TRB_NORMAL \<equiv> 1"
abbreviation (input) TRB_SETUP_STAGE :: u8 where "TRB_SETUP_STAGE \<equiv> 2"
abbreviation (input) TRB_DATA_STAGE :: u8 where "TRB_DATA_STAGE \<equiv> 3"
abbreviation (input) TRB_STATUS_STAGE :: u8 where "TRB_STATUS_STAGE \<equiv> 4"
abbreviation (input) TRB_LINK :: u8 where "TRB_LINK \<equiv> 6"
abbreviation (input) TRB_ENABLE_SLOT_COMMAND :: u8 where "TRB_ENABLE_SLOT_COMMAND \<equiv> 9"
abbreviation (input) TRB_ADDRESS_DEVICE_COMMAND :: u8 where "TRB_ADDRESS_DEVICE_COMMAND \<equiv> 11"
abbreviation (input) TRB_CONFIGURE_ENDPOINT_COMMAND :: u8 where "TRB_CONFIGURE_ENDPOINT_COMMAND \<equiv> 12"
abbreviation (input) TRB_NOOP_COMMAND :: u8 where "TRB_NOOP_COMMAND \<equiv> 23"
abbreviation (input) TRB_TRANSFER_EVENT :: u8 where "TRB_TRANSFER_EVENT \<equiv> 32"
abbreviation (input) TRB_COMMAND_COMPLETION_EVENT :: u8 where "TRB_COMMAND_COMPLETION_EVENT \<equiv> 33"
abbreviation (input) TRB_PORT_STATUS_CHANGE_EVENT :: u8 where "TRB_PORT_STATUS_CHANGE_EVENT \<equiv> 34"

record Trb =
  trb_param :: u64
  trb_status :: u32
  trb_control :: u32

definition trb_default :: Trb where
  "trb_default = \<lparr> trb_param = 0, trb_status = 0, trb_control = 0 \<rparr>"

definition trb_bytes :: "Trb \<Rightarrow> bytes" where
  "trb_bytes t = to_le 8 (trb_param t) @ to_le 4 (trb_status t) @ to_le 4 (trb_control t)"

definition trb_of :: "bytes \<Rightarrow> Trb" where
  "trb_of bs = \<lparr> trb_param = from_le (subslice 0 8 bs), trb_status = from_le (subslice 8 4 bs),
     trb_control = from_le (subslice 12 4 bs) \<rparr>"

definition trb_type :: "Trb \<Rightarrow> u8" where
  "trb_type t = ucast (drop_bit 10 (trb_control t) AND 0x3F)"

definition cycle_bit :: "Trb \<Rightarrow> bool" where
  "cycle_bit t \<longleftrightarrow> trb_control t AND 1 \<noteq> 0"

definition completion_code :: "Trb \<Rightarrow> u8" where
  "completion_code t = ucast (drop_bit 24 (trb_status t))"

definition trb_slot_id :: "Trb \<Rightarrow> u8" where
  "trb_slot_id t = ucast (drop_bit 24 (trb_control t))"

text \<open>\<open>(kind as u32) << 10\<close>.\<close>

abbreviation trb_kind :: "u8 \<Rightarrow> u32" where "trb_kind k \<equiv> push_bit 10 (ucast k)"

text \<open>The fields of \<open>DeviceContext\<close> (a slot context and 31 endpoint contexts of 32 bytes) and \<open>InputContext\<close>, by address.\<close>

definition size_of_SlotContext :: nat where [simp]: "size_of_SlotContext = 32"
definition size_of_EndpointContext :: nat where [simp]: "size_of_EndpointContext = 32"
definition size_of_DeviceContext :: nat where [simp]: "size_of_DeviceContext = size_of_SlotContext + 31 * size_of_EndpointContext"
definition input_device :: "nat \<Rightarrow> nat" where [simp]: "input_device ctx = ctx + 32"

abbreviation endpoint_ctx :: "nat \<Rightarrow> nat \<Rightarrow> nat" where
  "endpoint_ctx dev i \<equiv> dev + size_of_SlotContext + i * size_of_EndpointContext"

record TransferRing =
  tr_base :: nat
  tr_size :: nat
  enqueue_index :: nat
  tr_cycle :: bool

type_synonym CommandRing = TransferRing

record XhciContext =
  x_cap :: nat
  x_op :: nat
  x_rt :: nat
  x_db :: nat
  cmd_ring :: CommandRing
  event_ring_base :: nat
  event_ring_size :: nat
  event_ring_dequeue_index :: nat
  event_ring_cycle_bit :: bool
  max_ports :: u8

record xhci_buffers =
  COMMAND_RING_BUFFER :: nat
  DCBAA_BUFFER :: nat
  EVENT_RING_SEGMENT_TABLE :: nat
  EVENT_RING_BUFFER :: nat
  DEVICE_CONTEXT_BUFFERS :: nat
  EP0_TR_BUFFERS :: nat
  KEYBOARD_TR_BUFFERS :: nat
  KEYBOARD_REPORT_BUFFERS :: nat
  INPUT_CONTEXT_BUFFER :: nat
  USB_DATA_BUFFER :: nat

record 'w xhci =
  XHCI_CTX :: "XhciContext option"
  LAST_COMPLETION_CODE :: u8
  LAST_SLOT_ID :: u8
  EP0_TRANSFER_RINGS :: "TransferRing option list"
  KEYBOARD_TRANSFER_RINGS :: "TransferRing option list"
  KEYBOARD_EP_INDICES :: bytes
  PREVIOUS_KEYBOARD_REPORTS :: "bytes list"
  KEYBOARD_BUFFER :: bytes
  KBD_BUF_HEAD :: nat
  KBD_BUF_TAIL :: nat
  xhci_world :: 'w

type_synonym ('w, 'a) xp = "('w xhci, unit, 'a) prog"

definition xhci_statics :: "'w \<Rightarrow> 'w xhci" where
  "xhci_statics w = \<lparr> XHCI_CTX = None, LAST_COMPLETION_CODE = 0, LAST_SLOT_ID = 0,
     EP0_TRANSFER_RINGS = replicate 64 None, KEYBOARD_TRANSFER_RINGS = replicate 64 None,
     KEYBOARD_EP_INDICES = replicate 64 0, PREVIOUS_KEYBOARD_REPORTS = replicate 64 (replicate 8 0),
     KEYBOARD_BUFFER = replicate 256 0, KBD_BUF_HEAD = 0, KBD_BUF_TAIL = 0, xhci_world = w \<rparr>"

abbreviation on_world :: "('w, unit, 'a) prog \<Rightarrow> ('w, 'a) xp" where
  "on_world p \<equiv> zoom xhci_world (\<lambda>w s. s\<lparr>xhci_world := w\<rparr>) p"

subsection \<open>Rings\<close>

definition read_trb :: "'w bus \<Rightarrow> nat \<Rightarrow> ('w, unit, Trb) prog" where
  "read_trb b a = bind (get_bytes b a 16) (\<lambda>bs. ret (trb_of bs))"

definition write_trb :: "'w bus \<Rightarrow> nat \<Rightarrow> Trb \<Rightarrow> ('w, unit, unit) prog" where
  "write_trb b a t = put_bytes b a (trb_bytes t)"

text \<open>\<open>ptr::write_bytes(p, 0, n)\<close> on a pointer to elements of \<open>k\<close> bytes clears \<open>n\<close> elements.\<close>

definition clear_elements :: "'w bus \<Rightarrow> nat \<Rightarrow> nat \<Rightarrow> nat \<Rightarrow> ('w, unit, unit) prog" where
  "clear_elements b k p n = put_bytes b p (replicate (k * n) 0)"

definition TransferRing_new :: "'w bus \<Rightarrow> nat \<Rightarrow> nat \<Rightarrow> ('w, unit, TransferRing) prog" where
  "TransferRing_new b buffer size_bytes =
     (let n = size_bytes div 16 in
      seq (clear_elements b 16 buffer size_bytes)
      (if n = 0 then stop else
       seq (write_trb b (buffer + 16 * (n - 1))
              (trb_default\<lparr> trb_param := word_of_nat buffer, trb_control := trb_kind TRB_LINK OR 2 \<rparr>))
       (ret \<lparr> tr_base = buffer, tr_size = n - 1, enqueue_index = 0, tr_cycle = True \<rparr>)))"

text \<open>The block with the cycle bit set to \<open>c\<close>.\<close>

definition with_cycle :: "bool \<Rightarrow> Trb \<Rightarrow> Trb" where
  "with_cycle c t = t\<lparr>trb_control := (trb_control t AND NOT 1) OR (if c then 1 else 0)\<rparr>"

text \<open>Storing a block and moving on, over the link at the end.\<close>

definition ring_put :: "'w bus \<Rightarrow> TransferRing \<Rightarrow> Trb \<Rightarrow> ('w, unit, TransferRing) prog" where
  "ring_put b r t =
     seq (write_trb b (tr_base r + 16 * enqueue_index r) (with_cycle (tr_cycle r) t))
     (let i = enqueue_index r + 1 in
      if i \<ge> tr_size r then
        let link_ptr = tr_base r + 16 * tr_size r in
        bind (read_trb b link_ptr) (\<lambda>link.
        seq (write_trb b link_ptr (with_cycle (tr_cycle r) link))
        (ret (r\<lparr>enqueue_index := 0, tr_cycle := \<not> tr_cycle r\<rparr>)))
      else ret (r\<lparr>enqueue_index := i\<rparr>))"

definition TransferRing_enqueue :: "'w bus \<Rightarrow> TransferRing \<Rightarrow> Trb \<Rightarrow> nat \<Rightarrow> u8 \<Rightarrow> ('w, unit, TransferRing) prog" where
  "TransferRing_enqueue b r t db endpoint_id =
     bind (ring_put b r t) (\<lambda>r'. seq (write32 b db (ucast endpoint_id)) (ret r'))"

definition CommandRing_new :: "'w bus \<Rightarrow> nat \<Rightarrow> nat \<Rightarrow> ('w, unit, CommandRing) prog" where
  "CommandRing_new b buffer size_bytes = TransferRing_new b buffer size_bytes"

definition CommandRing_enqueue :: "'w bus \<Rightarrow> CommandRing \<Rightarrow> Trb \<Rightarrow> nat \<Rightarrow> ('w, unit, CommandRing) prog" where
  "CommandRing_enqueue b r t db = bind (ring_put b r t) (\<lambda>r'. seq (write32 b db 0) (ret r'))"

subsection \<open>Typed keys\<close>

abbreviation (input) KBD_BUF_SIZE :: nat where "KBD_BUF_SIZE \<equiv> 256"

definition push_key :: "u8 \<Rightarrow> ('w, unit) xp" where
  "push_key key = bind (gets id) (\<lambda>s.
     let next_head = (KBD_BUF_HEAD s + 1) mod KBD_BUF_SIZE in
     if next_head \<noteq> KBD_BUF_TAIL s then
       seq (at_index (KBD_BUF_HEAD s) (KEYBOARD_BUFFER s))
       (modify (\<lambda>s. s\<lparr>KEYBOARD_BUFFER := (KEYBOARD_BUFFER s)[KBD_BUF_HEAD s := key], KBD_BUF_HEAD := next_head\<rparr>))
     else ret ())"

definition get_key :: "('w, u8 option) xp" where
  "get_key = bind (gets id) (\<lambda>s.
     if KBD_BUF_HEAD s = KBD_BUF_TAIL s then ret None
     else bind (at_index (KBD_BUF_TAIL s) (KEYBOARD_BUFFER s)) (\<lambda>key.
       seq (modify (\<lambda>s. s\<lparr>KBD_BUF_TAIL := (KBD_BUF_TAIL s + 1) mod KBD_BUF_SIZE\<rparr>)) (ret (Some key))))"

text \<open>\<open>let mut table = [0u8; 128]; table[i] = c; ..\<close>.\<close>

definition table_of :: "(nat \<times> u8) list \<Rightarrow> bytes" where
  "table_of es = fold (\<lambda>(i, c) t. t[i := c]) es (replicate 128 0)"

definition HID_ASCII_TABLE :: bytes where
  "HID_ASCII_TABLE = table_of
      [(0x04, 0x61), (0x05, 0x62), (0x06, 0x63), (0x07, 0x64), (0x08, 0x65), (0x09, 0x66), (0x0A, 0x67), (0x0B, 0x68), (0x0C, 0x69),
       (0x0D, 0x6A), (0x0E, 0x6B), (0x0F, 0x6C), (0x10, 0x6D), (0x11, 0x6E), (0x12, 0x6F), (0x13, 0x70), (0x14, 0x71), (0x15, 0x72),
       (0x16, 0x73), (0x17, 0x74), (0x18, 0x75), (0x19, 0x76), (0x1A, 0x77), (0x1B, 0x78), (0x1C, 0x79), (0x1D, 0x7A), (0x1E, 0x31),
       (0x1F, 0x32), (0x20, 0x33), (0x21, 0x34), (0x22, 0x35), (0x23, 0x36), (0x24, 0x37), (0x25, 0x38), (0x26, 0x39), (0x27, 0x30),
       (0x28, 0x0A), (0x29, 0x1B), (0x2A, 0x08), (0x2B, 0x09), (0x2C, 0x20), (0x2D, 0x2D), (0x2E, 0x3D), (0x2F, 0x5B), (0x30, 0x5D),
       (0x31, 0x5C), (0x35, 0x60), (0x33, 0x3B), (0x34, 0x27), (0x36, 0x2C), (0x37, 0x2E), (0x38, 0x2F), (0x4F, 0x80), (0x50, 0x81),
       (0x51, 0x82), (0x52, 0x83)]"

definition HID_ASCII_SHIFT_TABLE :: bytes where
  "HID_ASCII_SHIFT_TABLE = table_of
      [(0x04, 0x41), (0x05, 0x42), (0x06, 0x43), (0x07, 0x44), (0x08, 0x45), (0x09, 0x46), (0x0A, 0x47), (0x0B, 0x48), (0x0C, 0x49),
       (0x0D, 0x4A), (0x0E, 0x4B), (0x0F, 0x4C), (0x10, 0x4D), (0x11, 0x4E), (0x12, 0x4F), (0x13, 0x50), (0x14, 0x51), (0x15, 0x52),
       (0x16, 0x53), (0x17, 0x54), (0x18, 0x55), (0x19, 0x56), (0x1A, 0x57), (0x1B, 0x58), (0x1C, 0x59), (0x1D, 0x5A), (0x1E, 0x21),
       (0x1F, 0x40), (0x20, 0x23), (0x21, 0x24), (0x22, 0x25), (0x23, 0x5E), (0x24, 0x26), (0x25, 0x2A), (0x26, 0x28), (0x27, 0x29),
       (0x28, 0x0A), (0x29, 0x1B), (0x2A, 0x08), (0x2B, 0x09), (0x2C, 0x20), (0x2D, 0x5F), (0x2E, 0x2B), (0x2F, 0x7B), (0x30, 0x7D),
       (0x31, 0x7C), (0x35, 0x7E), (0x33, 0x3A), (0x34, 0x22), (0x36, 0x3C), (0x37, 0x3E), (0x38, 0x3F), (0x4F, 0x80), (0x50, 0x81),
       (0x51, 0x82), (0x52, 0x83)]"

abbreviation (input) HID_MOD_LEFT_SHIFT :: u8 where "HID_MOD_LEFT_SHIFT \<equiv> 2"
abbreviation (input) HID_MOD_RIGHT_SHIFT :: u8 where "HID_MOD_RIGHT_SHIFT \<equiv> 0x20"

definition hid_key_to_ascii :: "u8 \<Rightarrow> u8 \<Rightarrow> u8" where
  "hid_key_to_ascii key modifier =
     (let table = (if modifier AND (HID_MOD_LEFT_SHIFT OR HID_MOD_RIGHT_SHIFT) \<noteq> 0 then HID_ASCII_SHIFT_TABLE else HID_ASCII_TABLE) in
      if unat key < length table then table ! unat key else 0)"

subsection \<open>Events\<close>

text \<open>\<open>[slot_id as usize - 1]\<close> on the arrays of 64 elements.\<close>

definition slot_index :: "u8 \<Rightarrow> ('s, 'e, nat) prog" where
  "slot_index slot = (if 1 \<le> slot \<and> slot \<le> 64 then ret (unat slot - 1) else stop)"

text \<open>\<open>match XHCI_CTX { Some(c) => c, None => panic!(..) }\<close>.\<close>

definition the_ctx :: "('w, XhciContext) xp" where
  "the_ctx = bind (gets XHCI_CTX) unwrap"

definition queue_keyboard_report_request :: "'w bus \<Rightarrow> xhci_buffers \<Rightarrow> u8 \<Rightarrow> u8 \<Rightarrow> ('w, unit) xp" where
  "queue_keyboard_report_request b bufs slot ep_index =
     bind (gets XHCI_CTX) (\<lambda>c. case c of None \<Rightarrow> ret () | Some ctx \<Rightarrow>
     let db = x_db ctx + 4 * unat slot in
     bind (slot_index slot) (\<lambda>i.
     bind (gets KEYBOARD_TRANSFER_RINGS) (\<lambda>rs.
     bind (at_index i rs) (\<lambda>r.
     bind (unwrap r) (\<lambda>tr.
     bind (on_world (TransferRing_enqueue b tr
         (trb_default\<lparr> trb_param := word_of_nat (KEYBOARD_REPORT_BUFFERS bufs + 8 * i), trb_status := 8,
            trb_control := trb_kind TRB_NORMAL OR push_bit 5 1 \<rparr>) db ep_index)) (\<lambda>tr'.
       modify (\<lambda>s. s\<lparr>KEYBOARD_TRANSFER_RINGS := (KEYBOARD_TRANSFER_RINGS s)[i := Some tr']\<rparr>)))))))"

text \<open>The keys of a report that the previous report of the slot does not hold.\<close>

definition press_keys :: "bytes \<Rightarrow> bytes \<Rightarrow> ('w, unit) xp" where
  "press_keys prev_report report =
     for_each [2..<8] (\<lambda>i. let key = report ! i in
       if key \<noteq> 0 then
         let found = list_ex (\<lambda>j. prev_report ! j = key) [2..<8] in
         if \<not> found then
           let ascii = hid_key_to_ascii key (report ! 0) in
           if ascii \<noteq> 0 then push_key ascii else ret ()
         else ret ()
       else ret ())"

definition keyboard_report :: "'w bus \<Rightarrow> xhci_buffers \<Rightarrow> nat \<Rightarrow> ('w, unit) xp" where
  "keyboard_report b bufs i =
     bind (on_world (get_bytes b (KEYBOARD_REPORT_BUFFERS bufs + 8 * i) 8)) (\<lambda>report.
     bind (gets PREVIOUS_KEYBOARD_REPORTS) (\<lambda>prevs.
     bind (at_index i prevs) (\<lambda>prev_report.
     seq (press_keys prev_report report)
     (modify (\<lambda>s. s\<lparr>PREVIOUS_KEYBOARD_REPORTS := (PREVIOUS_KEYBOARD_REPORTS s)[i := report]\<rparr>)))))"

definition is_keyboard_report :: "u64 \<Rightarrow> TransferRing option \<Rightarrow> bool" where
  "is_keyboard_report trb_ptr ring = (case ring of None \<Rightarrow> False
     | Some tr \<Rightarrow> tr_base tr \<le> unat trb_ptr \<and> unat trb_ptr < tr_base tr + tr_size tr * 16)"

definition transfer_event :: "'w bus \<Rightarrow> xhci_buffers \<Rightarrow> Trb \<Rightarrow> ('w, unit) xp" where
  "transfer_event b bufs trb =
     (let code = completion_code trb; slot = trb_slot_id trb in
      bind (slot_index slot) (\<lambda>i.
      bind (gets KEYBOARD_TRANSFER_RINGS) (\<lambda>rs.
      bind (at_index i rs) (\<lambda>ring.
      seq (if is_keyboard_report (trb_param trb) ring \<and> code = 1 then
             seq (keyboard_report b bufs i)
             (bind (gets KEYBOARD_EP_INDICES) (\<lambda>eps.
              bind (at_index i eps) (\<lambda>ep_index.
                if ep_index \<noteq> 0 then queue_keyboard_report_request b bufs slot ep_index else ret ())))
           else ret ())
      (modify (\<lambda>s. s\<lparr>LAST_COMPLETION_CODE := code\<rparr>))))))"

definition handle_event :: "'w bus \<Rightarrow> xhci_buffers \<Rightarrow> Trb \<Rightarrow> ('w, unit) xp" where
  "handle_event b bufs trb =
     (let event_type = trb_type trb in
      if event_type = TRB_PORT_STATUS_CHANGE_EVENT then ret ()
      else if event_type = TRB_COMMAND_COMPLETION_EVENT then
        modify (\<lambda>s. s\<lparr>LAST_COMPLETION_CODE := completion_code trb, LAST_SLOT_ID := trb_slot_id trb\<rparr>)
      else if event_type = TRB_TRANSFER_EVENT then transfer_event b bufs trb
      else ret ())"

definition event_round :: "'w bus \<Rightarrow> xhci_buffers \<Rightarrow> nat \<Rightarrow> ('w, nat + nat) xp" where
  "event_round b bufs erdp_val =
     bind (on_world (read_trb b erdp_val)) (\<lambda>trb.
     bind the_ctx (\<lambda>ctx.
     if cycle_bit trb \<noteq> event_ring_cycle_bit ctx then ret (Inr erdp_val)
     else seq (handle_event b bufs trb)
      (bind (usize_add erdp_val 16) (\<lambda>next.
       bind (usize_add (event_ring_base ctx) (event_ring_size ctx * 16)) (\<lambda>limit.
       if next \<ge> limit then
         seq (modify (\<lambda>s. s\<lparr>XHCI_CTX := map_option (\<lambda>c. c\<lparr>event_ring_cycle_bit := \<not> event_ring_cycle_bit c\<rparr>) (XHCI_CTX s)\<rparr>))
           (ret (Inl (event_ring_base ctx)))
       else ret (Inl next))))))"

definition process_events :: "'w bus \<Rightarrow> xhci_buffers \<Rightarrow> ('w, unit) xp" where
  "process_events b bufs =
     bind (gets XHCI_CTX) (\<lambda>c. case c of None \<Rightarrow> ret () | Some ctx \<Rightarrow>
     bind (on_world (read64 b (x_rt ctx + ir0_erdp))) (\<lambda>erdp.
     bind (prog_loop (event_round b bufs) (unat (erdp AND NOT 0xF))) (\<lambda>erdp_val.
       on_world (write64 b (x_rt ctx + ir0_erdp) (word_of_nat erdp_val OR push_bit 3 1)))))"

subsection \<open>Commands\<close>

definition submit_command :: "'w bus \<Rightarrow> Trb \<Rightarrow> ('w, unit) xp" where
  "submit_command b trb =
     bind the_ctx (\<lambda>ctx.
     bind (on_world (CommandRing_enqueue b (cmd_ring ctx) trb (x_db ctx))) (\<lambda>ring.
       modify (\<lambda>s. s\<lparr>XHCI_CTX := Some (ctx\<lparr>cmd_ring := ring\<rparr>)\<rparr>)))"

definition send_noop_command :: "'w bus \<Rightarrow> ('w, unit) xp" where
  "send_noop_command b = bind (gets XHCI_CTX) (\<lambda>c. case c of None \<Rightarrow> ret ()
     | Some _ \<Rightarrow> submit_command b (trb_default\<lparr>trb_control := trb_kind TRB_NOOP_COMMAND\<rparr>))"

abbreviation set_code :: "u8 \<Rightarrow> ('w, unit) xp" where
  "set_code c \<equiv> modify (\<lambda>s. s\<lparr>LAST_COMPLETION_CODE := c\<rparr>)"

definition await_completion :: "'w bus \<Rightarrow> xhci_buffers \<Rightarrow> ('w, unit) xp" where
  "await_completion b bufs = prog_loop (\<lambda>_. bind (gets LAST_COMPLETION_CODE) (\<lambda>code.
     if code = 0 then seq (process_events b bufs) (ret (Inl ())) else ret (Inr ()))) ()"

definition enable_slot :: "'w bus \<Rightarrow> xhci_buffers \<Rightarrow> ('w, u8) xp" where
  "enable_slot b bufs =
     bind the_ctx (\<lambda>_.
     seq (set_code 0)
     (seq (modify (\<lambda>s. s\<lparr>LAST_SLOT_ID := 0\<rparr>))
     (seq (submit_command b (trb_default\<lparr>trb_control := trb_kind TRB_ENABLE_SLOT_COMMAND\<rparr>))
     (seq (await_completion b bufs)
     (gets LAST_SLOT_ID)))))"

definition ep0_enqueue :: "'w bus \<Rightarrow> nat \<Rightarrow> Trb \<Rightarrow> nat \<Rightarrow> ('w, unit) xp" where
  "ep0_enqueue b i trb db =
     bind (gets EP0_TRANSFER_RINGS) (\<lambda>rs.
     bind (at_index i rs) (\<lambda>r.
     bind (unwrap r) (\<lambda>tr.
     bind (on_world (TransferRing_enqueue b tr trb db 1)) (\<lambda>tr'.
       modify (\<lambda>s. s\<lparr>EP0_TRANSFER_RINGS := (EP0_TRANSFER_RINGS s)[i := Some tr']\<rparr>)))))"

text \<open>The wait of \<open>control_transfer\<close> gives up after 2000001 polls.\<close>

definition await_transfer :: "'w bus \<Rightarrow> xhci_buffers \<Rightarrow> ('w, unit) xp" where
  "await_transfer b bufs = prog_loop (\<lambda>timeout. bind (gets LAST_COMPLETION_CODE) (\<lambda>code.
     if code = 0 then seq (process_events b bufs)
       (if timeout + 1 > 2000000 then ret (Inr ()) else ret (Inl (timeout + 1)))
     else ret (Inr ()))) (0 :: nat)"

definition control_transfer :: "'w bus \<Rightarrow> xhci_buffers \<Rightarrow> u8 \<Rightarrow> bytes \<Rightarrow> nat \<Rightarrow> u16 \<Rightarrow> bool \<Rightarrow> ('w, unit) xp" where
  "control_transfer b bufs slot setup data data_len is_in =
     bind the_ctx (\<lambda>ctx.
     let db = x_db ctx + 4 * unat slot in
     bind (slot_index slot) (\<lambda>i.
     seq (ep0_enqueue b i (trb_default\<lparr> trb_param := from_le setup, trb_status := 8,
            trb_control := trb_kind TRB_SETUP_STAGE OR push_bit 6 1 OR
              (if data_len > 0 then push_bit 16 (if is_in then 3 else 2) else 0) \<rparr>) db)
     (seq (if data_len > 0 then
             ep0_enqueue b i (trb_default\<lparr> trb_param := word_of_nat data, trb_status := ucast data_len,
               trb_control := trb_kind TRB_DATA_STAGE OR push_bit 16 (if is_in then 1 else 0) \<rparr>) db
           else ret ())
     (seq (set_code 0)
     (seq (ep0_enqueue b i (trb_default\<lparr> trb_control := trb_kind TRB_STATUS_STAGE OR
             push_bit 16 (if is_in \<and> data_len > 0 then 0 else 1) OR push_bit 5 1 \<rparr>) db)
     (await_transfer b bufs))))))"

subsection \<open>Enumeration\<close>

definition configure_keyboard :: "'w bus \<Rightarrow> xhci_buffers \<Rightarrow> u8 \<Rightarrow> nat \<Rightarrow> u8 \<Rightarrow> u16 \<Rightarrow> u8 \<Rightarrow> nat \<Rightarrow> ('w, unit) xp" where
  "configure_keyboard b bufs slot i ep_index mps interval tr_buffer =
     (let device_ctx = DEVICE_CONTEXT_BUFFERS bufs + i * size_of_DeviceContext;
          ptr = INPUT_CONTEXT_BUFFER bufs; dev = input_device ptr;
          ep_ctx = endpoint_ctx dev (unat ep_index - 1) in
      on_world (
        seq (put_bytes b ptr (replicate 4096 0))
        (seq (write32 b (ptr + 4) (1 OR push_bit (unat ep_index) 1))
        (bind (get_bytes b device_ctx size_of_SlotContext) (\<lambda>slot_ctx.
        seq (put_bytes b dev slot_ctx)
        (bind (read32 b dev) (\<lambda>field1.
        seq (write32 b dev ((field1 AND NOT (push_bit 27 0x1F)) OR push_bit 27 (ucast ep_index)))
        (if ep_index = 0 \<or> unat ep_index > 31 then stop else
         seq (write32 b (ep_ctx + 4) (push_bit 3 7 OR push_bit 16 (ucast mps) OR push_bit 1 3))
         (seq (write64 b (ep_ctx + 8) (word_of_nat tr_buffer OR 1))
         (if interval = 0 then stop else
          write32 b (ep_ctx + 16) (push_bit 16 (ucast interval - 1))))))))))))"

definition setup_keyboard_endpoint :: "'w bus \<Rightarrow> xhci_buffers \<Rightarrow> u8 \<Rightarrow> u8 \<Rightarrow> u16 \<Rightarrow> u8 \<Rightarrow> ('w, unit) xp" where
  "setup_keyboard_endpoint b bufs slot ep_index mps interval =
     seq (control_transfer b bufs slot [0x00, 0x09, 0x01, 0x00, 0x00, 0x00, 0x00, 0x00] 0 0 False)
     (bind (gets LAST_COMPLETION_CODE) (\<lambda>code. if code \<noteq> 1 then ret () else
     seq (control_transfer b bufs slot [0x21, 0x0A, 0x00, 0x00, 0x00, 0x00, 0x00, 0x00] 0 0 False)
     (seq (control_transfer b bufs slot [0x21, 0x0B, 0x00, 0x00, 0x00, 0x00, 0x00, 0x00] 0 0 False)
     (bind (slot_index slot) (\<lambda>i.
     let tr_buffer = KEYBOARD_TR_BUFFERS bufs + i * 4096 in
     bind (on_world (TransferRing_new b tr_buffer 4096)) (\<lambda>tr.
     seq (modify (\<lambda>s. s\<lparr>KEYBOARD_TRANSFER_RINGS := (KEYBOARD_TRANSFER_RINGS s)[i := Some tr]\<rparr>))
     (bind (gets XHCI_CTX) (\<lambda>c. if c = None then ret () else
     seq (configure_keyboard b bufs slot i ep_index mps interval tr_buffer)
     (seq (set_code 0)
     (seq (submit_command b (trb_default\<lparr> trb_param := word_of_nat (INPUT_CONTEXT_BUFFER bufs),
             trb_control := trb_kind TRB_CONFIGURE_ENDPOINT_COMMAND OR push_bit 24 (ucast slot) \<rparr>))
     (seq (await_completion b bufs)
     (bind (gets LAST_COMPLETION_CODE) (\<lambda>code.
        if code = 1 then queue_keyboard_report_request b bufs slot ep_index else ret ()))))))))))))) "

text \<open>
  The search for the first interrupt endpoint towards the host: its address, packet size and
  interval.  Interface descriptors are only printed.
\<close>

definition find_interrupt_in :: "'w bus \<Rightarrow> nat \<Rightarrow> nat \<Rightarrow> ('w, unit, (u8 \<times> u16 \<times> u8) option) prog" where
  "find_interrupt_in b buffer total_len = prog_loop (\<lambda>offset.
     if offset < total_len then
       bind (read8 b (buffer + offset)) (\<lambda>len.
       bind (read8 b (buffer + offset + 1)) (\<lambda>ty.
       let next = (if len = 0 then Inr None else Inl (offset + unat len)) in
       if ty = 0x05 then
         bind (read8 b (buffer + offset + 2)) (\<lambda>addr.
         bind (read8 b (buffer + offset + 3)) (\<lambda>attr.
         bind (read16 b (buffer + offset + 4)) (\<lambda>mps.
         bind (read8 b (buffer + offset + 6)) (\<lambda>interval.
           if addr AND 0x80 \<noteq> 0 \<and> attr AND 0x03 = 3 then ret (Inr (Some (addr, mps, interval))) else ret next))))
       else ret next))
     else ret (Inr None)) 0"

definition get_config_descriptor :: "'w bus \<Rightarrow> xhci_buffers \<Rightarrow> u8 \<Rightarrow> ('w, unit) xp" where
  "get_config_descriptor b bufs slot =
     (let setup = [0x80, 0x06, 0x00, 0x02, 0x00, 0x00, 0x09, 0x00]; buffer = USB_DATA_BUFFER bufs in
      seq (on_world (put_bytes b buffer (replicate 9 0)))
      (seq (control_transfer b bufs slot setup buffer 9 True)
      (bind (gets LAST_COMPLETION_CODE) (\<lambda>code. if code \<noteq> 1 then ret () else
      bind (on_world (read16 b (buffer + 2))) (\<lambda>total_len.
      seq (on_world (put_bytes b buffer (replicate (unat total_len) 0)))
      (seq (control_transfer b bufs slot
              (setup[6 := ucast (total_len AND 0xFF), 7 := ucast (drop_bit 8 total_len AND 0xFF)]) buffer total_len True)
      (bind (gets LAST_COMPLETION_CODE) (\<lambda>code. if code \<noteq> 1 then ret () else
      bind (on_world (find_interrupt_in b buffer (unat total_len))) (\<lambda>found. case found of
        None \<Rightarrow> ret ()
      | Some (addr, mps, interval) \<Rightarrow>
          let ep_index = (addr AND 0x0F) * 2 + 1 in
          bind (slot_index slot) (\<lambda>i.
          seq (modify (\<lambda>s. s\<lparr>KEYBOARD_EP_INDICES := (KEYBOARD_EP_INDICES s)[i := ep_index]\<rparr>))
          (setup_keyboard_endpoint b bufs slot ep_index mps interval)))))))))))"

definition get_descriptor :: "'w bus \<Rightarrow> xhci_buffers \<Rightarrow> u8 \<Rightarrow> ('w, unit) xp" where
  "get_descriptor b bufs slot =
     (let buffer = USB_DATA_BUFFER bufs in
      seq (on_world (put_bytes b buffer (replicate 18 0)))
      (seq (control_transfer b bufs slot [0x80, 0x06, 0x00, 0x01, 0x00, 0x00, 18, 0x00] buffer 18 True)
      (bind (gets LAST_COMPLETION_CODE) (\<lambda>code. if code = 1 then get_config_descriptor b bufs slot else ret ()))))"

definition address_device :: "'w bus \<Rightarrow> xhci_buffers \<Rightarrow> u8 \<Rightarrow> u8 \<Rightarrow> u32 \<Rightarrow> ('w, unit) xp" where
  "address_device b bufs slot port_id speed =
     bind the_ctx (\<lambda>ctx.
     bind (slot_index slot) (\<lambda>i.
     let device_ctx = DEVICE_CONTEXT_BUFFERS bufs + i * size_of_DeviceContext;
         tr_buffer = EP0_TR_BUFFERS bufs + i * 4096; ptr = INPUT_CONTEXT_BUFFER bufs;
         mps = (if speed = 3 then 64 else if speed = 4 then 512 else if speed = 2 then 8 else 64) in
     seq (on_world (put_bytes b device_ctx (replicate size_of_DeviceContext 0)))
     (seq (on_world (write32 b device_ctx (push_bit 27 1 OR push_bit 20 speed)))
     (seq (on_world (write32 b (device_ctx + 4) (push_bit 16 (ucast port_id))))
     (bind (on_world (TransferRing_new b tr_buffer 4096)) (\<lambda>tr.
     seq (modify (\<lambda>s. s\<lparr>EP0_TRANSFER_RINGS := (EP0_TRANSFER_RINGS s)[i := Some tr]\<rparr>))
     (seq (on_world (write32 b (endpoint_ctx device_ctx 0 + 4) (push_bit 3 4 OR push_bit 16 mps OR push_bit 1 3)))
     (seq (on_world (write64 b (endpoint_ctx device_ctx 0 + 8) (word_of_nat tr_buffer OR 1)))
     (bind (on_world (read64 b (x_op ctx + dcbaap))) (\<lambda>dcbaa.
     seq (on_world (write64 b (unat dcbaa + 8 * unat slot) (word_of_nat device_ctx)))
     (seq (on_world (put_bytes b ptr (replicate 4096 0)))
     (seq (on_world (write32 b (ptr + 4) 0x3))
     (seq (on_world (bind (get_bytes b device_ctx size_of_DeviceContext) (put_bytes b (input_device ptr))))
     (seq (set_code 0)
     (seq (submit_command b (trb_default\<lparr> trb_param := word_of_nat ptr,
             trb_control := trb_kind TRB_ADDRESS_DEVICE_COMMAND OR push_bit 24 (ucast slot) \<rparr>))
     (seq (await_completion b bufs)
     (bind (gets LAST_COMPLETION_CODE) (\<lambda>code. if code = 1 then get_descriptor b bufs slot else ret ()))))))))))))))))))"

text \<open>Reading a register until a bit has the wanted value.\<close>

definition spin_until :: "'w bus \<Rightarrow> nat \<Rightarrow> nat \<Rightarrow> bool \<Rightarrow> ('w, unit, unit) prog" where
  "spin_until b reg n wanted =
     prog_loop (\<lambda>_. bind (read32 b reg) (\<lambda>v. if bit v n = wanted then ret (Inr ()) else ret (Inl ()))) ()"

definition reset_port :: "'w bus \<Rightarrow> nat \<Rightarrow> ('w, unit, unit) prog" where
  "reset_port b portsc_ptr =
     bind (read32 b portsc_ptr) (\<lambda>p.
     seq (write32 b portsc_ptr ((p AND 0x0E01C0E1) OR push_bit 4 1))
     (seq (spin_until b portsc_ptr 21 True)
     (bind (read32 b portsc_ptr) (\<lambda>p.
       write32 b portsc_ptr ((p AND 0x0E01C0E1) OR push_bit 21 1)))))"

definition poll_ports :: "'w bus \<Rightarrow> xhci_buffers \<Rightarrow> ('w, unit) xp" where
  "poll_ports b bufs =
     bind the_ctx (\<lambda>ctx.
     for_each [0..<unat (max_ports ctx)] (\<lambda>i.
       let portsc_ptr = x_op ctx + 0x400 + i * 0x10 in
       bind (on_world (read32 b portsc_ptr)) (\<lambda>portsc.
       if portsc AND 1 \<noteq> 0 then
         seq (if portsc AND push_bit 1 1 = 0 then on_world (reset_port b portsc_ptr) else ret ())
         (bind (on_world (read32 b portsc_ptr)) (\<lambda>portsc_final.
          let speed = drop_bit 10 portsc_final AND 0xF in
          bind (enable_slot b bufs) (\<lambda>slot.
            if slot > 0 then address_device b bufs slot (word_of_nat i + 1) speed else ret ())))
       else ret ())))"

definition start_controller :: "'w bus \<Rightarrow> xhci_buffers \<Rightarrow> PciDevice \<Rightarrow> ('w, unit, XhciContext) prog" where
  "start_controller b bufs device =
     (let cap = unat (mmio_bar0 device) in
      bind (read8 b (cap + caplength)) (\<lambda>cl.
      bind (read32 b (cap + rtsoff)) (\<lambda>ro.
      bind (read32 b (cap + dboff)) (\<lambda>dbo.
      bind (read32 b (cap + hccparams1)) (\<lambda>_.
      let op = cap + unat cl; rt = cap + unat (ro AND 0xFFFFFFE0); db = cap + unat (dbo AND 0xFFFFFFFC) in
      bind (read32 b (op + usbcmd)) (\<lambda>cmd.
      seq (write32 b (op + usbcmd) (cmd OR push_bit 1 1))
      (seq (spin_until b (op + usbcmd) 1 False)
      (seq (spin_until b (op + usbsts) 11 False)
      (bind (read32 b (cap + hcsparams1)) (\<lambda>params.
      bind (read32 b (op + config)) (\<lambda>cfg.
      seq (write32 b (op + config) ((cfg AND NOT 0xFF) OR (params AND 0xFF)))
      (bind (CommandRing_new b (COMMAND_RING_BUFFER bufs) 4096) (\<lambda>ring.
      seq (write64 b (op + crcr) (word_of_nat (COMMAND_RING_BUFFER bufs) OR 1))
      (seq (clear_elements b 8 (DCBAA_BUFFER bufs) 4096)
      (seq (write64 b (op + dcbaap) (word_of_nat (DCBAA_BUFFER bufs)))
      (seq (put_bytes b (EVENT_RING_SEGMENT_TABLE bufs) (replicate 4096 0))
      (seq (put_bytes b (EVENT_RING_BUFFER bufs) (replicate 4096 0))
      (seq (write64 b (EVENT_RING_SEGMENT_TABLE bufs) (word_of_nat (EVENT_RING_BUFFER bufs)))
      (seq (put_bytes b (EVENT_RING_SEGMENT_TABLE bufs + 8) (to_le 2 (256 :: u16)))
      (seq (write32 b (rt + ir0_erstsz) 1)
      (seq (write64 b (rt + ir0_erstba) (word_of_nat (EVENT_RING_SEGMENT_TABLE bufs)))
      (seq (write64 b (rt + ir0_erdp) (word_of_nat (EVENT_RING_BUFFER bufs)))
      (bind (read32 b (op + usbcmd)) (\<lambda>cmd.
      seq (write32 b (op + usbcmd) (cmd OR 1))
      (bind (read32 b (op + usbsts)) (\<lambda>_.
      ret \<lparr> x_cap = cap, x_op = op, x_rt = rt, x_db = db, cmd_ring = ring,
        event_ring_base = EVENT_RING_BUFFER bufs, event_ring_size = 4096 div 16, event_ring_dequeue_index = 0,
        event_ring_cycle_bit = True, max_ports = ucast (drop_bit 24 params) \<rparr>))))))))))))))))))))))))))"

definition xhci_init :: "'w bus \<Rightarrow> xhci_buffers \<Rightarrow> PciDevice \<Rightarrow> ('w, unit) xp" where
  "xhci_init b bufs device =
     bind (on_world (start_controller b bufs device)) (\<lambda>ctx.
     seq (modify (\<lambda>s. s\<lparr>XHCI_CTX := Some ctx\<rparr>))
     (seq (poll_ports b bufs) (send_noop_command b)))"

definition xhci_shutdown :: "'w bus \<Rightarrow> ('w, unit) xp" where
  "xhci_shutdown b =
     bind (gets XHCI_CTX) (\<lambda>c. case c of None \<Rightarrow> ret () | Some ctx \<Rightarrow>
     on_world (bind (read32 b (x_op ctx + usbcmd)) (\<lambda>cmd.
       seq (write32 b (x_op ctx + usbcmd) (cmd AND NOT 1))
       (prog_loop (\<lambda>timeout. bind (read32 b (x_op ctx + usbsts)) (\<lambda>sts.
          if sts AND 1 = 0 then if timeout + 1 > 10000000 then ret (Inr ()) else ret (Inl (timeout + 1))
          else ret (Inr ()))) (0 :: nat)))))"

end
