(* ===== verification/Queues.thy ===== *)
theory Queues
  imports Prelude
begin

section \<open>Queues as programs\<close>

text \<open>
  The contract of a first-in first-out queue whose operations are programs on a state: what
  \<open>push\<close> and \<open>pop\<close> do to the contents, that they keep the well-formedness of the state and the
  rest of it.  The buffer of typed keys and the rings shared with the USB controller are
  instances.
\<close>

subsection \<open>Sequences of operations\<close>

datatype 'a qop = Push 'a | Pop

primrec run_ops :: "('a \<Rightarrow> ('s, 'e, unit) prog) \<Rightarrow> ('s, 'e, 'a option) prog \<Rightarrow> 'a qop list \<Rightarrow> ('s, 'e, 'a option list) prog" where
  "run_ops push pop [] = ret []"
| "run_ops push pop (q # qs) = (case q of
     Push x \<Rightarrow> seq (push x) (run_ops push pop qs)
   | Pop \<Rightarrow> bind (pop) (\<lambda>y. bind (run_ops push pop qs) (\<lambda>ys. ret (y # ys))))"

text \<open>The outputs and the final contents of the abstract queue.\<close>

primrec spec_ops :: "'a qop list \<Rightarrow> 'a list \<Rightarrow> 'a option list \<times> 'a list" where
  "spec_ops [] xs = ([], xs)"
| "spec_ops (q # qs) xs = (case q of
     Push x \<Rightarrow> spec_ops qs (xs @ [x])
   | Pop \<Rightarrow> (case spec_ops qs (tl xs) of (ys, zs) \<Rightarrow> ((case xs of [] \<Rightarrow> None | x # _ \<Rightarrow> Some x) # ys, zs)))"

text \<open>Every pushed element is acceptable and finds room.\<close>

primrec fits :: "('a \<Rightarrow> bool) \<Rightarrow> nat \<Rightarrow> 'a qop list \<Rightarrow> nat \<Rightarrow> bool" where
  "fits ok cap [] n \<longleftrightarrow> True"
| "fits ok cap (q # qs) n \<longleftrightarrow> (case q of Push x \<Rightarrow> ok x \<and> n < cap \<and> fits ok cap qs (Suc n) | Pop \<Rightarrow> fits ok cap qs (n - 1))"

subsection \<open>The contract\<close>

locale queue =
  fixes wf :: "'s \<Rightarrow> bool" and contents :: "'s \<Rightarrow> 'a list" and rest :: "'s \<Rightarrow> 'r"
    and push :: "'a \<Rightarrow> ('s, unit, unit) prog" and pop :: "('s, unit, 'a option) prog"
    and ok :: "'a \<Rightarrow> bool" and capacity :: nat
  assumes push_law: "wf s \<Longrightarrow> ok x \<Longrightarrow> length (contents s) < capacity \<Longrightarrow>
      runs_to (push x) s (\<lambda>r s'. r = Inr () \<and> wf s' \<and> contents s' = contents s @ [x] \<and> rest s' = rest s)"
    and pop_law: "wf s \<Longrightarrow> runs_to pop s (\<lambda>r s'. wf s' \<and> rest s' = rest s \<and> contents s' = tl (contents s) \<and>
      r = Inr (case contents s of [] \<Rightarrow> None | x # _ \<Rightarrow> Some x))"
begin

lemma run_ops_refines:
  assumes "wf s" and "fits ok capacity ops (length (contents s))"
  shows "runs_to (run_ops push pop ops) s (\<lambda>r s'. wf s' \<and> rest s' = rest s \<and>
    r = Inr (fst (spec_ops ops (contents s))) \<and> contents s' = snd (spec_ops ops (contents s)))"
  using assms
proof (induction ops arbitrary: s)
  case Nil
  then show ?case by simp
next
  case (Cons q qs)
  show ?case
  proof (cases q)
    case (Push x)
    with Cons.prems have "ok x" "length (contents s) < capacity" by simp_all
    note pushed = push_law [OF Cons.prems(1) this]
    have "runs_to (run_ops push pop qs) s1 (\<lambda>r s'. wf s' \<and> rest s' = rest s \<and>
        r = Inr (fst (spec_ops qs (contents s @ [x]))) \<and> contents s' = snd (spec_ops qs (contents s @ [x])))"
      if "wf s1" "contents s1 = contents s @ [x]" "rest s1 = rest s" for s1
      using Cons.IH [of s1] that Cons.prems(2) by (simp add: Push)
    with pushed show ?thesis by (simp add: Push) (erule runs_to_mono, simp)
  next
    case Pop
    have "runs_to (bind (run_ops push pop qs) (\<lambda>ys. ret (y # ys))) s1 (\<lambda>r s'. wf s' \<and> rest s' = rest s \<and>
        r = Inr (y # fst (spec_ops qs (tl (contents s)))) \<and> contents s' = snd (spec_ops qs (tl (contents s))))"
      if "wf s1" "contents s1 = tl (contents s)" "rest s1 = rest s" for s1 y
      using Cons.IH [of s1] that Cons.prems(2) by (simp add: Pop) (erule runs_to_mono, simp)
    then show ?thesis
      unfolding Pop run_ops.simps spec_ops.simps qop.case runs_to_bind [of pop] split_beta fst_conv snd_conv
      by (intro runs_to_mono [OF pop_law [OF Cons.prems(1)]]) (simp only: sum.case)
  qed
qed

end

text \<open>A queue that drops what it has no room for.\<close>

locale dropping_queue = queue +
  assumes accepts: "ok x"
    and bounded: "wf s \<Longrightarrow> length (contents s) \<le> capacity"
    and push_full: "wf s \<Longrightarrow> length (contents s) = capacity \<Longrightarrow>
      runs_to (push x) s (\<lambda>r s'. r = Inr () \<and> wf s' \<and> contents s' = contents s \<and> rest s' = rest s)"
begin

lemma push_drops:
  assumes "wf s"
  shows "runs_to (push x) s (\<lambda>r s'. r = Inr () \<and> wf s' \<and> contents s' = take capacity (contents s @ [x]) \<and> rest s' = rest s)"
proof (cases "length (contents s) < capacity")
  case True
  from push_law [OF assms accepts this] show ?thesis by (rule runs_to_mono) (use True in auto)
next
  case False
  with bounded [OF assms] have "length (contents s) = capacity" by simp
  from push_full [OF assms this] show ?thesis by (rule runs_to_mono) (use \<open>_ = capacity\<close> in auto)
qed

lemma map_filter_snoc: "List.map_filter f (xs @ [x]) = List.map_filter f xs @ (case f x of None \<Rightarrow> [] | Some y \<Rightarrow> [y])"
  by (simp add: List.map_filter_def split: option.split)

text \<open>Pushing what a partial function gives for each element of a list.\<close>

lemma push_each:
  assumes "wf s"
  shows "runs_to (for_each xs (\<lambda>x. case f x of None \<Rightarrow> ret () | Some k \<Rightarrow> push k)) s (\<lambda>r s'. r = Inr () \<and> wf s' \<and>
    contents s' = take capacity (contents s @ List.map_filter f xs) \<and> rest s' = rest s)"
proof (rule for_each_invariant [where I = "\<lambda>ys s'. wf s' \<and> contents s' = take capacity (contents s @ List.map_filter f ys) \<and>
    rest s' = rest s"], goal_cases)
  case 1
  then show ?case using assms bounded by simp
next
  case (2 ys x zs s')
  show ?case
  proof (cases "f x")
    case None
    with 2 show ?thesis by (simp add: map_filter_snoc)
  next
    case (Some k)
    have "take capacity (take capacity xs @ [k]) = take capacity (xs @ [k])" for xs :: "'b list"
      by (cases "length xs < capacity") simp_all
    then have more: "take capacity (take capacity (contents s @ List.map_filter f ys) @ [k]) =
        take capacity (contents s @ List.map_filter f (ys @ [x]))"
      using Some by (simp only: map_filter_snoc option.case append_assoc [symmetric])
    show ?thesis
      unfolding Some option.case
      by (rule runs_to_mono [OF push_drops]) (use 2 more in \<open>simp_all only: simp_thms\<close>)
  qed
qed

end

end
