(* ===== verification/Xhci_Spec.thy ===== *)
theory Xhci_Spec
  imports Xhci Queues
begin

section \<open>The keyboard and the controller's rings as queues\<close>

text \<open>
  What the typist sees: the buffer of typed keys is a queue of 255 keys, a report appends
  exactly the keys that were not held down before, and reading takes them in order.  What the
  controller sees: a transfer ring delivers the blocks the driver enqueued, in order, to a
  consumer that follows the cycle bits and the link.
\<close>

subsection \<open>The buffer of typed keys\<close>

lemma wrap_256: "(x :: nat) < 512 \<Longrightarrow> x mod 256 = (if x < 256 then x else x - 256)"
  by (simp add: mod_if le_mod_geq)

definition kbd_wf :: "'w xhci \<Rightarrow> bool" where
  "kbd_wf s \<longleftrightarrow> length (KEYBOARD_BUFFER s) = 256 \<and> KBD_BUF_HEAD s < 256 \<and> KBD_BUF_TAIL s < 256"

definition kbd_count :: "'w xhci \<Rightarrow> nat" where
  "kbd_count s = (KBD_BUF_HEAD s + 256 - KBD_BUF_TAIL s) mod 256"

definition typed :: "'w xhci \<Rightarrow> bytes" where
  "typed s = map (\<lambda>k. KEYBOARD_BUFFER s ! ((KBD_BUF_TAIL s + k) mod 256)) [0..<kbd_count s]"

definition kbd_rest :: "'w xhci \<Rightarrow> 'w xhci" where
  "kbd_rest s = s\<lparr>KEYBOARD_BUFFER := [], KBD_BUF_HEAD := 0, KBD_BUF_TAIL := 0\<rparr>"

lemma kbd_count_cases:
  assumes "kbd_wf s"
  shows "kbd_count s = (if KBD_BUF_TAIL s \<le> KBD_BUF_HEAD s then KBD_BUF_HEAD s - KBD_BUF_TAIL s
    else KBD_BUF_HEAD s + 256 - KBD_BUF_TAIL s)"
  using assms by (auto simp: kbd_count_def kbd_wf_def wrap_256)

lemma push_key_law:
  assumes wf: "kbd_wf s" and room: "length (typed s) < 255"
  shows "runs_to (push_key x) s (\<lambda>r s'. r = Inr () \<and> kbd_wf s' \<and> typed s' = typed s @ [x] \<and> kbd_rest s' = kbd_rest s)"
proof -
  let ?h = "KBD_BUF_HEAD s" and ?t = "KBD_BUF_TAIL s"
  define s' where "s' = s\<lparr>KEYBOARD_BUFFER := (KEYBOARD_BUFFER s)[?h := x], KBD_BUF_HEAD := (?h + 1) mod 256\<rparr>"
  have bounds: "?h < 256" "?t < 256" "length (KEYBOARD_BUFFER s) = 256" using wf by (simp_all add: kbd_wf_def)
  have count: "kbd_count s < 255" using room by (simp add: typed_def)
  have next_ne: "(?h + 1) mod 256 \<noteq> ?t"
    using bounds count unfolding kbd_count_cases [OF wf] by (auto simp: wrap_256 split: if_splits)
  have wf': "kbd_wf s'" using bounds by (simp add: kbd_wf_def s'_def)
  have count': "kbd_count s' = Suc (kbd_count s)"
    using bounds count unfolding kbd_count_cases [OF wf] kbd_count_cases [OF wf']
    by (auto simp: s'_def wrap_256 split: if_splits)
  have last: "(?t + kbd_count s) mod 256 = ?h"
    using bounds unfolding kbd_count_cases [OF wf] by (auto simp: wrap_256)
  have other: "?h \<noteq> (?t + k) mod 256" if "k < kbd_count s" for k
    using bounds that count unfolding kbd_count_cases [OF wf] by (auto simp: wrap_256 split: if_splits)
  have "typed s' = typed s @ [x]"
    unfolding typed_def count' using bounds other by (simp add: s'_def last)
  then show ?thesis
    using wf' bounds next_ne unfolding push_key_def
    by (simp add: Let_def s'_def at_index_def kbd_rest_def)
qed

lemma push_key_full:
  assumes "kbd_wf s" and "length (typed s) = 255"
  shows "runs_to (push_key x) s (\<lambda>r s'. r = Inr () \<and> kbd_wf s' \<and> typed s' = typed s \<and> kbd_rest s' = kbd_rest s)"
proof -
  have "kbd_count s = 255" using assms(2) by (simp add: typed_def)
  then have "(KBD_BUF_HEAD s + 1) mod 256 = KBD_BUF_TAIL s"
    using assms(1) unfolding kbd_count_cases [OF assms(1)] by (auto simp: kbd_wf_def wrap_256 split: if_splits)
  then show ?thesis using assms(1) by (simp add: push_key_def Let_def)
qed

lemma get_key_law:
  assumes wf: "kbd_wf s"
  shows "runs_to get_key s (\<lambda>r s'. kbd_wf s' \<and> kbd_rest s' = kbd_rest s \<and> typed s' = tl (typed s) \<and>
    r = Inr (case typed s of [] \<Rightarrow> None | x # _ \<Rightarrow> Some x))"
proof (cases "KBD_BUF_HEAD s = KBD_BUF_TAIL s")
  case True
  then have "typed s = []" by (simp add: typed_def kbd_count_def)
  with True wf show ?thesis by (simp add: get_key_def)
next
  case False
  define s' where "s' = s\<lparr>KBD_BUF_TAIL := (KBD_BUF_TAIL s + 1) mod 256\<rparr>"
  have bounds: "KBD_BUF_HEAD s < 256" "KBD_BUF_TAIL s < 256" "length (KEYBOARD_BUFFER s) = 256" using wf by (simp_all add: kbd_wf_def)
  have wf': "kbd_wf s'" using bounds by (simp add: kbd_wf_def s'_def)
  have count: "kbd_count s = Suc (kbd_count s')"
    using bounds False unfolding kbd_count_cases [OF wf] kbd_count_cases [OF wf']
    by (auto simp: s'_def wrap_256 split: if_splits)
  have "typed s = KEYBOARD_BUFFER s ! KBD_BUF_TAIL s # typed s'"
    unfolding typed_def count upt_conv_Cons [OF zero_less_Suc] map_Suc_upt [symmetric]
    using bounds by (simp add: s'_def mod_simps)
  then show ?thesis
    using False wf' bounds by (simp add: get_key_def at_index_def s'_def kbd_rest_def)
qed

interpretation kbd: dropping_queue kbd_wf typed kbd_rest push_key get_key "\<lambda>_. True" 255
proof
  show "length (typed s) \<le> 255" if "kbd_wf s" for s :: "'a xhci"
  proof -
    have "kbd_count s < 256" by (simp add: kbd_count_def)
    then show ?thesis by (simp add: typed_def)
  qed
qed (simp_all only: push_key_law push_key_full get_key_law)

subsection \<open>Reports\<close>

text \<open>The characters of the keys of a report that are not in the previous one.\<close>

definition new_keys :: "bytes \<Rightarrow> bytes \<Rightarrow> bytes" where
  "new_keys prev report =
     filter (\<lambda>c. c \<noteq> 0) (map (\<lambda>k. hid_key_to_ascii k (report ! 0))
       (filter (\<lambda>k. k \<noteq> 0 \<and> k \<notin> set (subslice 2 6 prev)) (subslice 2 6 report)))"

definition key_of :: "bytes \<Rightarrow> bytes \<Rightarrow> nat \<Rightarrow> u8 option" where
  "key_of prev report i = (let key = report ! i; c = hid_key_to_ascii key (report ! 0) in
     if key \<noteq> 0 \<and> \<not> list_ex (\<lambda>j. prev ! j = key) [2..<8] \<and> c \<noteq> 0 then Some c else None)"

lemma press_keys_each:
  "press_keys prev report = for_each [2..<8] (\<lambda>i. case key_of prev report i of None \<Rightarrow> ret () | Some k \<Rightarrow> push_key k)"
  unfolding press_keys_def by (rule arg_cong [where f = "for_each _"]) (auto simp: key_of_def Let_def)

lemma report_bytes: "length report = 8 \<Longrightarrow> map ((!) report) [2..<8] = subslice 2 6 report"
  by (rule nth_equalityI) (simp_all add: nth_subslice)

lemma map_filter_key_of:
  assumes "length prev = 8" and "length report = 8"
  shows "List.map_filter (key_of prev report) [2..<8] = new_keys prev report"
proof -
  have held: "list_ex (\<lambda>j. prev ! j = k) [2..<8] \<longleftrightarrow> k \<in> set (subslice 2 6 prev)" for k
    unfolding report_bytes [OF assms(1), symmetric] by (auto simp: list_ex_iff)
  have "List.map_filter (key_of prev report) is = filter (\<lambda>c. c \<noteq> 0) (map (\<lambda>k. hid_key_to_ascii k (report ! 0))
       (filter (\<lambda>k. k \<noteq> 0 \<and> k \<notin> set (subslice 2 6 prev)) (map ((!) report) is)))" for "is"
    by (induction "is") (auto simp: key_of_def held Let_def List.map_filter_simps)
  then show ?thesis by (simp add: new_keys_def report_bytes [OF assms(2)])
qed

lemma press_keys_types:
  assumes "kbd_wf s" and "length prev = 8" and "length report = 8"
  shows "runs_to (press_keys prev report) s (\<lambda>r s'. r = Inr () \<and> kbd_wf s' \<and>
    typed s' = take 255 (typed s @ new_keys prev report) \<and> kbd_rest s' = kbd_rest s)"
  unfolding press_keys_each using kbd.push_each [OF assms(1), of "[2..<8]" "key_of prev report"]
  by (simp only: map_filter_key_of [OF assms(2,3)])

lemma ring_put_shape:
  "runs_to (ring_put b tr t) w (\<lambda>r w'. \<exists>tr'. r = Inr tr' \<and> tr_base tr' = tr_base tr \<and> tr_size tr' = tr_size tr)"
  by (simp add: ring_put_def write_trb_def read_trb_def Let_def split_beta)

lemma enqueue_shape:
  "runs_to (TransferRing_enqueue b tr t db ep) w (\<lambda>r w'. \<exists>tr'. r = Inr tr' \<and> tr_base tr' = tr_base tr \<and> tr_size tr' = tr_size tr)"
  unfolding TransferRing_enqueue_def runs_to_bind
  by (rule runs_to_mono [OF ring_put_shape]) auto

text \<open>The event of a finished report on the ring of its slot.\<close>

definition key_event :: "Trb \<Rightarrow> 'w xhci \<Rightarrow> bool" where
  "key_event trb s \<longleftrightarrow> 1 \<le> trb_slot_id trb \<and> trb_slot_id trb \<le> 64 \<and> completion_code trb = 1 \<and>
     is_keyboard_report (trb_param trb) (KEYBOARD_TRANSFER_RINGS s ! (unat (trb_slot_id trb) - 1))"

definition keyboard_ok :: "'w xhci \<Rightarrow> bool" where
  "keyboard_ok s \<longleftrightarrow> kbd_wf s \<and> length (KEYBOARD_TRANSFER_RINGS s) = 64 \<and> length (KEYBOARD_EP_INDICES s) = 64 \<and>
     length (PREVIOUS_KEYBOARD_REPORTS s) = 64 \<and> (\<forall>r \<in> set (PREVIOUS_KEYBOARD_REPORTS s). length r = 8)"

text \<open>What queueing a request leaves alone.\<close>

definition same_keys :: "'w xhci \<Rightarrow> 'w xhci \<Rightarrow> bool" where
  "same_keys s s' \<longleftrightarrow> (keyboard_ok s \<longrightarrow> keyboard_ok s') \<and> typed s' = typed s \<and>
     PREVIOUS_KEYBOARD_REPORTS s' = PREVIOUS_KEYBOARD_REPORTS s \<and> (\<forall>t. key_event t s \<longrightarrow> key_event t s')"

lemma same_keys_refl: "same_keys s s"
  by (simp add: same_keys_def)

lemma key_event_update:
  assumes "i < length (KEYBOARD_TRANSFER_RINGS s)" and "KEYBOARD_TRANSFER_RINGS s ! i = Some tr"
    and "tr_base tr' = tr_base tr" and "tr_size tr' = tr_size tr"
  shows "key_event t (s\<lparr>KEYBOARD_TRANSFER_RINGS := (KEYBOARD_TRANSFER_RINGS s)[i := Some tr'], xhci_world := w\<rparr>) \<longleftrightarrow> key_event t s"
  using assms by (auto simp: key_event_def is_keyboard_report_def nth_list_update)

lemma slot_index_eq: "1 \<le> slot \<Longrightarrow> slot \<le> 64 \<Longrightarrow> slot_index slot = ret (unat slot - 1)"
  by (simp add: slot_index_def)

lemma queue_request_keeps:
  assumes "key_event trb s" and "keyboard_ok s"
  shows "runs_to (queue_keyboard_report_request b bufs (trb_slot_id trb) ep) s (\<lambda>r s'. r = Inr () \<and> same_keys s s')"
proof (cases "XHCI_CTX s")
  case None
  then show ?thesis by (simp add: queue_keyboard_report_request_def same_keys_refl)
next
  case (Some ctx)
  define i where "i = unat (trb_slot_id trb) - 1"
  have slot: "1 \<le> trb_slot_id trb" "trb_slot_id trb \<le> 64" using assms(1) by (simp_all add: key_event_def)
  then have i: "i < 64" by (simp add: i_def word_le_nat_alt)
  obtain tr where tr: "KEYBOARD_TRANSFER_RINGS s ! i = Some tr"
    using assms(1) by (auto simp: key_event_def is_keyboard_report_def i_def split: option.splits)
  have keeps: "same_keys s (s\<lparr>KEYBOARD_TRANSFER_RINGS := (KEYBOARD_TRANSFER_RINGS s)[i := Some tr'], xhci_world := w\<rparr>)"
    if "tr_base tr' = tr_base tr" "tr_size tr' = tr_size tr" for tr' w
    using that assms(2) i key_event_update [OF _ tr that]
    by (simp add: same_keys_def keyboard_ok_def kbd_wf_def typed_def kbd_count_def)
  have swap: "s\<lparr>xhci_world := w, KEYBOARD_TRANSFER_RINGS := rs\<rparr> = s\<lparr>KEYBOARD_TRANSFER_RINGS := rs, xhci_world := w\<rparr>" for w rs
    by simp
  have len: "length (KEYBOARD_TRANSFER_RINGS s) = 64" using assms(2) by (simp add: keyboard_ok_def)
  show ?thesis
    unfolding queue_keyboard_report_request_def slot_index_eq [OF slot] i_def [symmetric] Let_def
    using i len by (simp add: Some tr) (rule runs_to_mono [OF enqueue_shape], use keeps in \<open>auto simp: swap\<close>)
qed

lemma kbd_rest_fields:
  assumes "kbd_rest s' = kbd_rest s"
  shows "KEYBOARD_TRANSFER_RINGS s' = KEYBOARD_TRANSFER_RINGS s" "KEYBOARD_EP_INDICES s' = KEYBOARD_EP_INDICES s"
    "PREVIOUS_KEYBOARD_REPORTS s' = PREVIOUS_KEYBOARD_REPORTS s"
  using assms [THEN arg_cong, of KEYBOARD_TRANSFER_RINGS] assms [THEN arg_cong, of KEYBOARD_EP_INDICES]
    assms [THEN arg_cong, of PREVIOUS_KEYBOARD_REPORTS] by (simp_all add: kbd_rest_def)

lemma kbd_frame [simp]:
  "typed (s\<lparr>PREVIOUS_KEYBOARD_REPORTS := ps\<rparr>) = typed s" "kbd_wf (s\<lparr>PREVIOUS_KEYBOARD_REPORTS := ps\<rparr>) = kbd_wf s"
  "typed (s\<lparr>xhci_world := w\<rparr>) = typed s" "kbd_wf (s\<lparr>xhci_world := w\<rparr>) = kbd_wf s"
  "typed (s\<lparr>LAST_COMPLETION_CODE := c\<rparr>) = typed s" "kbd_wf (s\<lparr>LAST_COMPLETION_CODE := c\<rparr>) = kbd_wf s"
  by (simp_all add: typed_def kbd_count_def kbd_wf_def)

lemma runs_keyboard_report:
  assumes ok: "keyboard_ok s" and i: "i < 64" and len: "length report = 8"
    and read: "bus_read b (KEYBOARD_REPORT_BUFFERS bufs + 8 * i) 8 (xhci_world s) = (report, w)"
  shows "runs_to (keyboard_report b bufs i) s (\<lambda>r s'. r = Inr () \<and> keyboard_ok s' \<and>
    typed s' = take 255 (typed s @ new_keys (PREVIOUS_KEYBOARD_REPORTS s ! i) report) \<and>
    PREVIOUS_KEYBOARD_REPORTS s' = (PREVIOUS_KEYBOARD_REPORTS s)[i := report] \<and> (\<forall>t. key_event t s' = key_event t s))"
proof -
  let ?s1 = "s\<lparr>xhci_world := w\<rparr>"
  have lens: "length (PREVIOUS_KEYBOARD_REPORTS s ! i) = 8" "kbd_wf ?s1" "length (PREVIOUS_KEYBOARD_REPORTS s) = 64"
    using ok i by (simp_all add: keyboard_ok_def)
  have "keyboard_ok (s2\<lparr>PREVIOUS_KEYBOARD_REPORTS := (PREVIOUS_KEYBOARD_REPORTS s2)[i := report]\<rparr>)"
    if "kbd_wf s2" "kbd_rest s2 = kbd_rest ?s1" for s2
    using that(1) ok len set_update_subset_insert [of "PREVIOUS_KEYBOARD_REPORTS s" i report]
    by (auto simp: keyboard_ok_def kbd_rest_fields [OF that(2)])
  then show ?thesis
    unfolding keyboard_report_def using i lens(3)
    by (simp add: read) (rule runs_to_mono [OF press_keys_types [OF lens(2,1) len]],
      auto simp: key_event_def dest: kbd_rest_fields)
qed

lemma transfer_event_types:
  fixes s :: "'w xhci"
  assumes ev: "key_event trb s" and ok: "keyboard_ok s" and len: "length report = 8"
    and i: "i = unat (trb_slot_id trb) - 1"
    and read: "bus_read b (KEYBOARD_REPORT_BUFFERS bufs + 8 * i) 8 (xhci_world s) = (report, w)"
  shows "runs_to (transfer_event b bufs trb) s (\<lambda>r s'. r = Inr () \<and> keyboard_ok s' \<and>
    typed s' = take 255 (typed s @ new_keys (PREVIOUS_KEYBOARD_REPORTS s ! i) report) \<and>
    PREVIOUS_KEYBOARD_REPORTS s' = (PREVIOUS_KEYBOARD_REPORTS s)[i := report] \<and> (\<forall>t. key_event t s \<longrightarrow> key_event t s'))"
proof -
  have slot: "1 \<le> trb_slot_id trb" "trb_slot_id trb \<le> 64" using ev by (simp_all add: key_event_def)
  then have i64: "i < 64" by (simp add: i word_le_nat_alt)
  define post where "post s' \<longleftrightarrow> keyboard_ok s' \<and>
    typed s' = take 255 (typed s @ new_keys (PREVIOUS_KEYBOARD_REPORTS s ! i) report) \<and>
    PREVIOUS_KEYBOARD_REPORTS s' = (PREVIOUS_KEYBOARD_REPORTS s)[i := report] \<and> (\<forall>t. key_event t s \<longrightarrow> key_event t s')" for s' :: "'w xhci"
  have "runs_to (keyboard_report b bufs i) s (\<lambda>r s'. r = Inr () \<and> post s')"
    by (rule runs_to_mono [OF runs_keyboard_report [OF ok i64 len read]]) (simp add: post_def)
  moreover have "runs_to (bind (gets KEYBOARD_EP_INDICES) (\<lambda>eps. bind (at_index i eps) (\<lambda>ep.
      if ep \<noteq> 0 then queue_keyboard_report_request b bufs (trb_slot_id trb) ep else ret ()))) s1 (\<lambda>r s'. r = Inr () \<and> post s')"
    if post: "post s1" for s1
  proof -
    have "key_event trb s1" "keyboard_ok s1" using post ev unfolding post_def by blast+
    note queued = queue_request_keeps [OF this, of b bufs "KEYBOARD_EP_INDICES s1 ! i"]
    have "runs_to (queue_keyboard_report_request b bufs (trb_slot_id trb) (KEYBOARD_EP_INDICES s1 ! i)) s1
        (\<lambda>r s'. r = Inr () \<and> post s')"
      by (rule runs_to_mono [OF queued]) (use post in \<open>auto simp: same_keys_def post_def\<close>)
    moreover have "i < length (KEYBOARD_EP_INDICES s1)" using post i64 by (simp add: keyboard_ok_def post_def)
    ultimately show ?thesis using post by simp
  qed
  ultimately have handled: "runs_to (seq (keyboard_report b bufs i) (bind (gets KEYBOARD_EP_INDICES) (\<lambda>eps. bind (at_index i eps) (\<lambda>ep.
      if ep \<noteq> 0 then queue_keyboard_report_request b bufs (trb_slot_id trb) ep else ret ())))) s (\<lambda>r s'. r = Inr () \<and> post s')"
    unfolding runs_to_seq by (elim runs_to_mono) (elim conjE, simp only: sum.case)
  have done': "post (s2\<lparr>LAST_COMPLETION_CODE := 1\<rparr>)" if "post s2" for s2
    using that by (auto simp: post_def keyboard_ok_def key_event_def)
  have "i < length (KEYBOARD_TRANSFER_RINGS s)" using ok i64 by (simp add: keyboard_ok_def)
  moreover have "is_keyboard_report (trb_param trb) (KEYBOARD_TRANSFER_RINGS s ! i)" "completion_code trb = 1"
    using ev by (simp_all add: key_event_def i)
  ultimately have "runs_to (transfer_event b bufs trb) s (\<lambda>r s'. r = Inr () \<and> post s')"
    unfolding transfer_event_def Let_def slot_index_eq [OF slot] i [symmetric]
    by (simp del: runs_to_seq) (subst runs_to_seq, rule runs_to_mono [OF handled], use done' in auto)
  then show ?thesis by (simp only: post_def)
qed

subsection \<open>A session at the keyboard\<close>

text \<open>
  The controller delivers a report into the buffer of its slot and posts the event; the kernel
  handles the event, or a program reads a key.
\<close>

datatype kbd_op = Report Trb bytes | Read_key

abbreviation event_slot :: "Trb \<Rightarrow> nat" where "event_slot trb \<equiv> unat (trb_slot_id trb) - 1"

primrec kbd_session :: "'w bus \<Rightarrow> xhci_buffers \<Rightarrow> (nat \<Rightarrow> bytes \<Rightarrow> 'w \<Rightarrow> 'w) \<Rightarrow> kbd_op list \<Rightarrow> ('w, u8 option list) xp" where
  "kbd_session b bufs deliver [] = ret []"
| "kbd_session b bufs deliver (q # qs) = (case q of
     Report trb report \<Rightarrow> seq (on_world (modify (deliver (event_slot trb) report)))
       (seq (handle_event b bufs trb) (kbd_session b bufs deliver qs))
   | Read_key \<Rightarrow> bind get_key (\<lambda>k. bind (kbd_session b bufs deliver qs) (\<lambda>ks. ret (k # ks))))"

text \<open>What the session returns, from the last reports of the slots and the keys that wait to be read.\<close>

primrec kbd_spec :: "kbd_op list \<Rightarrow> bytes list \<Rightarrow> bytes \<Rightarrow> u8 option list" where
  "kbd_spec [] prevs keys = []"
| "kbd_spec (q # qs) prevs keys = (case q of
     Report trb report \<Rightarrow> kbd_spec qs (prevs[event_slot trb := report]) (take 255 (keys @ new_keys (prevs ! event_slot trb) report))
   | Read_key \<Rightarrow> (case keys of [] \<Rightarrow> None | k # _ \<Rightarrow> Some k) # kbd_spec qs prevs (tl keys))"

definition good_op :: "'w xhci \<Rightarrow> kbd_op \<Rightarrow> bool" where
  "good_op s q = (case q of Report trb report \<Rightarrow> trb_type trb = TRB_TRANSFER_EVENT \<and> key_event trb s \<and> length report = 8
     | Read_key \<Rightarrow> True)"

lemma good_op_mono: "(\<And>t. key_event t s \<Longrightarrow> key_event t s') \<Longrightarrow> list_all (good_op s) ops \<Longrightarrow> list_all (good_op s') ops"
  by (erule list.pred_mono_strong) (auto simp: good_op_def split: kbd_op.splits)

lemma get_key_keeps:
  assumes "keyboard_ok s"
  shows "runs_to get_key s (\<lambda>r s'. keyboard_ok s' \<and> typed s' = tl (typed s) \<and>
    PREVIOUS_KEYBOARD_REPORTS s' = PREVIOUS_KEYBOARD_REPORTS s \<and> (\<forall>t. key_event t s \<longrightarrow> key_event t s') \<and>
    r = Inr (case typed s of [] \<Rightarrow> None | x # _ \<Rightarrow> Some x))"
proof -
  have "kbd_wf s" using assms by (simp add: keyboard_ok_def)
  then show ?thesis
    by (rule get_key_law [THEN runs_to_mono]) (use assms in \<open>auto simp: keyboard_ok_def key_event_def dest: kbd_rest_fields\<close>)
qed

lemma handle_report:
  assumes read: "fst (bus_read b (KEYBOARD_REPORT_BUFFERS bufs + 8 * event_slot trb) 8 (deliver (event_slot trb) report (xhci_world s))) = report"
    and ok: "keyboard_ok s" and op: "good_op s (Report trb report)"
  shows "runs_to (seq (on_world (modify (deliver (event_slot trb) report))) (handle_event b bufs trb)) s (\<lambda>r s'. r = Inr () \<and> keyboard_ok s' \<and>
    typed s' = take 255 (typed s @ new_keys (PREVIOUS_KEYBOARD_REPORTS s ! event_slot trb) report) \<and>
    PREVIOUS_KEYBOARD_REPORTS s' = (PREVIOUS_KEYBOARD_REPORTS s)[event_slot trb := report] \<and> (\<forall>t. key_event t s \<longrightarrow> key_event t s'))"
proof -
  let ?s1 = "s\<lparr>xhci_world := deliver (event_slot trb) report (xhci_world s)\<rparr>"
  have same: "key_event t ?s1 = key_event t s" "keyboard_ok ?s1" for t
    using ok by (simp_all add: key_event_def keyboard_ok_def)
  have "key_event trb ?s1" "length report = 8" "trb_type trb = TRB_TRANSFER_EVENT"
    using same(1) op by (simp_all add: good_op_def)
  moreover have "bus_read b (KEYBOARD_REPORT_BUFFERS bufs + 8 * event_slot trb) 8 (xhci_world ?s1) =
      (report, snd (bus_read b (KEYBOARD_REPORT_BUFFERS bufs + 8 * event_slot trb) 8 (xhci_world ?s1)))"
    using read by (simp add: prod_eq_iff)
  ultimately show ?thesis
    using transfer_event_types [OF _ same(2) _ refl] same(1) by (simp add: handle_event_def)
qed

text \<open>
  C36. What is typed is what is read: for any number of keyboards and any interleaving of
  reports and reads, the reads return exactly the characters of the keys that went down (keys
  already held in the previous report of the same keyboard do not repeat, shift selects the
  second table, keys with no character are skipped), in the order in which they went down,
  as long as no more than 255 wait to be read; later keys are dropped, never earlier ones.
\<close>
theorem keyboard_session:
  fixes b :: "'w bus"
  assumes deliver: "\<And>i report w. i < 64 \<Longrightarrow> length report = 8 \<Longrightarrow>
      fst (bus_read b (KEYBOARD_REPORT_BUFFERS bufs + 8 * i) 8 (deliver i report w)) = report"
    and "keyboard_ok s" and "list_all (good_op s) ops"
  shows "runs_to (kbd_session b bufs deliver ops) s (\<lambda>r s'. keyboard_ok s' \<and>
    r = Inr (kbd_spec ops (PREVIOUS_KEYBOARD_REPORTS s) (typed s)))"
  using assms(2,3)
proof (induction ops arbitrary: s)
  case Nil
  then show ?case by simp
next
  case (Cons q qs)
  show ?case
  proof (cases q)
    case (Report trb report)
    have good: "good_op s (Report trb report)" using Cons.prems(2) by (simp add: Report)
    then have "event_slot trb < 64" "length report = 8" by (auto simp: good_op_def key_event_def word_le_nat_alt)
    note handled = handle_report [where deliver = deliver, OF deliver [OF this] Cons.prems(1) good]
    have "runs_to (kbd_session b bufs deliver qs) s1 (\<lambda>r s'. keyboard_ok s' \<and>
        r = Inr (kbd_spec (q # qs) (PREVIOUS_KEYBOARD_REPORTS s) (typed s)))"
      if "keyboard_ok s1" "typed s1 = take 255 (typed s @ new_keys (PREVIOUS_KEYBOARD_REPORTS s ! event_slot trb) report)"
        "PREVIOUS_KEYBOARD_REPORTS s1 = (PREVIOUS_KEYBOARD_REPORTS s)[event_slot trb := report]" "\<forall>t. key_event t s \<longrightarrow> key_event t s1" for s1
      using Cons.IH [OF that(1)] good_op_mono [of s s1 qs] Cons.prems(2) that by (simp add: Report)
    then show ?thesis
      unfolding Report kbd_session.simps kbd_op.case seq_assoc [symmetric] runs_to_seq [of "seq _ _"]
      by (intro runs_to_mono [OF handled]) (elim conjE, simp only: sum.case)
  next
    case Read_key
    have "runs_to (bind (kbd_session b bufs deliver qs) (\<lambda>ks. ret (k # ks))) s1
        (\<lambda>r s'. keyboard_ok s' \<and> r = Inr (k # kbd_spec qs (PREVIOUS_KEYBOARD_REPORTS s) (tl (typed s))))"
      if "keyboard_ok s1" "typed s1 = tl (typed s)" "PREVIOUS_KEYBOARD_REPORTS s1 = PREVIOUS_KEYBOARD_REPORTS s"
        "\<forall>t. key_event t s \<longrightarrow> key_event t s1" for s1 k
      using Cons.IH [OF that(1)] good_op_mono [of s s1 qs] Cons.prems(2) that by simp (erule runs_to_mono, simp)
    then show ?thesis
      unfolding Read_key kbd_session.simps kbd_spec.simps kbd_op.case runs_to_bind [of get_key]
      by (intro runs_to_mono [OF get_key_keeps [OF Cons.prems(1)]]) (elim conjE, simp only: sum.case)
  qed
qed

definition memory_bus :: "pmem bus" where
  "memory_bus = \<lparr> bus_read = (\<lambda>a n m. (load_bytes m a n, m)), bus_write = store_bytes, port_in = (\<lambda>_ n m. (replicate n 0, m)),
     port_out = (\<lambda>_ _ m. m) \<rparr>"

definition example_buffers :: xhci_buffers where
  "example_buffers = \<lparr> COMMAND_RING_BUFFER = 0x10000, DCBAA_BUFFER = 0x20000, EVENT_RING_SEGMENT_TABLE = 0x30000,
     EVENT_RING_BUFFER = 0x31000, DEVICE_CONTEXT_BUFFERS = 0x40000, EP0_TR_BUFFERS = 0x60000, KEYBOARD_TR_BUFFERS = 0xC0000,
     KEYBOARD_REPORT_BUFFERS = 0x120000, INPUT_CONTEXT_BUFFER = 0x130000, USB_DATA_BUFFER = 0x131000 \<rparr>"

definition example_keyboard :: "pmem xhci" where
  "example_keyboard = (xhci_statics (\<lambda>_. 0))\<lparr>KEYBOARD_TRANSFER_RINGS :=
     (replicate 64 None)[0 := Some \<lparr> tr_base = 0xC0000, tr_size = 255, enqueue_index = 0, tr_cycle = True \<rparr>]\<rparr>"

definition example_event :: Trb where
  "example_event = \<lparr> trb_param = 0xC0000, trb_status = 0x01000000, trb_control = 0x01008000 \<rparr>"

theorem keyboard_session_witness:
  "runs_to (kbd_session memory_bus example_buffers (\<lambda>i r. store_bytes (0x120000 + 8 * i) r)
     [Report example_event [2, 0, 0x0B, 0, 0, 0, 0, 0], Report example_event [0, 0, 0x0B, 0x0C, 0, 0, 0, 0], Read_key, Read_key, Read_key])
     example_keyboard (\<lambda>r s'. r = Inr [Some 72, Some 105, None])"
proof -
  let ?ops = "[Report example_event [2, 0, 0x0B, 0, 0, 0, 0, 0], Report example_event [0, 0, 0x0B, 0x0C, 0, 0, 0, 0], Read_key, Read_key, Read_key]"
  have event: "trb_slot_id example_event = 1" "trb_type example_event = 32" "completion_code example_event = 1" "trb_param example_event = 0xC0000"
    by (simp_all add: example_event_def trb_slot_id_def trb_type_def completion_code_def)
  have ready: "keyboard_ok example_keyboard" "typed example_keyboard = []"
    by (simp_all add: keyboard_ok_def kbd_wf_def typed_def kbd_count_def example_keyboard_def xhci_statics_def)
  have good: "list_all (good_op example_keyboard) ?ops"
    by (simp add: good_op_def key_event_def event is_keyboard_report_def example_keyboard_def)
  have chars: "hid_key_to_ascii 0x0B 2 = 72" "hid_key_to_ascii 0x0C 0 = 105"
    by code_simp+
  have prev: "PREVIOUS_KEYBOARD_REPORTS example_keyboard = replicate 64 (replicate 8 0)"
    by (simp add: example_keyboard_def xhci_statics_def)
  have spec: "kbd_spec ?ops (PREVIOUS_KEYBOARD_REPORTS example_keyboard) (typed example_keyboard) = [Some 72, Some 105, None]"
    by (simp add: prev ready(2) new_keys_def subslice_def event chars)
  have deliver: "fst (bus_read memory_bus (KEYBOARD_REPORT_BUFFERS example_buffers + 8 * i) 8 (store_bytes (0x120000 + 8 * i) report w)) = report"
    if "length report = 8" for i report w
    using load_store_bytes_same [of "0x120000 + 8 * i" report w] that by (simp add: memory_bus_def example_buffers_def)
  note session = keyboard_session [where b = memory_bus and deliver = "\<lambda>i r. store_bytes (0x120000 + 8 * i) r",
      OF deliver ready(1) good, unfolded spec]
  show ?thesis by (rule runs_to_mono [OF session]) simp_all
qed

end
