(* ===== verification/Xhci_Ring.thy ===== *)
theory Xhci_Ring
  imports Xhci_Spec
begin

section \<open>Rings shared with the controller\<close>

text \<open>
  The driver's half of a transfer ring against the controller's half as the interface
  specification describes it: the controller reads the block at its dequeue pointer, takes it
  if its cycle bit equals the consumer cycle state, and follows link blocks, toggling that
  state where the link says so.
\<close>

subsection \<open>Blocks in memory\<close>

lemma trb_roundtrip [simp]: "trb_of (trb_bytes t) = t"
  by (simp add: trb_of_def trb_bytes_def subslice_def)

lemma length_trb_bytes [simp, len]: "length (trb_bytes t) = 16"
  by (simp add: trb_bytes_def)

definition slot_trb :: "pmem \<Rightarrow> nat \<Rightarrow> nat \<Rightarrow> Trb" where
  "slot_trb m base i = trb_of (load_bytes m (base + 16 * i) 16)"

lemma slot_trb_store: "slot_trb (store_bytes (base + 16 * i) (trb_bytes t) m) base j = (if j = i then t else slot_trb m base j)"
proof (cases "j = i")
  case True
  then show ?thesis using load_store_bytes_same [of "base + 16 * i" "trb_bytes t" m] by (simp add: slot_trb_def)
next
  case False
  then have "base + 16 * j + 16 \<le> base + 16 * i \<or> base + 16 * i + 16 \<le> base + 16 * j" by linarith
  then show ?thesis using False by (simp add: slot_trb_def load_store_bytes_other)
qed

lemma cycle_bit_0: "cycle_bit t = bit (trb_control t) 0"
  by (simp add: cycle_bit_def and_one_eq bit_0 odd_iff_mod_2_eq_one)

lemma control_with_cycle: "trb_control (with_cycle c t) = (trb_control t AND NOT 1) OR (if c then 1 else 0)"
  by (cases t) (simp only: with_cycle_def Trb.update_convs Trb.select_convs)

lemma bit_with_cycle: "bit (trb_control (with_cycle c t)) n = (if n = 0 then c else bit (trb_control t) n)"
  unfolding control_with_cycle bit_or_iff bit_and_iff bit_not_iff
  using bit_imp_le_length [of "trb_control t" n] by (auto simp: bit_1_iff)

lemma cycle_with_cycle [simp]: "cycle_bit (with_cycle c t) = c"
  by (simp add: cycle_bit_0 bit_with_cycle)

lemma trb_type_eq: "(\<And>n. 0 < n \<Longrightarrow> bit (trb_control t) n = bit (trb_control t') n) \<Longrightarrow> trb_type t = trb_type t'"
  unfolding trb_type_def by (rule arg_cong [where f = ucast], rule bit_word_eqI) (simp add: bit_and_iff bit_drop_bit_eq)

lemma type_with_cycle [simp]: "trb_type (with_cycle c t) = trb_type t"
  by (rule trb_type_eq) (simp add: bit_with_cycle)

lemma param_with_cycle [simp]: "trb_param (with_cycle c t) = trb_param t"
  by (simp add: with_cycle_def)

lemma trb_eqI:
  fixes t t' :: Trb
  shows "trb_param t = trb_param t' \<Longrightarrow> trb_status t = trb_status t' \<Longrightarrow> (\<And>n. bit (trb_control t) n = bit (trb_control t') n) \<Longrightarrow> t = t'"
  by (rule Trb.equality) (simp_all, rule bit_word_eqI, simp)

lemma with_cycle_twice [simp]: "with_cycle c (with_cycle d t) = with_cycle c t"
  by (rule trb_eqI) (simp_all add: bit_with_cycle, simp add: with_cycle_def)

lemma with_cycle_id: "\<not> cycle_bit t \<Longrightarrow> with_cycle False t = t"
  by (rule trb_eqI) (auto simp: bit_with_cycle cycle_bit_0, simp add: with_cycle_def)

subsection \<open>The two halves\<close>

text \<open>The controller's view of the block at an address, and its next block.\<close>

definition hc_look :: "pmem \<Rightarrow> nat \<Rightarrow> bool \<Rightarrow> Trb option" where
  "hc_look m a c = (let t = trb_of (load_bytes m a 16) in if cycle_bit t = c then Some t else None)"

definition hc_fetch :: "pmem \<Rightarrow> nat \<times> bool \<Rightarrow> (Trb \<times> nat \<times> bool) option" where
  "hc_fetch m = (\<lambda>(a, c). case hc_look m a c of
     None \<Rightarrow> None
   | Some t \<Rightarrow>
       if trb_type t = TRB_LINK then
         (let a' = unat (trb_param t); c' = (if bit (trb_control t) 1 then \<not> c else c) in
          case hc_look m a' c' of None \<Rightarrow> None | Some t' \<Rightarrow> Some (t', a' + 16, c'))
       else Some (t, a + 16, c))"

type_synonym 'w ring_state = "TransferRing \<times> (nat \<times> bool) \<times> 'w"

definition ring_push :: "'w bus \<Rightarrow> nat \<Rightarrow> u8 \<Rightarrow> Trb \<Rightarrow> ('w ring_state, unit, unit) prog" where
  "ring_push b db ep t = (\<lambda>(r, c, w). case TransferRing_enqueue b r t db ep w of
     Ok r' w' \<Rightarrow> Ok () (r', c, w') | Err e w' \<Rightarrow> Err e (r, c, w') | Stop \<Rightarrow> Stop)"

definition ring_pop :: "('w \<Rightarrow> pmem) \<Rightarrow> ('w ring_state, unit, Trb option) prog" where
  "ring_pop mem = (\<lambda>(r, c, w). case hc_fetch (mem w) c of
     None \<Rightarrow> Ok None (r, c, w) | Some (t, c') \<Rightarrow> Ok (Some (with_cycle False t)) (r, c', w))"

text \<open>
  The memory of the ring behaves as RAM to the processor, and ringing the doorbell does not
  change it: the controller only reads it.
\<close>

definition ring_ram :: "'w bus \<Rightarrow> ('w \<Rightarrow> pmem) \<Rightarrow> nat \<Rightarrow> nat \<Rightarrow> nat \<Rightarrow> bool" where
  "ring_ram b mem base len db \<longleftrightarrow>
     (\<forall>a n w. base \<le> a \<and> a + n \<le> base + len \<longrightarrow> bus_read b a n w = (load_bytes (mem w) a n, w)) \<and>
     (\<forall>a bs w. base \<le> a \<and> a + length bs \<le> base + len \<longrightarrow> mem (bus_write b a bs w) = store_bytes a bs (mem w)) \<and>
     (\<forall>bs w a. length bs = 4 \<and> base \<le> a \<and> a < base + len \<longrightarrow> mem (bus_write b db bs w) a = mem w a)"

definition advance_ring :: "TransferRing \<Rightarrow> TransferRing" where
  "advance_ring r = (if enqueue_index r + 1 \<ge> tr_size r then r\<lparr>enqueue_index := 0, tr_cycle := \<not> tr_cycle r\<rparr>
     else r\<lparr>enqueue_index := enqueue_index r + 1\<rparr>)"

lemma slot_trb_cong:
  assumes "\<And>a. base \<le> a \<Longrightarrow> a < base + len \<Longrightarrow> m' a = m a" and "16 * (j + 1) \<le> len"
  shows "slot_trb m' base j = slot_trb m base j"
proof -
  have "load_bytes m' (base + 16 * j) 16 = load_bytes m (base + 16 * j) 16"
    using assms by (auto simp: load_bytes_def)
  then show ?thesis by (simp add: slot_trb_def)
qed

lemma runs_enqueue:
  assumes ram: "ring_ram b mem (tr_base r) len db" and len: "16 * (tr_size r + 1) \<le> len" and i: "enqueue_index r < tr_size r"
  shows "runs_to (TransferRing_enqueue b r t db ep) w (\<lambda>r' w'. r' = Inr (advance_ring r) \<and>
    (\<forall>j \<le> tr_size r. slot_trb (mem w') (tr_base r) j =
      (if j = enqueue_index r then with_cycle (tr_cycle r) t
       else if j = tr_size r \<and> enqueue_index r + 1 = tr_size r then with_cycle (tr_cycle r) (slot_trb (mem w) (tr_base r) j)
       else slot_trb (mem w) (tr_base r) j)))"
proof -
  have read: "bus_read b (tr_base r + 16 * j) 16 w = (load_bytes (mem w) (tr_base r + 16 * j) 16, w)" if "j \<le> tr_size r" for j w
    using ram that len by (simp add: ring_ram_def)
  have store: "mem (bus_write b (tr_base r + 16 * j) (trb_bytes t) w) = store_bytes (tr_base r + 16 * j) (trb_bytes t) (mem w)"
    if "j \<le> tr_size r" for j t w
    using ram that len by (simp add: ring_ram_def)
  have bell: "slot_trb (mem (bus_write b db bs w)) (tr_base r) j = slot_trb (mem w) (tr_base r) j" if "length bs = 4" "j \<le> tr_size r" for j bs w
    by (rule slot_trb_cong [where len = len]) (use ram that len in \<open>auto simp: ring_ram_def\<close>)
  show ?thesis
    using i by (auto simp: TransferRing_enqueue_def ring_put_def Let_def write_trb_def read_trb_def advance_ring_def
        read store bell slot_trb_store slot_trb_def [symmetric] not_le)
qed

subsection \<open>The ring as a queue\<close>

text \<open>
  The controller is at slot \<open>i\<close> (\<open>n\<close> is the link) in the driver's lap, or one lap behind.
\<close>

abbreviation dequeue_slot :: "TransferRing \<Rightarrow> nat \<Rightarrow> nat" where
  "dequeue_slot r a \<equiv> (a - tr_base r) div 16"

definition pending_slots :: "TransferRing \<Rightarrow> nat \<Rightarrow> bool \<Rightarrow> nat list" where
  "pending_slots r i c = (if c = tr_cycle r then [i..<enqueue_index r] else [i..<tr_size r] @ [0..<enqueue_index r])"

definition ring_contents :: "('w \<Rightarrow> pmem) \<Rightarrow> 'w ring_state \<Rightarrow> Trb list" where
  "ring_contents mem = (\<lambda>(r, (a, c), w).
     map (\<lambda>j. with_cycle False (slot_trb (mem w) (tr_base r) j)) (pending_slots r (dequeue_slot r a) c))"

definition ring_wf :: "('w \<Rightarrow> pmem) \<Rightarrow> nat \<Rightarrow> nat \<Rightarrow> 'w ring_state \<Rightarrow> bool" where
  "ring_wf mem base n = (\<lambda>(r, (a, c), w).
     tr_base r = base \<and> tr_size r = n \<and> enqueue_index r < n \<and>
     (\<exists>i \<le> n. a = base + 16 * i \<and> (if c = tr_cycle r then i \<le> enqueue_index r else enqueue_index r \<le> i)) \<and>
     (\<forall>j < n. cycle_bit (slot_trb (mem w) base j) = ((j < enqueue_index r) = tr_cycle r) \<and>
        trb_type (slot_trb (mem w) base j) \<noteq> TRB_LINK) \<and>
     cycle_bit (slot_trb (mem w) base n) \<noteq> tr_cycle r \<and> trb_type (slot_trb (mem w) base n) = TRB_LINK \<and>
     bit (trb_control (slot_trb (mem w) base n)) 1 \<and> unat (trb_param (slot_trb (mem w) base n)) = base)"

lemma ring_pop_law:
  assumes "ring_wf mem base n s"
  shows "runs_to (ring_pop mem) s (\<lambda>r s'. ring_wf mem base n s' \<and> () = () \<and> ring_contents mem s' = tl (ring_contents mem s) \<and>
    r = Inr (case ring_contents mem s of [] \<Rightarrow> None | x # _ \<Rightarrow> Some x))"
proof -
  obtain r a c w where s: "s = (r, (a, c), w)" by (cases s) auto
  define slot where "slot = slot_trb (mem w) base"
  define e where "e = enqueue_index r"
  obtain i where i: "i \<le> n" "a = base + 16 * i" "if c = tr_cycle r then i \<le> e else e \<le> i"
    and ring: "tr_base r = base" "tr_size r = n" "e < n"
    and slots: "\<And>j. j < n \<Longrightarrow> cycle_bit (slot j) = ((j < e) = tr_cycle r) \<and> trb_type (slot j) \<noteq> TRB_LINK"
    and link: "cycle_bit (slot n) \<noteq> tr_cycle r" "trb_type (slot n) = TRB_LINK" "bit (trb_control (slot n)) 1" "unat (trb_param (slot n)) = base"
    using assms unfolding s ring_wf_def prod.case slot_def [symmetric] e_def [symmetric] by blast
  have look: "hc_look (mem w) (base + 16 * j) d = (if cycle_bit (slot j) = d then Some (slot j) else None)" for j d
    by (simp add: hc_look_def slot_def slot_trb_def Let_def)
  have look0: "hc_look (mem w) base d = (if cycle_bit (slot 0) = d then Some (slot 0) else None)" for d
    using look [of 0] by simp
  have wf: "ring_wf mem base n (r, (base + 16 * k, d), w)" if "k \<le> n" "if d = tr_cycle r then k \<le> e else e \<le> k" for k d
    using that ring slots link unfolding ring_wf_def slot_def e_def by auto
  have contents: "ring_contents mem (r, (base + 16 * k, d), w) = map (\<lambda>j. with_cycle False (slot j)) (pending_slots r k d)" for k d
    by (simp add: ring_contents_def ring(1) slot_def)
  note eqs = s ring_pop_def runs_to_def hc_fetch_def i(2) look look0 pending_slots_def e_def [symmetric] ring(2)
  have next_slot: "base + 16 * k + 16 = base + 16 * Suc k" for k by simp
  consider "c = tr_cycle r" "i = e" | "c = tr_cycle r" "i < e" | "c \<noteq> tr_cycle r" "i < n" | "c \<noteq> tr_cycle r" "i = n"
    using i(1,3) unfolding le_less by metis
  then show ?thesis
  proof cases
    case 1
    then show ?thesis using slots [OF ring(3)] wf [of e c] contents [of e c] ring(3) by (simp add: eqs)
  next
    case 2
    then show ?thesis using slots [of i] wf [of "Suc i" c] contents [of i c] contents [of "Suc i" c] ring(3)
      by (simp add: eqs next_slot upt_rec del: mult_Suc_right)
  next
    case 3
    then show ?thesis using i(3) slots [of i] wf [of "Suc i" c] contents [of i c] contents [of "Suc i" c] ring(3)
      by (simp add: eqs next_slot upt_rec del: mult_Suc_right)
  next
    case 4
    then show ?thesis
      using slots [of 0] link wf [of n c] wf [of "Suc 0" "\<not> c"] contents [of n c] contents [of "Suc 0" "\<not> c"] ring(3)
      by (cases "e = 0") (auto simp: eqs upt_conv_Cons)
  qed
qed

lemma runs_ring_push:
  "runs_to (ring_push b db ep t) (r, ac, w) P \<longleftrightarrow> runs_to (TransferRing_enqueue b r t db ep) w
     (\<lambda>res w'. case res of Inl e \<Rightarrow> P (Inl e) (r, ac, w') | Inr r' \<Rightarrow> P (Inr ()) (r', ac, w'))"
  by (simp add: ring_push_def runs_to_def split: res.split)

definition plain_trb :: "Trb \<Rightarrow> bool" where
  "plain_trb t \<longleftrightarrow> \<not> cycle_bit t \<and> trb_type t \<noteq> TRB_LINK"

text \<open>The state after a block has been stored, from the slots after it.\<close>

lemma pushed_ring:
  assumes wf: "ring_wf mem base n (r, (a, c), w)" and t: "plain_trb t" and room: "length (ring_contents mem (r, (a, c), w)) < n - 1"
    and slots': "\<forall>j \<le> n. slot_trb (mem w') base j =
      (if j = enqueue_index r then with_cycle (tr_cycle r) t
       else if j = n \<and> enqueue_index r + 1 = n then with_cycle (tr_cycle r) (slot_trb (mem w) base j)
       else slot_trb (mem w) base j)"
  shows "ring_wf mem base n (advance_ring r, (a, c), w') \<and>
    ring_contents mem (advance_ring r, (a, c), w') = ring_contents mem (r, (a, c), w) @ [t]"
proof -
  define slot slot' where "slot = slot_trb (mem w) base" and "slot' = slot_trb (mem w') base"
  define e where "e = enqueue_index r"
  obtain i where i: "i \<le> n" "a = base + 16 * i" "if c = tr_cycle r then i \<le> e else e \<le> i"
    and ring: "tr_base r = base" "tr_size r = n" "e < n"
    and slots: "\<And>j. j < n \<Longrightarrow> cycle_bit (slot j) = ((j < e) = tr_cycle r) \<and> trb_type (slot j) \<noteq> TRB_LINK"
    and link: "cycle_bit (slot n) \<noteq> tr_cycle r" "trb_type (slot n) = TRB_LINK" "bit (trb_control (slot n)) 1" "unat (trb_param (slot n)) = base"
    using wf unfolding ring_wf_def prod.case slot_def [symmetric] e_def [symmetric] by blast
  have new: "slot' j = (if j = e then with_cycle (tr_cycle r) t
      else if j = n \<and> e + 1 = n then with_cycle (tr_cycle r) (slot j) else slot j)" if "j \<le> n" for j
    using slots' that unfolding slot_def slot'_def e_def by blast
  have stored: "with_cycle False (slot' e) = t" using new [of e] ring(3) t by (simp add: plain_trb_def with_cycle_id)
  have behind: "e + 1 < i" if "c \<noteq> tr_cycle r"
    using room that i(1,2) ring by (simp add: ring_contents_def pending_slots_def e_def [symmetric])
  have adv: "advance_ring r = (if e + 1 = n then r\<lparr>enqueue_index := 0, tr_cycle := \<not> tr_cycle r\<rparr> else r\<lparr>enqueue_index := e + 1\<rparr>)"
    using ring by (auto simp: advance_ring_def e_def)
  have keep: "map (\<lambda>j. with_cycle False (slot' j)) [x..<y] = map (\<lambda>j. with_cycle False (slot j)) [x..<y]"
    if "y \<le> n" "\<not> (x \<le> e \<and> e < y)" for x y
    using that new by auto
  show ?thesis
  proof (cases "e + 1 = n")
    case True
    then have same: "c = tr_cycle r" using behind i(1) by auto
    have all: "cycle_bit (slot' j) = tr_cycle r \<and> trb_type (slot' j) \<noteq> TRB_LINK" if "j < n" for j
      using that True new [of j] slots [of j] t by (auto simp: plain_trb_def)
    have link': "slot' n = with_cycle (tr_cycle r) (slot n)" using new [of n] True by auto
    have "ring_wf mem base n (advance_ring r, (a, c), w')"
      unfolding ring_wf_def prod.case slot'_def [symmetric]
      using True same i(1,2) ring all link by (auto simp: adv link' bit_with_cycle)
    moreover have "[i..<n] = [i..<e] @ [e]" using True same i(3) by (simp flip: True)
    ultimately show ?thesis
      using True same i(2,3) ring stored keep [of e i]
      by (simp add: ring_contents_def pending_slots_def adv slot_def [symmetric] slot'_def [symmetric] e_def [symmetric])
  next
    case False
    have all: "cycle_bit (slot' j) = ((j < e + 1) = tr_cycle r) \<and> trb_type (slot' j) \<noteq> TRB_LINK" if "j < n" for j
      using that new [of j] slots [of j] t by (auto simp: plain_trb_def less_Suc_eq)
    have link': "slot' n = slot n" using new [of n] False ring(3) by auto
    have place: "if c = tr_cycle r then i \<le> e + 1 else e + 1 \<le> i" using behind i(3) by auto
    have "ring_wf mem base n (advance_ring r, (a, c), w')"
      unfolding ring_wf_def prod.case slot'_def [symmetric]
      using False place i(1,2) ring all link by (auto simp: adv link')
    then show ?thesis
      using False i ring stored keep [of e i] keep [of n i] keep [of e 0] behind
      by (auto simp: ring_contents_def pending_slots_def adv slot_def [symmetric] slot'_def [symmetric] e_def [symmetric])
  qed
qed

lemma ring_push_law:
  assumes ram: "ring_ram b mem base len db" "16 * (n + 1) \<le> len" and wf: "ring_wf mem base n s" and t: "plain_trb t"
    and room: "length (ring_contents mem s) < n - 1"
  shows "runs_to (ring_push b db ep t) s (\<lambda>r s'. r = Inr () \<and> ring_wf mem base n s' \<and> ring_contents mem s' = ring_contents mem s @ [t])"
proof -
  obtain r a c w where s: "s = (r, (a, c), w)" by (cases s) auto
  have ring: "tr_base r = base" "tr_size r = n" "enqueue_index r < n" using wf by (auto simp: s ring_wf_def)
  have "runs_to (TransferRing_enqueue b r t db ep) w (\<lambda>r' w'. r' = Inr (advance_ring r) \<and>
      (\<forall>j \<le> n. slot_trb (mem w') base j = (if j = enqueue_index r then with_cycle (tr_cycle r) t
       else if j = n \<and> enqueue_index r + 1 = n then with_cycle (tr_cycle r) (slot_trb (mem w) base j) else slot_trb (mem w) base j)))"
    using runs_enqueue [of b mem r len db t ep w, unfolded ring(1,2)] ram ring(3) by blast
  then show ?thesis
    unfolding s runs_ring_push
    by (rule runs_to_mono) (use pushed_ring [OF wf [unfolded s] t room [unfolded s]] in \<open>elim conjE, simp\<close>)
qed

lemma ring_is_queue:
  assumes "ring_ram b mem base len db" and "16 * (n + 1) \<le> len"
  shows "queue (ring_wf mem base n) (ring_contents mem) (\<lambda>_. ()) (ring_push b db ep) (ring_pop mem) plain_trb (n - 1)"
  using ring_push_law [OF assms] ring_pop_law by unfold_locales (simp_all only: simp_thms)

subsection \<open>A fresh ring\<close>

lemma slot_zero: "16 * (j + 1) \<le> k \<Longrightarrow> slot_trb (store_bytes base (replicate k 0) m) base j = trb_default"
proof -
  assume "16 * (j + 1) \<le> k"
  then have "load_bytes (store_bytes base (replicate k 0) m) (base + 16 * j) 16 = replicate 16 0"
    using load_store_bytes_inside [of "16 * j" 16 "replicate k 0" base m] by (simp add: subslice_def min_def)
  then show ?thesis by (simp add: slot_trb_def trb_of_def trb_default_def subslice_def from_le_def nat_of_le_zeros)
qed

definition link_trb :: "nat \<Rightarrow> Trb" where
  "link_trb base = trb_default\<lparr> trb_param := word_of_nat base, trb_control := trb_kind TRB_LINK OR 2 \<rparr>"

definition fresh_ring :: "nat \<Rightarrow> TransferRing" where
  "fresh_ring base = \<lparr> tr_base = base, tr_size = 255, enqueue_index = 0, tr_cycle = True \<rparr>"

lemma runs_TransferRing_new:
  assumes ram: "ring_ram b mem base 65536 db"
  shows "runs_to (TransferRing_new b base 4096) w (\<lambda>r w'. r = Inr (fresh_ring base) \<and>
    mem w' = store_bytes (base + 16 * 255) (trb_bytes (link_trb base)) (store_bytes base (replicate 65536 0) (mem w)))"
proof -
  have "mem (bus_write b a bs w) = store_bytes a bs (mem w)" if "base \<le> a" "a + length bs \<le> base + 65536" for a bs w
    using ram that by (simp add: ring_ram_def)
  then show ?thesis
    by (simp add: TransferRing_new_def clear_elements_def write_trb_def fresh_ring_def link_trb_def Let_def)
qed

lemma fresh_ring_wf:
  assumes "base < 2 ^ 64"
    and mem: "mem w = store_bytes (base + 16 * 255) (trb_bytes (link_trb base)) (store_bytes base (replicate 65536 0) m)"
  shows "ring_wf mem base 255 (fresh_ring base, (base, True), w) \<and> ring_contents mem (fresh_ring base, (base, True), w) = []"
proof -
  have slot: "slot_trb (mem w) base j = (if j = 255 then link_trb base else trb_default)" if "j \<le> 255" for j
    unfolding mem slot_trb_store using that by (simp add: slot_zero)
  have link: "cycle_bit (link_trb base) = False" "trb_type (link_trb base) = 6" "bit (trb_control (link_trb base)) (Suc 0)"
      "unat (trb_param (link_trb base)) = base"
    using assms(1) by (simp_all add: link_trb_def cycle_bit_def trb_type_def unat_of_nat)
  have zero: "cycle_bit trb_default = False" "trb_type trb_default = 0" by (simp_all add: trb_default_def cycle_bit_def trb_type_def)
  show ?thesis
    by (auto simp: ring_wf_def ring_contents_def pending_slots_def fresh_ring_def slot link zero)
qed

text \<open>
  C35. A ring made by \<open>TransferRing::new\<close> on a page carries every block from the driver to the
  controller: for any interleaving of \<open>enqueue\<close> and of the controller taking the next block, with
  never more than 254 blocks waiting, the controller finds exactly the enqueued blocks, in
  order, across any number of laps, and nothing when none is waiting.  Making the ring clears
  65536 bytes from its base, sixteen times its page: only the link block is not zero there.
\<close>
theorem transfer_ring_carries:
  assumes ram: "ring_ram b mem base 65536 db" and base: "base < 2 ^ 64" and ops: "fits plain_trb 254 ops 0"
  shows "runs_to (TransferRing_new b base 4096) w (\<lambda>r w'. \<exists>ring. r = Inr ring \<and>
    (\<forall>a. base \<le> a \<and> a < base + 65536 \<and> \<not> (base + 4080 \<le> a \<and> a < base + 4096) \<longrightarrow> mem w' a = 0) \<and>
    runs_to (run_ops (ring_push b db ep) (ring_pop mem) ops) (ring, (base, True), w')
      (\<lambda>res _. res = Inr (fst (spec_ops ops []))))"
proof (rule runs_to_mono [OF runs_TransferRing_new [OF ram]], elim conjE)
  fix r w'
  assume r: "r = Inr (fresh_ring base)"
    and mem: "mem w' = store_bytes (base + 16 * 255) (trb_bytes (link_trb base)) (store_bytes base (replicate 65536 0) (mem w))"
  have cleared: "mem w' a = 0" if "base \<le> a" "a < base + 65536" "\<not> (base + 4080 \<le> a \<and> a < base + 4096)" for a
    using that by (auto simp: mem store_bytes_def)
  note wf = fresh_ring_wf [OF base, of mem w' "mem w", OF mem]
  have "queue (ring_wf mem base 255) (ring_contents mem) (\<lambda>_. ()) (ring_push b db ep) (ring_pop mem) plain_trb 254"
    using ring_is_queue [OF ram, of 255 ep] by simp
  from queue.run_ops_refines [OF this, of "(fresh_ring base, (base, True), w')" ops]
  have "runs_to (run_ops (ring_push b db ep) (ring_pop mem) ops) (fresh_ring base, (base, True), w')
      (\<lambda>res _. res = Inr (fst (spec_ops ops [])))"
    using wf ops by simp (erule runs_to_mono, simp)
  with r cleared show "\<exists>ring. r = Inr ring \<and>
    (\<forall>a. base \<le> a \<and> a < base + 65536 \<and> \<not> (base + 4080 \<le> a \<and> a < base + 4096) \<longrightarrow> mem w' a = 0) \<and>
    runs_to (run_ops (ring_push b db ep) (ring_pop mem) ops) (ring, (base, True), w') (\<lambda>res _. res = Inr (fst (spec_ops ops [])))"
    by blast
qed

theorem transfer_ring_carries_witness:
  "runs_to (TransferRing_new memory_bus 0x10000 4096) (\<lambda>_. 7) (\<lambda>r w'. \<exists>ring. r = Inr ring \<and> w' 0x11000 = 0 \<and>
     runs_to (run_ops (ring_push memory_bus 0x100 1) (ring_pop id)
         [Push (trb_default\<lparr>trb_control := trb_kind TRB_SETUP_STAGE\<rparr>), Push (trb_default\<lparr>trb_control := trb_kind TRB_STATUS_STAGE\<rparr>), Pop, Pop, Pop])
       (ring, (0x10000, True), w')
       (\<lambda>res _. res = Inr [Some (trb_default\<lparr>trb_control := trb_kind TRB_SETUP_STAGE\<rparr>),
          Some (trb_default\<lparr>trb_control := trb_kind TRB_STATUS_STAGE\<rparr>), None]))"
proof -
  let ?ops = "[Push (trb_default\<lparr>trb_control := trb_kind TRB_SETUP_STAGE\<rparr>), Push (trb_default\<lparr>trb_control := trb_kind TRB_STATUS_STAGE\<rparr>), Pop, Pop, Pop]"
  have ram: "ring_ram memory_bus id 0x10000 65536 0x100"
    by (auto simp: ring_ram_def memory_bus_def store_bytes_def)
  have ops: "fits plain_trb 254 ?ops 0"
    by (simp add: plain_trb_def cycle_bit_def trb_type_def trb_default_def)
  have spec: "fst (spec_ops ?ops []) = [Some (trb_default\<lparr>trb_control := trb_kind TRB_SETUP_STAGE\<rparr>),
      Some (trb_default\<lparr>trb_control := trb_kind TRB_STATUS_STAGE\<rparr>), None]"
    by simp
  note carries = transfer_ring_carries [OF ram _ ops, of "\<lambda>_. 7" 1, unfolded spec]
  show ?thesis by (rule runs_to_mono [OF carries]) auto
qed

end
