(* ===== verification/Syscall.thy ===== *)
theory Syscall
  imports Scheduler Display Xhci Nvme
begin

section \<open>System calls\<close>

text \<open>
  \<open>src/src/syscall.rs\<close>: the dispatcher and one definition per call, over the components they
  use.  The state puts the components together: the kernel (tasks, heaps, memory), the file
  system's lock and drive, the USB driver, and the console.  The console draws into the same
  memory the tasks use, and the two drivers work on the same hardware.  The programs'
  arguments are addresses in that memory; the calls that take a pointer read and write it
  there without looking at page tables.
\<close>

subsection \<open>The system\<close>

record 'w sys =
  s_kernel :: kernel
  fs_held :: bool
  s_nvme :: NvmeContext
  XHCI_held :: bool
  s_usb :: "'w xhci"
  s_writer :: "Writer option"
  s_cells :: "CellRenderer option"
  s_serial :: bytes

text \<open>The registers of a program when it executes \<open>syscall\<close>, which has put the return address into \<open>rcx\<close> and the flags into \<open>r11\<close>.\<close>

record uregs =
  u_rax :: u64
  u_rbx :: u64
  u_rcx :: u64
  u_rdx :: u64
  u_rsi :: u64
  u_rdi :: u64
  u_rbp :: u64
  u_rsp :: u64
  u_r8 :: u64
  u_r9 :: u64
  u_r10 :: u64
  u_r11 :: u64
  u_r12 :: u64
  u_r13 :: u64
  u_r14 :: u64
  u_r15 :: u64

text \<open>
  What the calls depend on and do not change: static addresses, the executing processor, the font, the
  hardware, and the values the compiled dispatcher leaves in the registers it may overwrite.
\<close>

record 'w platform =
  p_image :: image
  p_cpu :: nat
  p_font :: font
  p_bus :: "'w bus"
  p_usb :: xhci_buffers
  p_fs_buffer :: nat
  p_scratch :: uregs

type_synonym ('w, 'a) sp = "('w sys, string, 'a) prog"

text \<open>\<open>match r { Ok(x) => .., Err(e) => .. }\<close>: the outcome of a fallible call as a value.\<close>

definition outcome :: "('s, 'e, 'a) prog \<Rightarrow> ('s, 'f, 'e + 'a) prog" where
  "outcome p = (\<lambda>s. case p s of Ok x s' \<Rightarrow> Ok (Inr x) s' | Err e s' \<Rightarrow> Ok (Inl e) s' | Stop \<Rightarrow> Stop)"

definition in_kernel :: "'a kn \<Rightarrow> ('w, 'a) sp" where
  "in_kernel p = zoom s_kernel (\<lambda>k s. s\<lparr>s_kernel := k\<rparr>) p"

definition user_mem :: "'w sys \<Rightarrow> pmem" where
  "user_mem s = kmem (memory (s_kernel s))"

definition put_user_mem :: "pmem \<Rightarrow> 'w sys \<Rightarrow> 'w sys" where
  "put_user_mem m s = s\<lparr>s_kernel := (s_kernel s)\<lparr>memory := (memory (s_kernel s))\<lparr>kmem := m\<rparr>\<rparr>\<rparr>"

definition screen_of :: "'w sys \<Rightarrow> screen" where
  "screen_of s = \<lparr> vram = user_mem s, GLOBAL_WRITER = s_writer s, GLOBAL_CELL_RENDERER = s_cells s, serial = s_serial s \<rparr>"

definition in_screen :: "'a sc \<Rightarrow> ('w, 'a) sp" where
  "in_screen p = zoom screen_of (\<lambda>v s. put_user_mem (vram v)
     (s\<lparr>s_writer := GLOBAL_WRITER v, s_cells := GLOBAL_CELL_RENDERER v, s_serial := serial v\<rparr>)) p"

text \<open>The file system works on its lock and its drive; the drive's hardware is the world the USB driver also reaches.\<close>

definition in_fs :: "(bool \<times> 'w nvme_dev, 'a) fs \<Rightarrow> ('w, FsError + 'a) sp" where
  "in_fs p = zoom (\<lambda>s. (fs_held s, s_nvme s, xhci_world (s_usb s)))
     (\<lambda>(held, ctx, w) s. s\<lparr>fs_held := held, s_nvme := ctx, s_usb := (s_usb s)\<lparr>xhci_world := w\<rparr>\<rparr>) (outcome p)"

text \<open>\<open>XHCI_LOCK.lock()\<close> spins while the lock is held; the guard is dropped when the call returns.\<close>

definition in_usb :: "('w, 'a) xp \<Rightarrow> ('w, 'a) sp" where
  "in_usb p = zoom s_usb (\<lambda>u s. s\<lparr>s_usb := u\<rparr>) (bind (outcome p) (\<lambda>r. case r of Inl _ \<Rightarrow> stop | Inr x \<Rightarrow> ret x))"

definition with_xhci_lock :: "('w, 'a) sp \<Rightarrow> ('w, 'a) sp" where
  "with_xhci_lock p = bind (gets XHCI_held) (\<lambda>held. if held then stop else p)"

text \<open>\<open>slice::from_raw_parts(ptr, len)\<close> and a store through a user pointer.\<close>

definition user_slice :: "nat \<Rightarrow> nat \<Rightarrow> ('w, bytes) sp" where
  "user_slice ptr len = gets (\<lambda>s. load_bytes (user_mem s) ptr len)"

definition user_store :: "nat \<Rightarrow> bytes \<Rightarrow> ('w, unit) sp" where
  "user_store ptr bs = modify (\<lambda>s. put_user_mem (store_bytes ptr bs (user_mem s)) s)"

subsection \<open>Text\<close>

text \<open>Text as code points, and numbers as \<open>{}\<close> and \<open>{:#x}\<close> print them.\<close>

definition chars :: "string \<Rightarrow> nat list" where
  "chars s = map of_char s"

fun decimal :: "nat \<Rightarrow> nat list" where
  "decimal n = (if n < 10 then [48 + n] else decimal (n div 10) @ [48 + n mod 10])"

fun hex_digits :: "nat \<Rightarrow> nat list" where
  "hex_digits n = (let d = n mod 16; c = (if d < 10 then 48 + d else 87 + d) in if n < 16 then [c] else hex_digits (n div 16) @ [c])"

definition hex :: "nat \<Rightarrow> nat list" where
  "hex n = chars ''0x'' @ hex_digits n"

declare decimal.simps [simp del] hex_digits.simps [simp del]

text \<open>\<open>str::chars\<close> of a valid string.\<close>

definition code_point :: "u8 \<Rightarrow> bytes \<Rightarrow> nat" where
  "code_point a cs = foldl (\<lambda>v b. v * 64 + unat (b AND 0x3F))
     (unat (if length cs = 0 then a else if length cs = 1 then a AND 0x1F else if length cs = 2 then a AND 0x0F else a AND 0x07)) cs"

function utf8_chars :: "bytes \<Rightarrow> nat list" where
  "utf8_chars [] = []"
| "utf8_chars (a # bs) = (let k = fst (utf8_step a bs) - 1 in code_point a (take k bs) # utf8_chars (drop k bs))"
  by pat_completeness auto
termination by (relation "measure length") auto

text \<open>The text of a \<open>Utf8Error\<close> at index \<open>i\<close>: a sequence that is cut off by the end of the input has no length.\<close>

function utf8_error :: "nat \<Rightarrow> bytes \<Rightarrow> nat list" where
  "utf8_error i [] = []"
| "utf8_error i (a # bs) = (case utf8_step a bs of (k, good) \<Rightarrow>
     if good then utf8_error (i + k) (drop (k - 1) bs)
     else if 0xC2 \<le> a \<and> a \<le> 0xF4 \<and> k = Suc (length bs) then chars ''incomplete utf-8 byte sequence from index '' @ decimal i
     else chars ''invalid utf-8 sequence of '' @ decimal k @ chars '' bytes from index '' @ decimal i)"
  by pat_completeness auto
termination by (relation "measure (\<lambda>(i, bs). length bs)") auto

definition sys_print :: "'w platform \<Rightarrow> nat \<Rightarrow> nat \<Rightarrow> ('w, unit) sp" where
  "sys_print p ptr len = bind (user_slice ptr len) (\<lambda>slice.
     if utf8_valid slice then in_screen (print (p_font p) (utf8_chars slice))
     else bind (at_index 0 slice) (\<lambda>b0. in_screen (print (p_font p)
       (chars ''(sys_print: invalid utf8, ptr='' @ hex ptr @ chars '', len='' @ decimal len @ chars '', byte='' @ hex (unat b0)
        @ chars '', err='' @ utf8_error 0 slice @ chars '')''))))"

subsection \<open>Tasks, power and keys\<close>

definition sys_add_task :: "'w platform \<Rightarrow> u64 \<Rightarrow> u64 \<Rightarrow> ('w, u64) sp" where
  "sys_add_task p entry user_rsp = in_kernel (add_new_user_task (p_image p) entry user_rsp 16384)"

definition sys_switch_task :: "'w platform \<Rightarrow> ('w, unit) sp" where
  "sys_switch_task p = in_kernel (switch_task (p_image p) (p_cpu p))"

definition sys_terminate_task :: "'w platform \<Rightarrow> u64 \<Rightarrow> ('w, unit) sp" where
  "sys_terminate_task p code = in_kernel (terminate_task (p_image p) (p_cpu p) code)"

text \<open>The firmware does not return from the reset; if it did, the processor would halt for good.\<close>

definition sys_shutdown :: "'w platform \<Rightarrow> ('w, unit) sp" where
  "sys_shutdown p =
     seq (in_usb (xhci_shutdown (p_bus p)))
     (seq (bind (gets s_nvme) (\<lambda>ctx. in_usb (on_world (nvme_shutdown (p_bus p) ctx))))
     stop)"

definition sys_read_key :: "('w, u64) sp" where
  "sys_read_key = with_xhci_lock (bind (in_usb get_key) (\<lambda>k. ret (case k of None \<Rightarrow> 0 | Some key \<Rightarrow> ucast key)))"

definition sys_clear :: "('w, unit) sp" where
  "sys_clear = in_screen writer_clear"

definition sys_get_task_status :: "u64 \<Rightarrow> ('w, u64) sp" where
  "sys_get_task_status i = in_kernel (get_task_status i)"

definition sys_get_task_exit_code :: "u64 \<Rightarrow> ('w, u64) sp" where
  "sys_get_task_exit_code i = in_kernel (get_task_exit_code i)"

definition sys_run_ap_scheduler :: "'w platform \<Rightarrow> ('w, u64) sp" where
  "sys_run_ap_scheduler p = in_kernel (prog_loop (\<lambda>_. seq (switch_task (p_image p) (p_cpu p)) (ret (Inl ()))) ())"

subsection \<open>Files\<close>

abbreviation drive :: "'w platform \<Rightarrow> 'w nvme_dev nvme_ops" where
  "drive p \<equiv> nvme_fs_ops (p_bus p) (p_fs_buffer p)"

text \<open>\<open>Ok(()) => 0, Err(e) => e.code()\<close>.\<close>

definition status_of :: "FsError + unit \<Rightarrow> int" where
  "status_of r = (case r of Inl e \<Rightarrow> FsError_code e | Inr _ \<Rightarrow> 0)"

definition sys_fsformat :: "'w platform \<Rightarrow> ('w, int) sp" where
  "sys_fsformat p = bind (in_fs (fs_format (drive p))) (\<lambda>r. ret (status_of r))"

text \<open>The bytes of a \<open>SyscallFileEntry\<close>, which takes 64 bytes with its padding.\<close>

definition SyscallFileEntry :: "PublicFileEntry \<Rightarrow> bytes" where
  "SyscallFileEntry f = (let len = min (length (pf_name f)) 47 in
     take len (pf_name f) @ replicate (47 - len) 0 @ [word_of_nat len] @ to_le 8 (pf_size f) @ to_le 2 (pf_first_cluster f))"

definition sys_fsls :: "'w platform \<Rightarrow> nat \<Rightarrow> nat \<Rightarrow> ('w, int) sp" where
  "sys_fsls p buffer_ptr max_entries = bind (in_fs (list_files (drive p))) (\<lambda>r. case r of
     Inl e \<Rightarrow> ret (FsError_code e)
   | Inr fs \<Rightarrow>
       seq (if buffer_ptr \<noteq> 0 \<and> max_entries > 0 then
              for_each [0..<min (length fs) max_entries] (\<lambda>i. user_store (buffer_ptr + 64 * i) (SyscallFileEntry (fs ! i)))
            else ret ())
       (ret (int (length fs))))"

definition sys_fswrite :: "'w platform \<Rightarrow> nat \<Rightarrow> nat \<Rightarrow> nat \<Rightarrow> nat \<Rightarrow> ('w, int) sp" where
  "sys_fswrite p filename_ptr filename_len content_ptr content_len =
     bind (user_slice filename_ptr filename_len) (\<lambda>filename.
     if \<not> utf8_valid filename then ret (FsError_code InvalidArgument)
     else bind (user_slice content_ptr content_len) (\<lambda>content.
       bind (in_fs (create_file (drive p) filename content)) (\<lambda>r. ret (status_of r))))"

definition sys_fsread :: "'w platform \<Rightarrow> nat \<Rightarrow> nat \<Rightarrow> nat \<Rightarrow> nat \<Rightarrow> ('w, int) sp" where
  "sys_fsread p filename_ptr filename_len buffer_ptr buffer_len =
     bind (user_slice filename_ptr filename_len) (\<lambda>filename.
     if \<not> utf8_valid filename then ret (FsError_code InvalidArgument)
     else bind (in_fs (read_file (drive p) filename)) (\<lambda>r. case r of
       Inl e \<Rightarrow> ret (FsError_code e)
     | Inr data \<Rightarrow>
         if buffer_ptr = 0 \<or> buffer_len = 0 then ret (int (length data))
         else let copy_len = min (length data) buffer_len in
           seq (user_store buffer_ptr (take copy_len data)) (ret (int copy_len))))"

definition sys_fsrm :: "'w platform \<Rightarrow> nat \<Rightarrow> nat \<Rightarrow> ('w, int) sp" where
  "sys_fsrm p filename_ptr filename_len =
     bind (user_slice filename_ptr filename_len) (\<lambda>filename.
     if \<not> utf8_valid filename then ret (FsError_code InvalidArgument)
     else bind (in_fs (delete_file (drive p) filename)) (\<lambda>r. ret (status_of r)))"

subsection \<open>Cells\<close>

text \<open>\<open>char::from_u32\<close>: the surrogates and everything above 0x10FFFF are no characters.\<close>

definition char_from_u32 :: "u32 \<Rightarrow> nat option" where
  "char_from_u32 c = (if c < 0xD800 \<or> 0xE000 \<le> c \<and> c \<le> 0x10FFFF then Some (unat c) else None)"

definition sys_write_cell :: "'w platform \<Rightarrow> nat \<Rightarrow> nat \<Rightarrow> u64 \<Rightarrow> u64 \<Rightarrow> u64 \<Rightarrow> ('w, unit) sp" where
  "sys_write_cell p row col char_code fg bg = (case char_from_u32 (ucast char_code) of
     None \<Rightarrow> ret ()
   | Some ch \<Rightarrow> in_screen (bind (gets GLOBAL_CELL_RENDERER) (\<lambda>r. case r of
       None \<Rightarrow> ret () | Some r \<Rightarrow> write_cell (p_font p) r row col ch (ucast fg) (ucast bg))))"

abbreviation (input) USER_END :: nat where "USER_END \<equiv> 0x7FFFFFFFFFFF"

definition sys_write_region :: "'w platform \<Rightarrow> nat \<Rightarrow> nat \<Rightarrow> nat \<Rightarrow> nat \<Rightarrow> nat \<Rightarrow> ('w, unit) sp" where
  "sys_write_region p row col ptr len width =
     (if ptr = 0 \<or> ptr > USER_END then ret ()
      else if len * 12 \<ge> 2 ^ 64 then ret ()
      else if ptr + len * 12 \<ge> 2 ^ 64 then ret ()
      else if ptr + len * 12 > USER_END then ret ()
      else in_screen (bind (gets GLOBAL_CELL_RENDERER) (\<lambda>r. case r of None \<Rightarrow> ret () | Some r \<Rightarrow>
        for_each [0..<len] (\<lambda>i.
          bind (gets (\<lambda>s. load32 (vram s) (ptr + 12 * i))) (\<lambda>char_code.
          bind (gets (\<lambda>s. load32 (vram s) (ptr + 12 * i + 4))) (\<lambda>fg.
          bind (gets (\<lambda>s. load32 (vram s) (ptr + 12 * i + 8))) (\<lambda>bg.
          case char_from_u32 char_code of
            None \<Rightarrow> ret ()
          | Some ch \<Rightarrow>
              if width = 0 then stop
              else bind (usize_add row (i div width)) (\<lambda>y. bind (usize_add col (i mod width)) (\<lambda>x.
                write_cell (p_font p) r y x ch fg bg)))))))))"

subsection \<open>The dispatcher\<close>

text \<open>\<open>as usize\<close> of a signed value.\<close>

abbreviation as_usize :: "int \<Rightarrow> u64" where "as_usize \<equiv> word_of_int"

definition syscall_dispatcher_impl ::
  "'w platform \<Rightarrow> u64 \<Rightarrow> u64 \<Rightarrow> u64 \<Rightarrow> u64 \<Rightarrow> u64 \<Rightarrow> u64 \<Rightarrow> u64 \<Rightarrow> ('w, u64) sp" where
  "syscall_dispatcher_impl p sid arg1 arg2 arg3 arg4 arg5 arg6 =
     (if sid = 0 then seq (sys_print p (unat arg1) (unat arg2)) (ret 0)
      else if sid = 1 then bind (in_kernel (on_heaps (sys_alloc (unat arg1) (unat arg2)))) (\<lambda>a. ret (word_of_nat a))
      else if sid = 2 then seq (in_kernel (on_heaps (sys_free (unat arg1)))) (ret 0)
      else if sid = 3 then sys_add_task p arg1 arg2
      else if sid = 4 then seq (sys_switch_task p) (ret 0)
      else if sid = 5 then seq (sys_terminate_task p arg1) (ret 0)
      else if sid = 6 then seq (with_xhci_lock (in_usb (process_events (p_bus p) (p_usb p)))) (ret 0)
      else if sid = 7 then seq (sys_shutdown p) (ret 0)
      else if sid = 8 then sys_read_key
      else if sid = 9 then seq sys_clear (ret 0)
      else if sid = 10 then bind (in_kernel (on_heaps (sys_realloc (unat arg1) (unat arg2) (unat arg3)))) (\<lambda>a. ret (word_of_nat a))
      else if sid = 11 then bind (sys_fsformat p) (\<lambda>r. ret (as_usize r))
      else if sid = 12 then bind (sys_fsls p (unat arg1) (unat arg2)) (\<lambda>r. ret (as_usize r))
      else if sid = 13 then bind (sys_fswrite p (unat arg1) (unat arg2) (unat arg3) (unat arg4)) (\<lambda>r. ret (as_usize r))
      else if sid = 14 then bind (sys_fsread p (unat arg1) (unat arg2) (unat arg3) (unat arg4)) (\<lambda>r. ret (as_usize r))
      else if sid = 15 then bind (sys_fsrm p (unat arg1) (unat arg2)) (\<lambda>r. ret (as_usize r))
      else if sid = 16 then sys_get_task_status arg1
      else if sid = 17 then sys_get_task_exit_code arg1
      else if sid = 18 then sys_run_ap_scheduler p
      else if sid = 19 then seq (sys_write_cell p (unat arg1) (unat arg2) arg3 arg4 arg5) (ret 0)
      else if sid = 20 then seq (sys_write_region p (unat arg1) (unat arg2) (unat arg3) (unat arg4) (unat arg5)) (ret 0)
      else seq (in_screen (print (p_font p) (chars ''Unknown syscall: '' @ decimal (unat sid) @ [10]))) (ret 0xFFFFFFFFFFFFFFFF))"

subsection \<open>The entry point\<close>

definition swapgs :: "nat \<Rightarrow> unit kn" where
  "swapgs c = on_machine (on_cpu c (\<lambda>u. u\<lparr>msr := (msr u)(MSR_IA32_GS_BASE := msr u MSR_IA32_KERNEL_GS_BASE,
     MSR_IA32_KERNEL_GS_BASE := msr u MSR_IA32_GS_BASE)\<rparr>))"

text \<open>The per-processor slot behind the GS base; \<open>gs:[0]\<close> is its kernel stack, \<open>gs:[8]\<close> its saved user stack pointer.\<close>

definition gs_slot :: "image \<Rightarrow> nat \<Rightarrow> nat kn" where
  "gs_slot im c = bind (on_machine (get_percpu_data c)) (\<lambda>a. unwrap (percpu_slot im a))"

text \<open>
  The handler with the call of \<open>dispatch\<close>: what the dispatcher gets are the seven arguments in
  the order of the calling convention; the words pushed before the call are popped after it.
  A dispatched call that switches tasks goes on as the other task, whose own frame is that of
  its own call; this definition is the path of a call that returns on the stack it was made on.
\<close>

definition syscall_handler ::
  "'w platform \<Rightarrow> (u64 \<Rightarrow> u64 \<Rightarrow> u64 \<Rightarrow> u64 \<Rightarrow> u64 \<Rightarrow> u64 \<Rightarrow> u64 \<Rightarrow> ('w, u64) sp) \<Rightarrow> uregs \<Rightarrow> ('w, uregs) sp" where
  "syscall_handler p dispatch r =
     seq (in_kernel (swapgs (p_cpu p)))
     (bind (in_kernel (gs_slot (p_image p) (p_cpu p))) (\<lambda>slot.
     seq (in_kernel (put_slot slot (\<lambda>d. d\<lparr>user_stack := u_rsp r\<rparr>)))
     (bind (in_kernel (get_slot slot)) (\<lambda>d.
     bind (in_kernel (push_words [u_r11 r, u_rcx r, u_rbp r, u_rbx r, u_r12 r, u_r13 r, u_r14 r, u_r15 r, u_r9 r] (kernel_stack d))) (\<lambda>sp.
     bind (dispatch (u_rax r) (u_rdi r) (u_rsi r) (u_rdx r) (u_r10 r) (u_r8 r) (u_r9 r)) (\<lambda>result.
     bind (gets user_mem) (\<lambda>m.
     let w = (\<lambda>i. load64 m (unat (sp + 8 * i))) in
     bind (in_kernel (gs_slot (p_image p) (p_cpu p))) (\<lambda>slot.
     bind (in_kernel (get_slot slot)) (\<lambda>d.
     seq (in_kernel (swapgs (p_cpu p)))
     (ret ((p_scratch p)\<lparr> u_rax := result, u_rbx := w 5, u_rcx := w 7, u_rbp := w 6, u_rsp := user_stack d,
        u_r11 := w 8, u_r12 := w 4, u_r13 := w 3, u_r14 := w 2, u_r15 := w 1 \<rparr>)))))))))))"

end
