(* ===== verification/Irq.thy ===== *)
theory Irq
  imports Syscall
begin

section \<open>Interrupts\<close>

text \<open>
  \<open>src/src/pic.rs\<close>, and of \<open>src/src/interrupts.rs\<close> the entry code of the vectors and the two handlers it
  calls.  The entry code runs on the stack the processor has chosen; the interrupted registers
  are the program's \<open>uregs\<close> and the five words the processor pushes itself.
\<close>

subsection \<open>The legacy interrupt controller\<close>

abbreviation (input) PIC1_COMMAND :: u16 where "PIC1_COMMAND \<equiv> 0x20"
abbreviation (input) PIC1_DATA :: u16 where "PIC1_DATA \<equiv> 0x21"
abbreviation (input) PIC2_COMMAND :: u16 where "PIC2_COMMAND \<equiv> 0xA0"
abbreviation (input) PIC2_DATA :: u16 where "PIC2_DATA \<equiv> 0xA1"
abbreviation (input) PIC_EOI :: u8 where "PIC_EOI \<equiv> 0x20"

definition out_wait :: "'w bus \<Rightarrow> u16 \<Rightarrow> u8 \<Rightarrow> ('w, 'e, unit) prog" where
  "out_wait b port v = seq (outb b port v) (io_wait b)"

definition pic_init :: "'w bus \<Rightarrow> ('w, 'e, unit) prog" where
  "pic_init b =
     bind (inb b PIC1_DATA) (\<lambda>_. bind (inb b PIC2_DATA) (\<lambda>_.
     seq (io_wait b)
     (seq (out_wait b PIC1_COMMAND (0x10 OR 0x01))
     (seq (out_wait b PIC2_COMMAND (0x10 OR 0x01))
     (seq (out_wait b PIC1_DATA 0x20)
     (seq (out_wait b PIC2_DATA 0x28)
     (seq (out_wait b PIC1_DATA 4)
     (seq (out_wait b PIC2_DATA 2)
     (seq (out_wait b PIC1_DATA 0x01)
     (seq (out_wait b PIC2_DATA 0x01)
     (seq (outb b PIC1_DATA 0xFD)
     (outb b PIC2_DATA 0xFF))))))))))))"

definition notify_eoi :: "'w bus \<Rightarrow> u8 \<Rightarrow> ('w, 'e, unit) prog" where
  "notify_eoi b irq = seq (if irq \<ge> 8 then outb b PIC2_COMMAND PIC_EOI else ret ()) (outb b PIC1_COMMAND PIC_EOI)"

subsection \<open>Handlers\<close>

record InterruptFrame =
  f_r15 :: u64
  f_r14 :: u64
  f_r13 :: u64
  f_r12 :: u64
  f_r11 :: u64
  f_r10 :: u64
  f_r9 :: u64
  f_r8 :: u64
  f_rsi :: u64
  f_rdi :: u64
  f_rbp :: u64
  f_rdx :: u64
  f_rcx :: u64
  f_rbx :: u64
  f_rax :: u64
  f_int_no :: u64
  f_err_code :: u64
  f_rip :: u64
  f_cs :: u64
  f_rflags :: u64
  f_rsp :: u64
  f_ss :: u64

definition frame_at :: "pmem \<Rightarrow> u64 \<Rightarrow> InterruptFrame" where
  "frame_at m a = (let w = (\<lambda>i. load64 m (unat (a + 8 * i))) in
     \<lparr> f_r15 = w 0, f_r14 = w 1, f_r13 = w 2, f_r12 = w 3, f_r11 = w 4, f_r10 = w 5, f_r9 = w 6, f_r8 = w 7, f_rsi = w 8, f_rdi = w 9,
       f_rbp = w 10, f_rdx = w 11, f_rcx = w 12, f_rbx = w 13, f_rax = w 14, f_int_no = w 15, f_err_code = w 16, f_rip = w 17,
       f_cs = w 18, f_rflags = w 19, f_rsp = w 20, f_ss = w 21 \<rparr>)"

text \<open>The handlers reach the ports through the world of the system, and write to the global writer.\<close>

definition on_ports_of :: "('w, string, unit) prog \<Rightarrow> ('w, unit) sp" where
  "on_ports_of q = zoom (\<lambda>s. xhci_world (s_usb s)) (\<lambda>w s. s\<lparr>s_usb := (s_usb s)\<lparr>xhci_world := w\<rparr>\<rparr>) q"

abbreviation (input) line :: "'w platform \<Rightarrow> nat list \<Rightarrow> ('w, unit) sp" where
  "line p t \<equiv> in_screen (print (p_font p) (t @ [10]))"

definition irq_handler :: "'w platform \<Rightarrow> u64 \<Rightarrow> ('w, unit) sp" where
  "irq_handler p fp = bind (gets (\<lambda>s. f_int_no (frame_at (user_mem s) fp))) (\<lambda>int_no.
     if \<not> (32 \<le> int_no \<and> int_no < 48) then line p (chars ''Invalid IRQ vector: '' @ hex (unat int_no))
     else let irq = int_no - 32 in
       seq (if irq = 0 then ret () else if irq = 1 then ret ()
            else line p (chars ''Unknown IRQ: '' @ decimal (unat irq)))
       (on_ports_of (notify_eoi (p_bus p) (ucast irq))))"

definition EXCEPTION_MESSAGES :: "string list" where
  "EXCEPTION_MESSAGES = [''DIVISION BY ZERO'', ''DEBUG'', ''NON MASKABLE INTERRUPT'', ''BREAKPOINT'', ''INTO DETECTED OVERFLOW'',
     ''OUT OF BOUNDS'', ''INVALID OPCODE'', ''NO COPROCESSOR'', ''DOUBLE FAULT'', ''COPROCESSOR SEGMENT OVERRUN'', ''BAD TSS'',
     ''SEGMENT NOT PRESENT'', ''STACK FAULT'', ''GENERAL PROTECTION FAULT'', ''PAGE FAULT'', ''UNKNOWN INTERRUPT'',
     ''CO-PROCESSOR FAULT'', ''ALIGNMENT CHECK'', ''MACHINE CHECK'', ''SIMD FLOATING POINT EXCEPTION'', ''VIRTUALIZATION EXCEPTION'',
     ''CONTROL PROTECTION EXCEPTION'', ''RESERVED'', ''RESERVED'', ''RESERVED'', ''RESERVED'', ''RESERVED'', ''RESERVED'',
     ''HYPervisor INJECTION EXCEPTION'', ''VMX COMMUNICATION EXCEPTION'', ''SECURITY EXCEPTION'', ''RESERVED'']"

text \<open>The report of an exception; \<open>cr2\<close> is the register of that name.\<close>

definition exception_report :: "'w platform \<Rightarrow> u64 \<Rightarrow> InterruptFrame \<Rightarrow> ('w, unit) sp" where
  "exception_report p cr2 f =
     seq (line p (10 # chars ''EXCEPTION OCCURRED!''))
     (seq (in_screen (print (p_font p) (chars ''INTERRUPT: '' @ hex (unat (f_int_no f)) @ chars '' '')))
     (seq (line p (if unat (f_int_no f) < 32 then chars ''('' @ chars (EXCEPTION_MESSAGES ! unat (f_int_no f)) @ chars '')'' else []))
     (seq (line p (chars ''ERROR CODE: '' @ hex (unat (f_err_code f))))
     (seq (line p (chars ''RIP: '' @ hex (unat (f_rip f))))
     (seq (line p (chars ''RAX: '' @ hex (unat (f_rax f)) @ chars ''  RBX: '' @ hex (unat (f_rbx f)) @ chars ''  RCX: '' @ hex (unat (f_rcx f)) @
        chars ''  RDX: '' @ hex (unat (f_rdx f))))
     (seq (line p (chars ''RSI: '' @ hex (unat (f_rsi f)) @ chars ''  RDI: '' @ hex (unat (f_rdi f)) @ chars ''  RBP: '' @ hex (unat (f_rbp f)) @
        chars ''  RSP: '' @ hex (unat (f_rsp f))))
     (if f_int_no f = 14 then line p (chars ''CR2 (ADDR): '' @ hex (unat cr2)) else ret ())))))))"

text \<open>
  \<open>exception_handler\<close> up to the loop that halts the processor: an exception in user mode kills the
  task.  The writer's lock is taken by force when it is held (\<open>Locks\<close>).
\<close>

definition exception_handler :: "'w platform \<Rightarrow> u64 \<Rightarrow> u64 \<Rightarrow> ('w, unit) sp" where
  "exception_handler p cr2 fp = bind (gets (\<lambda>s. frame_at (user_mem s) fp)) (\<lambda>f.
     seq (exception_report p cr2 f)
     (if f_cs f AND 3 = 3 then
        seq (line p (chars ''Killing user process due to exception.''))
        (seq (in_kernel (swapgs (p_cpu p)))
        (in_kernel (terminate_task (p_image p) (p_cpu p) 0xDEAD)))
      else ret ()))"

definition debug_print_int_no :: "'w platform \<Rightarrow> u64 \<Rightarrow> u64 \<Rightarrow> ('w, unit) sp" where
  "debug_print_int_no p fp v = line p (chars ''DEBUG: RSP='' @ hex (unat fp) @ chars '', offset120='' @ hex (unat v))"

subsection \<open>Entry code\<close>

text \<open>The words the processor pushes, which \<open>iretq\<close> pops.\<close>

record iret_words =
  i_rip :: u64
  i_cs :: u64
  i_rflags :: u64
  i_rsp :: u64
  i_ss :: u64

text \<open>The vectors for which the processor pushes an error code itself.\<close>

definition has_error_code :: "nat \<Rightarrow> bool" where
  "has_error_code n \<longleftrightarrow> n \<in> set [8, 10, 11, 12, 13, 14, 17, 21, 29, 30]"

definition save_registers :: "uregs \<Rightarrow> u64 list" where
  "save_registers r = [u_rax r, u_rbx r, u_rcx r, u_rdx r, u_rbp r, u_rdi r, u_rsi r, u_r8 r, u_r9 r, u_r10 r, u_r11 r, u_r12 r, u_r13 r, u_r14 r, u_r15 r]"

text \<open>What the \<open>popq\<close> instructions and \<open>iretq\<close> load from a frame.\<close>

definition restore_registers :: "uregs \<Rightarrow> InterruptFrame \<Rightarrow> uregs \<times> iret_words" where
  "restore_registers r f =
     (r\<lparr>u_rax := f_rax f, u_rbx := f_rbx f, u_rcx := f_rcx f, u_rdx := f_rdx f, u_rbp := f_rbp f, u_rdi := f_rdi f, u_rsi := f_rsi f,
        u_r8 := f_r8 f, u_r9 := f_r9 f, u_r10 := f_r10 f, u_r11 := f_r11 f, u_r12 := f_r12 f, u_r13 := f_r13 f, u_r14 := f_r14 f, u_r15 := f_r15 f\<rparr>,
      \<lparr> i_rip = f_rip f, i_cs = f_cs f, i_rflags = f_rflags f, i_rsp = f_rsp f, i_ss = f_ss f \<rparr>)"

text \<open>\<open>andq $-16, %rsp; subq $16, %rsp\<close>.\<close>

definition below_frame :: "u64 \<Rightarrow> u64" where
  "below_frame fp = (fp AND NOT 15) - 16"

text \<open>
  \<open>irq_common\<close> and \<open>isr_common\<close> around \<open>handler\<close>, with the words pushed before them: the stack is aligned
  below the frame, and the frame's address is kept there over the call.
\<close>

definition interrupt_common :: "(u64 \<Rightarrow> ('w, unit) sp) \<Rightarrow> u64 list \<Rightarrow> uregs \<Rightarrow> u64 \<Rightarrow> ('w, uregs \<times> iret_words) sp" where
  "interrupt_common handler pushed r sp =
     bind (in_kernel (push_words (pushed @ save_registers r) sp)) (\<lambda>fp.
     seq (in_kernel (on_heaps (modify (\<lambda>h. h\<lparr>kmem := store64 (unat (below_frame fp)) fp (kmem h)\<rparr>))))
     (seq (handler fp)
     (bind (gets user_mem) (\<lambda>m. ret (restore_registers r (frame_at m (load64 m (unat (below_frame fp)))))))))"

definition irq_entry :: "'w platform \<Rightarrow> nat \<Rightarrow> uregs \<Rightarrow> iret_words \<Rightarrow> u64 \<Rightarrow> ('w, uregs \<times> iret_words) sp" where
  "irq_entry p n r i sp = interrupt_common (irq_handler p) ([i_ss i, i_rsp i, i_rflags i, i_cs i, i_rip i] @ [0, word_of_nat (32 + n)]) r sp"

text \<open>An exception: the handler does not come back to the entry code, unless the loop at its end did.\<close>

definition isr_entry :: "'w platform \<Rightarrow> u64 \<Rightarrow> nat \<Rightarrow> u64 \<Rightarrow> uregs \<Rightarrow> iret_words \<Rightarrow> u64 \<Rightarrow> ('w, unit) sp" where
  "isr_entry p cr2 n err r i sp =
     bind (interrupt_common (exception_handler p cr2) ([i_ss i, i_rsp i, i_rflags i, i_cs i, i_rip i] @ [if has_error_code n then err else 0, word_of_nat n]) r sp)
       (\<lambda>_. ret ())"

end
