(* ===== verification/User.thy ===== *)
theory User
  imports Syscall
begin

section \<open>The library of user programs\<close>

text \<open>
  \<open>src/user/src/std.rs\<close>: the stubs that load the argument registers and execute \<open>syscall\<close>, and
  the functions on top of them, and the program \<open>src/user/src/init.rs\<close>.  Slices and strings are an
  address and a length in the memory of the program.  \<open>r\<close> holds the registers of the caller.
\<close>

definition do_syscall :: "'w platform \<Rightarrow> uregs \<Rightarrow> ('w, u64) sp" where
  "do_syscall p r = bind (syscall_handler p (syscall_dispatcher_impl p) r) (\<lambda>r'. ret (u_rax r'))"

definition syscall0 :: "'w platform \<Rightarrow> uregs \<Rightarrow> u64 \<Rightarrow> ('w, u64) sp" where
  "syscall0 p r sid = do_syscall p (r\<lparr>u_rax := sid\<rparr>)"

definition syscall1 :: "'w platform \<Rightarrow> uregs \<Rightarrow> u64 \<Rightarrow> u64 \<Rightarrow> ('w, u64) sp" where
  "syscall1 p r sid arg1 = do_syscall p (r\<lparr>u_rax := sid, u_rdi := arg1\<rparr>)"

definition syscall2 :: "'w platform \<Rightarrow> uregs \<Rightarrow> u64 \<Rightarrow> u64 \<Rightarrow> u64 \<Rightarrow> ('w, u64) sp" where
  "syscall2 p r sid arg1 arg2 = do_syscall p (r\<lparr>u_rax := sid, u_rdi := arg1, u_rsi := arg2\<rparr>)"

definition syscall4 :: "'w platform \<Rightarrow> uregs \<Rightarrow> u64 \<Rightarrow> u64 \<Rightarrow> u64 \<Rightarrow> u64 \<Rightarrow> u64 \<Rightarrow> ('w, u64) sp" where
  "syscall4 p r sid arg1 arg2 arg3 arg4 =
     do_syscall p (r\<lparr>u_rax := sid, u_rdi := arg1, u_rsi := arg2, u_rdx := arg3, u_r10 := arg4\<rparr>)"

subsection \<open>Input, output and memory\<close>

definition user_print :: "'w platform \<Rightarrow> uregs \<Rightarrow> u64 \<Rightarrow> u64 \<Rightarrow> ('w, unit) sp" where
  "user_print p r ptr len = seq (syscall2 p r 0 ptr len) (ret ())"

definition read_key :: "'w platform \<Rightarrow> uregs \<Rightarrow> ('w, u64) sp" where
  "read_key p r = syscall0 p r 8"

definition poll_xhci :: "'w platform \<Rightarrow> uregs \<Rightarrow> ('w, unit) sp" where
  "poll_xhci p r = seq (syscall0 p r 6) (ret ())"

definition yield_task :: "'w platform \<Rightarrow> uregs \<Rightarrow> ('w, unit) sp" where
  "yield_task p r = seq (syscall0 p r 4) (ret ())"

definition user_shutdown :: "'w platform \<Rightarrow> uregs \<Rightarrow> ('w, unit) sp" where
  "user_shutdown p r = seq (syscall0 p r 7) stop"

definition user_clear :: "'w platform \<Rightarrow> uregs \<Rightarrow> ('w, unit) sp" where
  "user_clear p r = seq (syscall0 p r 9) (ret ())"

definition std_alloc :: "'w platform \<Rightarrow> uregs \<Rightarrow> u64 \<Rightarrow> u64 \<Rightarrow> ('w, u64) sp" where
  "std_alloc p r sz align = syscall2 p r 1 sz align"

definition std_free :: "'w platform \<Rightarrow> uregs \<Rightarrow> u64 \<Rightarrow> ('w, unit) sp" where
  "std_free p r ptr = seq (syscall1 p r 2 ptr) (ret ())"

definition std_realloc :: "'w platform \<Rightarrow> uregs \<Rightarrow> u64 \<Rightarrow> u64 \<Rightarrow> u64 \<Rightarrow> ('w, u64) sp" where
  "std_realloc p r ptr sz align = do_syscall p (r\<lparr>u_rax := 10, u_rdi := ptr, u_rsi := sz, u_rdx := align\<rparr>)"

subsection \<open>Tasks\<close>

definition add_task :: "'w platform \<Rightarrow> uregs \<Rightarrow> u64 \<Rightarrow> u64 \<Rightarrow> ('w, u64) sp" where
  "add_task p r entry user_rsp = syscall2 p r 3 entry user_rsp"

definition std_terminate_task :: "'w platform \<Rightarrow> uregs \<Rightarrow> u64 \<Rightarrow> ('w, unit) sp" where
  "std_terminate_task p r code = seq (syscall1 p r 5 code) (ret ())"

definition std_get_task_status :: "'w platform \<Rightarrow> uregs \<Rightarrow> u64 \<Rightarrow> ('w, u64) sp" where
  "std_get_task_status p r task = syscall1 p r 16 task"

definition std_get_task_exit_code :: "'w platform \<Rightarrow> uregs \<Rightarrow> u64 \<Rightarrow> ('w, u64) sp" where
  "std_get_task_exit_code p r task = syscall1 p r 17 task"

subsection \<open>Files\<close>

text \<open>\<open>as i32\<close> and \<open>as isize\<close>.\<close>

abbreviation as_i32 :: "u64 \<Rightarrow> int" where "as_i32 x \<equiv> sint (ucast x :: 32 word)"
abbreviation as_isize :: "u64 \<Rightarrow> int" where "as_isize x \<equiv> sint x"

definition std_fs_format :: "'w platform \<Rightarrow> uregs \<Rightarrow> ('w, int) sp" where
  "std_fs_format p r = bind (syscall0 p r 11) (\<lambda>x. ret (as_i32 x))"

definition std_fs_ls :: "'w platform \<Rightarrow> uregs \<Rightarrow> u64 \<Rightarrow> u64 \<Rightarrow> ('w, int) sp" where
  "std_fs_ls p r buf len = bind (syscall2 p r 12 buf len) (\<lambda>x. ret (as_isize x))"

definition std_fs_write :: "'w platform \<Rightarrow> uregs \<Rightarrow> u64 \<times> u64 \<Rightarrow> u64 \<times> u64 \<Rightarrow> ('w, int) sp" where
  "std_fs_write p r filename content =
     bind (syscall4 p r 13 (fst filename) (snd filename) (fst content) (snd content)) (\<lambda>x. ret (as_i32 x))"

definition std_fs_read :: "'w platform \<Rightarrow> uregs \<Rightarrow> u64 \<times> u64 \<Rightarrow> u64 \<times> u64 \<Rightarrow> ('w, int) sp" where
  "std_fs_read p r filename buf =
     bind (syscall4 p r 14 (fst filename) (snd filename) (fst buf) (snd buf)) (\<lambda>x. ret (as_isize x))"

definition std_fs_rm :: "'w platform \<Rightarrow> uregs \<Rightarrow> u64 \<times> u64 \<Rightarrow> ('w, int) sp" where
  "std_fs_rm p r filename = bind (syscall2 p r 15 (fst filename) (snd filename)) (\<lambda>x. ret (as_i32 x))"

subsection \<open>The first program\<close>

text \<open>\<open>msg\<close>, \<open>prompt\<close> and \<open>bye\<close> are the three string constants of the program.\<close>

definition init_start :: "'w platform \<Rightarrow> uregs \<Rightarrow> u64 \<times> u64 \<Rightarrow> u64 \<times> u64 \<Rightarrow> u64 \<times> u64 \<Rightarrow> ('w, unit) sp" where
  "init_start p r msg prompt bye =
     seq (user_print p r (fst msg) (snd msg))
     (seq (user_print p r (fst prompt) (snd prompt))
     (seq (prog_loop (\<lambda>_. seq (poll_xhci p r) (bind (read_key p r) (\<lambda>key. ret (if key \<noteq> 0 then Inr () else Inl ())))) ())
     (seq (user_print p r (fst bye) (snd bye))
     (user_shutdown p r))))"

end
