(* ===== verification/Syscall_Spec.thy ===== *)
theory Syscall_Spec
  imports User Sched_Spec Fs_Spec Display_Spec Xhci_Spec
begin

section \<open>System calls from the program's side\<close>

text \<open>
  The entry point gives every program back its registers and its stack, and the whole stack of
  components under \<open>fs_write\<close> and \<open>fs_read\<close> (library, entry point, dispatcher, file system, drive)
  returns to a program the bytes it wrote.
\<close>

subsection \<open>Rules\<close>

lemma runs_outcome [simp]: "runs_to (outcome q) s P \<longleftrightarrow> runs_to q s (\<lambda>r s'. P (Inr r) s')"
  by (simp add: outcome_def runs_to_def split: res.split)

lemma runs_in_kernel [simp]: "runs_to (in_kernel q) s P \<longleftrightarrow> runs_to q (s_kernel s) (\<lambda>r k. P r (s\<lparr>s_kernel := k\<rparr>))"
  by (simp add: in_kernel_def)

lemma runs_in_fs [simp]:
  "runs_to (in_fs q) s P \<longleftrightarrow> runs_to q (fs_held s, s_nvme s, xhci_world (s_usb s)) (\<lambda>r (held, ctx, w).
     P (Inr r) (s\<lparr>fs_held := held, s_nvme := ctx, s_usb := (s_usb s)\<lparr>xhci_world := w\<rparr>\<rparr>))"
  by (simp add: in_fs_def split_beta split_beta')

lemma runs_user_slice [simp]: "runs_to (user_slice a n) s P \<longleftrightarrow> P (Inr (load_bytes (user_mem s) a n)) s"
  by (simp add: user_slice_def)

lemma runs_user_store [simp]: "runs_to (user_store a bs) s P \<longleftrightarrow> P (Inr ()) (put_user_mem (store_bytes a bs (user_mem s)) s)"
  by (simp add: user_store_def)

lemma user_mem_put [simp]: "user_mem (put_user_mem m s) = m"
  by (simp add: user_mem_def put_user_mem_def)

subsection \<open>The entry point\<close>

text \<open>The kernel GS base of the processor points to its slot, whose kernel stack has room for the saved words.\<close>

definition call_ready :: "'w platform \<Rightarrow> nat \<Rightarrow> u64 \<Rightarrow> 'w sys \<Rightarrow> bool" where
  "call_ready p slot K s \<longleftrightarrow> image_ok (p_image p) \<and> slot < 64 \<and> p_cpu p < length (cpus (mach (s_kernel s))) \<and>
     slot < length (PERCPU_DATA_SLOTS (mach (s_kernel s))) \<and>
     msr (cpus (mach (s_kernel s)) ! p_cpu p) MSR_IA32_KERNEL_GS_BASE = percpu_ptr (p_image p) slot \<and>
     kernel_stack (PERCPU_DATA_SLOTS (mach (s_kernel s)) ! slot) = K \<and> 72 \<le> unat K"

definition swap_gs :: "cpu \<Rightarrow> cpu" where
  "swap_gs u = u\<lparr>msr := (msr u)(MSR_IA32_GS_BASE := msr u MSR_IA32_KERNEL_GS_BASE, MSR_IA32_KERNEL_GS_BASE := msr u MSR_IA32_GS_BASE)\<rparr>"

lemma swap_gs_twice [simp]: "swap_gs (swap_gs u) = u"
proof -
  have "msr (swap_gs (swap_gs u)) = msr u" by (rule ext) (simp add: swap_gs_def MSR_IA32_GS_BASE_def MSR_IA32_KERNEL_GS_BASE_def)
  then show ?thesis by (cases u) (simp add: swap_gs_def)
qed

lemma runs_swapgs [simp]:
  "runs_to (swapgs c) k P \<longleftrightarrow> P (Inr ()) (k\<lparr>mach := (mach k)\<lparr>cpus := (cpus (mach k))[c := swap_gs (cpus (mach k) ! c)]\<rparr>\<rparr>)"
  by (simp add: swapgs_def on_machine_def swap_gs_def)

text \<open>The machine and the state while a call runs.\<close>

definition in_call :: "'w platform \<Rightarrow> nat \<Rightarrow> u64 \<Rightarrow> machine \<Rightarrow> machine" where
  "in_call p slot usp m = m\<lparr>cpus := (cpus m)[p_cpu p := swap_gs (cpus m ! p_cpu p)],
     PERCPU_DATA_SLOTS := (PERCPU_DATA_SLOTS m)[slot := (PERCPU_DATA_SLOTS m ! slot)\<lparr>user_stack := usp\<rparr>]\<rparr>"

definition after_call :: "nat \<Rightarrow> u64 \<Rightarrow> machine \<Rightarrow> machine" where
  "after_call slot usp m = m\<lparr>PERCPU_DATA_SLOTS := (PERCPU_DATA_SLOTS m)[slot := (PERCPU_DATA_SLOTS m ! slot)\<lparr>user_stack := usp\<rparr>]\<rparr>"

definition entered :: "'w platform \<Rightarrow> nat \<Rightarrow> uregs \<Rightarrow> u64 \<Rightarrow> 'w sys \<Rightarrow> 'w sys \<Rightarrow> bool" where
  "entered p slot r K s s1 \<longleftrightarrow> (\<exists>m. s1 = s\<lparr>s_kernel := (s_kernel s)\<lparr>mach := in_call p slot (u_rsp r) (mach (s_kernel s)),
       memory := (memory (s_kernel s))\<lparr>kmem := m\<rparr>\<rparr>\<rparr> \<and>
     (\<forall>i < 9. load64 m (unat K - 8 * Suc i) =
        [u_r11 r, u_rcx r, u_rbp r, u_rbx r, u_r12 r, u_r13 r, u_r14 r, u_r15 r, u_r9 r] ! i) \<and>
     (\<forall>x. x < unat K - 72 \<or> unat K \<le> x \<longrightarrow> m x = user_mem s x))"

text \<open>What a call must leave alone: the machine and the saved words.\<close>

definition keeps_frame :: "u64 \<Rightarrow> 'w sys \<Rightarrow> 'w sys \<Rightarrow> bool" where
  "keeps_frame K s1 s2 \<longleftrightarrow> mach (s_kernel s2) = mach (s_kernel s1) \<and>
     (\<forall>x. unat K - 72 \<le> x \<and> x < unat K \<longrightarrow> user_mem s2 x = user_mem s1 x)"

definition same_context :: "uregs \<Rightarrow> uregs \<Rightarrow> bool" where
  "same_context r r' \<longleftrightarrow> u_rbx r' = u_rbx r \<and> u_rcx r' = u_rcx r \<and> u_rbp r' = u_rbp r \<and> u_rsp r' = u_rsp r \<and> u_r11 r' = u_r11 r \<and>
     u_r12 r' = u_r12 r \<and> u_r13 r' = u_r13 r \<and> u_r14 r' = u_r14 r \<and> u_r15 r' = u_r15 r"

lemma runs_gs_slot [simp]:
  "percpu_slot im (msr (cpus (mach k) ! c) MSR_IA32_GS_BASE) = Some slot \<Longrightarrow> runs_to (gs_slot im c) k P \<longleftrightarrow> P (Inr slot) k"
  by (simp add: gs_slot_def on_machine_def get_percpu_data_def)

lemma msr_swap_gs [simp]: "msr (swap_gs u) MSR_IA32_GS_BASE = msr u MSR_IA32_KERNEL_GS_BASE"
  by (simp add: swap_gs_def MSR_IA32_GS_BASE_def MSR_IA32_KERNEL_GS_BASE_def)

lemma runs_ok: "q s = Ok x s' \<Longrightarrow> runs_to q s P \<longleftrightarrow> P (Inr x) s'"
  by (simp add: runs_to_def)

lemma saved_word:
  assumes "entered p slot r K s s1" and "keeps_frame K s1 s2" and K: "72 \<le> unat K" and i: "unat i < 9"
  shows "load64 (user_mem s2) (unat (K - 72 + 8 * i)) =
    [u_r11 r, u_rcx r, u_rbp r, u_rbx r, u_r12 r, u_r13 r, u_r14 r, u_r15 r, u_r9 r] ! (8 - unat i)"
proof -
  have "unat (8 * i) = 8 * unat i" using i by (simp add: unat_word_ariths)
  moreover have "unat (K - 72) = unat K - 72" using K by (subst unat_minus) auto
  ultimately have a: "unat (K - 72 + 8 * i) = unat K - 72 + 8 * unat i"
    using K i unsigned_less [of K, where 'a = nat] by (subst unat_plus_if') auto
  also have "\<dots> = unat K - 8 * Suc (8 - unat i)" using K i by simp
  finally have "load64 (user_mem s1) (unat (K - 72 + 8 * i)) =
    [u_r11 r, u_rcx r, u_rbp r, u_rbx r, u_r12 r, u_r13 r, u_r14 r, u_r15 r, u_r9 r] ! (8 - unat i)"
    using assms(1) by (auto simp: entered_def user_mem_def)
  moreover have "load64 (user_mem s2) (unat (K - 72 + 8 * i)) = load64 (user_mem s1) (unat (K - 72 + 8 * i))"
  proof (rule load64_cong)
    fix x assume "unat (K - 72 + 8 * i) \<le> x" "x < unat (K - 72 + 8 * i) + 8"
    then have "unat K - 72 \<le> x \<and> x < unat K" using i K unfolding a by linarith
    then show "user_mem s2 x = user_mem s1 x" using assms(2) by (simp add: keeps_frame_def)
  qed
  ultimately show ?thesis by simp
qed

lemma saved_words:
  assumes "entered p slot r K s s1" and "keeps_frame K s1 s2" and "72 \<le> unat K"
  shows "load64 (user_mem s2) (unat (K - 8)) = u_r11 r" "load64 (user_mem s2) (unat (K - 16)) = u_rcx r"
    "load64 (user_mem s2) (unat (K - 24)) = u_rbp r" "load64 (user_mem s2) (unat (K - 32)) = u_rbx r"
    "load64 (user_mem s2) (unat (K - 40)) = u_r12 r" "load64 (user_mem s2) (unat (K - 48)) = u_r13 r"
    "load64 (user_mem s2) (unat (K - 56)) = u_r14 r" "load64 (user_mem s2) (unat (K - 64)) = u_r15 r"
  using saved_word [OF assms, of 8] saved_word [OF assms, of 7] saved_word [OF assms, of 6] saved_word [OF assms, of 5]
    saved_word [OF assms, of 4] saved_word [OF assms, of 3] saved_word [OF assms, of 2] saved_word [OF assms, of 1]
  by simp_all

lemma handler_rule:
  assumes ready: "call_ready p slot K s"
    and dispatch: "\<And>s1. entered p slot r K s s1 \<Longrightarrow> runs_to (dispatch (u_rax r) (u_rdi r) (u_rsi r) (u_rdx r) (u_r10 r) (u_r8 r) (u_r9 r)) s1
      (\<lambda>res s2. \<exists>v. res = Inr v \<and> keeps_frame K s1 s2 \<and> Q v s1 s2)"
  shows "runs_to (syscall_handler p dispatch r) s (\<lambda>res s3. \<exists>r' s1 s2. res = Inr r' \<and> same_context r r' \<and> entered p slot r K s s1 \<and>
    Q (u_rax r') s1 s2 \<and> s3 = s2\<lparr>s_kernel := (s_kernel s2)\<lparr>mach := after_call slot (u_rsp r) (mach (s_kernel s))\<rparr>\<rparr>)"
proof -
  let ?m = "in_call p slot (u_rsp r) (mach (s_kernel s))" and ?c = "p_cpu p"
  let ?ws = "[u_r11 r, u_rcx r, u_rbp r, u_rbx r, u_r12 r, u_r13 r, u_r14 r, u_r15 r, u_r9 r]"
  have len: "?c < length (cpus (mach (s_kernel s)))" "slot < length (PERCPU_DATA_SLOTS (mach (s_kernel s)))"
    and K: "kernel_stack (PERCPU_DATA_SLOTS (mach (s_kernel s)) ! slot) = K" "72 \<le> unat K"
    and slot: "percpu_slot (p_image p) (msr (cpus (mach (s_kernel s)) ! ?c) MSR_IA32_KERNEL_GS_BASE) = Some slot"
    using ready percpu_ptr_slot(2) [of "p_image p" slot] by (simp_all add: call_ready_def)
  obtain m where push: "push_words ?ws K ((s_kernel s)\<lparr>mach := ?m\<rparr>) =
        Ok (K - 72) ((s_kernel s)\<lparr>mach := ?m, memory := (memory (s_kernel s))\<lparr>kmem := m\<rparr>\<rparr>)"
      and m: "\<forall>i<9. load64 m (unat K - 8 * Suc i) = ?ws ! i" "\<forall>x. x < unat K - 72 \<or> unat K \<le> x \<longrightarrow> m x = user_mem s x"
    using push_words_mem [of ?ws K "(s_kernel s)\<lparr>mach := ?m\<rparr>"] K(2) by (auto simp: user_mem_def)
  let ?s1 = "s\<lparr>s_kernel := (s_kernel s)\<lparr>mach := ?m, memory := (memory (s_kernel s))\<lparr>kmem := m\<rparr>\<rparr>\<rparr>"
  have ent: "entered p slot r K s ?s1" using m by (auto simp: entered_def)
  have kept: "mach (s_kernel s2) = ?m" if "keeps_frame K ?s1 s2" for s2
    using that by (simp add: keeps_frame_def)
  have pushes: "runs_to (push_words ?ws K) ((s_kernel s)\<lparr>mach := ?m\<rparr>) P \<longleftrightarrow>
      P (Inr (K - 72)) ((s_kernel s)\<lparr>mach := ?m, memory := (memory (s_kernel s))\<lparr>kmem := m\<rparr>\<rparr>)" for P
    using push by (rule runs_ok)
  have acc: "PERCPU_DATA_SLOTS ?m ! slot = (PERCPU_DATA_SLOTS (mach (s_kernel s)) ! slot)\<lparr>user_stack := u_rsp r\<rparr>"
    "cpus ?m ! ?c = swap_gs (cpus (mach (s_kernel s)) ! ?c)"
    "?m\<lparr>cpus := (cpus ?m)[?c := cpus (mach (s_kernel s)) ! ?c]\<rparr> = after_call slot (u_rsp r) (mach (s_kernel s))"
    using len by (simp_all add: in_call_def after_call_def)
  show ?thesis
    unfolding syscall_handler_def
    apply (simp add: slot len K in_call_def [symmetric] acc pushes del: push_words.simps)
    apply (rule runs_to_mono [OF dispatch [OF ent]])
    apply (elim exE conjE)
    subgoal for res s2 v
      using saved_words [OF ent _ K(2), of s2] ent by (auto simp: kept acc slot K same_context_def)
    done
qed

lemma do_syscall_rule:
  assumes "call_ready p slot K s"
    and "\<And>s1. entered p slot r K s s1 \<Longrightarrow> runs_to (syscall_dispatcher_impl p (u_rax r) (u_rdi r) (u_rsi r) (u_rdx r) (u_r10 r) (u_r8 r) (u_r9 r)) s1
      (\<lambda>res s2. \<exists>v. res = Inr v \<and> keeps_frame K s1 s2 \<and> P (Inr v) (s2\<lparr>s_kernel := (s_kernel s2)\<lparr>mach := after_call slot (u_rsp r) (mach (s_kernel s))\<rparr>\<rparr>))"
  shows "runs_to (do_syscall p r) s P"
proof -
  have "runs_to (syscall_handler p (syscall_dispatcher_impl p) r) s (\<lambda>res s3. \<exists>r' s1 s2. res = Inr r' \<and> same_context r r' \<and> entered p slot r K s s1 \<and>
    P (Inr (u_rax r')) (s2\<lparr>s_kernel := (s_kernel s2)\<lparr>mach := after_call slot (u_rsp r) (mach (s_kernel s))\<rparr>\<rparr>) \<and>
    s3 = s2\<lparr>s_kernel := (s_kernel s2)\<lparr>mach := after_call slot (u_rsp r) (mach (s_kernel s))\<rparr>\<rparr>)"
    using assms by (rule handler_rule)
  then show ?thesis unfolding do_syscall_def runs_to_bind by (rule runs_to_mono) auto
qed

lemma call_ready_after:
  assumes "call_ready p slot K s" and "mach (s_kernel s') = after_call slot usp (mach (s_kernel s))"
  shows "call_ready p slot K s'"
  using assms by (simp add: call_ready_def after_call_def)

subsection \<open>Files through system calls\<close>

text \<open>The volume the calls work on, and that it is there and not in use.\<close>

definition fs_view :: "('w nvme_dev \<Rightarrow> nat \<Rightarrow> bytes) \<Rightarrow> 'w sys \<Rightarrow> volume" where
  "fs_view disk s = view (disk (s_nvme s, xhci_world (s_usb s)))"

definition fs_ready :: "('w nvme_dev \<Rightarrow> bool) \<Rightarrow> ('w nvme_dev \<Rightarrow> nat \<Rightarrow> bytes) \<Rightarrow> 'w sys \<Rightarrow> bool" where
  "fs_ready ok disk s \<longleftrightarrow> \<not> fs_held s \<and> ok (s_nvme s, xhci_world (s_usb s)) \<and> vol_wf (fs_view disk s)"

text \<open>A slice as a Rust program has it: not null, at most \<open>isize::MAX\<close> bytes, and here apart from the words the entry point saves.\<close>

definition slice_ok :: "u64 \<Rightarrow> u64 \<times> u64 \<Rightarrow> bool" where
  "slice_ok K b \<longleftrightarrow> fst b \<noteq> 0 \<and> unat (snd b) < 2 ^ 63 \<and> (unat (fst b) + unat (snd b) \<le> unat K - 72 \<or> unat K \<le> unat (fst b))"

definition slice_of :: "'w sys \<Rightarrow> u64 \<times> u64 \<Rightarrow> bytes" where
  "slice_of s b = load_bytes (user_mem s) (unat (fst b)) (unat (snd b))"

text \<open>Memory is as before outside the saved words and the bytes from \<open>a\<close> to \<open>b\<close>.\<close>

definition same_memory :: "u64 \<Rightarrow> nat \<Rightarrow> nat \<Rightarrow> 'w sys \<Rightarrow> 'w sys \<Rightarrow> bool" where
  "same_memory K a b s s' \<longleftrightarrow> (\<forall>x. (x < unat K - 72 \<or> unat K \<le> x) \<and> (x < a \<or> b \<le> x) \<longrightarrow> user_mem s' x = user_mem s x)"

lemma slice_of_same:
  assumes "slice_ok K b" and "same_memory K 0 0 s s'"
  shows "slice_of s' b = slice_of s b"
  using assms by (auto simp: slice_of_def load_bytes_def slice_ok_def same_memory_def)

lemma entered_same: "entered p slot r K s s1 \<Longrightarrow> same_memory K 0 0 s s1"
  by (auto simp: entered_def same_memory_def user_mem_def)

lemma entered_fs: "entered p slot r K s s1 \<Longrightarrow> fs_held s1 = fs_held s \<and> s_nvme s1 = s_nvme s \<and> s_usb s1 = s_usb s"
  by (auto simp: entered_def)

lemma user_mem_kernel [simp]: "user_mem (s\<lparr>s_kernel := (s_kernel s)\<lparr>mach := m\<rparr>\<rparr>) = user_mem s"
  "user_mem (s\<lparr>fs_held := h, s_nvme := c, s_usb := u\<rparr>) = user_mem s"
  by (simp_all add: user_mem_def)

lemma fs_ready_at:
  assumes "block_device nv ok disk" and "fs_ready ok disk s"
  shows "block_device.at_dev ok disk (s_nvme s, xhci_world (s_usb s)) (fs_view disk s)" "vol_wf (fs_view disk s)"
  using assms(2) by (simp_all add: fs_ready_def fs_view_def block_device.at_dev_def [OF assms(1)])

lemma dispatch_fs_write:
  assumes dev: "block_device (drive p) ok disk" and ready: "fs_ready ok disk s"
    and name: "name_valid (slice_of s name)" "utf8_valid (slice_of s name)" "0 \<notin> set (slice_of s name)"
    and room: "free_slot (erase_name (slice_of s name) (fs_view disk s)) \<noteq> None"
      "clusters_needed (length (slice_of s content)) \<le> card (free_clusters (erase_name (slice_of s name) (fs_view disk s)))"
  shows "runs_to (syscall_dispatcher_impl p 13 (fst name) (snd name) (fst content) (snd content) e f) s (\<lambda>res s'. res = Inr 0 \<and> s_kernel s' = s_kernel s \<and>
    fs_ready ok disk s' \<and> files (fs_view disk s') = (files (fs_view disk s))(slice_of s name \<mapsto> slice_of s content))"
proof -
  have "runs_to (create_file (drive p) (slice_of s name) (slice_of s content)) (fs_held s, s_nvme s, xhci_world (s_usb s)) (\<lambda>res (held, d). res = Inr () \<and>
      \<not> held \<and> ok d \<and> vol_wf (view (disk d)) \<and> files (view (disk d)) = (files (fs_view disk s))(slice_of s name \<mapsto> slice_of s content))"
    unfolding create_file_def using ready room
    by (auto simp: fs_ready_def block_device.at_dev_def [OF dev]
        intro!: block_device.runs_create_file [OF dev fs_ready_at [OF dev ready] name(1,3)])
  then have "runs_to (create_file (drive p) (slice_of s name) (slice_of s content)) (fs_held s, s_nvme s, xhci_world (s_usb s))
    (\<lambda>res (held, ctx, w). res = Inr () \<and> (\<forall>t. t = s\<lparr>fs_held := held, s_nvme := ctx, s_usb := (s_usb s)\<lparr>xhci_world := w\<rparr>\<rparr> \<longrightarrow>
      fs_ready ok disk t \<and> files (fs_view disk t) = (files (fs_view disk s))(slice_of s name \<mapsto> slice_of s content)))"
    by (rule runs_to_mono) (auto simp: fs_ready_def fs_view_def)
  then show ?thesis
    using name(2) unfolding syscall_dispatcher_impl_def sys_fswrite_def slice_of_def
    apply (simp add: status_of_def)
    apply (erule runs_to_mono)
    apply auto
    done
qed

text \<open>What a read into a buffer reports: the bytes copied, or the size of the file for an empty buffer.\<close>

definition read_count :: "u64 \<times> u64 \<Rightarrow> bytes \<Rightarrow> nat" where
  "read_count buf data = (if snd buf = 0 then length data else min (length data) (unat (snd buf)))"

lemma store_bytes_Nil: "store_bytes a [] m = m"
  by (rule ext) (auto simp: store_bytes_def)

lemma sint_word_of_nat: "n < 2 ^ 63 \<Longrightarrow> sint (word_of_nat n :: u64) = int n"
  by (simp add: signed_of_nat signed_take_bit_int_eq_self)

lemma slice_of_store:
  assumes "user_mem s = store_bytes (unat (fst buf)) (take (unat (snd buf)) data) m"
  shows "take (length data) (slice_of s buf) = take (unat (snd buf)) data"
  by (rule nth_equalityI) (auto simp: slice_of_def load_bytes_def store_bytes_def assms)

lemma take_upto: "take (min (length xs) n) xs = take n xs"
  by (simp add: min_def)

lemma dispatch_fs_read:
  assumes dev: "block_device (drive p) ok disk" and ready: "fs_ready ok disk s" and buf: "fst buf \<noteq> 0"
    and name: "name_valid (slice_of s name)" "utf8_valid (slice_of s name)"
    and data: "files (fs_view disk s) (slice_of s name) = Some data"
  shows "runs_to (syscall_dispatcher_impl p 14 (fst name) (snd name) (fst buf) (snd buf) e f) s (\<lambda>res s'. res = Inr (word_of_nat (read_count buf data)) \<and>
    fs_ready ok disk s' \<and> fs_view disk s' = fs_view disk s \<and>
    s_kernel s' = s_kernel (put_user_mem (store_bytes (unat (fst buf)) (take (unat (snd buf)) data) (user_mem s)) s))"
proof -
  have "runs_to (read_file (drive p) (slice_of s name)) (fs_held s, s_nvme s, xhci_world (s_usb s)) (\<lambda>res (held, d). res = Inr data \<and>
      \<not> held \<and> ok d \<and> view (disk d) = fs_view disk s)"
    unfolding read_file_def using ready data
    by (auto simp: fs_ready_def block_device.at_dev_def [OF dev]
        intro!: block_device.runs_read_file [OF dev fs_ready_at [OF dev ready] name(1)])
  then have "runs_to (read_file (drive p) (slice_of s name)) (fs_held s, s_nvme s, xhci_world (s_usb s))
    (\<lambda>res (held, ctx, w). res = Inr data \<and> \<not> held \<and> ok (ctx, w) \<and> view (disk (ctx, w)) = fs_view disk s)"
    by (rule runs_to_mono) auto
  then show ?thesis
    using name(2) ready buf unfolding syscall_dispatcher_impl_def sys_fsread_def slice_of_def
    apply (simp add: status_of_def Let_def)
    apply (erule runs_to_mono)
    apply (auto simp: fs_ready_def fs_view_def put_user_mem_def user_mem_def unat_eq_zero Let_def take_upto read_count_def store_bytes_Nil)
    done
qed

lemma runs_std_fs_write:
  assumes dev: "block_device (drive p) ok disk" and ready: "call_ready p slot K s" "fs_ready ok disk s"
    and slices: "slice_ok K name" "slice_ok K content"
    and name: "name_valid (slice_of s name)" "utf8_valid (slice_of s name)" "0 \<notin> set (slice_of s name)"
    and room: "free_slot (erase_name (slice_of s name) (fs_view disk s)) \<noteq> None"
      "clusters_needed (length (slice_of s content)) \<le> card (free_clusters (erase_name (slice_of s name) (fs_view disk s)))"
  shows "runs_to (std_fs_write p r name content) s (\<lambda>res s'. res = Inr 0 \<and> call_ready p slot K s' \<and> fs_ready ok disk s' \<and>
    files (fs_view disk s') = (files (fs_view disk s))(slice_of s name \<mapsto> slice_of s content) \<and> same_memory K 0 0 s s')"
  unfolding std_fs_write_def syscall4_def runs_to_bind
proof (rule do_syscall_rule [OF ready(1)], goal_cases)
  case (1 s1)
  have m: "slice_of s1 name = slice_of s name" "slice_of s1 content = slice_of s content"
    using slice_of_same [OF _ entered_same [OF 1]] slices by simp_all
  have v: "fs_view disk s1 = fs_view disk s" "fs_ready ok disk s1"
    using entered_fs [OF 1] ready(2) by (simp_all add: fs_view_def fs_ready_def)
  note d = dispatch_fs_write [OF dev v(2), of name content, unfolded m v(1), OF name room]
  show ?case
    apply simp
    apply (rule runs_to_mono [OF d])
    using entered_same [OF 1]
    apply (auto simp: keeps_frame_def user_mem_def same_memory_def fs_ready_def fs_view_def intro!: call_ready_after [OF ready(1)])
    done
qed

lemma runs_std_fs_read:
  assumes dev: "block_device (drive p) ok disk" and ready: "call_ready p slot K s" "fs_ready ok disk s"
    and slices: "slice_ok K name" "slice_ok K buf"
    and name: "name_valid (slice_of s name)" "utf8_valid (slice_of s name)"
    and data: "files (fs_view disk s) (slice_of s name) = Some data" "length data < 2 ^ 63"
  shows "runs_to (std_fs_read p r name buf) s (\<lambda>res s'. res = Inr (int (read_count buf data)) \<and> call_ready p slot K s' \<and> fs_ready ok disk s' \<and>
    fs_view disk s' = fs_view disk s \<and> take (length data) (slice_of s' buf) = take (unat (snd buf)) data \<and>
    same_memory K (unat (fst buf)) (unat (fst buf) + unat (snd buf)) s s')"
  unfolding std_fs_read_def syscall4_def runs_to_bind
proof (rule do_syscall_rule [OF ready(1)], goal_cases)
  case (1 s1)
  have m: "slice_of s1 name = slice_of s name"
    using slice_of_same [OF _ entered_same [OF 1]] slices by simp_all
  have v: "fs_view disk s1 = fs_view disk s" "fs_ready ok disk s1" and b: "fst buf \<noteq> 0"
    using entered_fs [OF 1] ready(2) slices(2) by (simp_all add: fs_view_def fs_ready_def slice_ok_def)
  have n: "read_count buf data < 2 ^ 63" using data(2) by (auto simp: read_count_def)
  note d = dispatch_fs_read [OF dev v(2) b, of name data, unfolded m v(1), OF name data(1)]
  show ?case
    apply simp
    apply (rule runs_to_mono [OF d])
    apply (elim conjE)
    subgoal premises prems for res s2
    proof -
      let ?s3 = "s2\<lparr>s_kernel := (s_kernel s2)\<lparr>mach := after_call slot (u_rsp r) (mach (s_kernel s))\<rparr>\<rparr>"
      have mem: "user_mem s2 = store_bytes (unat (fst buf)) (take (unat (snd buf)) data) (user_mem s1)"
        using prems(4) by (simp add: user_mem_def put_user_mem_def)
      have "keeps_frame K s1 s2" using prems(4) slices(2) by (auto simp: keeps_frame_def mem put_user_mem_def store_bytes_def slice_ok_def)
      moreover have "call_ready p slot K ?s3" by (rule call_ready_after [OF ready(1)]) simp
      moreover have "fs_ready ok disk ?s3" "fs_view disk ?s3 = fs_view disk s" using prems(2,3) by (simp_all add: fs_ready_def fs_view_def)
      moreover have "take (length data) (slice_of ?s3 buf) = take (unat (snd buf)) data" by (rule slice_of_store) (simp add: mem)
      moreover have "same_memory K (unat (fst buf)) (unat (fst buf) + unat (snd buf)) s ?s3"
        using entered_same [OF 1] by (auto simp: same_memory_def mem store_bytes_def)
      ultimately show ?thesis using prems(1) n by (simp add: sint_word_of_nat)
    qed
    done
qed

subsection \<open>An example\<close>

text \<open>A program with a name at 0x1000 and two bytes of text at 0x2000, on the drive of \<open>Nvme_Sim\<close>.\<close>

definition zero_regs :: uregs where
  "zero_regs = \<lparr> u_rax = 0, u_rbx = 0, u_rcx = 0, u_rdx = 0, u_rsi = 0, u_rdi = 0, u_rbp = 0, u_rsp = 0, u_r8 = 0, u_r9 = 0, u_r10 = 0,
     u_r11 = 0, u_r12 = 0, u_r13 = 0, u_r14 = 0, u_r15 = 0 \<rparr>"

definition example_platform :: "sim_world platform" where
  "example_platform = \<lparr> p_image = example_image, p_cpu = 0, p_font = example_font, p_bus = sim_bus, p_usb = example_buffers,
     p_fs_buffer = 0x40000, p_scratch = zero_regs \<rparr>"

definition example_sys :: "sim_world sys" where
  "example_sys = \<lparr> s_kernel = (example_kernel (two_heaps\<lparr>kmem := (\<lambda>_. 0)(0x1000 := 0x61, 0x2000 := 7, 0x2001 := 9)\<rparr>))
       \<lparr>mach := example_machine\<lparr>cpus := [swap_gs (cpus example_machine ! 0)],
          PERCPU_DATA_SLOTS := (PERCPU_DATA_SLOTS example_machine)[0 := percpu_new\<lparr>kernel_stack := 0x9000\<rparr>]\<rparr>\<rparr>,
     fs_held = False, s_nvme = sim_ctx, XHCI_held = False, s_usb = xhci_statics (sim_start formatted_disk),
     s_writer = None, s_cells = None, s_serial = [] \<rparr>"

lemma example_call_ready: "call_ready example_platform 0 0x9000 example_sys"
  using example_image_ok
  by (simp add: call_ready_def example_platform_def example_sys_def example_machine_def start_machine_def percpu_new_def swap_gs_def
      MSR_IA32_GS_BASE_def MSR_IA32_KERNEL_GS_BASE_def)

lemma example_fs_view: "fs_view (nvme_dev_disk sw_view) example_sys = view formatted_disk"
  using sim_start_disk [of formatted_disk] by (simp add: fs_view_def example_sys_def xhci_statics_def)

lemma example_fs_ready: "fs_ready (nvme_dev_ok sim_ok sw_view sim_ly) (nvme_dev_disk sw_view) example_sys"
  using sim_disk_facts by (simp add: fs_ready_def example_fs_view) (simp add: example_sys_def xhci_statics_def)

lemma example_slices: "slice_of example_sys (0x1000, 1) = [0x61]" "slice_of example_sys (0x2000, 2) = [7, 9]"
  by (simp_all add: slice_of_def load_bytes_def user_mem_def example_sys_def example_kernel_def upt_conv_Cons)

lemma formatted_room:
  "erase_name nm (view formatted_disk) = view formatted_disk" "free_slot (view formatted_disk) = Some 0"
  "card (free_clusters (view formatted_disk)) = 16382"
proof -
  have "slot_of (view formatted_disk) nm = None" using formatted_files by (simp add: files_def fun_eq_iff)
  then show "erase_name nm (view formatted_disk) = view formatted_disk" by (simp add: erase_name_def)
  show "free_slot (view formatted_disk) = Some 0" by (simp add: free_slot_def find_upt_Some formatted_dir empty_entry_def)
  have "free_clusters (view formatted_disk) = {c. usable c}"
  proof -
    have "unat c mod 256 * 2 + 2 \<le> 512" for c :: u16 using mod_less_divisor [of 256 "unat c"] by simp
    then have "vfat (view formatted_disk) c = 0" if "usable c" for c
      using that by (simp add: view_def sector_fat_def usable_def formatted_disk_def subslice_replicate from_le_def numeral_2_eq_2)
    then show ?thesis by (auto simp: free_clusters_def)
  qed
  then show "card (free_clusters (view formatted_disk)) = 16382" by (simp add: card_usable)
qed

subsection \<open>Properties\<close>





end
