(* ===== verification/Irq_Spec.thy ===== *)
theory Irq_Spec
  imports Irq Syscall_Spec
begin

section \<open>What an interrupt leaves behind\<close>

text \<open>
  A hardware interrupt is invisible to what it interrupts: the entry code gives back every
  register and the five words of the processor, and the handler changes nothing but its part
  of the stack, the screen, and the interrupt controllers, which get their end of interrupt.
\<close>

subsection \<open>Output\<close>

definition screen_area :: "'w sys \<Rightarrow> nat set" where
  "screen_area s = (case s_writer s of None \<Rightarrow> {} | Some w \<Rightarrow> frame w)"

text \<open>The console can print \<open>n\<close> characters, and its framebuffer is apart from the addresses from \<open>lo\<close> to \<open>hi\<close>.\<close>

definition console_ok :: "'w platform \<Rightarrow> nat \<Rightarrow> nat \<Rightarrow> nat \<Rightarrow> 'w sys \<Rightarrow> bool" where
  "console_ok p n lo hi s \<longleftrightarrow> font_ok (p_font p) \<and> screen_area s \<inter> {lo..<hi} = {} \<and>
     (case s_writer s of None \<Rightarrow> True | Some w \<Rightarrow> writer_ok w \<and> y_pos w + 16 * n + 24 < 2 ^ 64)"

text \<open>Nothing but console output has happened.\<close>

definition only_output :: "nat set \<Rightarrow> 'w sys \<Rightarrow> 'w sys \<Rightarrow> bool" where
  "only_output area s s' \<longleftrightarrow> (\<exists>m. s_kernel s' = (s_kernel s)\<lparr>memory := (memory (s_kernel s))\<lparr>kmem := m\<rparr>\<rparr> \<and>
     (\<forall>x. x \<notin> area \<longrightarrow> m x = user_mem s x)) \<and> s_usb s' = s_usb s \<and> fs_held s' = fs_held s \<and> s_nvme s' = s_nvme s"

lemma only_output_refl: "only_output area s s"
  unfolding only_output_def by (auto intro!: exI [of _ "user_mem s"] simp: user_mem_def)

lemma only_output_mem: "only_output area s s' \<Longrightarrow> x \<notin> area \<Longrightarrow> user_mem s' x = user_mem s x"
  by (auto simp: only_output_def user_mem_def)

lemma user_mem_usb: "user_mem (s\<lparr>s_usb := u\<rparr>) = user_mem s"
  by (simp add: user_mem_def)

lemma runs_line:
  assumes "console_ok p n lo hi s" and "length t \<le> n"
  shows "runs_to (in_screen (print (p_font p) t)) s (\<lambda>r s'. r = Inr () \<and> only_output (screen_area s) s s')"
proof (cases "s_writer s")
  case None
  then show ?thesis
    using only_output_refl [of "screen_area s" s]
    by (simp add: in_screen_def print_def with_writer_def screen_of_def put_user_mem_def user_mem_def only_output_def)
next
  case (Some w)
  have "runs_to (print (p_font p) t) (screen_of s) (\<lambda>r v. r = Inr () \<and> (\<forall>a. a \<notin> frame w \<longrightarrow> vram v a = user_mem s a))"
    using assms Some by (intro runs_to_mono [OF runs_print [of "screen_of s" w]]) (auto simp: screen_of_def console_ok_def)
  then show ?thesis
    unfolding in_screen_def runs_to_zoom
    by (rule runs_to_mono) (auto simp: only_output_def put_user_mem_def screen_area_def Some)
qed

subsection \<open>The frame\<close>

definition frame_words :: "uregs \<Rightarrow> iret_words \<Rightarrow> u64 \<Rightarrow> u64 \<Rightarrow> u64 list" where
  "frame_words r i err n = [i_ss i, i_rsp i, i_rflags i, i_cs i, i_rip i] @ [err, n] @ save_registers r"

definition frame_of :: "uregs \<Rightarrow> iret_words \<Rightarrow> u64 \<Rightarrow> u64 \<Rightarrow> InterruptFrame" where
  "frame_of r i err n = \<lparr> f_r15 = u_r15 r, f_r14 = u_r14 r, f_r13 = u_r13 r, f_r12 = u_r12 r, f_r11 = u_r11 r, f_r10 = u_r10 r, f_r9 = u_r9 r,
     f_r8 = u_r8 r, f_rsi = u_rsi r, f_rdi = u_rdi r, f_rbp = u_rbp r, f_rdx = u_rdx r, f_rcx = u_rcx r, f_rbx = u_rbx r, f_rax = u_rax r,
     f_int_no = n, f_err_code = err, f_rip = i_rip i, f_cs = i_cs i, f_rflags = i_rflags i, f_rsp = i_rsp i, f_ss = i_ss i \<rparr>"

lemma word_at:
  fixes sp k :: u64
  assumes "\<forall>j < 22. load64 m (unat sp - 8 * Suc j) = ws ! j" and "176 \<le> unat sp" and "unat k < 22"
  shows "load64 m (unat (sp - 176 + 8 * k)) = ws ! (21 - unat k)"
proof -
  have "unat (8 * k) = 8 * unat k" using assms(3) by (simp add: unat_word_ariths)
  moreover have "unat (sp - 176) = unat sp - 176" using assms(2) by (subst unat_minus) auto
  ultimately have "unat (sp - 176 + 8 * k) = unat sp - 176 + 8 * unat k"
    using assms(2,3) unsigned_less [of sp, where 'a = nat] by (subst unat_plus) auto
  also have "\<dots> = unat sp - 8 * Suc (21 - unat k)" using assms(2,3) by simp
  finally show ?thesis using assms(1,3) by auto
qed

lemma frame_at_words:
  assumes "\<forall>j < 22. load64 m (unat sp - 8 * Suc j) = frame_words r i err n ! j" and "176 \<le> unat sp"
  shows "frame_at m (sp - 176) = frame_of r i err n"
proof -
  note w = word_at [OF assms]
  show ?thesis
    using w [of 0] w [of 1] w [of 2] w [of 3] w [of 4] w [of 5] w [of 6] w [of 7] w [of 8] w [of 9] w [of 10] w [of 11] w [of 12] w [of 13]
      w [of 14] w [of 15] w [of 16] w [of 17] w [of 18] w [of 19] w [of 20] w [of 21]
    by (simp add: frame_at_def frame_of_def Let_def frame_words_def save_registers_def)
qed

text \<open>The word below the frame that keeps its address.\<close>

lemma low_bounds:
  fixes sp :: u64
  assumes "256 \<le> unat sp"
  shows "unat sp - 208 \<le> unat (below_frame (sp - 176))" "unat (below_frame (sp - 176)) + 16 \<le> unat (sp - 176)"
    "unat (sp - 176) = unat sp - 176"
proof -
  let ?f = "sp - 176"
  show f: "unat ?f = unat sp - 176" using assms by (subst unat_minus) auto
  have "unat (?f AND 15) \<le> 15" using word_and_le1 [of ?f 15] by (simp add: word_le_nat_alt)
  moreover have "?f AND NOT 15 = ?f - (?f AND 15)"
  proof -
    have "(?f AND 15) + (?f AND NOT 15) = (?f AND 15) OR (?f AND NOT 15)"
      by (rule disjunctive_add_eq_or) (rule bit_eqI, auto simp only: bit_and_iff bit_not_iff bit_0_eq bot_apply bot_bool_def)
    also have "\<dots> = ?f" by (rule bit_eqI) (auto simp only: bit_and_iff bit_or_iff bit_not_iff dest: bit_imp_le_length)
    finally show ?thesis by (simp only: eq_diff_eq add.commute)
  qed
  ultimately have q: "unat (?f AND NOT 15) = unat ?f - unat (?f AND 15)" using f assms by (simp add: unat_minus)
  then have "unat ((?f AND NOT 15) - 16) = unat (?f AND NOT 15) - 16"
    using f assms \<open>unat (?f AND 15) \<le> 15\<close> by (subst unat_minus) auto
  then show "unat sp - 208 \<le> unat (below_frame ?f)" "unat (below_frame ?f) + 16 \<le> unat ?f"
    unfolding below_frame_def using q f assms \<open>unat (?f AND 15) \<le> 15\<close> by auto
qed

subsection \<open>The handler\<close>

definition eoi :: "'w bus \<Rightarrow> nat \<Rightarrow> 'w \<Rightarrow> 'w" where
  "eoi b n w = port_out b 0x20 [0x20] (if 8 \<le> n then port_out b 0xA0 [0x20] w else w)"

lemma irq_number:
  assumes "n < 16"
  shows "32 \<le> (word_of_nat (32 + n) :: u64)" "(word_of_nat (32 + n) :: u64) < 48" "(word_of_nat (32 + n) :: u64) - 32 = word_of_nat n"
    "unat (word_of_nat n :: u64) = n" "8 \<le> (ucast (word_of_nat n :: u64) :: u8) \<longleftrightarrow> 8 \<le> n" "length (decimal n) \<le> 2"
proof -
  have u: "unat (word_of_nat (32 + n) :: u64) = 32 + n" using assms by (subst unat_of_nat) simp
  show "32 \<le> (word_of_nat (32 + n) :: u64)" "(word_of_nat (32 + n) :: u64) < 48"
    unfolding word_le_nat_alt word_less_nat_alt u using assms by simp_all
  show "(word_of_nat (32 + n) :: u64) - 32 = word_of_nat n" by simp
  show v: "unat (word_of_nat n :: u64) = n" using assms by (subst unat_of_nat) simp
  have "unat (ucast (word_of_nat n :: u64) :: u8) = n" using assms by (simp add: unsigned_ucast_eq v take_bit_nat_eq_self)
  then show "8 \<le> (ucast (word_of_nat n :: u64) :: u8) \<longleftrightarrow> 8 \<le> n" by (simp add: word_le_nat_alt)
  have "n div 10 < 10" using assms by simp
  then show "length (decimal n) \<le> 2" by (simp add: decimal.simps [of n] decimal.simps [of "n div 10"])
qed

lemma to_le_one: "to_le 1 (v :: u8) = [v]"
  using unsigned_less [of v, where 'a = nat] by (simp add: to_le_def)

lemma runs_notify_eoi: "n < 16 \<Longrightarrow> runs_to (notify_eoi b (ucast (word_of_nat n :: u64))) w P \<longleftrightarrow> P (Inr ()) (eoi b n w)"
  by (simp add: notify_eoi_def irq_number(5) eoi_def outb_def runs_to_def prog_defs to_le_one [simplified])

lemma runs_irq_handler:
  assumes n: "n < 16" and int: "f_int_no (frame_at (user_mem s) fp) = word_of_nat (32 + n)" and con: "console_ok p 16 lo hi s"
  shows "runs_to (irq_handler p fp) s (\<lambda>r s'. r = Inr () \<and> (\<exists>s1. only_output (screen_area s) s s1 \<and>
    s' = s1\<lparr>s_usb := (s_usb s1)\<lparr>xhci_world := eoi (p_bus p) n (xhci_world (s_usb s))\<rparr>\<rparr>))"
proof -
  let ?t = "chars ''Unknown IRQ: '' @ decimal n"
  define q where "q = (if (word_of_nat n :: u64) = 0 then ret () else if (word_of_nat n :: u64) = 1 then ret () else line p ?t)"
  have len: "length (?t @ [10]) \<le> 16" using irq_number(6) [OF n] by (simp add: chars_def)
  have report: "runs_to q s (\<lambda>r s'. r = Inr () \<and> only_output (screen_area s) s s')"
    unfolding q_def using runs_line [OF con len] only_output_refl [of "screen_area s" s] by simp
  have "runs_to (irq_handler p fp) s P \<longleftrightarrow> runs_to (seq q (on_ports_of (notify_eoi (p_bus p) (ucast (word_of_nat n :: u64))))) s P" for P
    unfolding irq_handler_def runs_to_bind runs_to_gets sum.case int Let_def irq_number(3,4) [OF n] q_def
    using irq_number(1,2) [OF n] by (simp only: HOL.simp_thms if_False)
  then show ?thesis
    unfolding runs_to_seq
    by (simp only:) (rule runs_to_mono [OF report], auto simp: on_ports_of_def runs_notify_eoi [OF n] only_output_def)
qed

subsection \<open>The entry code\<close>

text \<open>The state in which the handler runs.\<close>

definition at_handler :: "u64 list \<Rightarrow> u64 \<Rightarrow> 'w sys \<Rightarrow> 'w sys \<Rightarrow> bool" where
  "at_handler ws sp s s1 \<longleftrightarrow> (\<exists>m. s1 = put_user_mem m s \<and> (\<forall>j<22. load64 m (unat sp - 8 * Suc j) = ws ! j) \<and>
     load64 m (unat (below_frame (sp - 176))) = sp - 176 \<and> (\<forall>x. x < unat sp - 256 \<or> unat sp \<le> x \<longrightarrow> m x = user_mem s x))"

lemma handler_entered:
  fixes rest :: "u64 \<Rightarrow> ('w, 'b) sp"
  assumes "length ws = 22" and "256 \<le> unat sp"
  shows "\<exists>s1. at_handler ws sp s s1 \<and> bind (in_kernel (push_words ws sp)) (\<lambda>fp.
      seq (in_kernel (on_heaps (modify (\<lambda>h. h\<lparr>kmem := store64 (unat (below_frame fp)) fp (kmem h)\<rparr>)))) (rest fp)) s = rest (sp - 176) s1"
proof -
  obtain m where push: "push_words ws sp (s_kernel s) = Ok (sp - 176) ((s_kernel s)\<lparr>memory := (memory (s_kernel s))\<lparr>kmem := m\<rparr>\<rparr>)"
      and m: "\<forall>j<22. load64 m (unat sp - 8 * Suc j) = ws ! j" "\<forall>x. x < unat sp - 176 \<or> unat sp \<le> x \<longrightarrow> m x = user_mem s x"
    using push_words_mem [of ws sp "s_kernel s"] assms by (auto simp: user_mem_def)
  note low = low_bounds [OF assms(2)]
  let ?low = "below_frame (sp - 176)"
  let ?m = "store64 (unat ?low) (sp - 176) m"
  have "load64 ?m (unat sp - 8 * Suc j) = ws ! j" if "j < 22" for j
    using m(1) that low assms(2) by (subst load64_store64_other) auto
  moreover have "?m x = user_mem s x" if "x < unat sp - 256 \<or> unat sp \<le> x" for x
    using m(2) that low assms(2) by (auto simp: store64_def store_bytes_def)
  ultimately have "at_handler ws sp s (put_user_mem ?m s)" unfolding at_handler_def by (intro exI [of _ ?m]) simp
  moreover have "bind (in_kernel (push_words ws sp)) (\<lambda>fp.
      seq (in_kernel (on_heaps (modify (\<lambda>h. h\<lparr>kmem := store64 (unat (below_frame fp)) fp (kmem h)\<rparr>)))) (rest fp)) s = rest (sp - 176) (put_user_mem ?m s)"
    by (simp add: bind_def seq_def in_kernel_def zoom_def push on_heaps_def modify_def put_user_mem_def)
  ultimately show ?thesis by blast
qed

lemma restore_frame: "restore_registers r (frame_of r i err n) = (r, i)"
  by (simp add: restore_registers_def frame_of_def)

lemma interrupt_common_rule:
  fixes s :: "'w sys"
  assumes ws: "pushed @ save_registers r = frame_words r i err n" and sp: "256 \<le> unat sp"
    and handler: "\<And>s1. at_handler (frame_words r i err n) sp s s1 \<Longrightarrow> runs_to (handler (sp - 176)) s1
      (\<lambda>res s2. res = Inr () \<and> (\<forall>x. unat sp - 256 \<le> x \<and> x < unat sp \<longrightarrow> user_mem s2 x = user_mem s1 x) \<and> Q s1 s2)"
  shows "runs_to (interrupt_common handler pushed r sp) s (\<lambda>res s2. res = Inr (r, i) \<and> (\<exists>s1. at_handler (frame_words r i err n) sp s s1 \<and> Q s1 s2))"
proof -
  let ?low = "below_frame (sp - 176)"
  have len: "length (frame_words r i err n) = 22" by (simp add: frame_words_def save_registers_def)
  have same: "frame_at (user_mem s2) (load64 (user_mem s2) (unat ?low)) = frame_of r i err n"
    if s1: "at_handler (frame_words r i err n) sp s s1" and eq: "\<forall>x. unat sp - 256 \<le> x \<and> x < unat sp \<longrightarrow> user_mem s2 x = user_mem s1 x" for s1 s2 :: "'w sys"
  proof -
    have cong: "load64 (user_mem s2) a = load64 (user_mem s1) a" if "unat sp - 256 \<le> a" "a + 8 \<le> unat sp" for a
      using that eq by (intro load64_cong) auto
    have "load64 (user_mem s2) (unat ?low) = sp - 176"
      using s1 low_bounds [OF sp] sp by (subst cong) (auto simp: at_handler_def)
    moreover have "load64 (user_mem s2) (unat sp - 8 * Suc j) = frame_words r i err n ! j" if "j < 22" for j
      using s1 sp that by (subst cong) (auto simp: at_handler_def)
    ultimately show ?thesis using sp by (simp add: frame_at_words)
  qed
  obtain s1 where s1: "at_handler (frame_words r i err n) sp s s1"
    and eq: "interrupt_common handler pushed r sp s = seq (handler (sp - 176)) (bind (gets user_mem) (\<lambda>m.
      ret (restore_registers r (frame_at m (load64 m (unat ?low)))))) s1"
    using handler_entered [OF len sp, of s "\<lambda>fp. seq (handler fp) (bind (gets user_mem) (\<lambda>m.
      ret (restore_registers r (frame_at m (load64 m (unat (below_frame fp)))))))"]
    unfolding interrupt_common_def ws by blast
  have "runs_to (seq (handler (sp - 176)) (bind (gets user_mem) (\<lambda>m. ret (restore_registers r (frame_at m (load64 m (unat ?low))))))) s1
      (\<lambda>res s2. res = Inr (r, i) \<and> (\<exists>s1. at_handler (frame_words r i err n) sp s s1 \<and> Q s1 s2))"
    unfolding runs_to_seq
    by (rule runs_to_mono [OF handler [OF s1]]) (use s1 in \<open>auto simp: same [OF s1] restore_frame\<close>)
  then show ?thesis by (simp add: runs_to_def eq)
qed

subsection \<open>Properties\<close>



end
