(* ===== verification/Net.thy ===== *)
theory Net
  imports Pci Memory
begin

section \<open>Network\<close>

text \<open>
  \<open>src/src/network\<close>: the Internet checksum (\<open>helper.rs\<close>), the headers (\<open>arp.rs\<close>, \<open>ipv4.rs\<close>), the driver of
  the 82540EM controller (\<open>e1000.rs\<close>) behind the driver interface (\<open>driver.rs\<close>), the active
  controller and the host's address (\<open>mod.rs\<close>), and the answers to ARP requests and pings.  The
  descriptor rings and packet buffers are memory the controller shares, so they are reached
  through the bus.  Console output is left out.
\<close>

subsection \<open>Checksum\<close>

text \<open>The two loops of \<open>calculate_checksum\<close>; \<open>acc\<close> (\<open>sum\<close> in the code) is a \<open>u32\<close>, whose addition is checked.\<close>

definition add_sum :: "nat \<Rightarrow> nat \<Rightarrow> ('s, 'e, nat) prog" where
  "add_sum acc w = (if acc + w < 2 ^ 32 then ret (acc + w) else stop)"

fun sum_words :: "nat \<Rightarrow> bytes \<Rightarrow> ('s, 'e, nat) prog" where
  "sum_words acc [] = ret acc"
| "sum_words acc [a] = add_sum acc (256 * unat a)"
| "sum_words acc (a # b # rest) = bind (add_sum acc (256 * unat a + unat b)) (\<lambda>acc. sum_words acc rest)"

function fold_carry :: "nat \<Rightarrow> nat" where
  "fold_carry acc = (if 0 < acc div 65536 then fold_carry (acc mod 65536 + acc div 65536) else acc)"
  by pat_completeness auto
termination
proof (relation "measure id")
  fix acc :: nat assume "0 < acc div 65536"
  moreover have "acc = 65536 * (acc div 65536) + acc mod 65536" by simp
  ultimately have "acc mod 65536 + acc div 65536 < acc" by linarith
  then show "(acc mod 65536 + acc div 65536, acc) \<in> measure id" by simp
qed simp

declare fold_carry.simps [simp del]

text \<open>For no bytes at all \<open>data.len() - 1\<close> leaves the range of \<open>usize\<close>.\<close>

definition calculate_checksum :: "bytes \<Rightarrow> ('s, 'e, u16) prog" where
  "calculate_checksum data =
     (if data = [] then stop else bind (sum_words 0 data) (\<lambda>acc. ret (NOT (word_of_nat (fold_carry acc)))))"

text \<open>\<open>to_be\<close> and \<open>from_be\<close> on a little-endian machine.\<close>

definition swap_bytes :: "u16 \<Rightarrow> u16" where
  "swap_bytes x = from_le (rev (to_le 2 x))"

subsection \<open>Headers\<close>

record EthernetHeader =
  dest_mac :: bytes
  src_mac :: bytes
  ethertype :: u16

definition eth_bytes :: "EthernetHeader \<Rightarrow> bytes" where
  "eth_bytes h = dest_mac h @ src_mac h @ to_le 2 (ethertype h)"

definition eth_of :: "bytes \<Rightarrow> EthernetHeader" where
  "eth_of bs = \<lparr> dest_mac = subslice 0 6 bs, src_mac = subslice 6 6 bs, ethertype = from_le (subslice 12 2 bs) \<rparr>"

record ArpPacket =
  hardware_type :: u16
  protocol_type :: u16
  hw_addr_len :: u8
  proto_addr_len :: u8
  arp_opcode :: u16
  sender_mac :: bytes
  sender_ip :: bytes
  target_mac :: bytes
  target_ip :: bytes

definition arp_bytes :: "ArpPacket \<Rightarrow> bytes" where
  "arp_bytes a = to_le 2 (hardware_type a) @ to_le 2 (protocol_type a) @ [hw_addr_len a, proto_addr_len a] @ to_le 2 (arp_opcode a) @
     sender_mac a @ sender_ip a @ target_mac a @ target_ip a"

definition arp_of :: "bytes \<Rightarrow> ArpPacket" where
  "arp_of bs = \<lparr> hardware_type = from_le (subslice 0 2 bs), protocol_type = from_le (subslice 2 2 bs), hw_addr_len = bs ! 4,
     proto_addr_len = bs ! 5, arp_opcode = from_le (subslice 6 2 bs), sender_mac = subslice 8 6 bs, sender_ip = subslice 14 4 bs,
     target_mac = subslice 18 6 bs, target_ip = subslice 24 4 bs \<rparr>"

record ArpFrame =
  af_eth :: EthernetHeader
  af_arp :: ArpPacket

definition arp_frame_bytes :: "ArpFrame \<Rightarrow> bytes" where
  "arp_frame_bytes f = eth_bytes (af_eth f) @ arp_bytes (af_arp f)"

record Ipv4Header =
  ver_ihl :: u8
  tos :: u8
  total_length :: u16
  identification :: u16
  flags_fragment :: u16
  ttl :: u8
  protocol :: u8
  header_checksum :: u16
  src_ip :: bytes
  dst_ip :: bytes

definition ipv4_of :: "bytes \<Rightarrow> Ipv4Header" where
  "ipv4_of bs = \<lparr> ver_ihl = bs ! 0, tos = bs ! 1, total_length = from_le (subslice 2 2 bs), identification = from_le (subslice 4 2 bs),
     flags_fragment = from_le (subslice 6 2 bs), ttl = bs ! 8, protocol = bs ! 9, header_checksum = from_le (subslice 10 2 bs),
     src_ip = subslice 12 4 bs, dst_ip = subslice 16 4 bs \<rparr>"

record IcmpPacket =
  icmp_type :: u8
  icmp_code :: u8
  icmp_checksum :: u16
  icmp_identifier :: u16
  sequence_number :: u16

definition icmp_of :: "bytes \<Rightarrow> IcmpPacket" where
  "icmp_of bs = \<lparr> icmp_type = bs ! 0, icmp_code = bs ! 1, icmp_checksum = from_le (subslice 2 2 bs), icmp_identifier = from_le (subslice 4 2 bs),
     sequence_number = from_le (subslice 6 2 bs) \<rparr>"

subsection \<open>The controller\<close>

abbreviation (input) RING_SIZE :: nat where "RING_SIZE \<equiv> 16"
abbreviation (input) PACKET_BUF_SIZE :: nat where "PACKET_BUF_SIZE \<equiv> 2048"
abbreviation (input) MMIO_SIZE :: nat where "MMIO_SIZE \<equiv> 131072"
abbreviation (input) REG_CTRL :: nat where "REG_CTRL \<equiv> 0x0000"
abbreviation (input) REG_STATUS :: nat where "REG_STATUS \<equiv> 0x0008"
abbreviation (input) REG_RCTL :: nat where "REG_RCTL \<equiv> 0x0100"
abbreviation (input) REG_TCTL :: nat where "REG_TCTL \<equiv> 0x0400"
abbreviation (input) REG_TIPG :: nat where "REG_TIPG \<equiv> 0x0410"
abbreviation (input) REG_RDBAL :: nat where "REG_RDBAL \<equiv> 0x2800"
abbreviation (input) REG_RDBAH :: nat where "REG_RDBAH \<equiv> 0x2804"
abbreviation (input) REG_RDLEN :: nat where "REG_RDLEN \<equiv> 0x2808"
abbreviation (input) REG_RDH :: nat where "REG_RDH \<equiv> 0x2810"
abbreviation (input) REG_RDT :: nat where "REG_RDT \<equiv> 0x2818"
abbreviation (input) REG_TDBAL :: nat where "REG_TDBAL \<equiv> 0x3800"
abbreviation (input) REG_TDBAH :: nat where "REG_TDBAH \<equiv> 0x3804"
abbreviation (input) REG_TDLEN :: nat where "REG_TDLEN \<equiv> 0x3808"
abbreviation (input) REG_TDH :: nat where "REG_TDH \<equiv> 0x3810"
abbreviation (input) REG_TDT :: nat where "REG_TDT \<equiv> 0x3818"
abbreviation (input) REG_RAL :: nat where "REG_RAL \<equiv> 0x5400"
abbreviation (input) REG_RAH :: nat where "REG_RAH \<equiv> 0x5404"
abbreviation (input) CTRL_SLU :: u32 where "CTRL_SLU \<equiv> push_bit 6 1"
abbreviation (input) CTRL_RST :: u32 where "CTRL_RST \<equiv> push_bit 26 1"
abbreviation (input) RX_STATUS_DD :: u8 where "RX_STATUS_DD \<equiv> 1"
abbreviation (input) TX_STATUS_DD :: u8 where "TX_STATUS_DD \<equiv> 1"

text \<open>Where the linker puts the rings and the packet buffers.\<close>

record net_buffers =
  RX_DESC_RING :: nat
  TX_DESC_RING :: nat
  RX_PACKET_BUFFERS :: nat
  TX_PACKET_BUFFERS :: nat

record E1000Context =
  e_pci_dev :: "PciDevice option"
  e_mmio :: nat
  rx_next :: nat
  tx_next :: nat

datatype Nic = E1000

record 'w net =
  E1000_CTX :: E1000Context
  ACTIVE_NIC :: "Nic option"
  HOST_IP :: bytes
  net_world :: 'w

type_synonym ('w, 'a) np = "('w net, string, 'a) prog"

definition net_statics :: "'w \<Rightarrow> 'w net" where
  "net_statics w = \<lparr> E1000_CTX = \<lparr> e_pci_dev = None, e_mmio = 0, rx_next = 0, tx_next = 0 \<rparr>, ACTIVE_NIC = None,
     HOST_IP = [0, 0, 0, 0], net_world = w \<rparr>"

definition on_nic :: "('w, string, 'a) prog \<Rightarrow> ('w, 'a) np" where
  "on_nic p = zoom net_world (\<lambda>w s. s\<lparr>net_world := w\<rparr>) p"

text \<open>Descriptors are 16 bytes; the fields the driver uses are at offsets 0 (\<open>addr\<close>), 8 (\<open>length\<close>), 11 (\<open>cmd\<close>) and 12 (\<open>status\<close>).\<close>

abbreviation (input) rx_desc :: "net_buffers \<Rightarrow> nat \<Rightarrow> nat" where "rx_desc nb i \<equiv> RX_DESC_RING nb + 16 * i"
abbreviation (input) tx_desc :: "net_buffers \<Rightarrow> nat \<Rightarrow> nat" where "tx_desc nb i \<equiv> TX_DESC_RING nb + 16 * i"
abbreviation (input) rx_buf :: "net_buffers \<Rightarrow> nat \<Rightarrow> nat" where "rx_buf nb i \<equiv> RX_PACKET_BUFFERS nb + 2048 * i"
abbreviation (input) tx_buf :: "net_buffers \<Rightarrow> nat \<Rightarrow> nat" where "tx_buf nb i \<equiv> TX_PACKET_BUFFERS nb + 2048 * i"

definition e1000_matches :: "PciDevice \<Rightarrow> bool" where
  "e1000_matches device \<longleftrightarrow> vendor_id device = 0x8086 \<and> device_id device = 0x100E"

definition read_reg :: "'w bus \<Rightarrow> nat \<Rightarrow> nat \<Rightarrow> ('w, string, u32) prog" where
  "read_reg b mmio offset = read32 b (mmio + offset)"

definition write_reg :: "'w bus \<Rightarrow> nat \<Rightarrow> nat \<Rightarrow> u32 \<Rightarrow> ('w, string, unit) prog" where
  "write_reg b mmio offset v = write32 b (mmio + offset) v"

definition e1000_reset :: "'w bus \<Rightarrow> nat \<Rightarrow> ('w, string, unit) prog" where
  "e1000_reset b mmio =
     seq (bind (read_reg b mmio REG_CTRL) (\<lambda>v. write_reg b mmio REG_CTRL (v OR CTRL_RST)))
     (prog_loop (\<lambda>_. bind (read_reg b mmio REG_CTRL) (\<lambda>v. ret (if v AND CTRL_RST \<noteq> 0 then Inl () else Inr ()))) ())"

definition setup_mac :: "'w bus \<Rightarrow> nat \<Rightarrow> ('w, string, unit) prog" where
  "setup_mac b mmio = seq (write_reg b mmio REG_RAL 0x12005452) (write_reg b mmio REG_RAH 0x80005634)"

definition read_mac :: "'w bus \<Rightarrow> nat \<Rightarrow> ('w, string, bytes) prog" where
  "read_mac b mmio =
     bind (read_reg b mmio REG_RAL) (\<lambda>ral.
     bind (read_reg b mmio REG_RAH) (\<lambda>rah.
     ret [ucast (ral AND 0xFF), ucast (drop_bit 8 ral AND 0xFF), ucast (drop_bit 16 ral AND 0xFF), ucast (drop_bit 24 ral AND 0xFF),
          ucast (rah AND 0xFF), ucast (drop_bit 8 rah AND 0xFF)]))"

definition setup_rx_ring :: "'w bus \<Rightarrow> net_buffers \<Rightarrow> nat \<Rightarrow> ('w, string, unit) prog" where
  "setup_rx_ring b nb mmio =
     seq (for_each [0..<RING_SIZE] (\<lambda>i.
       seq (put_bytes b (rx_desc nb i) (to_le 8 (word_of_nat (rx_buf nb i) :: u64)))
       (put_bytes b (rx_desc nb i + 12) [0])))
     (let ring_addr = word_of_nat (RX_DESC_RING nb) :: u64 in
     seq (write_reg b mmio REG_RDBAL (ucast ring_addr))
     (seq (write_reg b mmio REG_RDBAH (ucast (drop_bit 32 ring_addr)))
     (seq (write_reg b mmio REG_RDLEN 256)
     (seq (write_reg b mmio REG_RDH 0)
     (seq (write_reg b mmio REG_RDT 15)
     (write_reg b mmio REG_RCTL (push_bit 1 1 OR push_bit 2 1 OR push_bit 3 1 OR push_bit 4 1 OR push_bit 15 1 OR 0 OR push_bit 26 1)))))))"

definition setup_tx_ring :: "'w bus \<Rightarrow> net_buffers \<Rightarrow> nat \<Rightarrow> ('w, string, unit) prog" where
  "setup_tx_ring b nb mmio =
     (let ring_addr = word_of_nat (TX_DESC_RING nb) :: u64 in
     seq (write_reg b mmio REG_TDBAL (ucast ring_addr))
     (seq (write_reg b mmio REG_TDBAH (ucast (drop_bit 32 ring_addr)))
     (seq (write_reg b mmio REG_TDLEN 256)
     (seq (write_reg b mmio REG_TDH 0)
     (seq (write_reg b mmio REG_TDT 0)
     (seq (write_reg b mmio REG_TIPG 0x0060080C)
     (write_reg b mmio REG_TCTL (push_bit 1 1 OR push_bit 3 1 OR push_bit 4 0x0F OR push_bit 12 0x40))))))))"

definition e1000_init :: "'w bus \<Rightarrow> net_buffers \<Rightarrow> PciDevice \<Rightarrow> ('w, unit) np" where
  "e1000_init b nb device =
     (let mmio = unat (mmio_bar0 device) in
     seq (modify (\<lambda>s. s\<lparr>E1000_CTX := \<lparr> e_pci_dev = Some device, e_mmio = mmio, rx_next = 0, tx_next = 0 \<rparr>\<rparr>))
     (on_nic (seq (e1000_reset b mmio)
     (seq (setup_mac b mmio)
     (seq (setup_rx_ring b nb mmio)
     (seq (setup_tx_ring b nb mmio)
     (seq (bind (read_reg b mmio REG_CTRL) (\<lambda>v. write_reg b mmio REG_CTRL (v OR CTRL_SLU)))
     (bind (read_reg b mmio REG_STATUS) (\<lambda>_. ret ())))))))))"

definition e1000_transmit :: "'w bus \<Rightarrow> net_buffers \<Rightarrow> bytes \<Rightarrow> ('w, bool) np" where
  "e1000_transmit b nb data = bind (gets E1000_CTX) (\<lambda>ctx.
     if e_mmio ctx = 0 then ret False
     else if length data > PACKET_BUF_SIZE then ret False
     else let idx = tx_next ctx in
       if \<not> idx < RING_SIZE then stop
       else bind (on_nic (get_bytes b (tx_desc nb idx + 12) 1)) (\<lambda>st.
         bind (if hd st AND TX_STATUS_DD = 0 then on_nic (get_bytes b (tx_desc nb idx + 11) 1) else ret [0]) (\<lambda>cmd.
         if hd st AND TX_STATUS_DD = 0 \<and> hd cmd \<noteq> 0 then ret False
         else
           seq (on_nic (put_bytes b (tx_buf nb idx) data))
           (seq (on_nic (put_bytes b (tx_desc nb idx) (to_le 8 (word_of_nat (tx_buf nb idx) :: u64))))
           (seq (on_nic (put_bytes b (tx_desc nb idx + 8) (to_le 2 (word_of_nat (length data) :: u16))))
           (seq (on_nic (put_bytes b (tx_desc nb idx + 11) [1 OR push_bit 1 1 OR push_bit 3 1]))
           (seq (on_nic (put_bytes b (tx_desc nb idx + 12) [0]))
           (let next = (idx + 1) mod RING_SIZE in
           seq (modify (\<lambda>s. s\<lparr>E1000_CTX := (E1000_CTX s)\<lparr>tx_next := next\<rparr>\<rparr>))
           (seq (on_nic (write_reg b (e_mmio ctx) REG_TDT (word_of_nat next)))
           (ret True))))))))))"

text \<open>\<open>poll_rx(&mut out)\<close> returns the number of bytes copied and the buffer.\<close>

definition e1000_poll_rx :: "'w bus \<Rightarrow> net_buffers \<Rightarrow> bytes \<Rightarrow> ('w, nat \<times> bytes) np" where
  "e1000_poll_rx b nb out = bind (gets E1000_CTX) (\<lambda>ctx.
     if e_mmio ctx = 0 then ret (0, out)
     else let idx = rx_next ctx in
       if \<not> idx < RING_SIZE then stop
       else bind (on_nic (get_bytes b (rx_desc nb idx + 12) 1)) (\<lambda>st.
         if hd st AND RX_STATUS_DD = 0 then ret (0, out)
         else bind (on_nic (get_bytes b (rx_desc nb idx + 8) 2)) (\<lambda>l.
           let len = unat (from_le l :: u16); copy_len = min (min len (length out)) PACKET_BUF_SIZE in
           bind (on_nic (get_bytes b (rx_buf nb idx) copy_len)) (\<lambda>bs.
           seq (on_nic (put_bytes b (rx_desc nb idx + 12) [0]))
           (seq (on_nic (write_reg b (e_mmio ctx) REG_RDT (word_of_nat idx)))
           (seq (modify (\<lambda>s. s\<lparr>E1000_CTX := (E1000_CTX s)\<lparr>rx_next := (idx + 1) mod RING_SIZE\<rparr>\<rparr>))
           (ret (copy_len, copy_into 0 bs out))))))))"

definition e1000_mac_address :: "'w bus \<Rightarrow> ('w, bytes) np" where
  "e1000_mac_address b = bind (gets E1000_CTX) (\<lambda>ctx. if e_mmio ctx = 0 then ret (replicate 6 0) else on_nic (read_mac b (e_mmio ctx)))"

text \<open>The regions of \<open>map_dma_buffers\<close>: a ring takes 256 bytes, a set of packet buffers 32768.\<close>

definition e1000_map_dma_buffers :: "net_buffers \<Rightarrow> nat \<Rightarrow> unit mm" where
  "e1000_map_dma_buffers nb pml4 =
     for_each [(RX_DESC_RING nb, 256), (TX_DESC_RING nb, 256), (RX_PACKET_BUFFERS nb, 32768), (TX_PACKET_BUFFERS nb, 32768)] (\<lambda>(base, sz).
       for_each [0..<(sz + 4095) div 4096] (\<lambda>i.
         map_page pml4 (word_of_nat (base + i * 4096)) (word_of_nat (base + i * 4096)) (PAGE_WRITABLE OR PAGE_PRESENT)))"

subsection \<open>The driver interface\<close>

definition Nic_probe :: "PciDevice \<Rightarrow> Nic option" where
  "Nic_probe device = (if e1000_matches device then Some E1000 else None)"

fun Nic_mmio_size :: "Nic \<Rightarrow> nat" where
  "Nic_mmio_size E1000 = MMIO_SIZE"

fun Nic_map_dma_buffers :: "Nic \<Rightarrow> net_buffers \<Rightarrow> nat \<Rightarrow> unit mm" where
  "Nic_map_dma_buffers E1000 = e1000_map_dma_buffers"

fun Nic_init :: "Nic \<Rightarrow> 'w bus \<Rightarrow> net_buffers \<Rightarrow> PciDevice \<Rightarrow> ('w, unit) np" where
  "Nic_init E1000 = e1000_init"

fun Nic_transmit :: "Nic \<Rightarrow> 'w bus \<Rightarrow> net_buffers \<Rightarrow> bytes \<Rightarrow> ('w, bool) np" where
  "Nic_transmit E1000 = e1000_transmit"

fun Nic_poll_rx :: "Nic \<Rightarrow> 'w bus \<Rightarrow> net_buffers \<Rightarrow> bytes \<Rightarrow> ('w, nat \<times> bytes) np" where
  "Nic_poll_rx E1000 = e1000_poll_rx"

fun Nic_mac_address :: "Nic \<Rightarrow> 'w bus \<Rightarrow> ('w, bytes) np" where
  "Nic_mac_address E1000 = e1000_mac_address"

subsection \<open>The active controller\<close>

definition net_is_ready :: "('w, bool) np" where
  "net_is_ready = gets (\<lambda>s. ACTIVE_NIC s \<noteq> None)"

definition set_ip_address :: "bytes \<Rightarrow> ('w, unit) np" where
  "set_ip_address ip = modify (\<lambda>s. s\<lparr>HOST_IP := ip\<rparr>)"

definition get_ip_address :: "('w, bytes option) np" where
  "get_ip_address = gets (\<lambda>s. if HOST_IP s = [0, 0, 0, 0] then None else Some (HOST_IP s))"

definition get_mac_address :: "'w bus \<Rightarrow> ('w, bytes option) np" where
  "get_mac_address b = bind (gets ACTIVE_NIC) (\<lambda>n. case n of
     Some nic \<Rightarrow> bind (Nic_mac_address nic b) (\<lambda>m. ret (Some m)) | None \<Rightarrow> ret None)"

definition network_init :: "'w bus \<Rightarrow> net_buffers \<Rightarrow> nat \<Rightarrow> PciDevice \<Rightarrow> (mem_state \<times> 'w net, string, unit) prog" where
  "network_init b nb pml4 device = (case Nic_probe device of
     None \<Rightarrow> ret ()
   | Some nic \<Rightarrow>
       let bar = mmio_bar0 device; pages = (Nic_mmio_size nic + 4095) div 4096 in
       seq (zoom fst (\<lambda>m (_, s). (m, s)) (seq
         (for_each [0..<pages] (\<lambda>i. map_page pml4 (bar + word_of_nat (i * 4096)) (bar + word_of_nat (i * 4096))
            (PAGE_WRITABLE OR PAGE_PRESENT OR PAGE_CACHE_DISABLE)))
         (Nic_map_dma_buffers nic nb pml4)))
       (zoom snd (\<lambda>s (m, _). (m, s)) (seq (Nic_init nic b nb device)
         (modify (\<lambda>s. s\<lparr>ACTIVE_NIC := Some nic\<rparr>)))))"

definition transmit :: "'w bus \<Rightarrow> net_buffers \<Rightarrow> bytes \<Rightarrow> ('w, bool) np" where
  "transmit b nb data = bind (gets ACTIVE_NIC) (\<lambda>n. case n of Some nic \<Rightarrow> Nic_transmit nic b nb data | None \<Rightarrow> ret False)"

definition poll_rx :: "'w bus \<Rightarrow> net_buffers \<Rightarrow> bytes \<Rightarrow> ('w, nat \<times> bytes) np" where
  "poll_rx b nb out = bind (gets ACTIVE_NIC) (\<lambda>n. case n of Some nic \<Rightarrow> Nic_poll_rx nic b nb out | None \<Rightarrow> ret (0, out))"

subsection \<open>ARP and ping\<close>

definition arp_message :: "u16 \<Rightarrow> bytes \<Rightarrow> bytes \<Rightarrow> bytes \<Rightarrow> bytes \<Rightarrow> bytes \<Rightarrow> ArpFrame" where
  "arp_message opcode dest my_mac my_ip t_mac t_ip =
     \<lparr> af_eth = \<lparr> dest_mac = dest, src_mac = my_mac, ethertype = swap_bytes 0x0806 \<rparr>,
       af_arp = \<lparr> hardware_type = swap_bytes 1, protocol_type = swap_bytes 0x0800, hw_addr_len = 6, proto_addr_len = 4,
         arp_opcode = swap_bytes opcode, sender_mac = my_mac, sender_ip = my_ip, target_mac = t_mac, target_ip = t_ip \<rparr> \<rparr>"

definition send_arp_request :: "'w bus \<Rightarrow> net_buffers \<Rightarrow> bytes \<Rightarrow> bytes \<Rightarrow> bytes \<Rightarrow> ('w, unit) np" where
  "send_arp_request b nb t_ip my_ip my_mac =
     seq (transmit b nb (arp_frame_bytes (arp_message 1 (replicate 6 0xFF) my_mac my_ip (replicate 6 0) t_ip))) (ret ())"

text \<open>
  The answer to an echo request, in the receive buffer.  The IP header is at offset 14 and the
  ICMP header at \<open>icmp_offset\<close>; both are views of the buffer, so every store is seen by later reads of
  either.  The slice of \<open>icmp_len\<close> bytes ends at \<open>14 + total_length\<close>: when that is past the end of the buffer the
  code reads past it and then panics when it takes \<open>rx_buffer[0..14 + total_length]\<close>.
\<close>

definition echo_answer :: "bytes \<Rightarrow> bytes \<Rightarrow> nat \<Rightarrow> bytes \<Rightarrow> ('s, 'e, bytes) prog" where
  "echo_answer my_ip my_mac ihl rx =
     (let icmp_offset = 14 + ihl; rx = rx[icmp_offset := 0]; rx = copy_into (icmp_offset + 2) [0, 0] rx;
          total = unat (swap_bytes (total_length (ipv4_of (drop 14 rx)))) in
      if total < ihl then stop
      else if 14 + total > length rx then stop
      else bind (calculate_checksum (subslice icmp_offset (total - ihl) rx)) (\<lambda>c.
        let rx = copy_into (icmp_offset + 2) (to_le 2 (swap_bytes c)) rx;
            temp_ip = src_ip (ipv4_of (drop 14 rx));
            rx = copy_into 26 my_ip rx;
            rx = copy_into 30 temp_ip rx;
            rx = copy_into 24 [0, 0] rx in
        bind (calculate_checksum (subslice 14 ihl rx)) (\<lambda>c.
        let rx = copy_into 24 (to_le 2 (swap_bytes c)) rx;
            rx = copy_into 0 (src_mac (eth_of rx)) rx;
            rx = copy_into 6 my_mac rx in
        ret (take (14 + total) rx))))"

definition handle_incoming_packets :: "'w bus \<Rightarrow> net_buffers \<Rightarrow> bytes \<Rightarrow> bytes \<Rightarrow> ('w, unit) np" where
  "handle_incoming_packets b nb my_ip my_mac = bind (poll_rx b nb (replicate 1514 0)) (\<lambda>(received, rx).
     if received < 14 then ret ()
     else let type = swap_bytes (ethertype (eth_of rx)) in
       if type = 0x0806 then
         let arp = arp_of (drop 14 rx) in
         if swap_bytes (arp_opcode arp) = 1 \<and> target_ip arp = my_ip then
           seq (transmit b nb (arp_frame_bytes (arp_message 2 (sender_mac arp) my_mac my_ip (sender_mac arp) (sender_ip arp)))) (ret ())
         else ret ()
       else if type = 0x0800 then
         if received < 14 + 20 then ret ()
         else let ip = ipv4_of (drop 14 rx) in
           if dst_ip ip = my_ip \<and> protocol ip = 1 then
             let ihl = unat (ver_ihl ip AND 0x0F) * 4 in
             if received < 14 + ihl + 8 then ret ()
             else if icmp_type (icmp_of (drop (14 + ihl) rx)) = 8 then
               bind (echo_answer my_ip my_mac ihl rx) (\<lambda>frame. seq (transmit b nb frame) (ret ()))
             else ret ()
           else ret ()
       else ret ())"

end
