(* ===== verification/Net_Spec.thy ===== *)
theory Net_Spec
  imports Net
begin

section \<open>What the network stack answers\<close>

text \<open>
  The checksum is the ones' complement sum of RFC 1071: a message with its checksum filled in
  has checksum 0.  A ping to this host is answered by the same message with addresses
  exchanged and both checksums right, and one that declares a length the buffer does not hold
  stops the kernel.
\<close>

subsection \<open>The checksum\<close>

text \<open>The sum of the big-endian 16-bit words of a message.\<close>

fun word_sum :: "bytes \<Rightarrow> nat" where
  "word_sum [] = 0"
| "word_sum [a] = 256 * unat a"
| "word_sum (a # b # rest) = 256 * unat a + unat b + word_sum rest"

lemma byte_le: "unat (a :: u8) \<le> 255"
  using unsigned_less [of a, where 'a = nat] by simp

lemma word_sum_bound: "word_sum bs \<le> 65535 * length bs"
proof (induction bs rule: word_sum.induct)
  case (2 a)
  show ?case using byte_le [of a] by simp
next
  case (3 a b rest)
  then show ?case using byte_le [of a] byte_le [of b] by simp
qed simp

lemma word_sum_append: "even (length xs) \<Longrightarrow> word_sum (xs @ ys) = word_sum xs + word_sum ys"
  by (induction xs rule: word_sum.induct) simp_all

lemma sum_words_eq: "acc + word_sum bs < 2 ^ 32 \<Longrightarrow> sum_words acc bs s = Ok (acc + word_sum bs) s"
  by (induction acc bs rule: sum_words.induct) (simp_all add: add_sum_def prog_defs)

lemma fold_carry_mod: "fold_carry n mod 65535 = n mod 65535"
proof (induction n rule: fold_carry.induct)
  case (1 n)
  have "n = (n mod 65536 + n div 65536) + 65535 * (n div 65536)" using mult_div_mod_eq [of 65536 n] by linarith
  then have eq: "n mod 65535 = (n mod 65536 + n div 65536) mod 65535" by (metis mod_mult_self2)
  show ?case
  proof (cases "0 < n div 65536")
    case True
    then have "fold_carry n = fold_carry (n mod 65536 + n div 65536)" by (simp add: fold_carry.simps [of n])
    then show ?thesis unfolding eq using 1 [OF True] by (rule ssubst)
  next
    case False
    then show ?thesis by (simp add: fold_carry.simps [of n])
  qed
qed

lemma fold_carry_le: "fold_carry n \<le> 65535"
proof (induction n rule: fold_carry.induct)
  case (1 n)
  then show ?case by (subst fold_carry.simps) (auto simp: div_eq_0_iff)
qed

lemma fold_carry_pos: "0 < n \<Longrightarrow> 0 < fold_carry n"
proof (induction n rule: fold_carry.induct)
  case (1 n)
  then show ?case by (subst fold_carry.simps) auto
qed

lemma calculate_checksum_eq:
  assumes "bs \<noteq> []" and "length bs \<le> 65535"
  shows "calculate_checksum bs s = Ok (NOT (word_of_nat (fold_carry (word_sum bs)))) s"
proof -
  have "word_sum bs < 2 ^ 32" using word_sum_bound [of bs] assms(2) by simp
  then show ?thesis using assms(1) by (simp add: calculate_checksum_def prog_defs sum_words_eq)
qed

definition checksum_ok :: "bytes \<Rightarrow> bool" where
  "checksum_ok bs \<longleftrightarrow> (calculate_checksum bs :: (unit, unit, u16) prog) () = Ok 0 ()"

lemma unat_not: 
  assumes "n \<le> 65535"
  shows "unat (NOT (word_of_nat n) :: u16) = 65535 - n"
proof -
  have u: "unat (word_of_nat n :: u16) = n" using assms by (simp add: unat_of_nat)
  have "NOT (word_of_nat n) = (0xFFFF :: u16) - word_of_nat n" by (simp add: not_eq_complement)
  then show ?thesis using assms u by (simp add: unat_sub word_le_nat_alt)
qed

lemma to_le2: "to_le 2 (c :: u16) = [word_of_nat (unat c mod 256), word_of_nat (unat c div 256)]"
proof -
  have "unat c div 256 < 256" using unsigned_less [of c, where 'a = nat] by simp
  then show ?thesis by (simp add: to_le_def numeral_2_eq_2)
qed

lemma word_sum_swapped: "word_sum (to_le 2 (swap_bytes c)) = unat c"
proof -
  have "to_le 2 (swap_bytes c) = rev (to_le 2 c)" unfolding swap_bytes_def by (rule to_from_le) simp_all
  moreover have "unat c div 256 < 256" using unsigned_less [of c, where 'a = nat] by simp
  ultimately show ?thesis by (simp add: to_le2 [of c] unat_of_nat)
qed

lemma copy_subslice_self: "off + n \<le> length xs \<Longrightarrow> copy_into off (subslice off n xs) xs = xs"
  by (rule nth_equalityI) (simp_all add: nth_copy_into nth_subslice)

lemma checksum_fills:
  assumes "even k" and "k + 2 \<le> length d" and "length d \<le> 65535" and "subslice k 2 d = [0, 0]"
    and "c = NOT (word_of_nat (fold_carry (word_sum d)))"
  shows "checksum_ok (copy_into k (to_le 2 (swap_bytes c)) d)"
proof -
  have split: "word_sum (copy_into k w d) = word_sum (take k d) + (word_sum w + word_sum (drop (k + 2) d))" if "length w = 2" for w
    using that assms(1,2) by (simp add: copy_into_def word_sum_append)
  have "copy_into k [0, 0] d = d" using copy_subslice_self [OF assms(2)] by (simp add: assms(4))
  then have "word_sum d = word_sum (take k d) + word_sum (drop (k + 2) d)" using split [of "[0, 0]"] by simp
  moreover have c: "unat c = 65535 - fold_carry (word_sum d)" unfolding assms(5) by (rule unat_not) (rule fold_carry_le)
  ultimately have total: "word_sum (copy_into k (to_le 2 (swap_bytes c)) d) = word_sum d + (65535 - fold_carry (word_sum d))"
    using split [of "to_le 2 (swap_bytes c)"] unfolding word_sum_swapped by simp
  let ?t = "word_sum d + (65535 - fold_carry (word_sum d))"
  have "?t mod 65535 = (fold_carry (word_sum d) + (65535 - fold_carry (word_sum d))) mod 65535"
    by (rule mod_add_cong) (simp_all add: fold_carry_mod)
  then have "fold_carry ?t mod 65535 = 0" using fold_carry_le [of "word_sum d"] fold_carry_mod [of ?t] by simp
  moreover have "0 < fold_carry ?t"
  proof (rule fold_carry_pos)
    show "0 < ?t" by (cases "word_sum d = 0") (simp_all add: fold_carry.simps [of 0])
  qed
  ultimately have "fold_carry ?t = 65535" using fold_carry_le [of ?t] by (cases "fold_carry ?t < 65535") simp_all
  moreover define e where "e = copy_into k (to_le 2 (swap_bytes c)) d"
  ultimately have "fold_carry (word_sum e) = 65535" using total by simp
  moreover have "length e = length d" using assms(2) by (simp add: e_def)
  then have "e \<noteq> []" "length e \<le> 65535" using assms(2,3) by auto
  ultimately show ?thesis by (simp add: checksum_ok_def calculate_checksum_eq flip: e_def)
qed

subsection \<open>Pings\<close>

text \<open>An echo request to this host, and the length its IP header declares.\<close>

definition header_length :: "bytes \<Rightarrow> nat" where
  "header_length rx = unat (ver_ihl (ipv4_of (drop 14 rx)) AND 0x0F) * 4"

definition declared_length :: "bytes \<Rightarrow> nat" where
  "declared_length rx = unat (swap_bytes (total_length (ipv4_of (drop 14 rx))))"

definition echo_request :: "bytes \<Rightarrow> nat \<Rightarrow> bytes \<Rightarrow> bool" where
  "echo_request my_ip received rx \<longleftrightarrow> length rx = 1514 \<and> 34 \<le> received \<and> swap_bytes (ethertype (eth_of rx)) = 0x0800 \<and>
     dst_ip (ipv4_of (drop 14 rx)) = my_ip \<and> protocol (ipv4_of (drop 14 rx)) = 1 \<and> 20 \<le> header_length rx \<and>
     14 + header_length rx + 8 \<le> received \<and> icmp_type (icmp_of (drop (14 + header_length rx) rx)) = 8"

text \<open>
  The reply to a request: the Ethernet and IP addresses exchanged, the rest of the IP header
  and the ICMP code, identifier, sequence number and data unchanged, type 0, and right checksums.
\<close>

definition echo_reply :: "bytes \<Rightarrow> bytes \<Rightarrow> bytes \<Rightarrow> bytes \<Rightarrow> bool" where
  "echo_reply my_ip my_mac rx f \<longleftrightarrow> (let ihl = header_length rx; n = 14 + declared_length rx in
     length f = n \<and> subslice 0 6 f = subslice 6 6 rx \<and> subslice 6 6 f = my_mac \<and> subslice 12 12 f = subslice 12 12 rx \<and>
     subslice 26 4 f = my_ip \<and> subslice 30 4 f = subslice 26 4 rx \<and> subslice 34 (ihl - 20) f = subslice 34 (ihl - 20) rx \<and>
     f ! (14 + ihl) = 0 \<and> f ! (15 + ihl) = rx ! (15 + ihl) \<and> drop (18 + ihl) f = subslice (18 + ihl) (n - (18 + ihl)) rx \<and>
     checksum_ok (subslice 14 ihl f) \<and> checksum_ok (drop (14 + ihl) f))"

lemma header_length_le: "header_length rx \<le> 60"
proof -
  have "unat (x AND 0x0F :: u8) \<le> 15" for x
    using word_and_le1 [of x "0x0F"] by (simp add: word_le_nat_alt)
  then show ?thesis by (simp add: header_length_def mult_le_mono1 [of _ 15 4, simplified])
qed

lemma subslice_copy_within:
  assumes "a \<le> off" "off + length ys \<le> a + n" "a + n \<le> length xs"
  shows "subslice a n (copy_into off ys xs) = copy_into (off - a) ys (subslice a n xs)"
  using assms by (intro nth_equalityI) (auto simp: nth_subslice nth_copy_into add.commute)

lemma subslice_copy_exact: "off + length ys \<le> length xs \<Longrightarrow> n = length ys \<Longrightarrow> subslice off n (copy_into off ys xs) = ys"
  by simp

lemma subslice_drop: "subslice a n (drop k xs) = subslice (k + a) n xs"
  by (simp add: subslice_def add.commute)

lemma subslice_take: "a + n \<le> k \<Longrightarrow> subslice a n (take k xs) = subslice a n xs"
  by (simp add: subslice_def drop_take)

lemma subslice_subslice: "a + n \<le> k \<Longrightarrow> subslice a n (subslice b k xs) = subslice (b + a) n xs"
  by (simp add: subslice_def drop_take add.commute)

lemma drop_subslice: "length xs = n \<Longrightarrow> drop k xs = subslice k (n - k) xs"
  by (simp add: subslice_def)

lemma list_update_copy: "i < length xs \<Longrightarrow> xs[i := x] = copy_into i [x] xs"
  by (simp add: copy_into_def upd_conv_take_nth_drop)

lemmas subslice_rules = subslice_copy_disjoint subslice_copy_exact subslice_drop subslice_take subslice_subslice

text \<open>The buffer after each step of the answer, for a header of \<open>h\<close> bytes and a message of \<open>l\<close>.\<close>

definition icmp_cleared :: "nat \<Rightarrow> bytes \<Rightarrow> bytes" where
  "icmp_cleared h rx = copy_into (16 + h) [0, 0] (copy_into (14 + h) [0] rx)"

definition checksum_of :: "bytes \<Rightarrow> u16" where
  "checksum_of d = NOT (word_of_nat (fold_carry (word_sum d)))"

definition icmp_filled :: "nat \<Rightarrow> nat \<Rightarrow> bytes \<Rightarrow> bytes" where
  "icmp_filled h l rx = copy_into (16 + h) (to_le 2 (swap_bytes (checksum_of (subslice (14 + h) (l - h) (icmp_cleared h rx))))) (icmp_cleared h rx)"

definition ip_exchanged :: "bytes \<Rightarrow> bytes \<Rightarrow> bytes" where
  "ip_exchanged my_ip rx = copy_into 24 [0, 0] (copy_into 30 (subslice 26 4 rx) (copy_into 26 my_ip rx))"

definition ip_filled :: "bytes \<Rightarrow> nat \<Rightarrow> bytes \<Rightarrow> bytes" where
  "ip_filled my_ip h rx = copy_into 24 (to_le 2 (swap_bytes (checksum_of (subslice 14 h (ip_exchanged my_ip rx))))) (ip_exchanged my_ip rx)"

definition eth_filled :: "bytes \<Rightarrow> bytes \<Rightarrow> bytes" where
  "eth_filled my_mac rx = copy_into 6 my_mac (copy_into 0 (subslice 6 6 rx) rx)"

lemmas answer_defs = icmp_cleared_def icmp_filled_def ip_exchanged_def ip_filled_def eth_filled_def

lemma answer_lengths [simp]:
  assumes "length rx = 1514"
  shows "h \<le> 60 \<Longrightarrow> length (icmp_cleared h rx) = 1514" "h \<le> 60 \<Longrightarrow> length (icmp_filled h l rx) = 1514"
    "length my_ip = 4 \<Longrightarrow> length (ip_exchanged my_ip rx) = 1514" "length my_ip = 4 \<Longrightarrow> length (ip_filled my_ip h rx) = 1514"
    "length my_mac = 6 \<Longrightarrow> length (eth_filled my_mac rx) = 1514"
  using assms by (simp_all add: answer_defs)

lemma icmp_cleared_eq: "length rx = 1514 \<Longrightarrow> h \<le> 60 \<Longrightarrow> copy_into (14 + h + 2) [0, 0] (rx[14 + h := 0]) = icmp_cleared h rx"
  by (simp add: icmp_cleared_def list_update_copy)

lemma declared_length_cleared:
  "length rx = 1514 \<Longrightarrow> 20 \<le> h \<Longrightarrow> h \<le> 60 \<Longrightarrow>
     unat (swap_bytes (total_length (ipv4_of (drop 14 (icmp_cleared h rx))))) = declared_length rx"
  by (simp add: declared_length_def ipv4_of_def icmp_cleared_def subslice_rules)

lemma echo_answer_stops:
  assumes "length rx = 1514" "20 \<le> h" "h \<le> 60" and "declared_length rx \<le> h \<or> 1500 < declared_length rx"
  shows "echo_answer my_ip my_mac h rx s = Stop"
proof -
  have "declared_length rx < h \<or> declared_length rx = h \<or> 1514 < 14 + declared_length rx" using assms(4) by linarith
  then show ?thesis
    unfolding echo_answer_def Let_def icmp_cleared_eq [OF assms(1,3)] declared_length_cleared [OF assms(1-3)]
    using assms(1,3) by (auto simp: calculate_checksum_def subslice_def bind_def stop_def)
qed

lemma echo_answer_stages:
  assumes "length rx = 1514" and h: "20 \<le> h" "h \<le> 60" and l: "l = declared_length rx" "h + 8 \<le> l" "l \<le> 1500"
    and "length my_ip = 4" "length my_mac = 6"
  shows "echo_answer my_ip my_mac h rx s = Ok (take (14 + l) (eth_filled my_mac (ip_filled my_ip h (icmp_filled h l rx)))) s"
proof -
  have r1: "copy_into (14 + h + 2) [0, 0] (rx[14 + h := 0]) = icmp_cleared h rx" using assms(1,3) by (rule icmp_cleared_eq)
  have total: "unat (swap_bytes (total_length (ipv4_of (drop 14 (icmp_cleared h rx))))) = l"
    using assms by (simp add: declared_length_cleared)
  have sizes: "subslice (14 + h) (l - h) (icmp_cleared h rx) \<noteq> []" "length (subslice (14 + h) (l - h) (icmp_cleared h rx)) \<le> 65535"
    "subslice 14 h (ip_exchanged my_ip (icmp_filled h l rx)) \<noteq> []" "length (subslice 14 h (ip_exchanged my_ip (icmp_filled h l rx))) \<le> 65535"
    using assms by (auto simp flip: length_0_conv)
  note sums = calculate_checksum_eq [OF sizes(1,2), folded checksum_of_def] calculate_checksum_eq [OF sizes(3,4), folded checksum_of_def]
  have r2: "copy_into (14 + h + 2) (to_le 2 (swap_bytes (checksum_of (subslice (14 + h) (l - h) (icmp_cleared h rx))))) (icmp_cleared h rx) = icmp_filled h l rx"
    by (simp add: icmp_filled_def)
  have "\<not> l < h" "\<not> length (icmp_cleared h rx) < 14 + l" using assms by auto
  then show ?thesis
    unfolding echo_answer_def Let_def r1 total
    by (simp only: if_False bind_def sums r2 res.case ipv4_of_def eth_of_def Ipv4Header.simps EthernetHeader.simps subslice_drop
        ip_exchanged_def [symmetric] ip_filled_def [symmetric] eth_filled_def [symmetric] ret_def arith_simps)
qed

lemma ip_filled_ex: "\<exists>w. ip_filled my_ip h r = copy_into 24 w (ip_exchanged my_ip r) \<and> length w = 2"
  unfolding ip_filled_def by (intro exI conjI, rule refl) simp

lemma icmp_filled_ex: "\<exists>w. icmp_filled h l r = copy_into (16 + h) w (icmp_cleared h r) \<and> length w = 2"
  unfolding icmp_filled_def by (intro exI conjI, rule refl) simp

text \<open>The IP and Ethernet steps change bytes 0 to 12 and 24 to 34; the ICMP steps change byte \<open>14 + h\<close> and two bytes at \<open>16 + h\<close>.\<close>

lemma outer_bytes:
  assumes "length r = 1514" "length my_ip = 4" "length my_mac = 6"
  shows "subslice 0 6 (eth_filled my_mac (ip_filled my_ip h r)) = subslice 6 6 r" "subslice 6 6 (eth_filled my_mac (ip_filled my_ip h r)) = my_mac"
    "subslice 12 12 (eth_filled my_mac (ip_filled my_ip h r)) = subslice 12 12 r" "subslice 26 4 (eth_filled my_mac (ip_filled my_ip h r)) = my_ip"
    "subslice 30 4 (eth_filled my_mac (ip_filled my_ip h r)) = subslice 26 4 r"
    "34 \<le> a \<Longrightarrow> a + n \<le> 1514 \<Longrightarrow> subslice a n (eth_filled my_mac (ip_filled my_ip h r)) = subslice a n r"
    "14 + k \<le> 1514 \<Longrightarrow> subslice 14 k (eth_filled my_mac (ip_filled my_ip h r)) = subslice 14 k (ip_filled my_ip h r)"
proof -
  obtain w where w: "length w = 2" "ip_filled my_ip h r = copy_into 24 w (ip_exchanged my_ip r)" using ip_filled_ex by blast
  note facts = assms w(1)
  show "subslice 0 6 (eth_filled my_mac (ip_filled my_ip h r)) = subslice 6 6 r" "subslice 6 6 (eth_filled my_mac (ip_filled my_ip h r)) = my_mac"
    "subslice 12 12 (eth_filled my_mac (ip_filled my_ip h r)) = subslice 12 12 r" "subslice 26 4 (eth_filled my_mac (ip_filled my_ip h r)) = my_ip"
    "subslice 30 4 (eth_filled my_mac (ip_filled my_ip h r)) = subslice 26 4 r"
    "34 \<le> a \<Longrightarrow> a + n \<le> 1514 \<Longrightarrow> subslice a n (eth_filled my_mac (ip_filled my_ip h r)) = subslice a n r"
    "14 + k \<le> 1514 \<Longrightarrow> subslice 14 k (eth_filled my_mac (ip_filled my_ip h r)) = subslice 14 k (ip_filled my_ip h r)"
    using facts by (simp_all add: w(2) eth_filled_def ip_exchanged_def subslice_rules)
qed

lemma inner_bytes:
  assumes "length rx = 1514" "20 \<le> h" "h \<le> 60"
  shows "a + n \<le> 14 + h \<Longrightarrow> subslice a n (icmp_filled h l rx) = subslice a n rx"
    "18 + h \<le> a \<Longrightarrow> a + n \<le> 1514 \<Longrightarrow> subslice a n (icmp_filled h l rx) = subslice a n rx"
    "subslice (14 + h) 2 (icmp_filled h l rx) = [0, rx ! (15 + h)]"
proof -
  obtain w where w: "length w = 2" "icmp_filled h l rx = copy_into (16 + h) w (icmp_cleared h rx)" using icmp_filled_ex by blast
  show "a + n \<le> 14 + h \<Longrightarrow> subslice a n (icmp_filled h l rx) = subslice a n rx"
    "18 + h \<le> a \<Longrightarrow> a + n \<le> 1514 \<Longrightarrow> subslice a n (icmp_filled h l rx) = subslice a n rx"
    using assms w(1) by (simp_all add: w(2) icmp_cleared_def subslice_rules)
  show "subslice (14 + h) 2 (icmp_filled h l rx) = [0, rx ! (15 + h)]"
    using assms w(1) by (intro nth_equalityI) (auto simp: w(2) icmp_cleared_def nth_subslice nth_copy_into less_Suc_eq numeral_2_eq_2)
qed

lemma ip_checksum_ok:
  assumes "length r = 1514" "20 \<le> h" "h \<le> 60" "length my_ip = 4"
  shows "checksum_ok (subslice 14 h (ip_filled my_ip h r))"
proof -
  let ?d = "subslice 14 h (ip_exchanged my_ip r)"
  have d: "subslice 10 2 ?d = [0, 0]" "length ?d = h" using assms by (simp_all add: subslice_rules, simp add: ip_exchanged_def subslice_rules)
  have "subslice 14 h (ip_filled my_ip h r) = copy_into 10 (to_le 2 (swap_bytes (checksum_of ?d))) ?d"
    unfolding ip_filled_def using assms by (subst subslice_copy_within) simp_all
  then show ?thesis using assms d by (simp only:) (rule checksum_fills, simp_all add: checksum_of_def)
qed

lemma icmp_checksum_ok:
  assumes "length rx = 1514" "h \<le> 60" "h + 8 \<le> l" "l \<le> 1500"
  shows "checksum_ok (subslice (14 + h) (l - h) (icmp_filled h l rx))"
proof -
  let ?d = "subslice (14 + h) (l - h) (icmp_cleared h rx)"
  have d: "subslice 2 2 ?d = [0, 0]" "length ?d = l - h" using assms by (simp_all add: subslice_rules, simp add: icmp_cleared_def subslice_rules)
  have "subslice (14 + h) (l - h) (icmp_filled h l rx) = copy_into 2 (to_le 2 (swap_bytes (checksum_of ?d))) ?d"
    unfolding icmp_filled_def using assms by (subst subslice_copy_within) simp_all
  then show ?thesis using assms d by (simp only:) (rule checksum_fills, simp_all add: checksum_of_def)
qed

lemma echo_stages_reply:
  assumes rx: "length rx = 1514" and h: "h = header_length rx" "20 \<le> h" and l: "l = declared_length rx" "h + 8 \<le> l" "l \<le> 1500"
    and own: "length my_ip = 4" "length my_mac = 6"
  shows "echo_reply my_ip my_mac rx (take (14 + l) (eth_filled my_mac (ip_filled my_ip h (icmp_filled h l rx))))"
proof -
  let ?r2 = "icmp_filled h l rx" and ?r8 = "eth_filled my_mac (ip_filled my_ip h (icmp_filled h l rx))"
  have h60: "h \<le> 60" using header_length_le h(1) by simp
  then have r2: "length ?r2 = 1514" and r8: "length ?r8 = 1514" using rx own by simp_all
  note outer = outer_bytes [OF r2 own, where h = h] and inner = inner_bytes [OF rx h(2) h60, where l = l]
  have "drop k (take (14 + l) ?r8) = subslice k (14 + l - k) ?r2" if "34 \<le> k" "k \<le> 14 + l" for k
    using that l(2,3) r8 by (simp add: drop_subslice [of _ "14 + l"] subslice_take outer(6))
  then have "drop (18 + h) (take (14 + l) ?r8) = subslice (18 + h) (14 + l - (18 + h)) rx" "checksum_ok (drop (14 + h) (take (14 + l) ?r8))"
    using h(2) l(2,3) inner(2) [of "18 + h" "l - (4 + h)"] icmp_checksum_ok [OF rx h60 l(2,3)] by simp_all
  moreover have "take (14 + l) ?r8 ! (14 + h) = 0" "take (14 + l) ?r8 ! (15 + h) = rx ! (15 + h)"
  proof -
    have "subslice (14 + h) 2 ?r8 = [0, rx ! (15 + h)]" using outer(6) [of "14 + h" 2] inner(3) h(2) h60 by simp
    then show "take (14 + l) ?r8 ! (14 + h) = 0" "take (14 + l) ?r8 ! (15 + h) = rx ! (15 + h)"
      using nth_subslice [of 0 2 "14 + h" ?r8] nth_subslice [of 1 2 "14 + h" ?r8] l(2,3) r8 h60 by (simp_all add: add.commute)
  qed
  moreover have "checksum_ok (subslice 14 h (take (14 + l) ?r8))"
    using ip_checksum_ok [OF r2 h(2) h60 own(1)] outer(7) [of h] l(2,3) h60 by (simp add: subslice_take)
  ultimately show ?thesis
    unfolding echo_reply_def Let_def h(1) [symmetric] l(1) [symmetric]
    using r8 l(2,3) h(2) h60 by (simp add: subslice_take outer inner)
qed

subsection \<open>An example\<close>

text \<open>A controller that has received one ping of 42 bytes from 10.0.2.2, declared as \<open>l\<close> bytes.\<close>

definition ram_bus :: "pmem bus" where
  "ram_bus = \<lparr> bus_read = (\<lambda>a n m. (load_bytes m a n, m)), bus_write = store_bytes, port_in = (\<lambda>_ n m. (replicate n 0, m)),
     port_out = (\<lambda>_ _ m. m) \<rparr>"

definition example_net_buffers :: net_buffers where
  "example_net_buffers = \<lparr> RX_DESC_RING = 0x1000, TX_DESC_RING = 0x2000, RX_PACKET_BUFFERS = 0x3000, TX_PACKET_BUFFERS = 0x10000 \<rparr>"

definition example_ping :: "u16 \<Rightarrow> bytes" where
  "example_ping l = [0x52, 0x54, 0, 0x12, 0x34, 0x56, 2, 2, 2, 2, 2, 2, 8, 0] @
     [0x45, 0] @ to_le 2 (swap_bytes l) @ [0, 0, 0, 0, 64, 1, 0, 0, 10, 0, 2, 2, 10, 0, 2, 15] @ [8, 0, 0, 0, 0, 1, 0, 1]"

definition example_net :: "u16 \<Rightarrow> pmem net" where
  "example_net l = (net_statics (store_bytes 0x3000 (example_ping l) (store_bytes 0x1008 [42, 0] (store_bytes 0x100C [1] (\<lambda>_. 0)))))
     \<lparr>E1000_CTX := \<lparr> e_pci_dev = None, e_mmio = 0x100000, rx_next = 0, tx_next = 0 \<rparr>, ACTIVE_NIC := Some E1000\<rparr>"

lemma length_example_ping [simp]: "length (example_ping l) = 42"
  by (simp add: example_ping_def)

lemma example_poll: "\<exists>s1. poll_rx ram_bus example_net_buffers (replicate 1514 0) (example_net l) = Ok (42, example_ping l @ replicate 1472 0) s1"
proof -
  let ?m = "store_bytes 0x3000 (example_ping l) (store_bytes 0x1008 [42, 0] (store_bytes 0x100C [1] (\<lambda>_. 0)))"
  have loads: "load_bytes ?m 0x100C (Suc 0) = [1]" "load_bytes ?m 0x1008 2 = [42, 0]" "load_bytes ?m 0x3000 42 = example_ping l"
    using load_store_bytes_same [of "0x100C" "[1]" "\<lambda>_. 0"] load_store_bytes_same [of "0x1008" "[42, 0]" "store_bytes 0x100C [1] (\<lambda>_. 0)"]
      load_store_bytes_same [of "0x3000" "example_ping l"]
    by (simp_all add: load_store_bytes_other numeral_2_eq_2)
  then show ?thesis
    by (simp add: poll_rx_def e1000_poll_rx_def example_net_def net_statics_def example_net_buffers_def ram_bus_def prog_defs gets_def modify_def zoom_def on_nic_def
        get_bytes_def put_bytes_def write_reg_def write32_def Let_def from_le_def copy_into_def)
qed

lemma swap_swap [simp]: "swap_bytes (swap_bytes l) = l"
proof -
  have "to_le 2 (swap_bytes l) = rev (to_le 2 l)" unfolding swap_bytes_def by (rule to_from_le) simp_all
  then show ?thesis by (simp add: swap_bytes_def [of "swap_bytes l"])
qed

lemma example_request:
  "echo_request [10, 0, 2, 15] 42 (example_ping l @ replicate 1472 0)" "header_length (example_ping l @ replicate 1472 0) = 20"
  "declared_length (example_ping l @ replicate 1472 0) = unat l"
proof -
  obtain x y where xy: "to_le 2 (swap_bytes l) = [x, y]" using to_le2 by blast
  have l: "from_le [x, y] = swap_bytes l" using from_to_le16 [of "swap_bytes l"] xy by simp
  have t: "swap_bytes (from_le [8, 0]) = 0x0800" by (simp add: swap_bytes_def to_from_le) (simp add: from_le_def)
  show h: "header_length (example_ping l @ replicate 1472 0) = 20"
    by (simp add: header_length_def ipv4_of_def example_ping_def xy)
  show "declared_length (example_ping l @ replicate 1472 0) = unat l"
    by (simp add: declared_length_def ipv4_of_def example_ping_def xy subslice_def l)
  show "echo_request [10, 0, 2, 15] 42 (example_ping l @ replicate 1472 0)"
    unfolding echo_request_def h by (simp add: eth_of_def ipv4_of_def icmp_of_def example_ping_def xy subslice_def t)
qed

subsection \<open>Properties\<close>



text \<open>
  C40.  An echo request for this host that declares a length above 1500 bytes or not above that of
  its IP header stops the kernel, whatever was received: the length in the packet is not
  compared with the number of bytes received.
\<close>

theorem bad_ping_stops:
  assumes "poll_rx b nb (replicate 1514 0) s = Ok (received, rx) s1" and "echo_request my_ip received rx"
    and "declared_length rx \<le> header_length rx \<or> 1500 < declared_length rx"
  shows "handle_incoming_packets b nb my_ip my_mac s = Stop"
  using assms header_length_le [of rx]
  by (simp add: handle_incoming_packets_def bind_def Let_def echo_request_def header_length_def [symmetric] echo_answer_stops)

theorem bad_ping_stops_witness:
  "handle_incoming_packets ram_bus example_net_buffers [10, 0, 2, 15] [0x52, 0x54, 0, 0x12, 0x34, 0x56] (example_net 1501) = Stop"
proof -
  obtain s1 where poll: "poll_rx ram_bus example_net_buffers (replicate 1514 0) (example_net 1501) = Ok (42, example_ping 1501 @ replicate 1472 0) s1"
    using example_poll by blast
  show ?thesis by (rule bad_ping_stops [OF poll example_request(1)]) (simp add: example_request)
qed

end
