(* ===== verification/Spec2Isabelle.thy ===== *)
theory Spec2Isabelle
  imports Fs_Spec Kef_Spec Kef Sched_Spec Locks Acpi_Map Smp_Spec Display_Spec Xhci_Ring Irq_Spec Net_Spec
begin

text \<open>
  \<^bold>\<open>The program.\<close>  A kernel for x86-64 started by UEFI firmware (\<open>src/src\<close>), the library and the first
  program of its user side (\<open>src/user/src\<close>), and a tool that writes disk images on the host
  (\<open>src/tools/kef-tool\<close>).  The kernel sets up descriptor tables, page tables and a heap, starts the other
  processors, drives an NVMe disk and a USB keyboard, keeps a FAT file system with one directory on
  the disk, loads programs in the KEF format and schedules them; programs use it through 21
  system calls.

  \<^bold>\<open>How it is modelled.\<close>  Stateful code is a program of type \<open>('s, 'e, 'a) prog\<close> (\<open>Prelude\<close>): it takes a state and
  ends with a value (\<open>Ok\<close>), with an error the code returns (\<open>Err\<close>), or not at all (\<open>Stop\<close>: a panic, a failed
  bounds or overflow check, or a loop without end).  \<open>bind\<close>, \<open>seq\<close>, \<open>for_each\<close> and \<open>prog_loop\<close> compose programs
  the way the code does; \<open>zoom\<close> runs a component on its part of a larger state.  \<open>runs_to p s P\<close> is total
  correctness: \<open>p\<close> ends from \<open>s\<close>, and its result and final state satisfy \<open>P\<close>.  Loops have no fuel: \<open>prog_loop\<close>
  iterates its body with \<open>while_option\<close>, so that a loop that does not end is \<open>Stop\<close>, and a
  statement with \<open>runs_to\<close> says that it does end.  Machine integers are words of their width; \<open>usize\<close>
  values that serve as indices are natural numbers with the overflow check written out.  Hardware
  (\<open>Hw\<close>) is a \<open>bus\<close>: functions for memory-mapped and port accesses on a world of any type, with the laws a
  driver relies on as assumptions of a locale.  What the linker decides (addresses of statics) is
  the record \<open>image\<close>; glyphs of the font package are the parameter \<open>font\<close>.

  \<^bold>\<open>Parts, theories and what is shown.\<close>

  \<^item> \<^emph>\<open>File system\<close> (\<open>fs.rs\<close>): \<open>Fs_Layout\<close> holds the on-disk structures and their byte images, \<open>Fs\<close> every operation,
    \<open>Utf8\<close> the string functions of the language it uses.  \<open>Fs_Volume\<close> reads a disk as a \<open>volume\<close> and states the interface of
    the driver, the locale \<open>block_device\<close>; \<open>Fs_Files\<close> has the invariant \<open>vol_wf\<close> and the abstract map \<open>files\<close>;
    \<open>Fs_Correct\<close>, \<open>Fs_Create\<close> and \<open>Fs_Format\<close> prove the operations inside the locale, \<open>Fs_Spec\<close> states the results: each
    operation and every sequence of operations behaves like a finite map from names to bytes, chains
    of clusters are released in bounded time, and allocation takes the least free cluster.
  \<^item> \<^emph>\<open>NVMe\<close> (\<open>nvme.rs\<close>, \<open>pci.rs\<close>, \<open>io.rs\<close>): \<open>Pci\<close> and \<open>Nvme\<close> are the drivers.  \<open>Nvme_Block\<close> has the contract of a controller
    (\<open>nvme_controller\<close>) and shows that the driver on it is a \<open>block_device\<close>; \<open>Nvme_Sim\<close> interprets it with a concrete
    controller, on which the witnesses run.
  \<^item> \<^emph>\<open>Image tool\<close> (\<open>kef-tool\<close>): \<open>Kef_Tool\<close> is the tool, \<open>Kef_Image\<close> interprets \<open>block_device\<close> with an image file, \<open>Kef_Spec\<close>
    shows that the tool writes the volumes the kernel reads.
  \<^item> \<^emph>\<open>Memory\<close> (\<open>memory.rs\<close>): \<open>Memory\<close> with \<open>Phys\<close>; \<open>Frames\<close> (no frame is handed out twice), \<open>Paging\<close> (the meaning of the
    tables), \<open>Memory_Spec\<close> (mapping a page changes exactly that page; \<open>init_paging\<close> gives the identity map).
  \<^item> \<^emph>\<open>Program loader\<close> (\<open>kef.rs\<close>): \<open>Kef\<close>, with what a loaded program finds in its pages and which files are rejected.
  \<^item> \<^emph>\<open>Heaps\<close> (\<open>allocator.rs\<close>): \<open>Allocator\<close>; \<open>Large_Blocks\<close> (the list of blocks), \<open>Heap_Spec\<close> (allocation, release with
    merging, small blocks), \<open>Kernel_Heap\<close> (kernel and user heap do not touch each other).
  \<^item> \<^emph>\<open>Locks\<close> (\<open>interrupts.rs\<close>, \<open>allocator.rs\<close>): \<open>Locks\<close>, as step relations of several processors with interrupts; the
    locale \<open>mutex\<close> is interpreted with both locks.
  \<^item> \<^emph>\<open>Processor state\<close> (\<open>gdt.rs\<close>, \<open>interrupts.rs\<close>, \<open>processor.rs\<close>, \<open>syscall.rs\<close>): \<open>Cpu\<close> and \<open>Cpu_Spec\<close>, descriptors, gates and
    model-specific registers.
  \<^item> \<^emph>\<open>Scheduler\<close> (\<open>scheduler.rs\<close>): \<open>Scheduler\<close> and \<open>Sched_Spec\<close>: no task runs twice at a time in any interleaving,
    ready tasks run, a switched-out task gets its registers back, a new task enters user mode.
  \<^item> \<^emph>\<open>ACPI\<close> (\<open>acpi.rs\<close>, \<open>uefi.rs\<close>): \<open>Acpi_Tables\<close>, \<open>Acpi\<close>, \<open>Acpi_Spec\<close>, \<open>Acpi_Map\<close>.
  \<^item> \<^emph>\<open>Other processors\<close> (\<open>processor.rs\<close>): \<open>Smp\<close> and \<open>Smp_Spec\<close>.
  \<^item> \<^emph>\<open>Display\<close> (\<open>writer.rs\<close>, \<open>term.rs\<close>): \<open>Display\<close> and \<open>Display_Spec\<close>: output stays inside the framebuffer, a cell shows
    its glyph.
  \<^item> \<^emph>\<open>USB keyboard\<close> (\<open>xhci.rs\<close>): \<open>Xhci\<close>; \<open>Queues\<close> has the contracts \<open>queue\<close> and \<open>dropping_queue\<close>, \<open>Xhci_Spec\<close> shows
    that typed keys are read in order, \<open>Xhci_Ring\<close> that a transfer ring delivers what was put in.
  \<^item> \<^emph>\<open>System calls and user library\<close> (\<open>syscall.rs\<close>, \<open>std.rs\<close>, \<open>init.rs\<close>): \<open>Syscall\<close> puts the components together in one
    state, \<open>User\<close> is the library on top; \<open>Syscall_Spec\<close> shows that the entry point preserves the
    program's context and that a file written by a program is read back, through all layers.

  \<^bold>\<open>Bounds.\<close>  The constants are those of the code (16384 FAT entries, 256 directory slots, 64 queue
  entries, 64 processors, 255 typed keys).  Hypotheses bound sizes only where the code
  itself has the limit, or where Rust guarantees it (no slice is longer than \<open>isize::MAX\<close>).

  \<^bold>\<open>Not modelled.\<close>  The network stack (\<open>network\<close>), the legacy interrupt controller (\<open>pic.rs\<close>), the handlers entered by
  interrupts, and the order of initialisation in \<open>main.rs\<close>.  The instructions inside the
  trampoline of \<open>processor.rs\<close> are bytes.  \<open>println!\<close> output of the drivers is left out, except where a
  component's listing is its purpose.  The declarations of \<open>uefi.rs\<close> that only describe firmware
  structures are left out, and so is the call of the firmware that resets the machine.
\<close>

end
